(* ===== verification/GoBase.thy ===== *)
theory GoBase
  imports Main "HOL-Library.Multiset" "HOL-Library.AList" "HOL-Library.Char_ord" "HOL-Library.List_Lexorder"
begin

text \<open>
  The prelude of the development: the parts of the Go language and of its standard library
  that several components use, and the generic lemmas about them.

  \<^item> Go strings are byte sequences: \<open>string\<close>, that is \<open>char list\<close>, ordered by bytes (the
    library's lexicographic order on lists over the order of \<open>char\<close>).
  \<^item> A Go map is an association list with distinct keys (\<open>map_wf\<close>), listed in the order in
    which one \<open>range\<close> loop happens to visit it. Go does not fix that order, so a statement
    about all such lists is a statement about every visiting order.
  \<^item> \<open>sort.Slice\<close> and \<open>sort.SliceStable\<close> are \<open>sort_by\<close>, a stable insertion sort by a
    \<open>less\<close> function; \<open>sort.Search\<close> is \<open>sort_search\<close>.
\<close>

named_theorems go_simps \<open>unfolding of the string and map primitives\<close>

section \<open>Strings\<close>

definition has_prefix :: "'a list \<Rightarrow> 'a list \<Rightarrow> bool" where
  "has_prefix s p \<longleftrightarrow> take (length p) s = p"

definition has_suffix :: "'a list \<Rightarrow> 'a list \<Rightarrow> bool" where
  "has_suffix s p \<longleftrightarrow> length p \<le> length s \<and> drop (length s - length p) s = p"

definition trim_prefix :: "'a list \<Rightarrow> 'a list \<Rightarrow> 'a list" where
  "trim_prefix s p = (if has_prefix s p then drop (length p) s else s)"

definition trim_suffix :: "'a list \<Rightarrow> 'a list \<Rightarrow> 'a list" where
  "trim_suffix s p = (if has_suffix s p then take (length s - length p) s else s)"

fun contains :: "'a list \<Rightarrow> 'a list \<Rightarrow> bool" where
  "contains [] sub = (sub = [])"
| "contains (c # s) sub = (has_prefix (c # s) sub \<or> contains s sub)"

definition contains_any :: "'a list \<Rightarrow> 'a list \<Rightarrow> bool" where
  "contains_any s cs \<longleftrightarrow> list_ex (\<lambda>c. c \<in> set cs) s"

lemma has_prefix_append [simp]: "has_prefix (p @ s) p"
  by (simp add: has_prefix_def)

lemma has_prefix_iff: "has_prefix s p \<longleftrightarrow> (\<exists>t. s = p @ t)"
  by (metis append_eq_conv_conj append_take_drop_id has_prefix_def)

lemma has_suffix_iff: "has_suffix s p \<longleftrightarrow> (\<exists>t. s = t @ p)"
proof
  assume h: "has_suffix s p"
  have "s = take (length s - length p) s @ p"
    using h append_take_drop_id[of "length s - length p" s] by (simp add: has_suffix_def)
  then show "\<exists>t. s = t @ p" ..
next
  assume "\<exists>t. s = t @ p"
  then show "has_suffix s p" by (auto simp: has_suffix_def)
qed

lemma contains_iff: "contains s sub \<longleftrightarrow> (\<exists>a b. s = a @ sub @ b)"
proof (induction s)
  case Nil
  show ?case by simp
next
  case (Cons c s)
  show ?case
  proof
    assume "contains (c # s) sub"
    then consider "has_prefix (c # s) sub" | "contains s sub" by auto
    then show "\<exists>a b. c # s = a @ sub @ b"
    proof cases
      case 1
      then obtain t where "c # s = [] @ sub @ t" by (auto simp: has_prefix_iff)
      then show ?thesis by blast
    next
      case 2
      with Cons.IH obtain a b where "c # s = (c # a) @ sub @ b" by auto
      then show ?thesis by blast
    qed
  next
    assume "\<exists>a b. c # s = a @ sub @ b"
    then obtain a b where ab: "c # s = a @ sub @ b" by blast
    show "contains (c # s) sub"
    proof (cases a)
      case Nil
      with ab have "has_prefix (c # s) sub" by (auto simp: has_prefix_iff)
      then show ?thesis by simp
    next
      case (Cons x a')
      with ab Cons.IH show ?thesis by auto
    qed
  qed
qed

lemma contains_any_iff: "contains_any s cs \<longleftrightarrow> set s \<inter> set cs \<noteq> {}"
  by (auto simp: contains_any_def list_ex_iff)

text \<open>
  \<open>strings.TrimSpace\<close>: the white space runes of \<open>unicode.IsSpace\<close>, as their UTF-8 bytes.
  \<open>space_len\<close> is the length of the white space rune a string starts with, 0 if there is none.
\<close>

definition byte_in :: "char \<Rightarrow> nat \<Rightarrow> nat \<Rightarrow> bool" where
  "byte_in c lo hi \<longleftrightarrow> lo \<le> (of_char c :: nat) \<and> (of_char c :: nat) \<le> hi"

definition ascii_space :: "char \<Rightarrow> bool" where
  "ascii_space c \<longleftrightarrow> byte_in c 9 13 \<or> c = CHR '' ''"

definition space2 :: "char \<Rightarrow> char \<Rightarrow> bool" where
  "space2 a b \<longleftrightarrow> a = CHR 0xC2 \<and> (b = CHR 0x85 \<or> b = CHR 0xA0)"

definition space3 :: "char \<Rightarrow> char \<Rightarrow> char \<Rightarrow> bool" where
  "space3 a b c \<longleftrightarrow>
     (a = CHR 0xE1 \<and> b = CHR 0x9A \<and> c = CHR 0x80) \<or>
     (a = CHR 0xE2 \<and> b = CHR 0x80 \<and>
        (byte_in c 0x80 0x8A \<or> c = CHR 0xA8 \<or> c = CHR 0xA9 \<or> c = CHR 0xAF)) \<or>
     (a = CHR 0xE2 \<and> b = CHR 0x81 \<and> c = CHR 0x9F) \<or>
     (a = CHR 0xE3 \<and> b = CHR 0x80 \<and> c = CHR 0x80)"

fun trim_left :: "string \<Rightarrow> string" where
  "trim_left (a # b # c # s) =
     (if ascii_space a then trim_left (b # c # s)
      else if space2 a b then trim_left (c # s)
      else if space3 a b c then trim_left s
      else a # b # c # s)"
| "trim_left [a, b] =
     (if ascii_space a then trim_left [b] else if space2 a b then [] else [a, b])"
| "trim_left [a] = (if ascii_space a then [] else [a])"
| "trim_left [] = []"

text \<open>The same from the right end, on the reversed string.\<close>

fun trim_left_rev :: "string \<Rightarrow> string" where
  "trim_left_rev (a # b # c # s) =
     (if ascii_space a then trim_left_rev (b # c # s)
      else if space2 b a then trim_left_rev (c # s)
      else if space3 c b a then trim_left_rev s
      else a # b # c # s)"
| "trim_left_rev [a, b] =
     (if ascii_space a then trim_left_rev [b] else if space2 b a then [] else [a, b])"
| "trim_left_rev [a] = (if ascii_space a then [] else [a])"
| "trim_left_rev [] = []"

definition trim_right :: "string \<Rightarrow> string" where
  "trim_right s = rev (trim_left_rev (rev s))"

definition trim_space :: "string \<Rightarrow> string" where
  "trim_space s = trim_right (trim_left s)"

lemma trim_left_rev_suffix: "\<exists>u. s = u @ trim_left_rev s"
proof (induction s rule: trim_left_rev.induct)
  case (1 a b c s)
  show ?case
  proof (cases "ascii_space a")
    case True
    with 1 obtain u where "b # c # s = u @ trim_left_rev (b # c # s)" by auto
    with True have "a # b # c # s = (a # u) @ trim_left_rev (a # b # c # s)" by simp
    then show ?thesis by blast
  next
    case a: False
    show ?thesis
    proof (cases "space2 b a")
      case True
      with 1 a obtain u where "c # s = u @ trim_left_rev (c # s)" by auto
      with True a have "a # b # c # s = (a # b # u) @ trim_left_rev (a # b # c # s)" by simp
      then show ?thesis by blast
    next
      case b: False
      show ?thesis
      proof (cases "space3 c b a")
        case True
        with 1 a b obtain u where "s = u @ trim_left_rev s" by auto
        with True a b have "a # b # c # s = (a # b # c # u) @ trim_left_rev (a # b # c # s)" by simp
        then show ?thesis by blast
      next
        case False
        with a b show ?thesis by simp
      qed
    qed
  qed
next
  case (2 a b)
  then show ?case by auto
next
  case (3 a)
  then show ?case by auto
next
  case 4
  then show ?case by simp
qed

lemma trim_right_prefix: "\<exists>u. s = trim_right s @ u"
proof -
  obtain u where "rev s = u @ trim_left_rev (rev s)" using trim_left_rev_suffix by blast
  then have "s = trim_right s @ rev u"
    unfolding trim_right_def by (metis rev_append rev_rev_ident)
  then show ?thesis by blast
qed

text \<open>Trimming twice is trimming once.\<close>

definition starts_space :: "string \<Rightarrow> bool" where
  "starts_space s =
     (case s of
        [] \<Rightarrow> False
      | [a] \<Rightarrow> ascii_space a
      | [a, b] \<Rightarrow> ascii_space a \<or> space2 a b
      | a # b # c # t \<Rightarrow> ascii_space a \<or> space2 a b \<or> space3 a b c)"

lemma starts_space_prefix: "\<not> starts_space (p @ u) \<Longrightarrow> \<not> starts_space p"
  by (auto simp: starts_space_def split: list.splits)

lemma trim_left_starts: "\<not> starts_space (trim_left s)"
  by (induction s rule: trim_left.induct) (auto simp: starts_space_def)

lemma trim_left_id: "\<not> starts_space s \<Longrightarrow> trim_left s = s"
  by (induction s rule: trim_left.induct) (auto simp: starts_space_def)

lemma trim_left_rev_idem: "trim_left_rev (trim_left_rev s) = trim_left_rev s"
  by (induction s rule: trim_left_rev.induct) auto

lemma trim_space_idem [simp]: "trim_space (trim_space s) = trim_space s"
proof -
  obtain u where u: "trim_left s = trim_right (trim_left s) @ u" using trim_right_prefix by blast
  then have "trim_left (trim_right (trim_left s)) = trim_right (trim_left s)"
    using trim_left_starts [of s] by (intro trim_left_id) (metis starts_space_prefix)
  then show ?thesis by (simp add: trim_space_def trim_right_def trim_left_rev_idem)
qed
text \<open>\<open>path.Clean\<close>: the shortest path equivalent to the argument by lexical processing.\<close>

fun split_on :: "'a \<Rightarrow> 'a list \<Rightarrow> 'a list list" where
  "split_on d [] = [[]]"
| "split_on d (c # s) =
     (if c = d then [] # split_on d s
      else (case split_on d s of [] \<Rightarrow> [[c]] | w # ws \<Rightarrow> (c # w) # ws))"

fun join_with :: "'a list \<Rightarrow> 'a list list \<Rightarrow> 'a list" where
  "join_with d [] = []"
| "join_with d [w] = w"
| "join_with d (w # v # ws) = w @ d @ join_with d (v # ws)"

fun clean_parts :: "bool \<Rightarrow> string list \<Rightarrow> string list \<Rightarrow> string list" where
  "clean_parts rooted out [] = rev out"
| "clean_parts rooted out (w # ws) =
     (if w = '''' \<or> w = ''.'' then clean_parts rooted out ws
      else if w = ''..'' then
        (case out of
           v # out' \<Rightarrow>
             (if v = ''..'' then clean_parts rooted (w # out) ws
              else clean_parts rooted out' ws)
         | [] \<Rightarrow> (if rooted then clean_parts rooted [] ws else clean_parts rooted [w] ws))
      else clean_parts rooted (w # out) ws)"

definition path_clean :: "string \<Rightarrow> string" where
  "path_clean p =
     (let rooted = has_prefix p ''/'';
          body = join_with ''/'' (clean_parts rooted [] (split_on (CHR ''/'') p))
      in if rooted then ''/'' @ body else if body = '''' then ''.'' else body)"

definition path_is_abs :: "string \<Rightarrow> bool" where
  "path_is_abs p \<longleftrightarrow> has_prefix p ''/''"

text \<open>Splitting and joining are inverse, and a clean relative path has no empty or dot part.\<close>

lemma split_on_nonempty [simp]: "split_on d s \<noteq> []"
  by (induction s) (auto split: list.splits)

lemma split_on_no_sep: "d \<notin> set s \<Longrightarrow> split_on d s = [s]"
  by (induction s) auto

lemma split_on_parts_no_sep: "w \<in> set (split_on d s) \<Longrightarrow> d \<notin> set w"
proof (induction s arbitrary: w)
  case Nil
  then show ?case by simp
next
  case (Cons c s)
  then show ?case by (auto split: if_splits list.splits)
qed

lemma split_on_append_sep: "split_on d (a @ d # b) = split_on d a @ split_on d b"
proof (induction a)
  case Nil
  then show ?case by simp
next
  case (Cons c a)
  then show ?case by (auto split: list.splits simp: append_eq_Cons_conv)
qed

lemma split_join: "ws \<noteq> [] \<Longrightarrow> \<forall>w \<in> set ws. d \<notin> set w \<Longrightarrow> split_on d (join_with [d] ws) = ws"
proof (induction "[d]" ws rule: join_with.induct)
  case 1
  then show ?case by simp
next
  case (2 w)
  then show ?case by (simp add: split_on_no_sep)
next
  case (3 w v ws)
  then show ?case by (simp add: split_on_append_sep split_on_no_sep)
qed

lemma join_split: "join_with [d] (split_on d s) = s"
proof (induction s)
  case Nil
  then show ?case by simp
next
  case (Cons c s)
  show ?case
  proof (cases "c = d")
    case True
    with Cons show ?thesis by (cases "split_on d s") auto
  next
    case False
    obtain w ws where ws: "split_on d s = w # ws" by (cases "split_on d s") auto
    with Cons have "join_with [d] (w # ws) = s" by simp
    then have "join_with [d] ((c # w) # ws) = c # s" by (cases ws) auto
    with False ws show ?thesis by simp
  qed
qed

lemma clean_parts_subset:
  "set (clean_parts rooted out ws) \<subseteq> set out \<union> {w \<in> set ws. w \<noteq> '''' \<and> w \<noteq> ''.''}"
proof (induction rooted out ws rule: clean_parts.induct)
  case (1 rooted out)
  then show ?case by simp
next
  case (2 rooted out w ws)
  let ?skip = "w = '''' \<or> w = ''.''"
  let ?S = "{v \<in> set (w # ws). v \<noteq> '''' \<and> v \<noteq> ''.''}"
  have mono: "A \<subseteq> set out \<union> {v \<in> set ws. v \<noteq> '''' \<and> v \<noteq> ''.''} \<Longrightarrow> A \<subseteq> set out \<union> ?S" for A
    by auto
  show ?case
  proof (cases ?skip)
    case True
    then have "clean_parts rooted out (w # ws) = clean_parts rooted out ws" by (simp only: clean_parts.simps if_True)
    with "2.IH"(1) [OF True] mono show ?thesis by simp
  next
    case skip: False
    then have w: "insert w (set out) \<subseteq> set out \<union> ?S" by auto
    show ?thesis
    proof (cases "w = ''..''")
      case False
      then have "clean_parts rooted out (w # ws) = clean_parts rooted (w # out) ws"
        using skip by (simp only: clean_parts.simps if_False)
      with "2.IH"(6) [OF skip False] w show ?thesis by fastforce
    next
      case up: True
      show ?thesis
      proof (cases out)
        case Nil
        then show ?thesis using "2.IH"(2,3) [OF skip up Nil] up skip by (cases rooted) auto
      next
        case (Cons v out')
        show ?thesis
        proof (cases "v = ''..''")
          case True
          then have "clean_parts rooted out (w # ws) = clean_parts rooted (w # out) ws"
            using skip up Cons by simp
          with "2.IH"(4) [OF skip up Cons True] w show ?thesis by fastforce
        next
          case False
          then have "clean_parts rooted out (w # ws) = clean_parts rooted out' ws"
            using skip up Cons by simp
          with "2.IH"(5) [OF skip up Cons False] Cons show ?thesis by fastforce
        qed
      qed
    qed
  qed
qed

lemma clean_parts_nonempty:
  "w \<in> set (clean_parts rooted [] ws) \<Longrightarrow> w \<noteq> '''' \<and> w \<noteq> ''.''"
  using clean_parts_subset [of rooted "[]" ws] by fastforce

lemma clean_parts_no_sep:
  "\<forall>w \<in> set ws. d \<notin> set w \<Longrightarrow> \<forall>w \<in> set (clean_parts rooted [] ws). d \<notin> set w"
  using clean_parts_subset [of rooted "[]" ws] by fastforce

lemma clean_relative_parts:
  assumes clean: "path_clean p = p" and rel: "\<not> has_prefix p ''/''" and dot: "p \<noteq> ''.''"
    and w: "w \<in> set (split_on (CHR ''/'') p)"
  shows "w \<noteq> '''' \<and> w \<noteq> ''.''"
proof -
  let ?ws = "clean_parts False [] (split_on (CHR ''/'') p)"
  have p: "join_with ''/'' ?ws = p"
    using clean rel dot by (auto simp: path_clean_def Let_def split: if_splits)
  show ?thesis
  proof (cases "?ws = []")
    case True
    then have "path_clean p = ''.''" using rel by (simp add: path_clean_def)
    with clean dot show ?thesis by simp
  next
    case False
    have "split_on (CHR ''/'') (join_with ''/'' ?ws) = ?ws"
      by (rule split_join [OF False], rule clean_parts_no_sep) (simp_all add: split_on_parts_no_sep)
    with p w have "w \<in> set ?ws" by simp
    then show ?thesis by (rule clean_parts_nonempty)
  qed
qed

text \<open>\<open>strconv.Itoa\<close>.\<close>

fun digits :: "nat \<Rightarrow> string" where
  "digits n = (if n < 10 then [char_of (48 + n)] else digits (n div 10) @ [char_of (48 + n mod 10)])"

declare digits.simps [simp del]

definition itoa :: "int \<Rightarrow> string" where
  "itoa i = (if i < 0 then CHR ''-'' # digits (nat (- i)) else digits (nat i))"

text \<open>\<open>hex.DecodeString\<close> succeeds on an even number of hexadecimal digits of either case.\<close>

definition hex_digit :: "char \<Rightarrow> bool" where
  "hex_digit c \<longleftrightarrow> byte_in c 48 57 \<or> byte_in c 97 102 \<or> byte_in c 65 70"

definition hex_decodable :: "string \<Rightarrow> bool" where
  "hex_decodable s \<longleftrightarrow> even (length s) \<and> list_all hex_digit s"

text \<open>\<open>hex.EncodeToString\<close>.\<close>

definition hex_char :: "nat \<Rightarrow> char" where
  "hex_char n = (if n < 10 then char_of (48 + n) else char_of (87 + n))"

definition hex_encode :: "string \<Rightarrow> string" where
  "hex_encode bs = concat (map (\<lambda>b. [hex_char (of_char b div 16), hex_char (of_char b mod 16)]) bs)"

text \<open>A string of visible ASCII characters has no white space to trim.\<close>

definition visible :: "char \<Rightarrow> bool" where
  "visible c \<longleftrightarrow> byte_in c 0x21 0x7E"

lemma visible_not_space:
  assumes "visible a"
  shows "\<not> ascii_space a" and "\<not> space2 a b" and "\<not> space3 a b c" and "\<not> space2 b a" and "\<not> space3 c b a"
  using assms
  by (auto simp: visible_def ascii_space_def space2_def space3_def byte_in_def)

lemma trim_left_visible: "visible a \<Longrightarrow> trim_left (a # s) = a # s"
  by (cases s; cases "tl s") (auto simp: visible_not_space)

lemma trim_left_rev_visible: "visible a \<Longrightarrow> trim_left_rev (a # s) = a # s"
  by (cases s; cases "tl s") (auto simp: visible_not_space)

lemma trim_space_visible:
  assumes "list_all visible s"
  shows "trim_space s = s"
proof (cases s)
  case Nil
  then show ?thesis by (simp add: trim_space_def trim_right_def)
next
  case (Cons a t)
  with assms have l: "trim_left s = s" by (simp add: trim_left_visible)
  obtain b u where r: "rev s = b # u" using Cons by (cases "rev s") auto
  then have "b \<in> set s" by (metis list.set_intros(1) set_rev)
  with assms have "visible b" by (simp add: list_all_iff)
  then have "rev (trim_left_rev (rev s)) = s" using r by (metis rev_rev_ident trim_left_rev_visible)
  then show ?thesis by (simp add: trim_space_def trim_right_def l)
qed

lemma hex_digit_visible: "hex_digit c \<Longrightarrow> visible c"
  by (auto simp: hex_digit_def visible_def byte_in_def)

lemma trim_space_hex: "list_all hex_digit s \<Longrightarrow> trim_space s = s"
  by (rule trim_space_visible) (auto simp: list_all_iff hex_digit_visible)

definition lower_byte :: "char \<Rightarrow> char" where
  "lower_byte c = (if byte_in c 65 90 then char_of ((of_char c :: nat) + 32) else c)"

text \<open>\<open>strings.ReplaceAll\<close> with a non-empty pattern.\<close>

function replace_all :: "'a list \<Rightarrow> 'a list \<Rightarrow> 'a list \<Rightarrow> 'a list" where
  "replace_all pat new s =
     (case s of
        [] \<Rightarrow> []
      | c # t \<Rightarrow>
          (if pat \<noteq> [] \<and> has_prefix s pat then new @ replace_all pat new (drop (length pat) s)
           else c # replace_all pat new t))"
  by pat_completeness auto
termination
  by (relation "measure (\<lambda>(pat, new, s). length s)") auto

declare replace_all.simps [simp del]

lemma replace_all_Nil [simp]: "replace_all pat new [] = []"
  by (simp add: replace_all.simps)

lemma replace_all_Cons:
  "replace_all pat new (c # t) =
     (if pat \<noteq> [] \<and> has_prefix (c # t) pat then new @ replace_all pat new (drop (length pat) (c # t))
      else c # replace_all pat new t)"
  by (subst replace_all.simps) simp

lemma replace_all_absent: "\<not> contains s pat \<Longrightarrow> replace_all pat new s = s"
  by (induction s) (auto simp: replace_all_Cons)

lemma replace_all_byte: "replace_all [a] [b] s = map (\<lambda>c. if c = a then b else c) s"
  by (induction s) (auto simp: replace_all_Cons has_prefix_def)

text \<open>\<open>utf8.ValidString\<close>: well-formed UTF-8 without surrogates or overlong forms.\<close>

definition cont :: "char \<Rightarrow> bool" where
  "cont c \<longleftrightarrow> byte_in c 0x80 0xBF"

fun utf8_valid :: "string \<Rightarrow> bool" where
  "utf8_valid [] = True"
| "utf8_valid [a] = byte_in a 0 0x7F"
| "utf8_valid [a, b] = (if byte_in a 0 0x7F then utf8_valid [b] else byte_in a 0xC2 0xDF \<and> cont b)"
| "utf8_valid [a, b, c] =
     (if byte_in a 0 0x7F then utf8_valid [b, c]
      else if byte_in a 0xC2 0xDF then cont b \<and> utf8_valid [c]
      else (a = CHR 0xE0 \<and> byte_in b 0xA0 0xBF \<or> (byte_in a 0xE1 0xEC \<or> byte_in a 0xEE 0xEF) \<and> cont b
            \<or> a = CHR 0xED \<and> byte_in b 0x80 0x9F) \<and> cont c)"
| "utf8_valid (a # b # c # d # s) =
     (if byte_in a 0 0x7F then utf8_valid (b # c # d # s)
      else if byte_in a 0xC2 0xDF then cont b \<and> utf8_valid (c # d # s)
      else if byte_in a 0xE0 0xEF then
        (a = CHR 0xE0 \<and> byte_in b 0xA0 0xBF \<or> (byte_in a 0xE1 0xEC \<or> byte_in a 0xEE 0xEF) \<and> cont b
         \<or> a = CHR 0xED \<and> byte_in b 0x80 0x9F) \<and> cont c \<and> utf8_valid (d # s)
      else (a = CHR 0xF0 \<and> byte_in b 0x90 0xBF \<or> byte_in a 0xF1 0xF3 \<and> cont b
            \<or> a = CHR 0xF4 \<and> byte_in b 0x80 0x8F) \<and> cont c \<and> cont d \<and> utf8_valid s)"

section \<open>Maps\<close>

type_synonym ('k, 'v) gomap = "('k \<times> 'v) list"

definition map_wf :: "('k, 'v) gomap \<Rightarrow> bool" where
  "map_wf m \<longleftrightarrow> distinct (map fst m)"

abbreviation map_set :: "'k \<Rightarrow> 'v \<Rightarrow> ('k, 'v) gomap \<Rightarrow> ('k, 'v) gomap" where
  "map_set k v m \<equiv> AList.update k v m"

abbreviation map_del :: "'k \<Rightarrow> ('k, 'v) gomap \<Rightarrow> ('k, 'v) gomap" where
  "map_del k m \<equiv> AList.delete k m"

definition map_has :: "('k, 'v) gomap \<Rightarrow> 'k \<Rightarrow> bool" where
  "map_has m k \<longleftrightarrow> map_of m k \<noteq> None"

definition map_get_or :: "'v \<Rightarrow> ('k, 'v) gomap \<Rightarrow> 'k \<Rightarrow> 'v" where
  "map_get_or d m k = (case map_of m k of None \<Rightarrow> d | Some v \<Rightarrow> v)"

lemma map_has_iff [simp]: "map_has m k \<longleftrightarrow> k \<in> fst ` set m"
  by (auto simp: map_has_def map_of_eq_None_iff)

lemma map_wf_Nil [simp, intro]: "map_wf []"
  by (simp add: map_wf_def)

lemma map_wf_Cons [simp]: "map_wf ((k, v) # m) \<longleftrightarrow> k \<notin> fst ` set m \<and> map_wf m"
  by (simp add: map_wf_def)

lemma map_wf_update [simp, intro]: "map_wf m \<Longrightarrow> map_wf (map_set k v m)"
  by (simp add: map_wf_def distinct_update)

lemma map_wf_delete [simp, intro]: "map_wf m \<Longrightarrow> map_wf (map_del k m)"
  by (simp add: map_wf_def distinct_delete)

lemma map_of_set [simp]: "map_of (map_set k v m) = (map_of m)(k \<mapsto> v)"
  by (simp add: update_conv')

lemma map_set_fresh: "k \<notin> fst ` set m \<Longrightarrow> map_set k v m = m @ [(k, v)]"
  by (induction m) auto

lemma length_map_set_le: "length (map_set k v m) \<le> Suc (length m)"
  by (induction m) auto

lemma keys_map_set [simp]: "fst ` set (map_set k v m) = insert k (fst ` set m)"
  by (simp add: dom_update)

lemma in_map_setD: "p \<in> set (map_set k v m) \<Longrightarrow> p = (k, v) \<or> p \<in> set m"
  by (induction m) (auto split: if_splits)

lemma in_map_delD: "p \<in> set (map_del k m) \<Longrightarrow> p \<in> set m"
  by (induction m) (auto split: if_splits)

lemma list_all_map_set: "list_all P m \<Longrightarrow> P (k, v) \<Longrightarrow> list_all P (map_set k v m)"
  by (metis (no_types, lifting) in_map_setD list_all_iff)

lemma list_all_map_del: "list_all P m \<Longrightarrow> list_all P (map_del k m)"
  by (metis (no_types, lifting) in_map_delD list_all_iff)

lemma map_wf_in_iff: "map_wf m \<Longrightarrow> (k, v) \<in> set m \<longleftrightarrow> map_of m k = Some v"
  by (simp add: map_wf_def)

lemma map_of_eqI_set:
  assumes "map_wf m" and "map_wf m'" and "set m = set m'"
  shows "map_of m = map_of m'"
proof
  fix k
  show "map_of m k = map_of m' k"
  proof (cases "map_of m' k")
    case None
    then have "k \<notin> fst ` set m" using assms(3) by (simp add: map_of_eq_None_iff)
    then have "map_of m k = None" by (simp add: map_of_eq_None_iff)
    then show ?thesis using None by simp
  next
    case (Some v)
    then have "(k, v) \<in> set m" using assms by (auto dest: map_of_SomeD)
    then show ?thesis using Some assms(1) by (simp add: map_wf_in_iff)
  qed
qed

lemma map_wf_mset:
  assumes "map_wf m" and "mset m = mset m'"
  shows "map_wf m' \<and> map_of m' = map_of m"
proof -
  have d: "map_wf m'"
    using assms unfolding map_wf_def by (metis mset_eq_imp_distinct_iff mset_map)
  moreover have "set m' = set m" using assms(2) by (metis mset_eq_setD)
  ultimately show ?thesis using assms(1) by (auto intro: map_of_eqI_set)
qed

section \<open>Sorting and searching\<close>

fun insert_by :: "('a \<Rightarrow> 'a \<Rightarrow> bool) \<Rightarrow> 'a \<Rightarrow> 'a list \<Rightarrow> 'a list" where
  "insert_by lt x [] = [x]"
| "insert_by lt x (y # ys) = (if lt y x then y # insert_by lt x ys else x # y # ys)"

fun sort_by :: "('a \<Rightarrow> 'a \<Rightarrow> bool) \<Rightarrow> 'a list \<Rightarrow> 'a list" where
  "sort_by lt [] = []"
| "sort_by lt (x # xs) = insert_by lt x (sort_by lt xs)"

lemma mset_insert_by [simp]: "mset (insert_by lt x ys) = add_mset x (mset ys)"
  by (induction ys) auto

lemma mset_sort_by [simp]: "mset (sort_by lt xs) = mset xs"
  by (induction xs) auto

lemma set_sort_by [simp]: "set (sort_by lt xs) = set xs"
  by (metis mset_sort_by set_mset_mset)

lemma length_sort_by [simp]: "length (sort_by lt xs) = length xs"
  by (metis mset_sort_by size_mset)

lemma distinct_map_sort_by [simp]:
  "distinct (map f (sort_by lt xs)) \<longleftrightarrow> distinct (map f xs)"
  by (metis mset_eq_imp_distinct_iff mset_map mset_sort_by)

text \<open>
  The contract a \<open>lt\<close> function owes to \<open>sort.Slice\<close>: a strict weak order. Under it the
  result has no pair out of order.
\<close>

locale less_order =
  fixes lt :: "'a \<Rightarrow> 'a \<Rightarrow> bool"
  assumes lt_asym: "lt x y \<Longrightarrow> \<not> lt y x"
    and lt_cotrans: "lt x z \<Longrightarrow> lt x y \<or> lt y z"
begin

lemma not_lt_trans: "\<not> lt y x \<Longrightarrow> \<not> lt z y \<Longrightarrow> \<not> lt z x"
  using lt_cotrans by blast

lemma sorted_insert_by:
  "sorted_wrt (\<lambda>a b. \<not> lt b a) ys \<Longrightarrow> sorted_wrt (\<lambda>a b. \<not> lt b a) (insert_by lt x ys)"
proof (induction ys)
  case Nil
  then show ?case by simp
next
  case (Cons y ys)
  have set_ins: "set (insert_by lt x ys) = insert x (set ys)"
    by (metis mset_insert_by set_mset_add_mset_insert set_mset_mset)
  show ?case
  proof (cases "lt y x")
    case True
    then show ?thesis using Cons lt_asym by (auto simp: set_ins)
  next
    case False
    then show ?thesis using Cons.prems not_lt_trans by auto
  qed
qed

lemma sorted_sort_by: "sorted_wrt (\<lambda>a b. \<not> lt b a) (sort_by lt xs)"
  by (induction xs) (auto intro: sorted_insert_by)

end

text \<open>Byte order on strings and on a string-valued key.\<close>

interpretation key_less: less_order "\<lambda>a b. key a < key b"
  for key :: "'a \<Rightarrow> 'b::linorder"
  by unfold_locales auto

text \<open>
  \<open>sort.Search n f\<close>: binary search for the smallest index in \<open>[0, n)\<close> at which \<open>f\<close> holds.
\<close>

function search_loop :: "(nat \<Rightarrow> bool) \<Rightarrow> nat \<Rightarrow> nat \<Rightarrow> nat" where
  "search_loop f i j =
     (if i < j then
        (let h = (i + j) div 2
         in if \<not> f h then search_loop f (h + 1) j else search_loop f i h)
      else i)"
  by pat_completeness auto
termination
  by (relation "measure (\<lambda>(f, i, j). j - i)") auto

declare search_loop.simps [simp del]

definition sort_search :: "nat \<Rightarrow> (nat \<Rightarrow> bool) \<Rightarrow> nat" where
  "sort_search n f = search_loop f 0 n"

lemma search_loop_correct:
  assumes mono: "\<And>a b. a \<le> b \<Longrightarrow> b < n \<Longrightarrow> f a \<Longrightarrow> f b"
    and "i \<le> j" and "j \<le> n"
    and "\<forall>k < i. \<not> f k" and "j < n \<longrightarrow> f j"
  shows "(\<forall>k < search_loop f i j. \<not> f k) \<and> search_loop f i j \<le> n \<and>
         (search_loop f i j < n \<longrightarrow> f (search_loop f i j))"
  using assms
proof (induction f i j rule: search_loop.induct)
  case (1 f i j)
  show ?case
  proof (cases "i < j")
    case False
    then have "search_loop f i j = i" by (simp add: search_loop.simps [of f i j])
    with False show ?thesis using "1.prems"(2-) by simp
  next
    case True
    let ?h = "(i + j) div 2"
    have h: "i \<le> ?h" "?h < j" using True by auto
    show ?thesis
    proof (cases "f ?h")
      case fh: True
      have "(\<forall>k < search_loop f i ?h. \<not> f k) \<and> search_loop f i ?h \<le> n \<and>
         (search_loop f i ?h < n \<longrightarrow> f (search_loop f i ?h))"
        by (rule "1.IH"(2) [OF True refl _ "1.prems"(1)]) (use "1.prems"(2-) h fh in simp_all)
      then show ?thesis using True fh by (simp add: search_loop.simps [of f i j] Let_def)
    next
      case fh: False
      have below: "\<forall>k < ?h + 1. \<not> f k"
      proof (intro allI impI notI)
        fix k assume "k < ?h + 1" and "f k"
        then have "f ?h" using "1.prems"(1) [of k ?h] h "1.prems"(3) by simp
        with fh show False by simp
      qed
      have "(\<forall>k < search_loop f (?h + 1) j. \<not> f k) \<and> search_loop f (?h + 1) j \<le> n \<and>
         (search_loop f (?h + 1) j < n \<longrightarrow> f (search_loop f (?h + 1) j))"
        by (rule "1.IH"(1) [OF True refl fh "1.prems"(1)]) (use "1.prems"(2-) h below in simp_all)
      then show ?thesis using True fh by (simp add: search_loop.simps [of f i j] Let_def)
    qed
  qed
qed

lemma sort_search_correct:
  assumes "\<And>a b. a \<le> b \<Longrightarrow> b < n \<Longrightarrow> f a \<Longrightarrow> f b"
  shows "(\<forall>k < sort_search n f. \<not> f k) \<and> sort_search n f \<le> n \<and>
         (sort_search n f < n \<longrightarrow> f (sort_search n f))"
  unfolding sort_search_def by (rule search_loop_correct [OF assms]) simp_all

end
