(* ===== verification/Json.thy ===== *)
theory Json
  imports GoBase
begin

text \<open>
  \<open>encoding/json\<close> as the code uses it, and \<open>internal/generation/decode.go\<close>.

  A \<open>json.Decoder\<close> over some bytes is the list of the values it will still deliver
  (\<open>json_stream\<close>): \<open>Some v\<close> is one complete well-formed value, \<open>None\<close> is the place where the
  text stops being JSON, and the end of the list is the end of the input. An object keeps its
  members in text order with duplicates, which is what a \<open>Token\<close> loop sees. A number is
  \<open>JInt\<close> when its literal is a plain integer and \<open>JNum\<close> (the literal) when it has a fraction
  or an exponent. Turning bytes into that list is the lexer of \<open>encoding/json\<close>; where several
  things are wrong with a malformed text, which of the errors is reported first is not modelled.
\<close>

datatype json =
    JNull
  | JBool bool
  | JInt int
  | JNum string
  | JStr string
  | JArr "json list"
  | JObj "(string \<times> json) list"

type_synonym json_stream = "json option list"

datatype json_error =
    JSyntax
  | JUnexpectedEOF
  | JExpectedObject
  | JExpectedArray
  | JDuplicateKey string
  | JEntryLimit
  | JType
  | JTrailing

section \<open>Decoding one value into a Go variable\<close>

text \<open>
  \<open>dec.Decode(&v)\<close>: \<open>null\<close> leaves the variable as it was, a value of another kind is an
  \<open>UnmarshalTypeError\<close>, and an integer must fit its type.
\<close>

fun decode_string :: "string \<Rightarrow> json \<Rightarrow> json_error + string" where
  "decode_string old (JStr s) = Inr s"
| "decode_string old JNull = Inr old"
| "decode_string old _ = Inl JType"

definition in_int64 :: "int \<Rightarrow> bool" where
  "in_int64 i \<longleftrightarrow> - (2 ^ 63) \<le> i \<and> i < 2 ^ 63"

fun decode_int64 :: "int \<Rightarrow> json \<Rightarrow> json_error + int" where
  "decode_int64 old (JInt i) = (if in_int64 i then Inr i else Inl JType)"
| "decode_int64 old JNull = Inr old"
| "decode_int64 old _ = Inl JType"

fun stream_value :: "json_stream \<Rightarrow> json_error + (json \<times> json_stream)" where
  "stream_value [] = Inl JUnexpectedEOF"
| "stream_value (None # _) = Inl JSyntax"
| "stream_value (Some v # rest) = Inr (v, rest)"

text \<open>
  \<open>json.Unmarshal\<close> into a struct. A member goes to the field of exactly its name, else to the
  field with the same folded name, else it is ignored; later members overwrite earlier ones; a
  value of the wrong kind makes the call fail; a top-level \<open>null\<close> changes nothing.
  \<open>fold_name\<close> is the case folding of field names: ASCII letters, the Kelvin sign and the long s
  (as their UTF-8 bytes) fold to upper case ASCII. A field is given by its name and the decoder
  that stores a value into the struct.
\<close>

definition upper_byte :: "char \<Rightarrow> char" where
  "upper_byte c = (if byte_in c 97 122 then char_of ((of_char c :: nat) - 32) else c)"

fun fold_name :: "string \<Rightarrow> string" where
  "fold_name [] = []"
| "fold_name (a # s) =
     (case s of
        [] \<Rightarrow> [upper_byte a]
      | b # t \<Rightarrow>
          if a = CHR 0xC5 \<and> b = CHR 0xBF then CHR ''S'' # fold_name t
          else (case t of
                  [] \<Rightarrow> upper_byte a # fold_name s
                | c # u \<Rightarrow>
                    if a = CHR 0xE2 \<and> b = CHR 0x84 \<and> c = CHR 0xAA then CHR ''K'' # fold_name u
                    else upper_byte a # fold_name s))"

type_synonym 's json_fields = "(string \<times> ('s \<Rightarrow> json \<Rightarrow> json_error + 's)) list"

definition field_of :: "'s json_fields \<Rightarrow> string \<Rightarrow> ('s \<Rightarrow> json \<Rightarrow> json_error + 's) option" where
  "field_of fields name =
     (case map_of fields name of
        Some d \<Rightarrow> Some d
      | None \<Rightarrow> map_of (map (\<lambda>(n, d). (fold_name n, d)) fields) (fold_name name))"

fun unmarshal_members :: "'s json_fields \<Rightarrow> 's \<Rightarrow> (string \<times> json) list \<Rightarrow> json_error + 's" where
  "unmarshal_members fields s [] = Inr s"
| "unmarshal_members fields s ((name, v) # kvs) =
     (case field_of fields name of
        None \<Rightarrow> unmarshal_members fields s kvs
      | Some d \<Rightarrow>
          (case d s v of
             Inl e \<Rightarrow> Inl e
           | Inr s' \<Rightarrow> unmarshal_members fields s' kvs))"

fun unmarshal_struct :: "'s json_fields \<Rightarrow> 's \<Rightarrow> json \<Rightarrow> json_error + 's" where
  "unmarshal_struct fields s (JObj kvs) = unmarshal_members fields s kvs"
| "unmarshal_struct fields s JNull = Inr s"
| "unmarshal_struct fields s _ = Inl JType"

section \<open>Bounded decoding\<close>

definition MaxFiles :: nat where
  "MaxFiles = 10000"

text \<open>
  The \<open>for dec.More()\<close> loop of \<open>DecodeBoundedMap\<close>: the entry budget is checked before the key
  is read, a repeated key is refused, then the value is decoded (from the zero value of its type).
\<close>

fun bounded_map_loop ::
  "(json \<Rightarrow> json_error + 'v) \<Rightarrow> nat \<Rightarrow> string list \<Rightarrow> (string, 'v) gomap \<Rightarrow> (string \<times> json) list
   \<Rightarrow> json_error + (string, 'v) gomap" where
  "bounded_map_loop dec entries seen result [] = Inr result"
| "bounded_map_loop dec entries seen result ((name, v) # kvs) =
     (if entries \<ge> MaxFiles then Inl JEntryLimit
      else if name \<in> set seen then Inl (JDuplicateKey name)
      else (case dec v of
              Inl e \<Rightarrow> Inl e
            | Inr w \<Rightarrow>
                bounded_map_loop dec (Suc entries) (name # seen) (map_set name w result) kvs))"

fun DecodeBoundedMap :: "(json \<Rightarrow> json_error + 'v) \<Rightarrow> json \<Rightarrow> json_error + (string, 'v) gomap" where
  "DecodeBoundedMap dec (JObj kvs) = bounded_map_loop dec 0 [] [] kvs"
| "DecodeBoundedMap dec _ = Inl JExpectedObject"

fun bounded_strings_loop :: "string list \<Rightarrow> json list \<Rightarrow> json_error + string list" where
  "bounded_strings_loop strs [] = Inr strs"
| "bounded_strings_loop strs (v # vs) =
     (if length strs \<ge> MaxFiles then Inl JEntryLimit
      else (case decode_string '''' v of
              Inl e \<Rightarrow> Inl e
            | Inr w \<Rightarrow> bounded_strings_loop (strs @ [w]) vs))"

fun DecodeBoundedStrings :: "json \<Rightarrow> json_error + string list" where
  "DecodeBoundedStrings (JArr vs) = bounded_strings_loop [] vs"
| "DecodeBoundedStrings _ = Inl JExpectedArray"

definition DecodeBoundedStringLists :: "json \<Rightarrow> json_error + (string, string list) gomap" where
  "DecodeBoundedStringLists v = DecodeBoundedMap DecodeBoundedStrings v"

fun EnsureJSONEOF :: "json_stream \<Rightarrow> json_error + unit" where
  "EnsureJSONEOF [] = Inr ()"
| "EnsureJSONEOF (None # _) = Inl JSyntax"
| "EnsureJSONEOF (Some _ # _) = Inl JTrailing"

section \<open>What bounded decoding guarantees\<close>

text \<open>
  A successful loop has appended exactly the decoded members, in text order, and the members
  had distinct names and fitted into the budget.
\<close>

lemma bounded_map_loop_ok:
  assumes "bounded_map_loop dec entries seen result kvs = Inr out"
    and "fst ` set result \<subseteq> set seen"
  shows "distinct (map fst kvs) \<and> set seen \<inter> fst ` set kvs = {} \<and>
         (kvs \<noteq> [] \<longrightarrow> entries + length kvs \<le> MaxFiles) \<and>
         (\<exists>ws. map (\<lambda>(k, v). (k, dec v)) kvs = map (\<lambda>(k, w). (k, Inr w)) ws \<and> out = result @ ws)"
  using assms
proof (induction dec entries seen result kvs rule: bounded_map_loop.induct)
  case (1 dec entries seen result)
  then show ?case by simp
next
  case (2 dec entries seen result name v kvs)
  from "2.prems"(1) obtain w where
      room: "entries < MaxFiles" and fresh: "name \<notin> set seen" and dv: "dec v = Inr w"
    and rec: "bounded_map_loop dec (Suc entries) (name # seen) (map_set name w result) kvs = Inr out"
    by (auto split: if_splits sum.splits)
  have notin: "name \<notin> fst ` set result" using fresh "2.prems"(2) by blast
  have keys: "fst ` set (map_set name w result) \<subseteq> set (name # seen)"
    using "2.prems"(2) by auto
  have not_full: "\<not> MaxFiles \<le> entries" using room by simp
  note IH = "2.IH" [OF not_full fresh dv rec keys]
  then obtain ws where ws: "map (\<lambda>(k, v). (k, dec v)) kvs = map (\<lambda>(k, w). (k, Inr w)) ws"
    "out = map_set name w result @ ws" by blast
  have "map (\<lambda>(k, v). (k, dec v)) ((name, v) # kvs) = map (\<lambda>(k, w). (k, Inr w)) ((name, w) # ws) \<and>
        out = result @ (name, w) # ws"
    using ws dv notin by (simp add: map_set_fresh)
  moreover have "name \<notin> fst ` set kvs" using IH by auto
  moreover have "entries + length ((name, v) # kvs) \<le> MaxFiles"
    using IH room by (cases kvs) auto
  ultimately show ?case using IH fresh by auto
qed

text \<open>Conversely, members with distinct names that decode and fit the budget are all delivered.\<close>

lemma bounded_map_loop_complete:
  "distinct (map fst ws) \<Longrightarrow> fst ` set result = set seen \<Longrightarrow> set seen \<inter> fst ` set ws = {} \<Longrightarrow>
   entries + length ws \<le> MaxFiles \<Longrightarrow> (\<And>k w. (k, w) \<in> set ws \<Longrightarrow> dec (enc w) = Inr w) \<Longrightarrow>
     bounded_map_loop dec entries seen result (map (\<lambda>(k, w). (k, enc w)) ws) = Inr (result @ ws)"
proof (induction ws arbitrary: entries seen result)
  case Nil
  then show ?case by simp
next
  case (Cons kw ws)
  obtain k w where kw: "kw = (k, w)" by (cases kw)
  have fresh: "k \<notin> set seen" using Cons.prems(3) kw by auto
  have "dec (enc w) = Inr w" using Cons.prems(5) [of k w] kw by simp
  moreover have "bounded_map_loop dec (Suc entries) (k # seen) (map_set k w result) (map (\<lambda>(k, w). (k, enc w)) ws)
      = Inr (map_set k w result @ ws)"
    using Cons.prems kw by (intro Cons.IH) auto
  moreover have "map_set k w result = result @ [(k, w)]"
    using fresh Cons.prems(2) by (intro map_set_fresh) simp
  ultimately show ?case using fresh Cons.prems(4) kw by simp
qed

lemma decoded_keys:
  "map (\<lambda>(k, v). (k, dec v)) kvs = map (\<lambda>(k, w). (k, Inr w)) ws \<Longrightarrow> map fst ws = map fst kvs"
proof (induction kvs arbitrary: ws)
  case Nil
  then show ?case by simp
next
  case (Cons kv kvs)
  then show ?case by (cases ws) (auto split: prod.splits)
qed

lemma DecodeBoundedMap_ok:
  assumes "DecodeBoundedMap dec v = Inr out"
  obtains kvs where "v = JObj kvs" and "map_wf out" and "length out \<le> MaxFiles"
    and "map fst out = map fst kvs"
    and "map (\<lambda>(k, v). (k, dec v)) kvs = map (\<lambda>(k, w). (k, Inr w)) out"
proof -
  from assms obtain kvs where v: "v = JObj kvs" and loop: "bounded_map_loop dec 0 [] [] kvs = Inr out"
    by (cases v) auto
  from bounded_map_loop_ok [OF loop] have
      d: "distinct (map fst kvs)" and len: "kvs \<noteq> [] \<longrightarrow> length kvs \<le> MaxFiles"
    and eq: "map (\<lambda>(k, v). (k, dec v)) kvs = map (\<lambda>(k, w). (k, Inr w)) out" by auto
  have keys: "map fst out = map fst kvs" by (rule decoded_keys [OF eq])
  then have "length out = length kvs" by (metis length_map)
  with len have "length out \<le> MaxFiles" by (cases kvs) auto
  then show thesis using that v keys eq d by (simp add: map_wf_def)
qed

lemma bounded_strings_loop_bound:
  "bounded_strings_loop strs vs = Inr out \<Longrightarrow> length strs \<le> MaxFiles \<Longrightarrow>
     length out \<le> MaxFiles \<and> length out = length strs + length vs"
proof (induction strs vs rule: bounded_strings_loop.induct)
  case (1 strs)
  then show ?case by simp
next
  case (2 strs v vs)
  from "2.prems"(1) obtain s where room: "\<not> MaxFiles \<le> length strs"
    and d: "decode_string '''' v = Inr s"
    and rec: "bounded_strings_loop (strs @ [s]) vs = Inr out"
    by (auto split: if_splits sum.splits)
  from "2.IH" [OF room d rec] room show ?case by simp
qed

lemma DecodeBoundedStrings_bound:
  "DecodeBoundedStrings v = Inr out \<Longrightarrow> length out \<le> MaxFiles"
  by (cases v) (auto dest: bounded_strings_loop_bound)

lemma DecodeBoundedStringLists_bound:
  "case DecodeBoundedStringLists v of
     Inl e \<Rightarrow> True
   | Inr m \<Rightarrow> map_wf m \<and> length m \<le> MaxFiles \<and> list_all (\<lambda>(k, xs). length xs \<le> MaxFiles) m"
proof (cases "DecodeBoundedStringLists v")
  case (Inl e)
  then show ?thesis by simp
next
  case (Inr m)
  then obtain kvs where wf: "map_wf m" "length m \<le> MaxFiles"
    and eq: "map (\<lambda>(k, v). (k, DecodeBoundedStrings v)) kvs = map (\<lambda>(k, w). (k, Inr w)) m"
    unfolding DecodeBoundedStringLists_def by (rule DecodeBoundedMap_ok)
  have "length xs \<le> MaxFiles" if "(k, xs) \<in> set m" for k xs
  proof -
    from that have "(k, Inr xs) \<in> set (map (\<lambda>(k, w). (k, Inr w)) m :: (string \<times> (json_error + string list)) list)"
      by force
    then have "(k, Inr xs) \<in> set (map (\<lambda>(k, v). (k, DecodeBoundedStrings v)) kvs)"
      by (simp only: eq)
    then obtain v' where "DecodeBoundedStrings v' = Inr xs" by auto
    then show ?thesis by (rule DecodeBoundedStrings_bound)
  qed
  with wf Inr show ?thesis by (auto simp: list_all_iff)
qed

end
