(* ===== verification/Manifest.thy ===== *)
theory Manifest
  imports Json
begin

text \<open>
  \<open>internal/generation/manifest.go\<close>: the immutable worker-output manifest. The state is the
  \<open>manifest\<close> record; the operations are its strict decoder, its validator, the path tests that
  say what a generation owns, and the lookup of one file. \<open>time.Parse\<close> with the RFC 3339
  layout and SHA-256 are the parameters \<open>rfc3339\<close> and \<open>sha256\<close>.
\<close>

section \<open>Data\<close>

definition ManifestPath :: string where "ManifestPath = ''.lwc/publish/current.json''"
definition LeasePath :: string where "LeasePath = ''.lwc/publish/lease.json''"
definition GenPrefix :: string where "GenPrefix = ''.lwc/publish/generations/''"
definition ManifestVersion :: int where "ManifestVersion = 1"
definition MaxFileBytes :: int where "MaxFileBytes = 64 * 2 ^ 20"
definition MaxTotalSize :: int where "MaxTotalSize = 512 * 2 ^ 20"
definition MaxPathBytes :: nat where "MaxPathBytes = 1024"
definition MaxManifestBytes :: nat where "MaxManifestBytes = 1024 + MaxFiles * (MaxPathBytes + 192)"

record gfile =
  f_path :: string
  f_size :: int
  f_sha256 :: string
  f_generation :: int

record manifest =
  m_version :: int
  m_generation_id :: string
  m_previous :: string
  m_created_at :: string
  m_input_fingerprint :: string
  m_files :: "gfile list"

definition zero_file :: gfile where
  "zero_file = \<lparr>f_path = '''', f_size = 0, f_sha256 = '''', f_generation = 0\<rparr>"

definition zero_manifest :: manifest where
  "zero_manifest = \<lparr>m_version = 0, m_generation_id = '''', m_previous = '''', m_created_at = '''',
                    m_input_fingerprint = '''', m_files = []\<rparr>"

datatype manifest_error =
    ManifestExceedsLimit
  | InvalidManifest
  | ExpectedManifestObject
  | DuplicateManifestField string
  | UnknownManifestField string
  | MissingManifestField string
  | FilesNotArray
  | FileLimitExceeded
  | FileNotObject
  | DuplicateFileField string
  | UnknownFileField string
  | MissingFileField string
  | ManifestJson json_error
  | InvalidGenerationOutput

section \<open>Strict decoding\<close>

fun lift_json :: "json_error + 'a \<Rightarrow> manifest_error + 'a" where
  "lift_json (Inl e) = Inl (ManifestJson e)"
| "lift_json (Inr a) = Inr a"

definition decode_file_field :: "string \<Rightarrow> json \<Rightarrow> gfile \<Rightarrow> manifest_error + gfile" where
  "decode_file_field name v file =
     (if name = ''path'' then
        map_sum id (\<lambda>s. file\<lparr>f_path := s\<rparr>) (lift_json (decode_string (f_path file) v))
      else if name = ''size'' then
        map_sum id (\<lambda>i. file\<lparr>f_size := i\<rparr>) (lift_json (decode_int64 (f_size file) v))
      else if name = ''sha256'' then
        map_sum id (\<lambda>s. file\<lparr>f_sha256 := s\<rparr>) (lift_json (decode_string (f_sha256 file) v))
      else if name = ''generation'' then
        map_sum id (\<lambda>i. file\<lparr>f_generation := i\<rparr>) (lift_json (decode_int64 (f_generation file) v))
      else Inl (UnknownFileField name))"

fun decode_file_loop :: "string list \<Rightarrow> gfile \<Rightarrow> (string \<times> json) list \<Rightarrow> manifest_error + (string list \<times> gfile)" where
  "decode_file_loop seen file [] = Inr (seen, file)"
| "decode_file_loop seen file ((name, v) # kvs) =
     (if name \<in> set seen then Inl (DuplicateFileField name)
      else (case decode_file_field name v file of
              Inl e \<Rightarrow> Inl e
            | Inr file' \<Rightarrow> decode_file_loop (name # seen) file' kvs))"

definition first_missing :: "string list \<Rightarrow> string list \<Rightarrow> string option" where
  "first_missing required seen = List.find (\<lambda>name. name \<notin> set seen) required"

fun decodeManifestFile :: "json \<Rightarrow> manifest_error + gfile" where
  "decodeManifestFile (JObj kvs) =
     (case decode_file_loop [] zero_file kvs of
        Inl e \<Rightarrow> Inl e
      | Inr (seen, file) \<Rightarrow>
          (case first_missing [''path'', ''size'', ''sha256'', ''generation''] seen of
             Some name \<Rightarrow> Inl (MissingFileField name)
           | None \<Rightarrow> Inr file))"
| "decodeManifestFile _ = Inl FileNotObject"

fun decode_files_loop :: "gfile list \<Rightarrow> json list \<Rightarrow> manifest_error + gfile list" where
  "decode_files_loop files [] = Inr files"
| "decode_files_loop files (v # vs) =
     (if length files \<ge> MaxFiles then Inl FileLimitExceeded
      else (case decodeManifestFile v of
              Inl e \<Rightarrow> Inl e
            | Inr file \<Rightarrow> decode_files_loop (files @ [file]) vs))"

fun decodeManifestFiles :: "json \<Rightarrow> gfile list \<Rightarrow> manifest_error + gfile list" where
  "decodeManifestFiles (JArr vs) files = decode_files_loop files vs"
| "decodeManifestFiles _ files = Inl FilesNotArray"

definition decode_manifest_field :: "string \<Rightarrow> json \<Rightarrow> manifest \<Rightarrow> manifest_error + manifest" where
  "decode_manifest_field name v m =
     (if name = ''version'' then
        map_sum id (\<lambda>i. m\<lparr>m_version := i\<rparr>) (lift_json (decode_int64 (m_version m) v))
      else if name = ''generation_id'' then
        map_sum id (\<lambda>s. m\<lparr>m_generation_id := s\<rparr>) (lift_json (decode_string (m_generation_id m) v))
      else if name = ''previous_generation_id'' then
        map_sum id (\<lambda>s. m\<lparr>m_previous := s\<rparr>) (lift_json (decode_string (m_previous m) v))
      else if name = ''created_at'' then
        map_sum id (\<lambda>s. m\<lparr>m_created_at := s\<rparr>) (lift_json (decode_string (m_created_at m) v))
      else if name = ''input_fingerprint'' then
        map_sum id (\<lambda>s. m\<lparr>m_input_fingerprint := s\<rparr>)
          (lift_json (decode_string (m_input_fingerprint m) v))
      else if name = ''files'' then
        map_sum id (\<lambda>fs. m\<lparr>m_files := fs\<rparr>) (decodeManifestFiles v (m_files m))
      else Inl (UnknownManifestField name))"

fun decode_manifest_loop :: "string list \<Rightarrow> manifest \<Rightarrow> (string \<times> json) list \<Rightarrow> manifest_error + (string list \<times> manifest)" where
  "decode_manifest_loop seen m [] = Inr (seen, m)"
| "decode_manifest_loop seen m ((name, v) # kvs) =
     (if name \<in> set seen then Inl (DuplicateManifestField name)
      else (case decode_manifest_field name v m of
              Inl e \<Rightarrow> Inl e
            | Inr m' \<Rightarrow> decode_manifest_loop (name # seen) m' kvs))"

definition manifest_required :: "string list" where
  "manifest_required = [''version'', ''generation_id'', ''created_at'', ''input_fingerprint'', ''files'']"

definition decodeManifestStrict :: "json_stream \<Rightarrow> manifest_error + manifest" where
  "decodeManifestStrict dec =
     (case stream_value dec of
        Inr (JObj kvs, rest) \<Rightarrow>
          (case decode_manifest_loop [] zero_manifest kvs of
             Inl e \<Rightarrow> Inl e
           | Inr (seen, m) \<Rightarrow>
               (case first_missing manifest_required seen of
                  Some name \<Rightarrow> Inl (MissingManifestField name)
                | None \<Rightarrow>
                    (case EnsureJSONEOF rest of
                       Inl e \<Rightarrow> Inl (ManifestJson e)
                     | Inr _ \<Rightarrow> Inr m)))
      | _ \<Rightarrow> Inl ExpectedManifestObject)"

section \<open>Paths and identifiers\<close>

definition safePath :: "string \<Rightarrow> bool" where
  "safePath p \<longleftrightarrow> p \<noteq> '''' \<and> length p \<le> MaxPathBytes \<and> \<not> has_prefix p ''/'' \<and> path_clean p = p \<and>
     \<not> contains p [CHR 0x5C] \<and> \<not> contains p ''//'' \<and> \<not> contains p ''/./'' \<and> \<not> contains p ''..''"

definition owned_files :: "string list" where
  "owned_files = [''wiki.toml'', ''synto.toml'', ''cache/id_map.json'', ''cache/concepts.jsonl'',
     ''cache/dormant_concepts.jsonl'', ''cache/raw_status.json'', ''cache/suggested_queries.json'',
     ''.olw/state.db'', ''.synto/state.db'', ''.synto/INDEX.json'']"

definition GenerationOwned :: "string \<Rightarrow> bool" where
  "GenerationOwned rel =
     (if has_prefix rel ''wiki/'' then safePath rel else rel \<in> set owned_files)"

definition GenerationOwnedWritePath :: "string \<Rightarrow> bool" where
  "GenerationOwnedWritePath rel \<longleftrightarrow>
     GenerationOwned rel \<or> (has_suffix rel ''.tmp'' \<and> GenerationOwned (trim_suffix rel ''.tmp''))"

text \<open>A generation ID is made of ASCII letters, digits, \<open>-\<close> and \<open>_\<close>.\<close>

definition id_char :: "char \<Rightarrow> bool" where
  "id_char c \<longleftrightarrow> byte_in c 97 122 \<or> byte_in c 65 90 \<or> byte_in c 48 57 \<or> c = CHR ''-'' \<or> c = CHR ''_''"

definition safeGenerationID :: "string \<Rightarrow> bool" where
  "safeGenerationID i \<longleftrightarrow> \<not> (length i < 8 \<or> length i > 128) \<and> list_all id_char i"

definition validDigest :: "string \<Rightarrow> bool" where
  "validDigest d \<longleftrightarrow> hex_decodable d \<and> length d = 64"

section \<open>Validation, lookup and construction\<close>

fun validate_files :: "int \<Rightarrow> string \<Rightarrow> gfile list \<Rightarrow> bool" where
  "validate_files tot prev [] = True"
| "validate_files tot prev (f # fs) =
     (if \<not> GenerationOwned (f_path f) \<or> f_path f \<le> prev \<or> f_size f < 0 \<or> f_size f > MaxFileBytes
         \<or> f_generation f \<le> 0 \<or> \<not> validDigest (f_sha256 f) then False
      else if tot > MaxTotalSize - f_size f then False
      else validate_files (tot + f_size f) (f_path f) fs)"

definition Validate :: "(string \<Rightarrow> int option) \<Rightarrow> manifest \<Rightarrow> manifest_error + unit" where
  "Validate rfc3339 m =
     (if m_version m \<noteq> ManifestVersion \<or> \<not> safeGenerationID (m_generation_id m)
         \<or> (m_previous m \<noteq> '''' \<and> \<not> safeGenerationID (m_previous m)) then Inl InvalidManifest
      else if rfc3339 (m_created_at m) = None \<or> trim_space (m_input_fingerprint m) = ''''
         \<or> length (m_files m) > MaxFiles then Inl InvalidManifest
      else if \<not> validate_files 0 '''' (m_files m) then Inl InvalidManifest
      else Inr ())"

definition Decode :: "(string \<Rightarrow> int option) \<Rightarrow> (string \<Rightarrow> json_stream) \<Rightarrow> string \<Rightarrow> manifest_error + manifest" where
  "Decode rfc3339 parse data =
     (if length data > MaxManifestBytes then Inl ManifestExceedsLimit
      else (case decodeManifestStrict (parse data) of
              Inl _ \<Rightarrow> Inl InvalidManifest
            | Inr m \<Rightarrow>
                (case Validate rfc3339 m of
                   Inl e \<Rightarrow> Inl e
                 | Inr _ \<Rightarrow> Inr m)))"

definition ObjectPath :: "manifest \<Rightarrow> gfile \<Rightarrow> string" where
  "ObjectPath m f = GenPrefix @ m_generation_id m @ ''/'' @ f_path f"

definition manifest_file :: "manifest \<Rightarrow> string \<Rightarrow> gfile option" where
  "manifest_file m p =
     (let i = sort_search (length (m_files m)) (\<lambda>i. f_path (m_files m ! i) \<ge> p)
      in if i < length (m_files m) \<and> f_path (m_files m ! i) = p then Some (m_files m ! i) else None)"

definition NewFile :: "(string \<Rightarrow> string) \<Rightarrow> string \<Rightarrow> string \<Rightarrow> int \<Rightarrow> manifest_error + gfile" where
  "NewFile sha256 path data objectGeneration =
     (if \<not> GenerationOwned path \<or> objectGeneration \<le> 0 then Inl InvalidGenerationOutput
      else Inr \<lparr>f_path = path, f_size = int (length data), f_sha256 = sha256 data,
                f_generation = objectGeneration\<rparr>)"

text \<open>
  \<open>json.Marshal\<close> of a manifest, by its struct tags: fields in declaration order,
  \<open>previous_generation_id\<close> left out when empty, a nil slice of files as \<open>null\<close>.
\<close>

definition file_to_json :: "gfile \<Rightarrow> json" where
  "file_to_json f = JObj [(''path'', JStr (f_path f)), (''size'', JInt (f_size f)),
     (''sha256'', JStr (f_sha256 f)), (''generation'', JInt (f_generation f))]"

definition manifest_to_json :: "manifest \<Rightarrow> json" where
  "manifest_to_json m = JObj
     ([(''version'', JInt (m_version m)), (''generation_id'', JStr (m_generation_id m))] @
      (if m_previous m = '''' then [] else [(''previous_generation_id'', JStr (m_previous m))]) @
      [(''created_at'', JStr (m_created_at m)), (''input_fingerprint'', JStr (m_input_fingerprint m)),
       (''files'', if m_files m = [] then JNull else JArr (map file_to_json (m_files m)))])"

section \<open>What validation guarantees\<close>

definition file_ok :: "gfile \<Rightarrow> bool" where
  "file_ok f \<longleftrightarrow> GenerationOwned (f_path f) \<and> 0 \<le> f_size f \<and> f_size f \<le> MaxFileBytes \<and>
     0 < f_generation f \<and> validDigest (f_sha256 f)"

lemma validate_files_iff:
  "tot \<le> MaxTotalSize \<Longrightarrow> validate_files tot prev fs \<longleftrightarrow>
     list_all file_ok fs \<and> sorted_wrt (<) (prev # map f_path fs) \<and>
     tot + sum_list (map f_size fs) \<le> MaxTotalSize"
proof (induction tot prev fs rule: validate_files.induct)
  case (1 tot prev)
  then show ?case by simp
next
  case (2 tot prev f fs)
  show ?case
  proof (cases "file_ok f \<and> prev < f_path f \<and> tot + f_size f \<le> MaxTotalSize")
    case True
    then have cond: "\<not> (\<not> GenerationOwned (f_path f) \<or> f_path f \<le> prev \<or> f_size f < 0 \<or> f_size f > MaxFileBytes
         \<or> f_generation f \<le> 0 \<or> \<not> validDigest (f_sha256 f))" "\<not> tot > MaxTotalSize - f_size f"
      by (auto simp: file_ok_def)
    note IH = "2.IH" [OF cond]
    have "validate_files tot prev (f # fs) = validate_files (tot + f_size f) (f_path f) fs"
      using cond by simp
    also have "\<dots> \<longleftrightarrow> list_all file_ok fs \<and> sorted_wrt (<) (f_path f # map f_path fs) \<and>
       tot + f_size f + sum_list (map f_size fs) \<le> MaxTotalSize"
      using True by (intro IH) simp
    finally show ?thesis using True by (auto intro: less_trans)
  next
    case False
    have sizes: "list_all file_ok fs \<Longrightarrow> 0 \<le> sum_list (map f_size fs)"
      by (auto simp: list_all_iff file_ok_def intro!: sum_list_nonneg)
    have "\<not> validate_files tot prev (f # fs)"
      using False by (auto simp: file_ok_def not_less)
    moreover have "\<not> (list_all file_ok (f # fs) \<and> sorted_wrt (<) (prev # map f_path (f # fs)) \<and>
       tot + sum_list (map f_size (f # fs)) \<le> MaxTotalSize)"
      using False sizes by auto
    ultimately show ?thesis by blast
  qed
qed

lemma Validate_ok_iff:
  "Validate rfc3339 m = Inr () \<longleftrightarrow>
     m_version m = ManifestVersion \<and> safeGenerationID (m_generation_id m) \<and>
     (m_previous m = '''' \<or> safeGenerationID (m_previous m)) \<and>
     rfc3339 (m_created_at m) \<noteq> None \<and> trim_space (m_input_fingerprint m) \<noteq> '''' \<and>
     length (m_files m) \<le> MaxFiles \<and> list_all file_ok (m_files m) \<and>
     sorted_wrt (<) ('''' # map f_path (m_files m)) \<and>
     sum_list (map f_size (m_files m)) \<le> MaxTotalSize"
proof -
  have "0 \<le> MaxTotalSize" by (simp add: MaxTotalSize_def)
  from validate_files_iff [OF this, of "''''" "m_files m"] show ?thesis
    by (auto simp: Validate_def)
qed

lemma Decode_valid: "Decode rfc3339 parse data = Inr m \<Longrightarrow> Validate rfc3339 m = Inr ()"
  by (auto simp: Decode_def split: if_splits sum.splits)

lemma Validate_result: "Validate rfc3339 m = Inr () \<or> Validate rfc3339 m = Inl InvalidManifest"
  by (simp add: Validate_def)

text \<open>
  C20. Validation is exact: a manifest passes if and only if its header is well formed and its
  file table is bounded, strictly sorted by path, made of owned paths with non-negative bounded
  sizes, positive generations and 64-digit digests, and adds up to at most the total budget.
  The running total of the loop therefore never leaves the range of \<open>int64\<close>.
\<close>

theorem Validate_exact:
  "Validate rfc3339 m = Inr () \<longleftrightarrow>
     (m_version m = 1 \<and> safeGenerationID (m_generation_id m) \<and>
      (m_previous m = '''' \<or> safeGenerationID (m_previous m)) \<and>
      rfc3339 (m_created_at m) \<noteq> None \<and> trim_space (m_input_fingerprint m) \<noteq> '''' \<and>
      length (m_files m) \<le> 10000 \<and> list_all file_ok (m_files m) \<and>
      sorted_wrt (<) ('''' # map f_path (m_files m)) \<and>
      sum_list (map f_size (m_files m)) \<le> 536870912)"
  unfolding Validate_ok_iff by (simp add: ManifestVersion_def MaxFiles_def MaxTotalSize_def)

section \<open>Lookup\<close>

lemma manifest_file_correct:
  assumes sorted: "sorted_wrt (<) (map f_path (m_files m))"
  shows "manifest_file m p = Some f \<longleftrightarrow> f \<in> set (m_files m) \<and> f_path f = p"
proof -
  let ?fs = "m_files m" and ?n = "length (m_files m)"
  let ?P = "\<lambda>i. f_path (?fs ! i) \<ge> p"
  let ?i = "sort_search ?n ?P"
  have path_less: "f_path (?fs ! a) < f_path (?fs ! b)" if "a < b" "b < ?n" for a b
    using sorted that by (simp add: sorted_wrt_map sorted_wrt_iff_nth_less)
  have mono: "?P b" if "a \<le> b" "b < ?n" "?P a" for a b
    using that path_less [of a b] by (cases "a = b") auto
  have s: "\<forall>k < ?i. \<not> ?P k" "?i \<le> ?n" "?i < ?n \<longrightarrow> ?P ?i"
    using sort_search_correct [of ?n ?P] mono by blast+
  have at: "j = ?i" if "j < ?n" "f_path (?fs ! j) = p" for j
  proof (rule ccontr)
    assume "j \<noteq> ?i"
    moreover have "\<not> j < ?i" using s(1) that by auto
    ultimately have lt: "?i < j" by simp
    then have "?P ?i" using s(3) that by simp
    with path_less [OF lt] that show False by simp
  qed
  show ?thesis
  proof
    assume "manifest_file m p = Some f"
    then have i: "?i < ?n" "?fs ! ?i = f" "f_path f = p"
      by (auto simp: manifest_file_def Let_def split: if_splits)
    from nth_mem [OF i(1)] i show "f \<in> set ?fs \<and> f_path f = p" by simp
  next
    assume f: "f \<in> set ?fs \<and> f_path f = p"
    then obtain j where j: "j < ?n" "?fs ! j = f" by (auto simp: in_set_conv_nth)
    with f at have "j = ?i" by simp
    with j f show "manifest_file m p = Some f" by (simp add: manifest_file_def Let_def)
  qed
qed

text \<open>
  In a manifest that passes validation the binary search of \<open>Manifest.File\<close> finds exactly
  the row with the given path: it misses no row and returns no other.
\<close>

theorem manifest_file_complete:
  assumes "Validate rfc3339 m = Inr ()"
  shows "manifest_file m p = Some f \<longleftrightarrow> f \<in> set (m_files m) \<and> f_path f = p"
  using assms by (intro manifest_file_correct) (simp add: Validate_ok_iff)

section \<open>Confinement\<close>

definition path_parts :: "string \<Rightarrow> string list" where
  "path_parts p = split_on (CHR ''/'') p"

definition part_safe :: "string \<Rightarrow> bool" where
  "part_safe w \<longleftrightarrow> w \<noteq> '''' \<and> w \<noteq> ''.'' \<and> w \<noteq> ''..''"

lemma split_on_infix: "w \<in> set (split_on d s) \<Longrightarrow> \<exists>a b. s = a @ w @ b"
proof (induction s arbitrary: w)
  case Nil
  then show ?case by simp
next
  case (Cons c s)
  show ?case
  proof (cases "c = d")
    case True
    with Cons.prems consider "w = []" | "w \<in> set (split_on d s)" by auto
    then show ?thesis
    proof cases
      case 1
      then have "c # s = [] @ w @ (c # s)" by simp
      then show ?thesis by blast
    next
      case 2
      with Cons.IH obtain a b where "c # s = (c # a) @ w @ b" by fastforce
      then show ?thesis by blast
    qed
  next
    case False
    obtain v vs where vs: "split_on d s = v # vs" by (cases "split_on d s") auto
    then have "s = v @ drop (length v) s"
      using join_split [of d s] by (cases vs) auto
    with Cons.prems False vs consider "w = c # v" | "w \<in> set (split_on d s)" by auto
    then show ?thesis
    proof cases
      case 1
      with \<open>s = v @ drop (length v) s\<close> have "c # s = [] @ w @ drop (length v) s" by simp
      then show ?thesis by blast
    next
      case 2
      with Cons.IH obtain a b where "c # s = (c # a) @ w @ b" by fastforce
      then show ?thesis by blast
    qed
  qed
qed

lemma safePath_parts:
  assumes s: "safePath p" and dot: "p \<noteq> ''.''"
  shows "list_all part_safe (path_parts p)"
  unfolding list_all_iff path_parts_def
proof
  fix w assume w: "w \<in> set (split_on (CHR ''/'') p)"
  have "w \<noteq> '''' \<and> w \<noteq> ''.''"
    by (rule clean_relative_parts [OF _ _ dot w]) (use s in \<open>simp_all add: safePath_def\<close>)
  moreover have "w \<noteq> ''..''"
  proof
    assume "w = ''..''"
    then have "contains p ''..''" using split_on_infix [OF w] by (auto simp: contains_iff)
    then show False using s by (simp add: safePath_def)
  qed
  ultimately show "part_safe w" by (simp add: part_safe_def)
qed

lemma owned_files_parts: "list_all (\<lambda>p. list_all part_safe (path_parts p)) owned_files"
  by code_simp

lemma GenerationOwned_parts:
  assumes "GenerationOwned p"
  shows "list_all part_safe (path_parts p)"
proof (cases "has_prefix p ''wiki/''")
  case True
  then have "p \<noteq> ''.''" by (auto simp: has_prefix_def)
  with True assms show ?thesis by (auto simp: GenerationOwned_def intro: safePath_parts)
next
  case False
  with assms have "p \<in> set owned_files" by (simp add: GenerationOwned_def)
  then show ?thesis using owned_files_parts by (simp add: list_all_iff)
qed

lemma safeGenerationID_no_slash:
  assumes "safeGenerationID i"
  shows "CHR ''/'' \<notin> set i" and "part_safe i"
proof -
  have "\<not> id_char (CHR ''/'')" by code_simp
  then show "CHR ''/'' \<notin> set i" using assms by (auto simp: safeGenerationID_def list_all_iff)
  show "part_safe i" using assms by (auto simp: safeGenerationID_def part_safe_def)
qed

lemma path_parts_append_sep: "path_parts (a @ CHR ''/'' # b) = path_parts a @ path_parts b"
  unfolding path_parts_def by (rule split_on_append_sep)

lemma ObjectPath_parts:
  assumes "safeGenerationID (m_generation_id m)"
  shows "path_parts (ObjectPath m f) =
    [''.lwc'', ''publish'', ''generations'', m_generation_id m] @ path_parts (f_path f)"
proof -
  have "ObjectPath m f = ''.lwc/publish/generations'' @ CHR ''/'' # m_generation_id m @ CHR ''/'' # f_path f"
    by (simp add: ObjectPath_def GenPrefix_def)
  moreover have "path_parts ''.lwc/publish/generations'' = [''.lwc'', ''publish'', ''generations'']"
    by code_simp
  moreover have "path_parts (m_generation_id m) = [m_generation_id m]"
    using safeGenerationID_no_slash [OF assms] by (simp add: path_parts_def split_on_no_sep)
  ultimately show ?thesis by (simp only: path_parts_append_sep) simp
qed

text \<open>
  Confinement: every object path of a valid manifest consists of the generation's own
  directory followed by the parts of the file's path, and no part is empty, \<open>.\<close> or \<open>..\<close>: a
  manifest cannot name an object outside its generation.
\<close>

theorem ObjectPath_confined:
  assumes "Validate rfc3339 m = Inr ()" and "f \<in> set (m_files m)"
  shows "path_parts (ObjectPath m f) =
           [''.lwc'', ''publish'', ''generations'', m_generation_id m] @ path_parts (f_path f) \<and>
         list_all part_safe (path_parts (ObjectPath m f))"
proof -
  from assms have i: "safeGenerationID (m_generation_id m)" and "GenerationOwned (f_path f)"
    by (auto simp: Validate_ok_iff list_all_iff file_ok_def)
  then have "list_all part_safe (path_parts (f_path f))" by (intro GenerationOwned_parts)
  then show ?thesis
    unfolding ObjectPath_parts [OF i] using safeGenerationID_no_slash [OF i] by (simp add: part_safe_def)
qed

section \<open>Round trip\<close>

lemma decode_file_to_json:
  assumes "in_int64 (f_size f)" and "in_int64 (f_generation f)"
  shows "decodeManifestFile (file_to_json f) = Inr f"
  using assms
  by (simp add: file_to_json_def decode_file_field_def zero_file_def first_missing_def)

lemma decode_files_to_json:
  "\<forall>f \<in> set fs. in_int64 (f_size f) \<and> in_int64 (f_generation f) \<Longrightarrow>
   length acc + length fs \<le> MaxFiles \<Longrightarrow>
     decode_files_loop acc (map file_to_json fs) = Inr (acc @ fs)"
proof (induction fs arbitrary: acc)
  case Nil
  then show ?case by simp
next
  case (Cons f fs)
  then show ?case by (simp add: decode_file_to_json del: decodeManifestFile.simps)
qed

lemma decodeManifestStrict_to_json:
  assumes files: "m_files m \<noteq> []" "length (m_files m) \<le> MaxFiles"
    and ints: "in_int64 (m_version m)"
      "\<forall>f \<in> set (m_files m). in_int64 (f_size f) \<and> in_int64 (f_generation f)"
  shows "decodeManifestStrict [Some (manifest_to_json m)] = Inr m"
proof -
  have fs: "decode_files_loop [] (map file_to_json (m_files m)) = Inr (m_files m)"
    using decode_files_to_json [of "m_files m" "[]"] files ints by simp
  show ?thesis
    unfolding decodeManifestStrict_def manifest_to_json_def
    using files ints(1)
    by (simp add: decode_manifest_field_def fs zero_manifest_def first_missing_def manifest_required_def)
qed

lemma marshal_decodes:
  assumes valid: "Validate rfc3339 m = Inr ()" and files: "m_files m \<noteq> []"
    and gens: "\<forall>f \<in> set (m_files m). in_int64 (f_generation f)"
    and size: "length (marshal (manifest_to_json m)) \<le> MaxManifestBytes"
    and lexer: "parse (marshal (manifest_to_json m)) = [Some (manifest_to_json m)]"
  shows "Decode rfc3339 parse (marshal (manifest_to_json m)) = Inr m"
proof -
  have "in_int64 (f_size f)" if "f \<in> set (m_files m)" for f
    using valid that
    by (auto simp: Validate_ok_iff list_all_iff file_ok_def MaxFileBytes_def in_int64_def dest!: bspec)
  moreover have "in_int64 (m_version m)"
    using valid by (simp add: Validate_ok_iff ManifestVersion_def in_int64_def)
  ultimately have "decodeManifestStrict [Some (manifest_to_json m)] = Inr m"
    using files gens valid by (intro decodeManifestStrict_to_json) (auto simp: Validate_ok_iff)
  then show ?thesis using size valid lexer by (simp add: Decode_def)
qed

text \<open>
  C23. Round trip: a valid manifest with at least one file, serialised by \<open>json.Marshal\<close> within
  the size limit and read back, is decoded to the same manifest. The serialiser and the lexer
  are parameters; the hypothesis is that the lexer reads this one document back.
\<close>

theorem Decode_marshal_roundtrip:
  assumes valid: "Validate rfc3339 m = Inr ()" and files: "m_files m \<noteq> []"
    and gens: "\<forall>f \<in> set (m_files m). in_int64 (f_generation f)"
    and size: "length (marshal (manifest_to_json m)) \<le> MaxManifestBytes"
    and lexer: "parse (marshal (manifest_to_json m)) = [Some (manifest_to_json m)]"
  shows "Decode rfc3339 parse (marshal (manifest_to_json m)) = Inr m"
  by (rule marshal_decodes [where marshal = marshal and parse = parse and m = m, OF assms])

definition sample_digest :: string where
  "sample_digest = replicate 64 (CHR ''a'')"

definition sample_manifest :: manifest where
  "sample_manifest =
     \<lparr>m_version = 1, m_generation_id = ''g_012345'', m_previous = '''', m_created_at = ''t'',
      m_input_fingerprint = ''fp'',
      m_files = [\<lparr>f_path = ''cache/id_map.json'', f_size = 7, f_sha256 = sample_digest, f_generation = 3\<rparr>,
                 \<lparr>f_path = ''wiki/a.md'', f_size = 0, f_sha256 = sample_digest, f_generation = 4\<rparr>]\<rparr>"

lemma sample_manifest_valid: "Validate (\<lambda>_. Some 0) sample_manifest = Inr ()"
  by code_simp

lemma Decode_marshal_roundtrip_witness:
  "Decode (\<lambda>_. Some 0) (\<lambda>_. [Some (manifest_to_json sample_manifest)]) ''{}'' = Inr sample_manifest"
  by (rule Decode_marshal_roundtrip [where marshal = "\<lambda>_. ''{}''"])
    (use sample_manifest_valid in \<open>simp_all add: sample_manifest_def in_int64_def MaxManifestBytes_def\<close>)

lemma manifest_file_complete_witness:
  "manifest_file sample_manifest ''wiki/a.md'' =
     Some \<lparr>f_path = ''wiki/a.md'', f_size = 0, f_sha256 = sample_digest, f_generation = 4\<rparr>"
  by (subst manifest_file_complete [OF sample_manifest_valid]) (simp add: sample_manifest_def)

lemma ObjectPath_confined_witness:
  "list_all part_safe (path_parts (ObjectPath sample_manifest (m_files sample_manifest ! 1)))"
proof -
  have "m_files sample_manifest ! 1 \<in> set (m_files sample_manifest)"
    by (rule nth_mem) (simp add: sample_manifest_def)
  from ObjectPath_confined [OF sample_manifest_valid this] show ?thesis by (rule conjunct2)
qed

section \<open>Strictness\<close>

definition manifest_fields :: "string list" where
  "manifest_fields = ''previous_generation_id'' # manifest_required"

lemma decode_manifest_field_known:
  "decode_manifest_field name v m = Inr m' \<Longrightarrow> name \<in> set manifest_fields"
  by (simp add: decode_manifest_field_def manifest_fields_def manifest_required_def split: if_splits)

lemma decode_manifest_loop_ok:
  "decode_manifest_loop seen m kvs = Inr (seen', m') \<Longrightarrow>
     set seen' = set seen \<union> fst ` set kvs \<and> distinct (map fst kvs) \<and>
     set seen \<inter> fst ` set kvs = {} \<and> fst ` set kvs \<subseteq> set manifest_fields"
proof (induction seen m kvs rule: decode_manifest_loop.induct)
  case (1 seen m)
  then show ?case by simp
next
  case (2 seen m name v kvs)
  from "2.prems" obtain m1 where fresh: "name \<notin> set seen"
    and d: "decode_manifest_field name v m = Inr m1"
    and rec: "decode_manifest_loop (name # seen) m1 kvs = Inr (seen', m')"
    by (auto split: if_splits sum.splits)
  from "2.IH" [OF fresh d rec] have ih: "set seen' = set (name # seen) \<union> fst ` set kvs"
    "distinct (map fst kvs)" "set (name # seen) \<inter> fst ` set kvs = {}"
    "fst ` set kvs \<subseteq> set manifest_fields" by blast+
  with fresh decode_manifest_field_known [OF d] show ?case by auto
qed

lemma first_missing_None: "first_missing required seen = None \<longleftrightarrow> set required \<subseteq> set seen"
  by (auto simp: first_missing_def find_None_iff)

lemma decodeManifestStrict_ok:
  assumes "decodeManifestStrict dec = Inr m"
  shows "\<exists>kvs. dec = [Some (JObj kvs)] \<and> distinct (map fst kvs) \<and>
           set manifest_required \<subseteq> fst ` set kvs \<and> fst ` set kvs \<subseteq> set manifest_fields"
proof -
  from assms obtain kvs rest where sv: "stream_value dec = Inr (JObj kvs, rest)"
    by (auto simp: decodeManifestStrict_def split: sum.splits prod.splits json.splits)
  with assms obtain seen where loop: "decode_manifest_loop [] zero_manifest kvs = Inr (seen, m)"
    and req: "first_missing manifest_required seen = None" and eof: "EnsureJSONEOF rest = Inr ()"
    by (auto simp: decodeManifestStrict_def split: sum.splits prod.splits option.splits)
  have "rest = []" using eof by (cases rest rule: EnsureJSONEOF.cases) auto
  moreover have "dec = Some (JObj kvs) # rest" using sv by (cases dec rule: stream_value.cases) auto
  ultimately show ?thesis
    using decode_manifest_loop_ok [OF loop] req by (auto simp: first_missing_None)
qed

text \<open>
  C19. Strictness: whatever the bytes are, a manifest the reader delivers came from exactly one
  JSON object with nothing after it, whose fields are distinct, all known, and include every
  required one; it fits the size limit and passes validation. Any other input is an error.
\<close>

theorem Decode_strict:
  "case Decode rfc3339 parse data of
     Inl e \<Rightarrow> e = ManifestExceedsLimit \<or> e = InvalidManifest
   | Inr m \<Rightarrow> length data \<le> MaxManifestBytes \<and> Validate rfc3339 m = Inr () \<and>
       (\<exists>kvs. parse data = [Some (JObj kvs)] \<and> distinct (map fst kvs) \<and>
          set manifest_required \<subseteq> fst ` set kvs \<and> fst ` set kvs \<subseteq> set manifest_fields)"
proof (cases "Decode rfc3339 parse data")
  case (Inl e)
  then show ?thesis
    using Validate_result by (auto simp: Decode_def split: if_splits sum.splits) (metis Inl_inject sum.distinct(1))
next
  case (Inr m)
  then have "length data \<le> MaxManifestBytes" "decodeManifestStrict (parse data) = Inr m"
    "Validate rfc3339 m = Inr ()"
    by (auto simp: Decode_def split: if_splits sum.splits)
  with decodeManifestStrict_ok Inr show ?thesis by simp
qed

end
