(* ===== verification/ObjectStore.thy ===== *)
theory ObjectStore
  imports Manifest
begin

text \<open>
  The object store boundary of the cloud worker (\<open>cmd/olw_worker/cloud_publish.go\<close>): error
  values and \<open>errors.Is\<close>, the \<open>objectStore\<close> interface as a record of operations over a world
  type, the decisions of its production implementation \<open>cloudObjectStore\<close> over the results of
  the storage SDK, and its in-memory implementation \<open>memoryObjects\<close> (\<open>cloud_publish_test.go\<close>).
  The locale \<open>object_store\<close> states what the worker relies on; \<open>memoryObjects\<close> interprets it.
\<close>

section \<open>Errors\<close>

text \<open>
  The package-level error variables, the errors of the SDK, and the ways to wrap an error:
  \<open>annotatedError\<close> (a stable public error over a cause), \<open>fmt.Errorf\<close> with \<open>%w\<close>, \<open>errors.Join\<close>,
  \<open>workerFailure\<close> (stage, class, child command and exit code over a cause),
  \<open>conceptReconciliationFailure\<close> (a detail code over a cause) and \<open>exec.ExitError\<close>.
\<close>

datatype sentinel =
    errObjectGenerationConflict | errObjectNotFound | storageErrObjectNotExist
  | errManifestCommitOutcomeUnknown | errCloudFailureRecording | errCloudPipelineLogRecording
  | errCloudSourceStatusRecording | errCloudPipelineExecution | errCloudPipelinePublish
  | errCloudMaterialization | errCloudCommittedReceipt | errCloudCleanup | errCloudCommittedCleanup
  | errCloudLeaseUnavailable | errCloudLeaseHeld | errCloudWorkspaceUnavailable
  | errCloudWorkerInputInvalid | errCloudWorkerConfigInvalid | errCloudObjectRead
  | errCloudSourceStatusInvalid | errCloudSourceReceiptInvalid | errCloudSourceReceiptRead
  | errCloudSourceReceiptWrite | errCloudSourceReceiptConflict | errCloudGenerationOutputRead
  | errCloudGenerationUpload | ErrLeaseCleanup | wikiindexErrNotFound
  | contextDeadlineExceeded | contextCanceled
  | storeErrObjectNotExist | ErrGenerationMismatch | ErrGenerationManaged | ErrGenerationStateUnavailable
  | ErrDeclaredObjectUnavailable

datatype gerr =
    Sentinel sentinel
  | Msg string
  | APIError int
  | Annotated gerr gerr
  | Wrapped string gerr
  | RecordingError bool bool bool
  | Joined "gerr list"
  | WorkerFailure string string string "int option" gerr
  | ConceptFailure string gerr
  | ExitError int

fun errors_is :: "gerr \<Rightarrow> sentinel \<Rightarrow> bool" where
  "errors_is (Sentinel s) target = (s = target)"
| "errors_is (Msg m) target = False"
| "errors_is (APIError c) target = False"
| "errors_is (Annotated public cause) target = (errors_is public target \<or> errors_is cause target)"
| "errors_is (Wrapped m e) target = errors_is e target"
| "errors_is (RecordingError pipelineLog sourceStatus failureDiagnostic) target =
     (target = errCloudFailureRecording \<or> target = errCloudPipelineLogRecording \<and> pipelineLog \<or>
      target = errCloudSourceStatusRecording \<and> sourceStatus)"
| "errors_is (Joined es) target = list_ex (\<lambda>e. errors_is e target) es"
| "errors_is (WorkerFailure stage cls child exit cause) target = errors_is cause target"
| "errors_is (ConceptFailure detail cause) target = errors_is cause target"
| "errors_is (ExitError code) target = False"

text \<open>\<open>errors.As\<close> for \<open>*googleapi.Error\<close>: the first API error of the tree, depth first.\<close>

fun errors_as_api :: "gerr \<Rightarrow> int option" and errors_as_api_list :: "gerr list \<Rightarrow> int option" where
  "errors_as_api (APIError c) = Some c"
| "errors_as_api (Annotated public cause) = errors_as_api cause"
| "errors_as_api (Wrapped m e) = errors_as_api e"
| "errors_as_api (Joined es) = errors_as_api_list es"
| "errors_as_api (Sentinel s) = None"
| "errors_as_api (Msg m) = None"
| "errors_as_api (RecordingError a b c) = None"
| "errors_as_api (WorkerFailure stage cls child exit cause) = errors_as_api cause"
| "errors_as_api (ConceptFailure detail cause) = errors_as_api cause"
| "errors_as_api (ExitError code) = None"
| "errors_as_api_list [] = None"
| "errors_as_api_list (e # es) =
     (case errors_as_api e of Some c \<Rightarrow> Some c | None \<Rightarrow> errors_as_api_list es)"

fun annotateError :: "gerr option \<Rightarrow> gerr option \<Rightarrow> gerr option" where
  "annotateError None cause = cause"
| "annotateError (Some public) None = Some public"
| "annotateError (Some public) (Some cause) = Some (Annotated public cause)"

abbreviation annotate :: "sentinel \<Rightarrow> gerr \<Rightarrow> gerr" where
  "annotate public cause \<equiv> Annotated (Sentinel public) cause"

fun normalizeObjectPrecondition :: "gerr option \<Rightarrow> gerr option" where
  "normalizeObjectPrecondition None = None"
| "normalizeObjectPrecondition (Some err) =
     (if errors_is err storageErrObjectNotExist then annotateError (Some (Sentinel errObjectNotFound)) (Some err)
      else (case errors_as_api err of
              Some code \<Rightarrow>
                (if code = 404 then annotateError (Some (Sentinel errObjectNotFound)) (Some err)
                 else if code = 412 then annotateError (Some (Sentinel errObjectGenerationConflict)) (Some err)
                 else Some err)
            | None \<Rightarrow> Some err))"

definition isObjectNotFound :: "gerr \<Rightarrow> bool" where
  "isObjectNotFound e \<longleftrightarrow> errors_is e errObjectNotFound \<or> errors_is e storageErrObjectNotExist"

definition isObjectGenerationConflict :: "gerr \<Rightarrow> bool" where
  "isObjectGenerationConflict e \<longleftrightarrow> errors_is e errObjectGenerationConflict"

lemma annotateError_is:
  "annotateError public cause = Some e \<Longrightarrow>
     errors_is e t \<longleftrightarrow> (\<exists>p. public = Some p \<and> errors_is p t) \<or> (\<exists>c. cause = Some c \<and> errors_is c t)"
  by (cases "(public, cause)" rule: annotateError.cases) auto

section \<open>The interface\<close>

record objectConditions =
  DoesNotExist :: bool
  GenerationMatch :: int

record objectAttrs =
  a_name :: string
  a_generation :: int
  a_size :: int
  a_metadata :: "(string, string) gomap"

record 'w objectStore =
  st_read :: "string \<Rightarrow> int \<Rightarrow> int \<Rightarrow> 'w \<Rightarrow> (gerr + (string \<times> objectAttrs)) \<times> 'w"
  st_list :: "string \<Rightarrow> int \<Rightarrow> 'w \<Rightarrow> (gerr + objectAttrs list) \<times> 'w"
  st_write :: "string \<Rightarrow> string \<Rightarrow> (string, string) gomap \<Rightarrow> objectConditions \<Rightarrow> 'w \<Rightarrow> (gerr + objectAttrs) \<times> 'w"
  st_delete :: "string \<Rightarrow> int \<Rightarrow> 'w \<Rightarrow> gerr option \<times> 'w"

abbreviation createOnly :: objectConditions where
  "createOnly \<equiv> \<lparr>DoesNotExist = True, GenerationMatch = 0\<rparr>"

abbreviation matchGeneration :: "int \<Rightarrow> objectConditions" where
  "matchGeneration g \<equiv> \<lparr>DoesNotExist = False, GenerationMatch = g\<rparr>"

abbreviation unconditional :: objectConditions where
  "unconditional \<equiv> \<lparr>DoesNotExist = False, GenerationMatch = 0\<rparr>"

section \<open>The production store over the SDK\<close>

text \<open>
  \<open>cloudObjectStore\<close>: \<open>ensure\<close> is the error of creating the client, if any, and each SDK call is
  a parameter whose result the code inspects. A reader has the size and generation of the object,
  what \<open>io.ReadAll\<close> would read from it, and the error of closing it.
\<close>

record sdk_reader =
  r_size :: int
  r_generation :: int
  r_body :: "gerr + string"
  r_close :: "gerr option"

datatype sdk_precondition = NoPrecondition | IfDoesNotExist | IfGenerationMatch int

definition objectExceedsLimit :: gerr where
  "objectExceedsLimit = Msg ''object exceeds input limit''"

definition listExceedsLimit :: gerr where
  "listExceedsLimit = Msg ''object list exceeds limit''"

definition normalized :: "gerr \<Rightarrow> gerr" where
  "normalized e = the (normalizeObjectPrecondition (Some e))"

definition cloud_Read ::
  "gerr option \<Rightarrow> (string \<Rightarrow> int option \<Rightarrow> 'w \<Rightarrow> (gerr + sdk_reader) \<times> 'w)
   \<Rightarrow> string \<Rightarrow> int \<Rightarrow> int \<Rightarrow> 'w \<Rightarrow> (gerr + (string \<times> objectAttrs)) \<times> 'w" where
  "cloud_Read ensure newReader name objectGeneration limit w =
     (case ensure of
        Some e \<Rightarrow> (Inl e, w)
      | None \<Rightarrow>
          (case newReader name (if objectGeneration > 0 then Some objectGeneration else None) w of
             (Inl e, w') \<Rightarrow> (Inl (normalized e), w')
           | (Inr r, w') \<Rightarrow>
               (if limit < 0 \<or> r_size r < 0 \<or> r_size r > limit then (Inl objectExceedsLimit, w')
                else (case r_body r of
                        Inl e \<Rightarrow> (Inl e, w')
                      | Inr body \<Rightarrow>
                          (let b = take (nat (limit + 1)) body
                           in case r_close r of
                                Some e \<Rightarrow> (Inl e, w')
                              | None \<Rightarrow>
                                  (if int (length b) \<noteq> r_size r \<or> int (length b) > limit then (Inl objectExceedsLimit, w')
                                   else (Inr (b, \<lparr>a_name = name, a_generation = r_generation r,
                                                  a_size = r_size r, a_metadata = []\<rparr>), w')))))))"

text \<open>
  The listing loop: the iterator delivers attributes, an error, or \<open>Done\<close> (the end of the list).
\<close>

fun cloud_list_loop :: "int \<Rightarrow> (gerr + objectAttrs) list \<Rightarrow> objectAttrs list \<Rightarrow> int \<Rightarrow> gerr + objectAttrs list" where
  "cloud_list_loop mx [] out totalSize = Inr out"
| "cloud_list_loop mx (Inl e # it) out totalSize = Inl (normalized e)"
| "cloud_list_loop mx (Inr a # it) out totalSize =
     (if int (length out) = mx then Inl listExceedsLimit
      else if a_size a < 0 \<or> a_size a > MaxTotalSize \<or> totalSize > MaxTotalSize - a_size a then Inl listExceedsLimit
      else cloud_list_loop mx it (out @ [a]) (totalSize + a_size a))"

definition cloud_List ::
  "gerr option \<Rightarrow> (string \<Rightarrow> 'w \<Rightarrow> (gerr + objectAttrs) list \<times> 'w)
   \<Rightarrow> string \<Rightarrow> int \<Rightarrow> 'w \<Rightarrow> (gerr + objectAttrs list) \<times> 'w" where
  "cloud_List ensure objects prefix mx w =
     (case ensure of
        Some e \<Rightarrow> (Inl e, w)
      | None \<Rightarrow>
          (if mx < 0 then (Inl (Msg ''invalid object list limit''), w)
           else (case objects prefix w of (it, w') \<Rightarrow> (cloud_list_loop mx it [] 0, w'))))"

definition sdk_condition :: "objectConditions \<Rightarrow> sdk_precondition" where
  "sdk_condition c =
     (if DoesNotExist c then IfDoesNotExist
      else if GenerationMatch c > 0 then IfGenerationMatch (GenerationMatch c) else NoPrecondition)"

definition cloud_Write ::
  "gerr option \<Rightarrow> (string \<Rightarrow> sdk_precondition \<Rightarrow> (string, string) gomap \<Rightarrow> string \<Rightarrow> 'w \<Rightarrow> (gerr + objectAttrs) \<times> 'w)
   \<Rightarrow> string \<Rightarrow> string \<Rightarrow> (string, string) gomap \<Rightarrow> objectConditions \<Rightarrow> 'w \<Rightarrow> (gerr + objectAttrs) \<times> 'w" where
  "cloud_Write ensure upload name data metadata condition w =
     (case ensure of
        Some e \<Rightarrow> (Inl e, w)
      | None \<Rightarrow>
          (case upload name (sdk_condition condition) metadata data w of
             (Inl e, w') \<Rightarrow> (Inl (normalized e), w')
           | (Inr a, w') \<Rightarrow> (Inr (a\<lparr>a_name := name\<rparr>), w')))"

definition cloud_Delete ::
  "gerr option \<Rightarrow> (string \<Rightarrow> sdk_precondition \<Rightarrow> 'w \<Rightarrow> gerr option \<times> 'w) \<Rightarrow> string \<Rightarrow> int \<Rightarrow> 'w \<Rightarrow> gerr option \<times> 'w" where
  "cloud_Delete ensure remove name objectGeneration w =
     (case ensure of
        Some e \<Rightarrow> (Some e, w)
      | None \<Rightarrow>
          (case remove name (if objectGeneration > 0 then IfGenerationMatch objectGeneration else NoPrecondition) w of
             (r, w') \<Rightarrow> (normalizeObjectPrecondition r, w')))"

lemma normalizeObjectPrecondition_Some:
  "\<exists>e'. normalizeObjectPrecondition (Some e) = Some e'"
  by (auto split: option.splits)

lemma cloud_list_loop_ok:
  "cloud_list_loop mx it out tot = Inr res \<Longrightarrow> 0 \<le> mx \<Longrightarrow> int (length out) \<le> mx \<Longrightarrow> tot \<le> MaxTotalSize \<Longrightarrow>
   tot = sum_list (map a_size out) \<Longrightarrow> list_all (\<lambda>a. 0 \<le> a_size a) out \<Longrightarrow>
     int (length res) \<le> mx \<and> sum_list (map a_size res) \<le> MaxTotalSize \<and> list_all (\<lambda>a. 0 \<le> a_size a) res"
proof (induction mx it out tot rule: cloud_list_loop.induct)
  case (3 mx a it out tot)
  then have "int (length out) \<noteq> mx" "\<not> (a_size a < 0 \<or> a_size a > MaxTotalSize \<or> tot > MaxTotalSize - a_size a)"
    "cloud_list_loop mx it (out @ [a]) (tot + a_size a) = Inr res"
    by (auto split: if_splits)
  with 3 show ?case by (intro "3.IH") auto
qed auto

text \<open>
  The production listing is bounded: it fails, or returns at most the requested number of
  objects, with non-negative sizes that add up to at most the total budget of a generation.
\<close>

theorem cloud_List_bounded:
  "case fst (cloud_List ensure objects prefix mx w) of
     Inl e \<Rightarrow> True
   | Inr out \<Rightarrow> int (length out) \<le> mx \<and> sum_list (map a_size out) \<le> MaxTotalSize \<and>
       list_all (\<lambda>a. 0 \<le> a_size a) out"
proof -
  have "0 \<le> MaxTotalSize" by (simp add: MaxTotalSize_def)
  then show ?thesis
    using cloud_list_loop_ok [of mx _ "[]" 0]
    by (auto simp: cloud_List_def split: option.splits sum.splits prod.splits)
qed

text \<open>
  A production read delivers exactly the bytes the object's attributes announce and never
  more than the caller's limit, whatever the reader delivers.
\<close>

theorem cloud_Read_bounded:
  "case fst (cloud_Read ensure newReader name g limit w) of
     Inl e \<Rightarrow> True
   | Inr (b, a) \<Rightarrow> int (length b) = a_size a \<and> a_size a \<le> limit \<and> a_name a = name"
  by (auto simp: cloud_Read_def Let_def split: option.splits sum.splits prod.splits)

section \<open>The in-memory store\<close>

record memoryObject =
  mo_data :: string
  mo_attrs :: objectAttrs

record memoryObjects =
  mem_next :: int
  mem_objects :: "(string, memoryObject) gomap"

definition newMemoryObjects :: memoryObjects where
  "newMemoryObjects = \<lparr>mem_next = 0, mem_objects = []\<rparr>"

definition mem_Read :: "string \<Rightarrow> int \<Rightarrow> int \<Rightarrow> memoryObjects \<Rightarrow> (gerr + (string \<times> objectAttrs)) \<times> memoryObjects" where
  "mem_Read name g limit m =
     (case map_of (mem_objects m) name of
        None \<Rightarrow> (Inl (Sentinel storageErrObjectNotExist), m)
      | Some ob \<Rightarrow>
          (if g > 0 \<and> a_generation (mo_attrs ob) \<noteq> g then (Inl (Sentinel storageErrObjectNotExist), m)
           else if a_size (mo_attrs ob) > limit then (Inl objectExceedsLimit, m)
           else (Inr (mo_data ob, mo_attrs ob), m)))"

fun mem_list_loop :: "string \<Rightarrow> int \<Rightarrow> (string, memoryObject) gomap \<Rightarrow> objectAttrs list \<Rightarrow> gerr + objectAttrs list" where
  "mem_list_loop prefix mx [] out = Inr out"
| "mem_list_loop prefix mx ((name, ob) # obs) out =
     (if has_prefix name prefix then
        (if int (length out) = mx then Inl listExceedsLimit
         else mem_list_loop prefix mx obs (out @ [(mo_attrs ob)\<lparr>a_name := name\<rparr>]))
      else mem_list_loop prefix mx obs out)"

definition mem_List :: "string \<Rightarrow> int \<Rightarrow> memoryObjects \<Rightarrow> (gerr + objectAttrs list) \<times> memoryObjects" where
  "mem_List prefix mx m = (mem_list_loop prefix mx (mem_objects m) [], m)"

definition mem_Write ::
  "string \<Rightarrow> string \<Rightarrow> (string, string) gomap \<Rightarrow> objectConditions \<Rightarrow> memoryObjects
   \<Rightarrow> (gerr + objectAttrs) \<times> memoryObjects" where
  "mem_Write name data metadata c m =
     (let old = map_of (mem_objects m) name
      in if DoesNotExist c \<and> old \<noteq> None then (Inl (Sentinel errObjectGenerationConflict), m)
         else if GenerationMatch c > 0 \<and> (case old of None \<Rightarrow> True
                                           | Some ob \<Rightarrow> a_generation (mo_attrs ob) \<noteq> GenerationMatch c)
         then (Inl (Sentinel errObjectGenerationConflict), m)
         else (let n = mem_next m + 1;
                   a = \<lparr>a_name = name, a_generation = n, a_size = int (length data), a_metadata = metadata\<rparr>
               in (Inr a, m\<lparr>mem_next := n,
                            mem_objects := map_set name \<lparr>mo_data = data, mo_attrs = a\<rparr> (mem_objects m)\<rparr>)))"

definition mem_Delete :: "string \<Rightarrow> int \<Rightarrow> memoryObjects \<Rightarrow> gerr option \<times> memoryObjects" where
  "mem_Delete name g m =
     (case map_of (mem_objects m) name of
        None \<Rightarrow> (Some (Sentinel errObjectGenerationConflict), m)
      | Some ob \<Rightarrow>
          (if g > 0 \<and> a_generation (mo_attrs ob) \<noteq> g then (Some (Sentinel errObjectGenerationConflict), m)
           else (None, m\<lparr>mem_objects := map_del name (mem_objects m)\<rparr>)))"

definition memoryStore :: "memoryObjects objectStore" where
  "memoryStore = \<lparr>st_read = mem_Read, st_list = mem_List, st_write = mem_Write, st_delete = mem_Delete\<rparr>"

section \<open>What the worker relies on\<close>

text \<open>
  The view of a store is what each name holds: the bytes and the generation. An object is never
  half written. The precondition of a write is evaluated atomically with the write. The laws
  leave room for a faulty service: any operation may fail, and a failed write or delete may
  still have happened, unless it reports that its precondition did not hold by way of the
  \<open>refused\<close> predicate of the provider.
\<close>

type_synonym contents = "string \<Rightarrow> (string \<times> int) option"

fun precondition :: "objectConditions \<Rightarrow> (string \<times> int) option \<Rightarrow> bool" where
  "precondition c None = (\<not> GenerationMatch c > 0)"
| "precondition c (Some (d, g)) = (\<not> DoesNotExist c \<and> (GenerationMatch c > 0 \<longrightarrow> g = GenerationMatch c))"

locale object_store =
  fixes st :: "'w objectStore"
    and obj :: "'w \<Rightarrow> contents"
    and inv :: "'w \<Rightarrow> bool"
    and known :: "'w \<Rightarrow> int \<Rightarrow> bool"
  assumes read_frame: "inv w \<Longrightarrow> st_read st n g lim w = (r, w') \<Longrightarrow>
      inv w' \<and> obj w' = obj w \<and> (\<forall>i. known w i \<longrightarrow> known w' i)"
    and read_ok: "inv w \<Longrightarrow> st_read st n g lim w = (Inr (d, a), w') \<Longrightarrow>
      obj w n = Some (d, a_generation a) \<and> 0 < a_generation a \<and> a_size a = int (length d) \<and>
      (0 < g \<longrightarrow> a_generation a = g)"
    and read_missing: "inv w \<Longrightarrow> st_read st n g lim w = (Inl e, w') \<Longrightarrow> isObjectNotFound e \<Longrightarrow>
      \<not> 0 < g \<Longrightarrow> obj w n = None"
    and write_ok: "inv w \<Longrightarrow> st_write st n d md c w = (Inr a, w') \<Longrightarrow>
      inv w' \<and> precondition c (obj w n) \<and> obj w' = (obj w)(n \<mapsto> (d, a_generation a)) \<and>
      0 < a_generation a \<and> \<not> known w (a_generation a) \<and> known w' (a_generation a) \<and>
      (\<forall>i. known w i \<longrightarrow> known w' i)"
    and write_error: "inv w \<Longrightarrow> st_write st n d md c w = (Inl e, w') \<Longrightarrow>
      inv w' \<and> (\<forall>i. known w i \<longrightarrow> known w' i) \<and>
      (obj w' = obj w \<or> precondition c (obj w n) \<and> (\<exists>i. obj w' = (obj w)(n \<mapsto> (d, i))))"
    and delete_ok: "inv w \<Longrightarrow> st_delete st n g w = (None, w') \<Longrightarrow>
      inv w' \<and> (\<forall>i. known w i \<longrightarrow> known w' i) \<and> obj w' = (obj w)(n := None) \<and>
      (0 < g \<longrightarrow> (\<forall>d i. obj w n = Some (d, i) \<longrightarrow> i = g))"
    and delete_error: "inv w \<Longrightarrow> st_delete st n g w = (Some e, w') \<Longrightarrow>
      inv w' \<and> (\<forall>i. known w i \<longrightarrow> known w' i) \<and>
      (obj w' = obj w \<or> obj w' = (obj w)(n := None) \<and> (0 < g \<longrightarrow> (\<forall>d i. obj w n = Some (d, i) \<longrightarrow> i = g)))"
    and known_objects: "inv w \<Longrightarrow> obj w n = Some (d, i) \<Longrightarrow> known w i \<and> 0 < i"
begin

text \<open>A create-only write that reports success found nothing, and its object is there.\<close>

lemma create_only_ok:
  "inv w \<Longrightarrow> st_write st n d md createOnly w = (Inr a, w') \<Longrightarrow>
     obj w n = None \<and> obj w' n = Some (d, a_generation a)"
  using write_ok [of w n d md createOnly a w'] by (cases "obj w n") auto

lemma write_other: "inv w \<Longrightarrow> st_write st n d md c w = (r, w') \<Longrightarrow> k \<noteq> n \<Longrightarrow> obj w' k = obj w k"
  using write_ok [of w n d md c _ w'] write_error [of w n d md c _ w'] by (cases r) fastforce+

lemma write_inv: "inv w \<Longrightarrow> st_write st n d md c w = (r, w') \<Longrightarrow> inv w'"
  using write_ok [of w n d md c _ w'] write_error [of w n d md c _ w'] by (cases r) blast+

lemma write_known: "inv w \<Longrightarrow> st_write st n d md c w = (r, w') \<Longrightarrow> known w i \<Longrightarrow> known w' i"
  using write_ok [of w n d md c _ w'] write_error [of w n d md c _ w'] by (cases r) blast+

lemma delete_inv: "inv w \<Longrightarrow> st_delete st n g w = (r, w') \<Longrightarrow> inv w'"
  using delete_ok [of w n g w'] delete_error [of w n g _ w'] by (cases r) blast+

lemma delete_other: "inv w \<Longrightarrow> st_delete st n g w = (r, w') \<Longrightarrow> k \<noteq> n \<Longrightarrow> obj w' k = obj w k"
  using delete_ok [of w n g w'] delete_error [of w n g _ w'] by (cases r) fastforce+

text \<open>A delete at a positive generation leaves every object of another generation alone.\<close>

lemma delete_generation:
  "inv w \<Longrightarrow> 0 < g \<Longrightarrow> st_delete st n g w = (r, w') \<Longrightarrow> obj w n = Some (d, i) \<Longrightarrow> i \<noteq> g \<Longrightarrow> obj w' = obj w"
  using delete_ok [of w n g w'] delete_error [of w n g _ w'] by (cases r) blast+

end

definition mem_obj :: "memoryObjects \<Rightarrow> contents" where
  "mem_obj m n = map_option (\<lambda>ob. (mo_data ob, a_generation (mo_attrs ob))) (map_of (mem_objects m) n)"

definition mem_inv :: "memoryObjects \<Rightarrow> bool" where
  "mem_inv m \<longleftrightarrow> map_wf (mem_objects m) \<and> 0 \<le> mem_next m \<and>
     list_all (\<lambda>(n, ob). 0 < a_generation (mo_attrs ob) \<and> a_generation (mo_attrs ob) \<le> mem_next m \<and>
                 a_size (mo_attrs ob) = int (length (mo_data ob))) (mem_objects m)"

definition mem_known :: "memoryObjects \<Rightarrow> int \<Rightarrow> bool" where
  "mem_known m i \<longleftrightarrow> i \<le> mem_next m"

lemma mem_inv_lookup:
  "mem_inv m \<Longrightarrow> map_of (mem_objects m) n = Some ob \<Longrightarrow>
     0 < a_generation (mo_attrs ob) \<and> a_generation (mo_attrs ob) \<le> mem_next m \<and>
     a_size (mo_attrs ob) = int (length (mo_data ob))"
  by (auto simp: mem_inv_def list_all_iff dest!: map_of_SomeD)

lemma mem_obj_write:
  "mem_obj (m\<lparr>mem_next := k, mem_objects := map_set n ob (mem_objects m)\<rparr>) =
     (mem_obj m)(n \<mapsto> (mo_data ob, a_generation (mo_attrs ob)))"
  by (rule ext) (simp add: mem_obj_def update_conv')

lemma mem_obj_delete:
  "mem_obj (m\<lparr>mem_objects := map_del n (mem_objects m)\<rparr>) = (mem_obj m)(n := None)"
  by (rule ext) (simp add: mem_obj_def delete_conv')

lemma mem_inv_write:
  assumes "mem_inv m"
  shows "mem_inv (m\<lparr>mem_next := mem_next m + 1, mem_objects := map_set n
           \<lparr>mo_data = d, mo_attrs = \<lparr>a_name = n, a_generation = mem_next m + 1, a_size = int (length d),
             a_metadata = md\<rparr>\<rparr> (mem_objects m)\<rparr>)"
proof -
  have "list_all (\<lambda>(n, ob). 0 < a_generation (mo_attrs ob) \<and> a_generation (mo_attrs ob) \<le> mem_next m + 1 \<and>
                 a_size (mo_attrs ob) = int (length (mo_data ob))) (mem_objects m)"
    using assms by (auto simp: mem_inv_def list_all_iff)
  then show ?thesis using assms by (auto simp: mem_inv_def intro!: list_all_map_set)
qed

lemma mem_inv_delete: "mem_inv m \<Longrightarrow> mem_inv (m\<lparr>mem_objects := map_del n (mem_objects m)\<rparr>)"
  by (auto simp: mem_inv_def intro: list_all_map_del)

lemmas mem_store_simps = memoryStore_def mem_Read_def mem_Write_def mem_Delete_def Let_def

lemma mem_Write_ok:
  assumes "mem_inv w" and "st_write memoryStore n d md c w = (Inr a, w')"
  shows "mem_inv w' \<and> precondition c (mem_obj w n) \<and> mem_obj w' = (mem_obj w)(n \<mapsto> (d, a_generation a)) \<and>
      0 < a_generation a \<and> a_generation a = mem_next w + 1 \<and> mem_next w' = mem_next w + 1"
proof -
  have a: "a = \<lparr>a_name = n, a_generation = mem_next w + 1, a_size = int (length d), a_metadata = md\<rparr>"
    and w': "w' = w\<lparr>mem_next := mem_next w + 1, mem_objects := map_set n \<lparr>mo_data = d, mo_attrs = a\<rparr> (mem_objects w)\<rparr>"
    and pre: "precondition c (mem_obj w n)"
    using assms(2)
    by (auto simp: memoryStore_def mem_Write_def Let_def mem_obj_def split: if_splits option.splits)
  have "0 < mem_next w + 1" using assms(1) by (simp add: mem_inv_def)
  then show ?thesis
    using mem_inv_write [OF assms(1)] pre a unfolding w' mem_obj_write by simp
qed

lemma mem_Write_error: "st_write memoryStore n d md c w = (Inl e, w') \<Longrightarrow> w' = w"
  by (auto simp: mem_store_simps split: if_splits option.splits)

lemma mem_Delete_ok:
  assumes "mem_inv w" and "st_delete memoryStore n g w = (None, w')"
  shows "mem_inv w' \<and> mem_next w' = mem_next w \<and> mem_obj w' = (mem_obj w)(n := None) \<and>
      (0 < g \<longrightarrow> (\<forall>d i. mem_obj w n = Some (d, i) \<longrightarrow> i = g))"
proof -
  have w': "w' = w\<lparr>mem_objects := map_del n (mem_objects w)\<rparr>"
    and "0 < g \<longrightarrow> (\<forall>d i. mem_obj w n = Some (d, i) \<longrightarrow> i = g)"
    using assms(2) by (auto simp: mem_store_simps mem_obj_def split: if_splits option.splits)
  then show ?thesis using mem_inv_delete [OF assms(1)] unfolding w' mem_obj_delete by simp
qed

lemma mem_Delete_error: "st_delete memoryStore n g w = (Some e, w') \<Longrightarrow> w' = w"
  by (auto simp: mem_store_simps split: if_splits option.splits)

lemma mem_Read_frame: "st_read memoryStore n g lim w = (r, w') \<Longrightarrow> w' = w"
  by (auto simp: mem_store_simps split: if_splits option.splits)

lemma mem_Read_ok:
  "mem_inv w \<Longrightarrow> st_read memoryStore n g lim w = (Inr (d, a), w') \<Longrightarrow>
     mem_obj w n = Some (d, a_generation a) \<and> 0 < a_generation a \<and> a_size a = int (length d) \<and>
     (0 < g \<longrightarrow> a_generation a = g)"
  by (auto simp: memoryStore_def mem_Read_def mem_obj_def dest: mem_inv_lookup split: if_splits option.splits)

lemma mem_Read_missing:
  "st_read memoryStore n g lim w = (Inl e, w') \<Longrightarrow> isObjectNotFound e \<Longrightarrow> \<not> 0 < g \<Longrightarrow> mem_obj w n = None"
  by (auto simp: memoryStore_def mem_Read_def mem_obj_def isObjectNotFound_def objectExceedsLimit_def
      split: if_splits option.splits)

interpretation mem: object_store memoryStore mem_obj mem_inv mem_known
proof
  show "mem_inv w' \<and> mem_obj w' = mem_obj w \<and> (\<forall>i. mem_known w i \<longrightarrow> mem_known w' i)"
    if "mem_inv w" "st_read memoryStore n g lim w = (r, w')" for w n g lim r w'
    using that mem_Read_frame [OF that(2)] by simp
  show "mem_obj w n = Some (d, a_generation a) \<and> 0 < a_generation a \<and> a_size a = int (length d) \<and>
      (0 < g \<longrightarrow> a_generation a = g)"
    if "mem_inv w" "st_read memoryStore n g lim w = (Inr (d, a), w')" for w n g lim d a w'
    using that by (rule mem_Read_ok)
  show "mem_obj w n = None"
    if "mem_inv w" "st_read memoryStore n g lim w = (Inl e, w')" "isObjectNotFound e" "\<not> 0 < g"
    for w n g lim e w'
    using that(2-) by (rule mem_Read_missing)
  show "mem_inv w' \<and> precondition c (mem_obj w n) \<and> mem_obj w' = (mem_obj w)(n \<mapsto> (d, a_generation a)) \<and>
      0 < a_generation a \<and> \<not> mem_known w (a_generation a) \<and> mem_known w' (a_generation a) \<and>
      (\<forall>i. mem_known w i \<longrightarrow> mem_known w' i)"
    if "mem_inv w" "st_write memoryStore n d md c w = (Inr a, w')" for w n d md c a w'
    using mem_Write_ok [OF that] by (simp add: mem_known_def)
  show "mem_inv w' \<and> (\<forall>i. mem_known w i \<longrightarrow> mem_known w' i) \<and>
      (mem_obj w' = mem_obj w \<or> precondition c (mem_obj w n) \<and> (\<exists>i. mem_obj w' = (mem_obj w)(n \<mapsto> (d, i))))"
    if "mem_inv w" "st_write memoryStore n d md c w = (Inl e, w')" for w n d md c e w'
    using that mem_Write_error [OF that(2)] by simp
  show "mem_inv w' \<and> (\<forall>i. mem_known w i \<longrightarrow> mem_known w' i) \<and> mem_obj w' = (mem_obj w)(n := None) \<and>
      (0 < g \<longrightarrow> (\<forall>d i. mem_obj w n = Some (d, i) \<longrightarrow> i = g))"
    if "mem_inv w" "st_delete memoryStore n g w = (None, w')" for w n g w'
    using mem_Delete_ok [OF that] by (simp add: mem_known_def)
  show "mem_inv w' \<and> (\<forall>i. mem_known w i \<longrightarrow> mem_known w' i) \<and>
      (mem_obj w' = mem_obj w \<or>
       mem_obj w' = (mem_obj w)(n := None) \<and> (0 < g \<longrightarrow> (\<forall>d i. mem_obj w n = Some (d, i) \<longrightarrow> i = g)))"
    if "mem_inv w" "st_delete memoryStore n g w = (Some e, w')" for w n g e w'
    using that mem_Delete_error [OF that(2)] by simp
  show "mem_known w i \<and> 0 < i" if "mem_inv w" "mem_obj w n = Some (d, i)" for w n d i
    using that by (auto simp: mem_obj_def mem_known_def dest: mem_inv_lookup)
qed

section \<open>Bounded clean-up\<close>

text \<open>
  \<open>RetryGenerationCleanup\<close> (\<open>internal/storage/storage.go\<close>): exact-generation removal with a
  bounded number of attempts, each with a context of its own. \<open>remove\<close> is \<open>None\<close> for a nil
  function; the provider's errors are dropped.
\<close>

fun cleanup_loop :: "nat \<Rightarrow> int \<Rightarrow> (int \<Rightarrow> 'w \<Rightarrow> gerr option \<times> 'w) \<Rightarrow> 'w \<Rightarrow> gerr option \<times> 'w" where
  "cleanup_loop 0 g remove w = (Some (Sentinel ErrLeaseCleanup), w)"
| "cleanup_loop (Suc n) g remove w =
     (case remove g w of
        (None, w') \<Rightarrow> (None, w')
      | (Some e, w') \<Rightarrow> cleanup_loop n g remove w')"

definition RetryGenerationCleanup ::
  "int \<Rightarrow> int \<Rightarrow> int \<Rightarrow> (int \<Rightarrow> 'w \<Rightarrow> gerr option \<times> 'w) option \<Rightarrow> 'w \<Rightarrow> gerr option \<times> 'w" where
  "RetryGenerationCleanup g timeout attempts remove w =
     (if g \<le> 0 \<or> timeout \<le> 0 \<or> attempts \<le> 0 then (Some (Sentinel ErrLeaseCleanup), w)
      else (case remove of
              None \<Rightarrow> (Some (Sentinel ErrLeaseCleanup), w)
            | Some f \<Rightarrow> cleanup_loop (nat attempts) g f w))"

text \<open>
  The loop keeps every property that one attempt keeps, and its errors are opaque.
\<close>

lemma cleanup_loop_induct:
  assumes "\<And>w r w'. remove g w = (r, w') \<Longrightarrow> P w \<Longrightarrow> P w'" and "P w"
    and "cleanup_loop n g remove w = (r, w')"
  shows "P w'"
  using assms(2,3)
proof (induction n arbitrary: w)
  case 0
  then show ?case by simp
next
  case (Suc n)
  then show ?case using assms(1) by (auto split: prod.splits option.splits)
qed

lemma RetryGenerationCleanup_opaque:
  "RetryGenerationCleanup g t k remove w = (Some e, w') \<Longrightarrow> e = Sentinel ErrLeaseCleanup"
proof -
  have "cleanup_loop n g f w = (Some e, w') \<Longrightarrow> e = Sentinel ErrLeaseCleanup" for n f w
    by (induction n arbitrary: w) (auto split: prod.splits option.splits)
  then show "RetryGenerationCleanup g t k remove w = (Some e, w') \<Longrightarrow> e = Sentinel ErrLeaseCleanup"
    by (auto simp: RetryGenerationCleanup_def split: if_splits option.splits)
qed

context object_store
begin

lemma cleanup_keeps:
  assumes "inv w" and "0 < g" and "obj w n = Some (d, i)" and "i \<noteq> g"
    and "RetryGenerationCleanup g t k (Some (\<lambda>g. st_delete st n g)) w = (r, w')"
  shows "inv w' \<and> obj w' n = Some (d, i)"
proof -
  let ?P = "\<lambda>w. inv w \<and> obj w n = Some (d, i)"
  have step: "?P v'" if "st_delete st n g v = (r, v')" "?P v" for v r v'
    using that delete_inv delete_generation assms(2,4) by metis
  have loop: "?P w'" if "cleanup_loop m g (\<lambda>g. st_delete st n g) w = (r, w')" for m
    using cleanup_loop_induct [where P = ?P, OF step _ that] assms(1,3) by simp
  show ?thesis
    using assms(1,3,5) loop by (auto simp: RetryGenerationCleanup_def split: if_splits)
qed

end

end
