(* ===== verification/Frontmatter.thy ===== *)
theory Frontmatter
  imports ObjectStore
begin

text \<open>
  Markdown pages and their front matter: the values a YAML parser delivers and their conversion for
  JSON (\<open>internal/jsonutil/normalize.go\<close>), the entry of a page in the concept cache, and the rewrite
  of the \<open>id\<close> of a concept page (\<open>internal/wikiindex/wikiindex.go\<close>). The YAML and front matter
  parsers and the printers are third-party code: they are the fields of \<open>pageEnv\<close>.
\<close>

section \<open>Values\<close>

text \<open>An \<open>interface{}\<close> of a YAML parser; \<open>VMap\<close> is \<open>map[interface{}]interface{}\<close>, \<open>VObj\<close> has string keys.\<close>

datatype gval =
    VNil
  | VBool bool
  | VInt int
  | VFloat string
  | VStr string
  | VStrs "string list"
  | VList "gval list"
  | VMap "(gval \<times> gval) list"
  | VObj "(string \<times> gval) list"

definition MaxNormalizationDepth :: nat where "MaxNormalizationDepth = 64"

fun Normalize_val :: "gval \<Rightarrow> nat \<Rightarrow> gerr + gval"
  and normalize_map :: "(gval \<times> gval) list \<Rightarrow> nat \<Rightarrow> gerr + (string \<times> gval) list"
  and normalize_obj :: "(string \<times> gval) list \<Rightarrow> nat \<Rightarrow> gerr + (string \<times> gval) list"
  and normalize_list :: "gval list \<Rightarrow> nat \<Rightarrow> gerr + gval list" where
  "Normalize_val v depth =
     (if depth > MaxNormalizationDepth then Inl (Msg ''maximum nesting depth exceeded'')
      else (case v of
              VMap m \<Rightarrow> map_sum id VObj (normalize_map m (Suc depth))
            | VObj m \<Rightarrow> map_sum id VObj (normalize_obj m (Suc depth))
            | VList xs \<Rightarrow> map_sum id VList (normalize_list xs (Suc depth))
            | _ \<Rightarrow> Inr v))"
| "normalize_map [] depth = Inr []"
| "normalize_map ((k, x) # m) depth =
     (case k of
        VStr name \<Rightarrow>
          (case Normalize_val x depth of
             Inl e \<Rightarrow> Inl e
           | Inr y \<Rightarrow> map_sum id (\<lambda>ys. (name, y) # ys) (normalize_map m depth))
      | _ \<Rightarrow> Inl (Msg ''non-string map key type''))"
| "normalize_obj [] depth = Inr []"
| "normalize_obj ((name, x) # m) depth =
     (case Normalize_val x depth of
        Inl e \<Rightarrow> Inl e
      | Inr y \<Rightarrow> map_sum id (\<lambda>ys. (name, y) # ys) (normalize_obj m depth))"
| "normalize_list [] depth = Inr []"
| "normalize_list (x # xs) depth =
     (case Normalize_val x depth of
        Inl e \<Rightarrow> Inl e
      | Inr y \<Rightarrow> map_sum id (\<lambda>ys. y # ys) (normalize_list xs depth))"

declare Normalize_val.simps [simp del]

definition NormalizeMap :: "(string, gval) gomap \<Rightarrow> gerr + (string, gval) gomap" where
  "NormalizeMap m =
     (case Normalize_val (VObj m) 0 of
        Inl e \<Rightarrow> Inl e
      | Inr (VObj out) \<Rightarrow> Inr out
      | Inr _ \<Rightarrow> Inl (Msg ''normalized value is not map[string]interface{}''))"

text \<open>The values \<open>encoding/json\<close> can print: every map has string keys.\<close>

fun json_safe :: "gval \<Rightarrow> bool" where
  "json_safe (VMap m) = False"
| "json_safe (VObj m) = (\<forall>p \<in> set m. json_safe (snd p))"
| "json_safe (VList xs) = (\<forall>x \<in> set xs. json_safe x)"
| "json_safe _ = True"

definition is_VStr :: "gval \<Rightarrow> bool" where
  "is_VStr v = (case v of VStr s \<Rightarrow> True | _ \<Rightarrow> False)"

fun string_keyed :: "gval \<Rightarrow> bool" where
  "string_keyed (VMap m) = (\<forall>p \<in> set m. is_VStr (fst p) \<and> string_keyed (snd p))"
| "string_keyed (VObj m) = (\<forall>p \<in> set m. string_keyed (snd p))"
| "string_keyed (VList xs) = (\<forall>x \<in> set xs. string_keyed x)"
| "string_keyed _ = True"

text \<open>\<open>fits n v\<close>: no value lies more than \<open>n\<close> levels below \<open>v\<close>.\<close>

fun fits :: "nat \<Rightarrow> gval \<Rightarrow> bool" where
  "fits n (VMap m) = (\<forall>p \<in> set m. 0 < n \<and> fits (n - 1) (snd p))"
| "fits n (VObj m) = (\<forall>p \<in> set m. 0 < n \<and> fits (n - 1) (snd p))"
| "fits n (VList xs) = (\<forall>x \<in> set xs. 0 < n \<and> fits (n - 1) x)"
| "fits n _ = True"

definition in_depth :: "nat \<Rightarrow> gval \<Rightarrow> bool" where
  "in_depth d v \<longleftrightarrow> d \<le> MaxNormalizationDepth \<and> fits (MaxNormalizationDepth - d) v"

lemma in_depth_item:
  "d \<le> MaxNormalizationDepth \<Longrightarrow> (0 < MaxNormalizationDepth - d \<and> fits (MaxNormalizationDepth - d - 1) v) = in_depth (Suc d) v"
  by (auto simp: in_depth_def)

lemma map_sum_Inr_iff: "(\<exists>w. map_sum id f x = Inr w) = (\<exists>y. x = Inr y)" "map_sum id f x = Inr w \<longleftrightarrow> (\<exists>y. x = Inr y \<and> w = f y)"
  by (cases x; auto)+

lemma Normalize_val_shallow:
  "d \<le> MaxNormalizationDepth \<Longrightarrow> Normalize_val (VMap m) d = map_sum id VObj (normalize_map m (Suc d))"
  "d \<le> MaxNormalizationDepth \<Longrightarrow> Normalize_val (VObj m') d = map_sum id VObj (normalize_obj m' (Suc d))"
  "d \<le> MaxNormalizationDepth \<Longrightarrow> Normalize_val (VList xs) d = map_sum id VList (normalize_list xs (Suc d))"
  "d \<le> MaxNormalizationDepth \<Longrightarrow> Normalize_val VNil d = Inr VNil"
  "d \<le> MaxNormalizationDepth \<Longrightarrow> Normalize_val (VBool b) d = Inr (VBool b)"
  "d \<le> MaxNormalizationDepth \<Longrightarrow> Normalize_val (VInt i) d = Inr (VInt i)"
  "d \<le> MaxNormalizationDepth \<Longrightarrow> Normalize_val (VFloat s) d = Inr (VFloat s)"
  "d \<le> MaxNormalizationDepth \<Longrightarrow> Normalize_val (VStr s) d = Inr (VStr s)"
  "d \<le> MaxNormalizationDepth \<Longrightarrow> Normalize_val (VStrs ss) d = Inr (VStrs ss)"
  by (simp_all add: Normalize_val.simps)

lemma Normalize_val_deep: "\<not> d \<le> MaxNormalizationDepth \<Longrightarrow> Normalize_val v d = Inl (Msg ''maximum nesting depth exceeded'')"
  by (simp add: Normalize_val.simps)

lemma normalize_obj_Cons_ok:
  "normalize_obj ((k, x) # m) d = Inr ys \<longleftrightarrow>
     (\<exists>y ys'. Normalize_val x d = Inr y \<and> normalize_obj m d = Inr ys' \<and> ys = (k, y) # ys')"
  by (auto simp: map_sum_Inr_iff split: sum.splits)

lemma normalize_map_Cons_ok:
  "normalize_map ((k, x) # m) d = Inr ys \<longleftrightarrow>
     (\<exists>name y ys'. k = VStr name \<and> Normalize_val x d = Inr y \<and> normalize_map m d = Inr ys' \<and> ys = (name, y) # ys')"
  by (cases k) (auto simp: map_sum_Inr_iff split: sum.splits)

lemma normalize_list_Cons_ok:
  "normalize_list (x # xs) d = Inr ys \<longleftrightarrow>
     (\<exists>y ys'. Normalize_val x d = Inr y \<and> normalize_list xs d = Inr ys' \<and> ys = y # ys')"
  by (auto simp: map_sum_Inr_iff split: sum.splits)

lemmas normalize_Cons_ok = normalize_obj_Cons_ok normalize_map_Cons_ok normalize_list_Cons_ok

lemma normalize_ok:
  "Normalize_val v d = Inr w \<Longrightarrow> json_safe w \<and> Normalize_val w d = Inr w"
  "normalize_map m d = Inr ys \<Longrightarrow> (\<forall>p \<in> set ys. json_safe (snd p)) \<and> normalize_obj ys d = Inr ys"
  "normalize_obj o' d = Inr ys' \<Longrightarrow> (\<forall>p \<in> set ys'. json_safe (snd p)) \<and> normalize_obj ys' d = Inr ys'"
  "normalize_list xs d = Inr zs \<Longrightarrow> (\<forall>x \<in> set zs. json_safe x) \<and> normalize_list zs d = Inr zs"
proof (induction v d and m d and o' d and xs d arbitrary: w and ys and ys' and zs
    rule: Normalize_val_normalize_map_normalize_obj_normalize_list.induct)
  case (1 v d)
  show ?case
  proof (cases "d \<le> MaxNormalizationDepth")
    case False
    then show ?thesis using "1.prems" by (simp add: Normalize_val_deep)
  next
    case True
    then have "\<not> MaxNormalizationDepth < d" by simp
    note IH = "1.IH" [OF this]
    show ?thesis
    proof (cases v)
      case (VList xs)
      then show ?thesis
        using IH(1) [OF VList] "1.prems" True by (auto simp: Normalize_val_shallow map_sum_Inr_iff)
    next
      case (VMap m)
      then show ?thesis
        using IH(2) [OF VMap] "1.prems" True by (auto simp: Normalize_val_shallow map_sum_Inr_iff)
    next
      case (VObj m)
      then show ?thesis
        using IH(3) [OF VObj] "1.prems" True by (auto simp: Normalize_val_shallow map_sum_Inr_iff)
    qed (use "1.prems" True in \<open>auto simp: Normalize_val_shallow\<close>)
  qed
next
  case (3 k x m d)
  then obtain name y ys' where k: "k = VStr name" and y: "Normalize_val x d = Inr y" and r: "normalize_map m d = Inr ys'"
    and ys: "ys = (name, y) # ys'" by (auto simp only: normalize_map_Cons_ok)
  show ?case using "3.IH"(1) [OF k y] "3.IH"(2) [OF k y r] by (simp add: ys)
next
  case (5 k x m d)
  then obtain y zs where y: "Normalize_val x d = Inr y" and r: "normalize_obj m d = Inr zs"
    and ys: "ys' = (k, y) # zs" by (auto simp only: normalize_obj_Cons_ok)
  show ?case using "5.IH"(1) [OF y] "5.IH"(2) [OF y r] by (simp add: ys)
next
  case (7 x xs d)
  then obtain y ws where y: "Normalize_val x d = Inr y" and r: "normalize_list xs d = Inr ws"
    and ys: "zs = y # ws" by (auto simp only: normalize_list_Cons_ok)
  show ?case using "7.IH"(1) [OF y] "7.IH"(2) [OF y r] by (simp add: ys)
qed auto

lemma normalize_complete:
  "(\<exists>w. Normalize_val v d = Inr w) \<longleftrightarrow> string_keyed v \<and> in_depth d v"
  "(\<exists>ys. normalize_map m d = Inr ys) \<longleftrightarrow> (\<forall>p \<in> set m. is_VStr (fst p) \<and> string_keyed (snd p) \<and> in_depth d (snd p))"
  "(\<exists>ys. normalize_obj o' d = Inr ys) \<longleftrightarrow> (\<forall>p \<in> set o'. string_keyed (snd p) \<and> in_depth d (snd p))"
  "(\<exists>ys. normalize_list xs d = Inr ys) \<longleftrightarrow> (\<forall>x \<in> set xs. string_keyed x \<and> in_depth d x)"
proof (induction v d and m d and o' d and xs d
    rule: Normalize_val_normalize_map_normalize_obj_normalize_list.induct)
  case (1 v d)
  show ?case
  proof (cases "d \<le> MaxNormalizationDepth")
    case False
    then show ?thesis by (simp add: Normalize_val_deep in_depth_def)
  next
    case True
    then have "\<not> MaxNormalizationDepth < d" by simp
    note IH = "1.IH" [OF this]
    note item = in_depth_item [OF True, symmetric]
    show ?thesis
    proof (cases v)
      case (VList xs)
      have "in_depth d v \<longleftrightarrow> (\<forall>x \<in> set xs. in_depth (Suc d) x)"
        using True unfolding item by (auto simp: VList in_depth_def [of d])
      then show ?thesis using IH(1) [OF VList] True by (auto simp: VList Normalize_val_shallow map_sum_Inr_iff)
    next
      case (VMap m)
      have "in_depth d v \<longleftrightarrow> (\<forall>p \<in> set m. in_depth (Suc d) (snd p))"
        using True unfolding item by (auto simp: VMap in_depth_def [of d])
      then show ?thesis using IH(2) [OF VMap] True by (auto simp: VMap Normalize_val_shallow map_sum_Inr_iff)
    next
      case (VObj m)
      have "in_depth d v \<longleftrightarrow> (\<forall>p \<in> set m. in_depth (Suc d) (snd p))"
        using True unfolding item by (auto simp: VObj in_depth_def [of d])
      then show ?thesis using IH(3) [OF VObj] True by (auto simp: VObj Normalize_val_shallow map_sum_Inr_iff)
    qed (use True in \<open>auto simp: Normalize_val_shallow in_depth_def\<close>)
  qed
next
  case (3 k x m d)
  show ?case
  proof (cases "\<exists>name y. k = VStr name \<and> Normalize_val x d = Inr y")
    case True
    then obtain name y where k: "k = VStr name" and y: "Normalize_val x d = Inr y" by blast
    show ?thesis using "3.IH"(1) [OF k] "3.IH"(2) [OF k y] y by (auto simp only: normalize_map_Cons_ok) (auto simp: k is_VStr_def)
  next
    case False
    then show ?thesis using "3.IH"(1) by (auto simp only: normalize_map_Cons_ok) (auto simp: is_VStr_def split: gval.splits)
  qed
next
  case (5 k x m d)
  show ?case
  proof (cases "Normalize_val x d")
    case (Inr y)
    then show ?thesis using "5.IH"(1) "5.IH"(2) [OF Inr] by (auto simp only: normalize_obj_Cons_ok) auto
  next
    case (Inl e)
    then show ?thesis using "5.IH"(1) by (auto simp only: normalize_obj_Cons_ok) auto
  qed
next
  case (7 x xs d)
  show ?case
  proof (cases "Normalize_val x d")
    case (Inr y)
    then show ?thesis using "7.IH"(1) "7.IH"(2) [OF Inr] by (auto simp only: normalize_list_Cons_ok) auto
  next
    case (Inl e)
    then show ?thesis using "7.IH"(1) by (auto simp only: normalize_list_Cons_ok) auto
  qed
qed auto

text \<open>
  C39. Front matter is normalised for JSON exactly when it can be: a map is converted if all the
  maps in it have string keys and it is at most \<open>MaxNormalizationDepth\<close> levels deep, and the result
  is a value \<open>encoding/json\<close> can print, which normalises to itself.
\<close>

theorem NormalizeMap_exact:
  "case NormalizeMap m of
     Inl e \<Rightarrow> \<not> (string_keyed (VObj m) \<and> fits MaxNormalizationDepth (VObj m))
   | Inr out \<Rightarrow> string_keyed (VObj m) \<and> fits MaxNormalizationDepth (VObj m) \<and>
       json_safe (VObj out) \<and> NormalizeMap out = Inr out"
proof -
  have obj: "Normalize_val (VObj m) 0 = map_sum id VObj (normalize_obj m 1)" for m
    by (simp add: Normalize_val_shallow)
  show ?thesis
  proof (cases "Normalize_val (VObj m) 0")
    case (Inl e)
    then have "\<not> (\<exists>w. Normalize_val (VObj m) 0 = Inr w)" by simp
    then have "\<not> (string_keyed (VObj m) \<and> fits MaxNormalizationDepth (VObj m))"
      unfolding normalize_complete by (simp add: in_depth_def)
    then show ?thesis using Inl by (simp add: NormalizeMap_def)
  next
    case (Inr w)
    then obtain out where w: "w = VObj out" unfolding obj by (auto simp: map_sum_Inr_iff)
    have "string_keyed (VObj m) \<and> fits MaxNormalizationDepth (VObj m)"
      using normalize_complete(1) [of "VObj m" 0] Inr by (auto simp: in_depth_def)
    then show ?thesis using normalize_ok(1) [OF Inr] Inr w by (simp add: NormalizeMap_def)
  qed
qed

section \<open>The third-party parsers\<close>

text \<open>
  A YAML node (\<open>yaml.Node\<close>): a mapping lists keys and values alternately and knows whether it was
  written in flow style; an alias knows whether it is resolved. \<open>pg_yaml\<close> is what a decoder over
  some bytes delivers document by document.
\<close>

datatype ynode =
    YDocument "ynode list"
  | YMapping bool "ynode list"
  | YSequence "ynode list"
  | YScalar string string
  | YAlias bool

record markdownMatter =
  mm_id :: string
  mm_title :: string
  mm_source_file :: string

record cacheEntry =
  ce_slug :: string
  ce_title :: string
  ce_body :: string
  ce_frontmatter :: "(string, gval) gomap"
  ce_sources :: "string list"

record pageEnv =
  pg_map :: "string \<Rightarrow> gerr + ((string, gval) gomap \<times> string)"
  pg_matter :: "string \<Rightarrow> gerr + markdownMatter"
  pg_yaml :: "string \<Rightarrow> (gerr + ynode) list"
  pg_sprint :: "gval \<Rightarrow> string"
  pg_md5 :: "string \<Rightarrow> string"
  pg_lex :: "string \<Rightarrow> json_stream"
  pg_marshal :: "json \<Rightarrow> string"
  pg_marshal_entry :: "cacheEntry \<Rightarrow> gerr + string"

section \<open>The concept cache\<close>

record markdownFile =
  mf_slug :: string
  mf_path :: string
  mf_data :: string

definition IsSyntoRootPage :: "string \<Rightarrow> bool" where
  "IsSyntoRootPage path \<longleftrightarrow> path = ''wiki/index.md'' \<or> path = ''wiki/log.md''"

definition zero_matter :: markdownMatter where
  "zero_matter = \<lparr>mm_id = '''', mm_title = '''', mm_source_file = ''''\<rparr>"

definition parseMarkdownMatter :: "pageEnv \<Rightarrow> string \<Rightarrow> gerr + markdownMatter" where
  "parseMarkdownMatter env data =
     (if \<not> has_prefix data ''---'' then Inr zero_matter else pg_matter env data)"

definition ContentDerivedID :: "pageEnv \<Rightarrow> string \<Rightarrow> string" where
  "ContentDerivedID env data = take 12 (pg_md5 env data)"

abbreviation lf :: char where "lf \<equiv> CHR 0x0A"
abbreviation cr :: char where "cr \<equiv> CHR 0x0D"

definition parseFrontmatter :: "pageEnv \<Rightarrow> string \<Rightarrow> (string, gval) gomap \<times> string" where
  "parseFrontmatter env raw =
     (if \<not> has_prefix raw (''---'' @ [lf]) then ([], raw)
      else (case pg_map env raw of
              Inl e \<Rightarrow> ([], raw)
            | Inr (matter, body) \<Rightarrow> (matter, body)))"

fun frontmatter_sources :: "pageEnv \<Rightarrow> (string, gval) gomap \<Rightarrow> string list \<Rightarrow> string list" where
  "frontmatter_sources env matter [] = []"
| "frontmatter_sources env matter (key # keys) =
     (case map_get_or VNil matter key of
        VStrs xs \<Rightarrow> xs
      | VList items \<Rightarrow> filter (\<lambda>s. s \<noteq> '''') (map (\<lambda>i. trim_space (pg_sprint env i)) items)
      | VStr s \<Rightarrow> (if s \<noteq> '''' then [s] else frontmatter_sources env matter keys)
      | _ \<Rightarrow> frontmatter_sources env matter keys)"

definition frontmatterSources :: "pageEnv \<Rightarrow> (string, gval) gomap \<Rightarrow> string list" where
  "frontmatterSources env matter = frontmatter_sources env matter [''sources'', ''source'']"

definition frontmatterString :: "gval \<Rightarrow> string" where
  "frontmatterString v = (case v of VStr s \<Rightarrow> s | _ \<Rightarrow> '''')"

definition parseCacheEntry :: "pageEnv \<Rightarrow> string \<Rightarrow> string \<Rightarrow> cacheEntry" where
  "parseCacheEntry env slug raw =
     (case parseFrontmatter env raw of
        (matter, body) \<Rightarrow>
          (let v = trim_space (frontmatterString (map_get_or VNil matter ''title''))
           in \<lparr>ce_slug = slug, ce_title = (if v \<noteq> '''' then v else slug), ce_body = body,
               ce_frontmatter = matter, ce_sources = frontmatterSources env matter\<rparr>))"

definition cache_line :: "pageEnv \<Rightarrow> cacheEntry \<Rightarrow> gerr + string" where
  "cache_line env e =
     (case NormalizeMap (ce_frontmatter e) of
        Inl err \<Rightarrow> Inl (Wrapped ''normalize concepts jsonl'' err)
      | Inr fm \<Rightarrow>
          (case pg_marshal_entry env (e\<lparr>ce_frontmatter := fm\<rparr>) of
             Inl err \<Rightarrow> Inl (Wrapped ''encode concepts jsonl'' err)
           | Inr data \<Rightarrow> Inr (data @ [lf])))"

fun concepts_jsonl :: "pageEnv \<Rightarrow> markdownFile list \<Rightarrow> gerr + string" where
  "concepts_jsonl env [] = Inr ''''"
| "concepts_jsonl env (f # fs) =
     (if IsSyntoRootPage (mf_path f) then concepts_jsonl env fs
      else (case cache_line env (parseCacheEntry env (mf_slug f) (mf_data f)) of
              Inl e \<Rightarrow> Inl e
            | Inr line \<Rightarrow> map_sum id (\<lambda>rest. line @ rest) (concepts_jsonl env fs)))"

fun buildSyntoConceptsJSONL :: "pageEnv \<Rightarrow> (string, string) gomap \<Rightarrow> markdownFile list \<Rightarrow> gerr + string" where
  "buildSyntoConceptsJSONL env byPath [] = Inr ''''"
| "buildSyntoConceptsJSONL env byPath (f # fs) =
     (let entityID = map_get_or '''' byPath (mf_path f)
      in if entityID = '''' \<or> IsSyntoRootPage (mf_path f) then buildSyntoConceptsJSONL env byPath fs
         else (let e = parseCacheEntry env (mf_slug f) (mf_data f);
                   e' = e\<lparr>ce_frontmatter := map_set ''id'' (VStr entityID) (ce_frontmatter e)\<rparr>
               in case cache_line env e' of
                    Inl err \<Rightarrow> Inl err
                  | Inr line \<Rightarrow> map_sum id (\<lambda>rest. line @ rest) (buildSyntoConceptsJSONL env byPath fs)))"

section \<open>Identifiers\<close>

definition ValidSyntoEntityID :: "string \<Rightarrow> bool" where
  "ValidSyntoEntityID v \<longleftrightarrow>
     \<not> (length v \<noteq> 26 \<or> \<not> byte_in (v ! 0) 48 55) \<and>
     list_all (\<lambda>c. byte_in c 48 57 \<or> byte_in c 65 72 \<or> byte_in c 74 75 \<or> byte_in c 77 78 \<or> byte_in c 80 84 \<or> byte_in c 86 90) v"

definition ValidLegacyConceptID :: "string \<Rightarrow> bool" where
  "ValidLegacyConceptID v \<longleftrightarrow> length v = 12 \<and> list_all (\<lambda>c. byte_in c 48 57 \<or> byte_in c 97 102) v"

section \<open>Rewriting the identity of a page\<close>

fun validateSyntoYAMLNode :: "ynode \<Rightarrow> gerr option"
  and validate_pairs :: "string list \<Rightarrow> ynode list \<Rightarrow> gerr option"
  and validate_nodes :: "ynode list \<Rightarrow> gerr option" where
  "validateSyntoYAMLNode (YMapping flow content) = validate_pairs [] content"
| "validateSyntoYAMLNode (YSequence content) = validate_nodes content"
| "validateSyntoYAMLNode (YAlias resolved) = (if \<not> resolved then Some (Msg ''frontmatter alias is invalid'') else None)"
| "validateSyntoYAMLNode _ = None"
| "validate_pairs seen (key # v # rest) =
     (case key of
        YScalar tag name \<Rightarrow>
          (if tag \<noteq> ''!!str'' then Some (Msg ''frontmatter mapping keys must be strings'')
           else if name \<in> set seen then Some (Msg ''duplicate frontmatter key'')
           else (case validateSyntoYAMLNode v of
                   Some e \<Rightarrow> Some e
                 | None \<Rightarrow> validate_pairs (name # seen) rest))
      | _ \<Rightarrow> Some (Msg ''frontmatter mapping keys must be strings''))"
| "validate_pairs seen [v] = None"
| "validate_pairs seen [] = None"
| "validate_nodes [] = None"
| "validate_nodes (v # vs) =
     (case validateSyntoYAMLNode v of
        Some e \<Rightarrow> Some e
      | None \<Rightarrow> validate_nodes vs)"

definition validateSyntoFrontmatterYAML :: "pageEnv \<Rightarrow> string \<Rightarrow> gerr + ynode list" where
  "validateSyntoFrontmatterYAML env data =
     (if trim_space data = '''' then Inr []
      else (case pg_yaml env data of
              [] \<Rightarrow> Inl (Msg ''EOF'')
            | Inl e # _ \<Rightarrow> Inl e
            | Inr document # rest \<Rightarrow>
                (case document of
                   YDocument [YMapping False content] \<Rightarrow>
                     (case rest of
                        Inl e # _ \<Rightarrow> Inl e
                      | Inr _ # _ \<Rightarrow> Inl (Msg ''frontmatter contains multiple YAML documents'')
                      | [] \<Rightarrow>
                          (case validateSyntoYAMLNode (YMapping False content) of
                             Some e \<Rightarrow> Inl e
                           | None \<Rightarrow> Inr content))
                 | _ \<Rightarrow> Inl (Msg ''frontmatter must be a YAML mapping''))))"

text \<open>\<open>bytes.SplitAfter(data, "\n")\<close> and \<open>strings.Trim\<close> with a set of ASCII characters.\<close>

fun split_after :: "char \<Rightarrow> string \<Rightarrow> string list" where
  "split_after d [] = [[]]"
| "split_after d (c # s) =
     (if c = d then [c] # split_after d s
      else (case split_after d s of
              [] \<Rightarrow> [[c]]
            | l # ls \<Rightarrow> (c # l) # ls))"

definition trim_chars :: "string \<Rightarrow> string \<Rightarrow> string" where
  "trim_chars cs s = rev (dropWhile (\<lambda>c. c \<in> set cs) (rev (dropWhile (\<lambda>c. c \<in> set cs) s)))"

definition trim_right_chars :: "string \<Rightarrow> string \<Rightarrow> string" where
  "trim_right_chars cs s = rev (dropWhile (\<lambda>c. c \<in> set cs) (rev s))"

definition syntoFrontmatterFence :: "string \<Rightarrow> bool" where
  "syntoFrontmatterFence line =
     (trim_right_chars [CHR '' '', CHR 0x09] (trim_suffix (trim_suffix line [lf]) [cr]) = ''---'')"

fun id_node :: "ynode list \<Rightarrow> ynode option" where
  "id_node (key # v # rest) =
     (case key of
        YScalar tag name \<Rightarrow> (if name = ''id'' then Some v else id_node rest)
      | _ \<Rightarrow> id_node rest)"
| "id_node _ = None"

text \<open>
  A line that sets the top-level key \<open>id\<close>: not indented, and the text before its first colon,
  trimmed and unquoted, is \<open>id\<close>. \<open>line_content\<close> drops the line ending.
\<close>

definition line_content :: "string \<Rightarrow> string" where
  "line_content l = trim_suffix (trim_suffix l [lf]) [cr]"

definition id_line :: "string \<Rightarrow> bool" where
  "id_line l \<longleftrightarrow>
     (let line = line_content l
      in \<not> (has_prefix line '' '' \<or> has_prefix line [CHR 0x09]) \<and> CHR '':'' \<in> set line \<and>
         trim_chars [CHR 0x22, CHR 0x27] (trim_space (takeWhile (\<lambda>c. c \<noteq> CHR '':'') line)) = ''id'')"

definition line_ending :: "string \<Rightarrow> string" where
  "line_ending l = (if has_suffix l [cr, lf] then [cr, lf] else [lf])"

definition set_id_line :: "string \<Rightarrow> string \<Rightarrow> string" where
  "set_id_line entityID l =
     takeWhile (\<lambda>c. c \<noteq> CHR '':'') (line_content l) @ '': '' @ entityID @ line_ending l"

fun rewrite_id_lines :: "string \<Rightarrow> nat \<Rightarrow> string list \<Rightarrow> gerr + (string list \<times> nat)" where
  "rewrite_id_lines entityID found [] = Inr ([], found)"
| "rewrite_id_lines entityID found (l # ls) =
     (if \<not> id_line l then map_sum id (\<lambda>(r, n). (l # r, n)) (rewrite_id_lines entityID found ls)
      else if Suc found > 1 then Inl (Msg ''duplicate concept frontmatter id'')
      else map_sum id (\<lambda>(r, n). (set_id_line entityID l # r, n)) (rewrite_id_lines entityID (Suc found) ls))"

definition id_node_error :: "ynode option \<Rightarrow> gerr option" where
  "id_node_error n =
     (case n of
        None \<Rightarrow> None
      | Some (YScalar tag v) \<Rightarrow>
          (if tag \<noteq> ''!!str'' then Some (Msg ''concept frontmatter id must be a string'')
           else if \<not> ValidLegacyConceptID (trim_space v) \<and> \<not> ValidSyntoEntityID (trim_space v)
           then Some (Msg ''invalid concept frontmatter id'') else None)
      | Some _ \<Rightarrow> Some (Msg ''concept frontmatter id must be a string''))"

definition first_line_ending :: "string \<Rightarrow> string" where
  "first_line_ending data =
     (let before = takeWhile (\<lambda>c. c \<noteq> lf) data
      in if lf \<in> set data \<and> before \<noteq> [] \<and> List.last before = cr then [cr, lf] else [lf])"

definition RewriteSyntoConceptPage :: "pageEnv \<Rightarrow> string \<Rightarrow> string \<Rightarrow> gerr + string" where
  "RewriteSyntoConceptPage env data entityID =
     (if \<not> ValidSyntoEntityID entityID then Inl (Msg ''invalid Synto entity ID'')
      else (let ending = first_line_ending data
            in if \<not> has_prefix data ''---''
               then Inr (''---'' @ ending @ ''id: '' @ entityID @ ending @ ''---'' @ ending @ data)
               else (case split_after lf data of
                       [] \<Rightarrow> Inl (Msg ''concept frontmatter is malformed'')
                     | fence0 # ls \<Rightarrow>
                         (if \<not> syntoFrontmatterFence fence0 then Inl (Msg ''concept frontmatter is malformed'')
                          else (let front = takeWhile (\<lambda>l. \<not> syntoFrontmatterFence l) ls
                                in case dropWhile (\<lambda>l. \<not> syntoFrontmatterFence l) ls of
                                     [] \<Rightarrow> Inl (Msg ''concept frontmatter is unterminated'')
                                   | closing # body \<Rightarrow>
                                       (case validateSyntoFrontmatterYAML env (concat front) of
                                          Inl e \<Rightarrow> Inl (Wrapped ''unsafe concept frontmatter'' e)
                                        | Inr content \<Rightarrow>
                                            (case id_node_error (id_node content) of
                                               Some e \<Rightarrow> Inl e
                                             | None \<Rightarrow>
                                                 (case rewrite_id_lines entityID 0 front of
                                                    Inl e \<Rightarrow> Inl e
                                                  | Inr (front', found) \<Rightarrow>
                                                      (if id_node content \<noteq> None \<and> found = 0
                                                       then Inl (Msg ''concept frontmatter id cannot be rewritten safely'')
                                                       else if found = 0
                                                       then Inr (concat (fence0 # front' @
                                                              [''id: '' @ entityID @ line_ending closing, closing] @ body))
                                                       else Inr (concat (fence0 # front' @ [closing] @ body)))))))))))"

section \<open>What a rewrite changes\<close>

lemma concat_split_after [simp]: "concat (split_after d s) = s"
proof (induction s)
  case Nil
  then show ?case by simp
next
  case (Cons c s)
  then show ?case by (cases "split_after d s") auto
qed

text \<open>The lines of the result: unchanged except for the one that sets the ID.\<close>

lemma rewrite_id_lines_shape:
  assumes "rewrite_id_lines entityID found ls = Inr (ls', n)" and "found \<le> 1"
  shows "(n = found \<and> ls' = ls \<and> list_all (\<lambda>l. \<not> id_line l) ls) \<or>
    (found = 0 \<and> n = 1 \<and> (\<exists>a l b. ls = a @ l # b \<and> id_line l \<and> ls' = a @ set_id_line entityID l # b \<and>
       list_all (\<lambda>l. \<not> id_line l) (a @ b)))"
  using assms
proof (induction ls arbitrary: found ls')
  case Nil
  then show ?case by auto
next
  case (Cons l ls)
  show ?case
  proof (cases "id_line l")
    case False
    then obtain r where rec: "rewrite_id_lines entityID found ls = Inr (r, n)" and ls': "ls' = l # r"
      using Cons.prems(1) by (cases "rewrite_id_lines entityID found ls") auto
    from Cons.IH [OF rec Cons.prems(2)] show ?thesis
    proof (elim disjE conjE exE)
      fix a x b
      assume "found = 0" "n = 1" "ls = a @ x # b" "id_line x" "r = a @ set_id_line entityID x # b"
        "list_all (\<lambda>l. \<not> id_line l) (a @ b)"
      then show ?thesis using False ls' by (intro disjI2 conjI exI [of _ "l # a"] exI [of _ x] exI [of _ b]) auto
    qed (use False ls' in auto)
  next
    case True
    then have z: "found = 0" using Cons.prems by (auto split: if_splits)
    obtain r where rec: "rewrite_id_lines entityID 1 ls = Inr (r, n)" and ls': "ls' = set_id_line entityID l # r"
      using Cons.prems(1) True z by (cases "rewrite_id_lines entityID 1 ls") auto
    from Cons.IH [OF rec] have "n = 1" "r = ls" "list_all (\<lambda>l. \<not> id_line l) ls" by auto
    then show ?thesis using True z ls' by (intro disjI2 conjI exI [of _ "[]"] exI [of _ l] exI [of _ ls]) auto
  qed
qed

text \<open>
  Making the identity of a concept page canonical touches nothing but the identity: the new
  page is the old one with one line \<open>id: entityID\<close> put in front matter of its own, added before the
  closing fence, or put in place of the value of the only line that set the ID; all other front
  matter lines and the body are kept byte for byte.
\<close>

theorem RewriteSyntoConceptPage_local:
  "case RewriteSyntoConceptPage env data entityID of
     Inl e \<Rightarrow> True
   | Inr page \<Rightarrow>
       ValidSyntoEntityID entityID \<and>
       ((\<exists>le. page = ''---'' @ le @ ''id: '' @ entityID @ le @ ''---'' @ le @ data) \<or>
        (\<exists>top a rest le. data = top @ concat a @ rest \<and> list_all (\<lambda>l. \<not> id_line l) a \<and>
           page = top @ concat a @ ''id: '' @ entityID @ le @ rest) \<or>
        (\<exists>top a l b rest. data = top @ concat (a @ l # b) @ rest \<and> id_line l \<and>
           list_all (\<lambda>l. \<not> id_line l) (a @ b) \<and> page = top @ concat (a @ set_id_line entityID l # b) @ rest))"
proof (cases "RewriteSyntoConceptPage env data entityID")
  case (Inl e)
  then show ?thesis by simp
next
  case (Inr page)
  note run = Inr [unfolded RewriteSyntoConceptPage_def Let_def]
  have valid: "ValidSyntoEntityID entityID" using run by (auto split: if_splits)
  show ?thesis
  proof (cases "has_prefix data ''---''")
    case False
    then show ?thesis using run valid Inr by auto
  next
    case True
    obtain fence0 ls where sp: "split_after lf data = fence0 # ls" and fence: "syntoFrontmatterFence fence0"
      using run valid True by (auto split: list.splits if_splits)
    let ?front = "takeWhile (\<lambda>l. \<not> syntoFrontmatterFence l) ls"
    obtain closing body where dw: "dropWhile (\<lambda>l. \<not> syntoFrontmatterFence l) ls = closing # body"
      using run valid True sp fence by (auto split: list.splits)
    have ls: "ls = ?front @ closing # body" using dw takeWhile_dropWhile_id by metis
    have data: "data = fence0 @ concat ?front @ closing @ concat body"
      using concat_split_after [of lf data] sp ls by (metis concat.simps(2) concat_append)
    obtain front' found where rw: "rewrite_id_lines entityID 0 ?front = Inr (front', found)"
      and page: "page = (if found = 0 then concat (fence0 # front' @ [''id: '' @ entityID @ line_ending closing, closing] @ body)
        else concat (fence0 # front' @ [closing] @ body))"
      using run valid True sp fence dw by (auto split: sum.splits option.splits if_splits prod.splits)
    from rewrite_id_lines_shape [OF rw zero_le_one] show ?thesis
    proof (elim disjE conjE exE)
      assume "found = 0" "front' = ?front" "list_all (\<lambda>l. \<not> id_line l) ?front"
      then have "\<exists>top a rest le. data = top @ concat a @ rest \<and> list_all (\<lambda>l. \<not> id_line l) a \<and>
           page = top @ concat a @ ''id: '' @ entityID @ le @ rest"
        using page data
        by (intro exI [of _ fence0] exI [of _ ?front] exI [of _ "closing @ concat body"] exI [of _ "line_ending closing"]) simp
      then show ?thesis using valid Inr by simp
    next
      fix a l b
      assume "found = 1" and front: "?front = a @ l # b" and "id_line l" and "front' = a @ set_id_line entityID l # b"
        and "list_all (\<lambda>l. \<not> id_line l) (a @ b)"
      then have "\<exists>top a l b rest. data = top @ concat (a @ l # b) @ rest \<and> id_line l \<and>
           list_all (\<lambda>l. \<not> id_line l) (a @ b) \<and> page = top @ concat (a @ set_id_line entityID l # b) @ rest"
        using page data
        by (intro exI [of _ fence0] exI [of _ a] exI [of _ l] exI [of _ b] exI [of _ "closing @ concat body"]) simp
      then show ?thesis using valid Inr by simp
    qed
  qed
qed

end
