(* ===== verification/Receipts.thy ===== *)
theory Receipts
  imports ObjectStore
begin

text \<open>
  Source receipts: what the worker records about the ingestion of each source
  (\<open>internal/sourcestatus/status.go\<close>), the annotation contract (\<open>internal/annotation/annotation.go\<close>),
  the checks of the cloud worker on both, and the merge of new receipts into the stored artifact
  by compare-and-swap (\<open>cmd/olw_worker/cloud_publish.go\<close>). SHA-256 in hexadecimal and the
  RFC 3339 parser are the parameters \<open>sha256\<close> and \<open>rfc3339\<close>.
\<close>

section \<open>Paths and identifiers\<close>

definition SafeRawPath :: "string \<Rightarrow> bool" where
  "SafeRawPath raw \<longleftrightarrow> raw \<noteq> ''raw/'' \<and> \<not> path_is_abs raw \<and> \<not> contains raw [CHR 0x5C] \<and>
     path_clean raw = raw \<and> has_prefix raw ''raw/''"

definition safeMappedRawPath :: "string \<Rightarrow> bool" where
  "safeMappedRawPath rawPath \<longleftrightarrow>
     SafeRawPath rawPath \<and>
     (let name = trim_prefix rawPath ''raw/'' in name \<noteq> '''' \<and> \<not> contains name ''/'')"

definition ValidSourceID :: "string \<Rightarrow> bool" where
  "ValidSourceID i \<longleftrightarrow> i \<noteq> '''' \<and> i \<noteq> ''.'' \<and> i \<noteq> ''..'' \<and> \<not> contains_any i [CHR ''/'', CHR 0x5C] \<and>
     path_clean i = i"

definition annotation_Path :: "string \<Rightarrow> string" where
  "annotation_Path sourceID = ''cache/annotations/'' @ sourceID @ ''.json''"

definition sourcestatus_Path :: string where "sourcestatus_Path = ''cache/source_status.json''"

section \<open>Annotations\<close>

record annotation =
  an_version :: int
  an_source_id :: string
  an_raw_path :: string
  an_body :: string
  an_sha256 :: string
  an_updated_at :: string
  an_updated_by :: string

definition Normalize :: "string \<Rightarrow> string" where
  "Normalize body = replace_all [CHR 0x0D] [CHR 0x0A] (replace_all [CHR 0x0D, CHR 0x0A] [CHR 0x0A] body)"

definition Digest :: "(string \<Rightarrow> string) \<Rightarrow> string \<Rightarrow> string" where
  "Digest sha256 body = sha256 (Normalize body)"

datatype annotation_error =
    AnnIdentity | AnnBody | AnnDigest | AnnAuthor | AnnTimestamp

definition annotation_Validate ::
  "(string \<Rightarrow> int option) \<Rightarrow> (string \<Rightarrow> string) \<Rightarrow> annotation \<Rightarrow> string \<Rightarrow> string \<Rightarrow> annotation_error option" where
  "annotation_Validate rfc3339 sha256 a sourceID rawPath =
     (if an_version a \<noteq> 1 \<or> an_source_id a \<noteq> sourceID \<or> an_raw_path a \<noteq> rawPath then Some AnnIdentity
      else if \<not> utf8_valid (an_body a) \<or> Normalize (an_body a) \<noteq> an_body a then Some AnnBody
      else if an_sha256 a \<noteq> Digest sha256 (an_body a) then Some AnnDigest
      else if trim_space (an_updated_by a) = '''' then Some AnnAuthor
      else if \<not> has_suffix (an_updated_at a) ''Z'' then Some AnnTimestamp
      else if rfc3339 (an_updated_at a) = None then Some AnnTimestamp
      else None)"

definition annotation_fields :: "annotation json_fields" where
  "annotation_fields =
     [(''version'', \<lambda>a v. map_sum id (\<lambda>x. a\<lparr>an_version := x\<rparr>) (decode_int64 (an_version a) v)),
      (''source_id'', \<lambda>a v. map_sum id (\<lambda>x. a\<lparr>an_source_id := x\<rparr>) (decode_string (an_source_id a) v)),
      (''raw_path'', \<lambda>a v. map_sum id (\<lambda>x. a\<lparr>an_raw_path := x\<rparr>) (decode_string (an_raw_path a) v)),
      (''body'', \<lambda>a v. map_sum id (\<lambda>x. a\<lparr>an_body := x\<rparr>) (decode_string (an_body a) v)),
      (''ann_sha256'', \<lambda>a v. map_sum id (\<lambda>x. a\<lparr>an_sha256 := x\<rparr>) (decode_string (an_sha256 a) v)),
      (''updated_at'', \<lambda>a v. map_sum id (\<lambda>x. a\<lparr>an_updated_at := x\<rparr>) (decode_string (an_updated_at a) v)),
      (''updated_by'', \<lambda>a v. map_sum id (\<lambda>x. a\<lparr>an_updated_by := x\<rparr>) (decode_string (an_updated_by a) v))]"

definition zero_annotation :: annotation where
  "zero_annotation = \<lparr>an_version = 0, an_source_id = '''', an_raw_path = '''', an_body = '''',
     an_sha256 = '''', an_updated_at = '''', an_updated_by = ''''\<rparr>"

section \<open>Receipts\<close>

record receipt =
  rc_raw_path :: string
  rc_raw_sha :: string
  rc_ann_sha :: string
  rc_fingerprint :: string
  rc_success_at :: string
  rc_failed_fingerprint :: string
  rc_error :: string

definition zero_receipt :: receipt where
  "zero_receipt = \<lparr>rc_raw_path = '''', rc_raw_sha = '''', rc_ann_sha = '''', rc_fingerprint = '''',
     rc_success_at = '''', rc_failed_fingerprint = '''', rc_error = ''''\<rparr>"

definition Fingerprint :: "(string \<Rightarrow> string) \<Rightarrow> string \<Rightarrow> string \<Rightarrow> string" where
  "Fingerprint sha256 raw ann =
     sha256 (''lwc-ingest-v1'' @ [CHR 0x0A] @ raw @ [CHR 0x0A] @ ann @ [CHR 0x0A])"

definition ValidReceipt :: "(string \<Rightarrow> int option) \<Rightarrow> (string \<Rightarrow> string) \<Rightarrow> receipt \<Rightarrow> string \<Rightarrow> bool" where
  "ValidReceipt rfc3339 sha256 r rawPath =
     (if rc_raw_path r \<noteq> rawPath \<or> trim_space (rc_raw_sha r) = '''' \<or> trim_space (rc_ann_sha r) = ''''
         \<or> trim_space (rc_fingerprint r) = '''' then False
      else if \<not> validDigest (rc_raw_sha r) \<or> \<not> validDigest (rc_ann_sha r) \<or> \<not> validDigest (rc_fingerprint r)
      then False
      else if rfc3339 (rc_success_at r) = None then False
      else rc_fingerprint r = Fingerprint sha256 (rc_raw_sha r) (rc_ann_sha r))"

definition ValidCurrentFailure :: "receipt \<Rightarrow> string \<Rightarrow> string \<Rightarrow> bool" where
  "ValidCurrentFailure r rawPath fingerprint \<longleftrightarrow>
     rc_raw_path r = rawPath \<and> trim_space (rc_error r) \<noteq> '''' \<and> rc_failed_fingerprint r = fingerprint"

text \<open>\<open>Receipt.UnmarshalJSON\<close>: repeated fields are refused, unknown ones ignored.\<close>

definition receipt_field :: "string \<Rightarrow> json \<Rightarrow> receipt \<Rightarrow> json_error + receipt" where
  "receipt_field name v r =
     (if name = ''raw_path'' then map_sum id (\<lambda>s. r\<lparr>rc_raw_path := s\<rparr>) (decode_string (rc_raw_path r) v)
      else if name = ''last_ingested_raw_sha256'' then
        map_sum id (\<lambda>s. r\<lparr>rc_raw_sha := s\<rparr>) (decode_string (rc_raw_sha r) v)
      else if name = ''last_ingested_ann_sha256'' then
        map_sum id (\<lambda>s. r\<lparr>rc_ann_sha := s\<rparr>) (decode_string (rc_ann_sha r) v)
      else if name = ''last_ingest_fingerprint'' then
        map_sum id (\<lambda>s. r\<lparr>rc_fingerprint := s\<rparr>) (decode_string (rc_fingerprint r) v)
      else if name = ''last_success_at'' then
        map_sum id (\<lambda>s. r\<lparr>rc_success_at := s\<rparr>) (decode_string (rc_success_at r) v)
      else if name = ''failed_fingerprint'' then
        map_sum id (\<lambda>s. r\<lparr>rc_failed_fingerprint := s\<rparr>) (decode_string (rc_failed_fingerprint r) v)
      else if name = ''error'' then map_sum id (\<lambda>s. r\<lparr>rc_error := s\<rparr>) (decode_string (rc_error r) v)
      else Inr r)"

fun receipt_loop :: "string list \<Rightarrow> receipt \<Rightarrow> (string \<times> json) list \<Rightarrow> json_error + receipt" where
  "receipt_loop seen r [] = Inr r"
| "receipt_loop seen r ((name, v) # kvs) =
     (if name \<in> set seen then Inl (JDuplicateKey name)
      else (case receipt_field name v r of
              Inl e \<Rightarrow> Inl e
            | Inr r' \<Rightarrow> receipt_loop (name # seen) r' kvs))"

fun decode_receipt :: "json \<Rightarrow> json_error + receipt" where
  "decode_receipt (JObj kvs) = receipt_loop [] zero_receipt kvs"
| "decode_receipt _ = Inl JExpectedObject"

record artifact =
  ar_version :: int
  ar_sources :: "(string, receipt) gomap"

definition artifact_field :: "string \<Rightarrow> json \<Rightarrow> artifact \<Rightarrow> json_error + artifact" where
  "artifact_field name v a =
     (if name = ''version'' then map_sum id (\<lambda>i. a\<lparr>ar_version := i\<rparr>) (decode_int64 (ar_version a) v)
      else if name = ''sources'' then
        map_sum id (\<lambda>m. a\<lparr>ar_sources := m\<rparr>) (DecodeBoundedMap decode_receipt v)
      else Inr a)"

fun artifact_loop :: "string list \<Rightarrow> artifact \<Rightarrow> (string \<times> json) list \<Rightarrow> json_error + artifact" where
  "artifact_loop seen a [] = Inr a"
| "artifact_loop seen a ((name, v) # kvs) =
     (if name \<in> set seen then Inl (JDuplicateKey name)
      else (case artifact_field name v a of
              Inl e \<Rightarrow> Inl e
            | Inr a' \<Rightarrow> artifact_loop (name # seen) a' kvs))"

definition sourcestatus_Decode :: "json_stream \<Rightarrow> json_error + artifact" where
  "sourcestatus_Decode dec =
     (case stream_value dec of
        Inl e \<Rightarrow> Inl e
      | Inr (JObj kvs, rest) \<Rightarrow>
          (case artifact_loop [] \<lparr>ar_version = 0, ar_sources = []\<rparr> kvs of
             Inl e \<Rightarrow> Inl e
           | Inr a \<Rightarrow>
               (case EnsureJSONEOF rest of
                  Inl e \<Rightarrow> Inl e
                | Inr _ \<Rightarrow> Inr a))
      | Inr _ \<Rightarrow> Inl JExpectedObject)"

text \<open>\<open>json.Marshal\<close> of an artifact: map keys sorted, empty optional fields left out.\<close>

definition receipt_to_json :: "receipt \<Rightarrow> json" where
  "receipt_to_json r = JObj
     ([(''raw_path'', JStr (rc_raw_path r)), (''last_ingested_raw_sha256'', JStr (rc_raw_sha r)),
       (''last_ingested_ann_sha256'', JStr (rc_ann_sha r)), (''last_ingest_fingerprint'', JStr (rc_fingerprint r)),
       (''last_success_at'', JStr (rc_success_at r))] @
      (if rc_failed_fingerprint r = '''' then [] else [(''failed_fingerprint'', JStr (rc_failed_fingerprint r))]) @
      (if rc_error r = '''' then [] else [(''error'', JStr (rc_error r))]))"

definition artifact_to_json :: "artifact \<Rightarrow> json" where
  "artifact_to_json a = JObj
     [(''version'', JInt (ar_version a)),
      (''sources'', JObj (map (\<lambda>(k, r). (k, receipt_to_json r)) (sort_by (\<lambda>a b. fst a < fst b) (ar_sources a))))]"

section \<open>The worker's checks\<close>

definition maxWorkerIDBytes :: nat where "maxWorkerIDBytes = 256"

definition normalizeCloudRawPath :: "string \<Rightarrow> string" where
  "normalizeCloudRawPath v = (if length v > MaxPathBytes \<or> \<not> safeMappedRawPath v then '''' else v)"

definition normalizeCloudDigest :: "string \<Rightarrow> string" where
  "normalizeCloudDigest v =
     (if v = '''' \<or> length v \<noteq> 64 then ''''
      else if \<not> hex_decodable v then '''' else map lower_byte v)"

definition normalizeCloudTimestamp :: "(string \<Rightarrow> int option) \<Rightarrow> (int \<Rightarrow> string) \<Rightarrow> string \<Rightarrow> string" where
  "normalizeCloudTimestamp rfc3339 utc v =
     (if v = '''' \<or> length v > 64 then ''''
      else (case rfc3339 v of None \<Rightarrow> '''' | Some t \<Rightarrow> utc t))"

text \<open>What the environment provides to the checks: the RFC 3339 parser and printer, SHA-256.\<close>

record codec =
  rfc3339 :: "string \<Rightarrow> int option"
  format_utc :: "int \<Rightarrow> string"
  sha256 :: "string \<Rightarrow> string"

definition validCloudReceipt :: "codec \<Rightarrow> string \<Rightarrow> receipt \<Rightarrow> bool" where
  "validCloudReceipt cd sourceID r =
     (if \<not> ValidSourceID sourceID \<or> length sourceID > maxWorkerIDBytes \<or> \<not> safeMappedRawPath (rc_raw_path r)
      then False
      else if list_ex (\<lambda>d. d \<noteq> '''' \<and> normalizeCloudDigest d = '''')
                [rc_raw_sha r, rc_ann_sha r, rc_fingerprint r, rc_failed_fingerprint r]
      then False
      else if rc_success_at r \<noteq> '''' \<and> normalizeCloudTimestamp (rfc3339 cd) (format_utc cd) (rc_success_at r) = ''''
      then False
      else if ValidReceipt (rfc3339 cd) (sha256 cd) r (rc_raw_path r)
      then rc_error r = '''' \<or> rc_error r = ''pipeline failed''
      else rc_raw_sha r = '''' \<and> rc_ann_sha r = '''' \<and> rc_fingerprint r = '''' \<and> rc_success_at r = '''' \<and>
           rc_error r = ''pipeline failed'' \<and> normalizeCloudDigest (rc_failed_fingerprint r) \<noteq> '''')"

text \<open>
  \<open>normalizeCloudReceipts\<close>: every receipt is valid and no two sources share a raw path. The loop
  runs over the map in the order of the list; \<open>seenRaw\<close> remembers which source has a path.
\<close>

fun normalize_loop :: "codec \<Rightarrow> (string, string) gomap \<Rightarrow> (string \<times> receipt) list \<Rightarrow> bool" where
  "normalize_loop cd seenRaw [] = True"
| "normalize_loop cd seenRaw ((sourceID, r) # rs) =
     (if \<not> validCloudReceipt cd sourceID r then False
      else if rc_raw_path r \<noteq> '''' then
        (case map_of seenRaw (rc_raw_path r) of
           Some prior \<Rightarrow>
             (if prior \<noteq> sourceID then False
              else normalize_loop cd (map_set (rc_raw_path r) sourceID seenRaw) rs)
         | None \<Rightarrow> normalize_loop cd (map_set (rc_raw_path r) sourceID seenRaw) rs)
      else normalize_loop cd seenRaw rs)"

definition normalizeCloudReceipts :: "codec \<Rightarrow> artifact \<Rightarrow> gerr option" where
  "normalizeCloudReceipts cd a =
     (if ar_version a \<noteq> 1 then Some (Sentinel errCloudSourceReceiptInvalid)
      else if \<not> normalize_loop cd [] (ar_sources a) then Some (Sentinel errCloudSourceReceiptInvalid)
      else None)"

section \<open>Snapshots\<close>

record sourceSnapshot =
  ss_source_id :: string
  ss_raw_path :: string
  ss_raw_bytes :: string
  ss_raw_sha :: string
  ss_synto_hash :: string
  ss_ann_body :: string
  ss_ann_sha :: string
  ss_fingerprint :: string
  ss_dirty :: bool
  ss_tombstone :: bool

definition cloudTombstones :: "sourceSnapshot list \<Rightarrow> sourceSnapshot list" where
  "cloudTombstones snapshots = filter ss_tombstone snapshots"

definition reservation_key :: "sourceSnapshot \<Rightarrow> string" where
  "reservation_key s = ss_source_id s @ [CHR 0x00] @ ss_raw_path s"

fun reservations_loop :: "string list \<Rightarrow> sourceSnapshot list \<Rightarrow> sourceSnapshot list \<Rightarrow> sourceSnapshot list" where
  "reservations_loop seen snapshots [] = snapshots"
| "reservations_loop seen snapshots (r # rs) =
     (if reservation_key r \<in> set seen then reservations_loop seen snapshots rs
      else reservations_loop (reservation_key r # seen) (snapshots @ [r]) rs)"

definition appendCloudReservations :: "sourceSnapshot list \<Rightarrow> sourceSnapshot list \<Rightarrow> sourceSnapshot list" where
  "appendCloudReservations snapshots reservations =
     reservations_loop (map reservation_key snapshots) snapshots reservations"

text \<open>The fingerprint of the input: the live snapshots in order.\<close>

definition snapshotFingerprint :: "(string \<Rightarrow> string) \<Rightarrow> sourceSnapshot list \<Rightarrow> string" where
  "snapshotFingerprint sha s =
     sha (concat (map (\<lambda>x. if ss_tombstone x then [] else ss_source_id x @ [CHR 0x00] @ ss_fingerprint x @ [CHR 0x0A]) s))"

section \<open>Merging receipts into the store\<close>

record 'w receiptEnv =
  re_store :: "'w objectStore"
  re_codec :: codec
  re_parse :: "string \<Rightarrow> json_stream"
  re_marshal :: "json \<Rightarrow> string"
  re_now :: "'w \<Rightarrow> string"

definition annotation_of_json :: "json_stream \<Rightarrow> annotation option" where
  "annotation_of_json s =
     (case s of
        [Some v] \<Rightarrow>
          (case unmarshal_struct annotation_fields zero_annotation v of Inl _ \<Rightarrow> None | Inr a \<Rightarrow> Some a)
      | _ \<Rightarrow> None)"

definition cloudSnapshotCurrent :: "'w receiptEnv \<Rightarrow> string \<Rightarrow> sourceSnapshot \<Rightarrow> 'w \<Rightarrow> bool \<times> 'w" where
  "cloudSnapshotCurrent env prefix s w =
     (let sha = sha256 (re_codec env)
      in case st_read (re_store env) (prefix @ ss_raw_path s) 0 MaxFileBytes w of
           (Inl e, w1) \<Rightarrow> (False, w1)
         | (Inr (raw, _), w1) \<Rightarrow>
             (if sha raw \<noteq> ss_raw_sha s then (False, w1)
              else (case st_read (re_store env) (prefix @ annotation_Path (ss_source_id s)) 0 MaxFileBytes w1 of
                      (Inl e, w2) \<Rightarrow>
                        (if isObjectNotFound e then (ss_ann_sha s = Digest sha '''', w2) else (False, w2))
                    | (Inr (b, _), w2) \<Rightarrow>
                        (case annotation_of_json (re_parse env b) of
                           None \<Rightarrow> (False, w2)
                         | Some a \<Rightarrow>
                             (annotation_Validate (rfc3339 (re_codec env)) sha a (ss_source_id s) (ss_raw_path s) = None \<and>
                              an_sha256 a = ss_ann_sha s, w2)))))"

fun merge_success_loop ::
  "'w receiptEnv \<Rightarrow> string \<Rightarrow> sourceSnapshot list \<Rightarrow> artifact \<Rightarrow> 'w \<Rightarrow> artifact \<times> 'w" where
  "merge_success_loop env prefix [] a w = (a, w)"
| "merge_success_loop env prefix (s # ss) a w =
     (if ss_tombstone s then merge_success_loop env prefix ss a w
      else (case cloudSnapshotCurrent env prefix s w of
              (current, w') \<Rightarrow>
                (if \<not> current then merge_success_loop env prefix ss a w'
                 else merge_success_loop env prefix ss
                   (a\<lparr>ar_sources := map_set (ss_source_id s)
                       \<lparr>rc_raw_path = ss_raw_path s, rc_raw_sha = ss_raw_sha s, rc_ann_sha = ss_ann_sha s,
                        rc_fingerprint = ss_fingerprint s, rc_success_at = re_now env w',
                        rc_failed_fingerprint = '''', rc_error = ''''\<rparr> (ar_sources a)\<rparr>) w')))"

fun merge_failure_loop ::
  "'w receiptEnv \<Rightarrow> string \<Rightarrow> sourceSnapshot list \<Rightarrow> artifact \<Rightarrow> 'w \<Rightarrow> artifact \<times> 'w" where
  "merge_failure_loop env prefix [] a w = (a, w)"
| "merge_failure_loop env prefix (s # ss) a w =
     (if ss_tombstone s then merge_failure_loop env prefix ss a w
      else (case cloudSnapshotCurrent env prefix s w of
              (current, w') \<Rightarrow>
                (if \<not> current then merge_failure_loop env prefix ss a w'
                 else (let r = map_get_or zero_receipt (ar_sources a) (ss_source_id s)
                       in merge_failure_loop env prefix ss
                            (a\<lparr>ar_sources := map_set (ss_source_id s)
                                (r\<lparr>rc_raw_path := ss_raw_path s, rc_failed_fingerprint := ss_fingerprint s,
                                   rc_error := ''pipeline failed''\<rparr>) (ar_sources a)\<rparr>) w'))))"

text \<open>
  The read-merge-write loop. The outcome of one attempt is an error, success, or a lost race.
\<close>

definition read_receipts :: "'w receiptEnv \<Rightarrow> string \<Rightarrow> 'w \<Rightarrow> (gerr + artifact \<times> objectConditions) \<times> 'w" where
  "read_receipts env prefix w =
     (case st_read (re_store env) (prefix @ sourcestatus_Path) 0 MaxFileBytes w of
        (Inr (data, attrs), w1) \<Rightarrow>
          (case sourcestatus_Decode (re_parse env data) of
             Inl e \<Rightarrow> (Inl (annotate errCloudSourceReceiptInvalid (Msg ''decode'')), w1)
           | Inr a \<Rightarrow>
               (case normalizeCloudReceipts (re_codec env) a of
                  Some e \<Rightarrow> (Inl (annotate errCloudSourceReceiptInvalid e), w1)
                | None \<Rightarrow> (Inr (a, matchGeneration (a_generation attrs)), w1)))
      | (Inl e, w1) \<Rightarrow>
          (if \<not> isObjectNotFound e then (Inl (annotate errCloudSourceReceiptRead e), w1)
           else (Inr (\<lparr>ar_version = 1, ar_sources = []\<rparr>, createOnly), w1)))"

fun mergeCloudReceipts ::
  "nat \<Rightarrow> 'w receiptEnv \<Rightarrow> string \<Rightarrow> (artifact \<Rightarrow> 'w \<Rightarrow> artifact \<times> 'w) \<Rightarrow> 'w \<Rightarrow> gerr option \<times> 'w" where
  "mergeCloudReceipts 0 env prefix merge w = (Some (Sentinel errCloudSourceReceiptConflict), w)"
| "mergeCloudReceipts (Suc n) env prefix merge w =
     (case read_receipts env prefix w of
        (Inl e, w1) \<Rightarrow> (Some e, w1)
      | (Inr (a, condition), w1) \<Rightarrow>
          (case merge a w1 of
             (a', w2) \<Rightarrow>
               (case st_write (re_store env) (prefix @ sourcestatus_Path) (re_marshal env (artifact_to_json a')) []
                       condition w2 of
                  (Inr _, w3) \<Rightarrow> (None, w3)
                | (Inl e, w3) \<Rightarrow>
                    (if \<not> isObjectGenerationConflict e then (Some (annotate errCloudSourceReceiptWrite e), w3)
                     else mergeCloudReceipts n env prefix merge w3))))"

definition cloudReceiptCASAttempts :: nat where "cloudReceiptCASAttempts = 3"

definition mergeCloudSuccess :: "'w receiptEnv \<Rightarrow> string \<Rightarrow> sourceSnapshot list \<Rightarrow> 'w \<Rightarrow> gerr option \<times> 'w" where
  "mergeCloudSuccess env prefix snapshots w =
     mergeCloudReceipts cloudReceiptCASAttempts env prefix (merge_success_loop env prefix snapshots) w"

definition mergeCloudFailure :: "'w receiptEnv \<Rightarrow> string \<Rightarrow> sourceSnapshot list \<Rightarrow> 'w \<Rightarrow> gerr option \<times> 'w" where
  "mergeCloudFailure env prefix snapshots w =
     mergeCloudReceipts cloudReceiptCASAttempts env prefix (merge_failure_loop env prefix snapshots) w"

section \<open>The stored artifact is well formed\<close>

lemma SafeRawPath_nonempty: "SafeRawPath p \<Longrightarrow> p \<noteq> ''''"
  by (auto simp: SafeRawPath_def has_prefix_def)

lemma validCloudReceipt_path: "validCloudReceipt cd i r \<Longrightarrow> rc_raw_path r \<noteq> ''''"
  by (auto simp: validCloudReceipt_def safeMappedRawPath_def dest: SafeRawPath_nonempty split: if_splits)

lemma normalize_loop_iff:
  "distinct (map fst rs) \<Longrightarrow> fst ` set rs \<inter> snd ` set seen = {} \<Longrightarrow> map_wf seen \<Longrightarrow>
     normalize_loop cd seen rs \<longleftrightarrow>
       list_all (\<lambda>(i, r). validCloudReceipt cd i r) rs \<and> distinct (map (rc_raw_path \<circ> snd) rs) \<and>
       fst ` set seen \<inter> (rc_raw_path \<circ> snd) ` set rs = {}"
proof (induction cd seen rs rule: normalize_loop.induct)
  case (1 cd seen)
  then show ?case by simp
next
  case (2 cd seen i r rs)
  show ?case
  proof (cases "validCloudReceipt cd i r")
    case False
    then show ?thesis by simp
  next
    case valid: True
    have path: "rc_raw_path r \<noteq> ''''" using valid by (rule validCloudReceipt_path)
    show ?thesis
    proof (cases "map_of seen (rc_raw_path r)")
      case (Some prior)
      then have "(rc_raw_path r, prior) \<in> set seen" by (rule map_of_SomeD)
      then have "prior \<noteq> i" "rc_raw_path r \<in> fst ` set seen" using "2.prems"(2) by force+
      with Some valid path show ?thesis by auto
    next
      case None
      then have fresh: "rc_raw_path r \<notin> fst ` set seen" by (simp add: map_of_eq_None_iff)
      have snds: "snd ` set (map_set (rc_raw_path r) i seen) = insert i (snd ` set seen)"
        using fresh by (simp add: map_set_fresh)
      have "normalize_loop cd (map_set (rc_raw_path r) i seen) rs \<longleftrightarrow>
         list_all (\<lambda>(i, r). validCloudReceipt cd i r) rs \<and> distinct (map (rc_raw_path \<circ> snd) rs) \<and>
         fst ` set (map_set (rc_raw_path r) i seen) \<inter> (rc_raw_path \<circ> snd) ` set rs = {}"
        by (rule "2.IH"(1)) (use valid path None "2.prems" snds in auto)
      with valid path None fresh show ?thesis by (auto simp: comp_def)
    qed
  qed
qed

lemma normalizeCloudReceipts_iff:
  "map_wf (ar_sources a) \<Longrightarrow> normalizeCloudReceipts cd a = None \<longleftrightarrow>
    ar_version a = 1 \<and> list_all (\<lambda>(i, r). validCloudReceipt cd i r) (ar_sources a) \<and>
    distinct (map (rc_raw_path \<circ> snd) (ar_sources a))"
  using normalize_loop_iff [of "ar_sources a" "[]" cd]
  by (auto simp: normalizeCloudReceipts_def map_wf_def)

text \<open>
  The stored artifact is accepted exactly when its version is 1, every receipt passes the
  checks and no two sources claim the same raw file; the answer does not depend on the order in
  which the map is visited.
\<close>

theorem normalizeCloudReceipts_exact:
  assumes "map_wf (ar_sources a)"
  shows "normalizeCloudReceipts cd a = None \<longleftrightarrow>
    ar_version a = 1 \<and> list_all (\<lambda>(i, r). validCloudReceipt cd i r) (ar_sources a) \<and>
    distinct (map (rc_raw_path \<circ> snd) (ar_sources a))"
  by (rule normalizeCloudReceipts_iff [OF assms])

section \<open>What a merge does to the receipts\<close>

definition success_receipt :: "sourceSnapshot \<Rightarrow> string \<Rightarrow> receipt" where
  "success_receipt s t = \<lparr>rc_raw_path = ss_raw_path s, rc_raw_sha = ss_raw_sha s, rc_ann_sha = ss_ann_sha s,
     rc_fingerprint = ss_fingerprint s, rc_success_at = t, rc_failed_fingerprint = '''', rc_error = ''''\<rparr>"

definition failure_receipt :: "sourceSnapshot \<Rightarrow> receipt \<Rightarrow> receipt" where
  "failure_receipt s r = r\<lparr>rc_raw_path := ss_raw_path s, rc_failed_fingerprint := ss_fingerprint s,
     rc_error := ''pipeline failed''\<rparr>"

text \<open>
  Both merges are folds of one step: a live snapshot that is current replaces the receipt of its
  source by \<open>upd\<close> of the old one, anything else is skipped.
\<close>

lemma merge_success_induct:
  assumes "P a" and "merge_success_loop env prefix ss a w = (a', w')"
    and "\<And>a s t. P a \<Longrightarrow> s \<in> set ss \<Longrightarrow> \<not> ss_tombstone s \<Longrightarrow>
      P (a\<lparr>ar_sources := map_set (ss_source_id s) (success_receipt s (re_now env t)) (ar_sources a)\<rparr>)"
  shows "P a'"
  using assms
proof (induction env prefix ss a w rule: merge_success_loop.induct)
  case (1 env prefix a w)
  then show ?case by simp
next
  case (2 env prefix s ss a w)
  show ?case
  proof (cases "ss_tombstone s")
    case True
    show ?thesis by (rule "2.IH"(1) [OF True "2.prems"(1)]) (use True "2.prems" in auto)
  next
    case False
    obtain current w1 where c: "cloudSnapshotCurrent env prefix s w = (current, w1)" by fastforce
    show ?thesis
    proof (cases "\<not> current")
      case False': True
      show ?thesis
        by (rule "2.IH"(2) [OF False c [symmetric] False' "2.prems"(1)]) (use False c False' "2.prems" in auto)
    next
      case cur: False
      have "P (a\<lparr>ar_sources := map_set (ss_source_id s) (success_receipt s (re_now env w1)) (ar_sources a)\<rparr>)"
        by (rule "2.prems"(3)) (use "2.prems"(1) False in auto)
      then show ?thesis unfolding success_receipt_def
        by (rule "2.IH"(3) [OF False c [symmetric] cur])
          (use cur False c "2.prems" in \<open>auto simp: success_receipt_def\<close>)
    qed
  qed
qed

lemma merge_failure_induct:
  assumes "P a" and "merge_failure_loop env prefix ss a w = (a', w')"
    and "\<And>a s. P a \<Longrightarrow> s \<in> set ss \<Longrightarrow> \<not> ss_tombstone s \<Longrightarrow>
      P (a\<lparr>ar_sources := map_set (ss_source_id s)
            (failure_receipt s (map_get_or zero_receipt (ar_sources a) (ss_source_id s))) (ar_sources a)\<rparr>)"
  shows "P a'"
  using assms
proof (induction env prefix ss a w rule: merge_failure_loop.induct)
  case (1 env prefix a w)
  then show ?case by simp
next
  case (2 env prefix s ss a w)
  show ?case
  proof (cases "ss_tombstone s")
    case True
    show ?thesis by (rule "2.IH"(1) [OF True "2.prems"(1)]) (use True "2.prems" in auto)
  next
    case False
    obtain current w1 where c: "cloudSnapshotCurrent env prefix s w = (current, w1)" by fastforce
    show ?thesis
    proof (cases "\<not> current")
      case False': True
      show ?thesis
        by (rule "2.IH"(2) [OF False c [symmetric] False' "2.prems"(1)]) (use False c False' "2.prems" in auto)
    next
      case cur: False
      have "P (a\<lparr>ar_sources := map_set (ss_source_id s)
            (failure_receipt s (map_get_or zero_receipt (ar_sources a) (ss_source_id s))) (ar_sources a)\<rparr>)"
        by (rule "2.prems"(3)) (use "2.prems"(1) False in auto)
      then show ?thesis unfolding failure_receipt_def
        by (rule "2.IH"(3) [OF False c [symmetric] cur refl])
          (use cur False c "2.prems" in \<open>auto simp: failure_receipt_def Let_def\<close>)
    qed
  qed
qed

text \<open>A snapshot as the worker builds it, and a clock that prints what the parser reads.\<close>

definition snapshot_ok :: "codec \<Rightarrow> sourceSnapshot \<Rightarrow> bool" where
  "snapshot_ok cd s \<longleftrightarrow> ValidSourceID (ss_source_id s) \<and> length (ss_source_id s) \<le> maxWorkerIDBytes \<and>
     safeMappedRawPath (ss_raw_path s) \<and> validDigest (ss_raw_sha s) \<and> validDigest (ss_ann_sha s) \<and>
     validDigest (ss_fingerprint s) \<and> ss_fingerprint s = Fingerprint (sha256 cd) (ss_raw_sha s) (ss_ann_sha s)"

definition snapshots_ok :: "codec \<Rightarrow> sourceSnapshot list \<Rightarrow> bool" where
  "snapshots_ok cd ss \<longleftrightarrow> list_all (\<lambda>s. ss_tombstone s \<or> snapshot_ok cd s) ss"

definition clock_ok :: "'w receiptEnv \<Rightarrow> bool" where
  "clock_ok env \<longleftrightarrow>
     (\<forall>w. re_now env w \<noteq> '''' \<and> length (re_now env w) \<le> 64 \<and>
          (\<exists>t. rfc3339 (re_codec env) (re_now env w) = Some t \<and> format_utc (re_codec env) t \<noteq> ''''))"

lemma validDigest_facts:
  assumes "validDigest d"
  shows "d \<noteq> ''''" and "trim_space d \<noteq> ''''" and "normalizeCloudDigest d \<noteq> ''''"
proof -
  from assms have l: "length d = 64" "hex_decodable d" by (auto simp: validDigest_def)
  then show "d \<noteq> ''''" by auto
  with l show "trim_space d \<noteq> ''''" "normalizeCloudDigest d \<noteq> ''''"
    by (auto simp: normalizeCloudDigest_def hex_decodable_def trim_space_hex)
qed

lemma snapshot_okD:
  assumes "snapshot_ok cd s"
  shows "ValidSourceID (ss_source_id s)" and "length (ss_source_id s) \<le> maxWorkerIDBytes"
    and "safeMappedRawPath (ss_raw_path s)" and "validDigest (ss_raw_sha s)" and "validDigest (ss_ann_sha s)"
    and "validDigest (ss_fingerprint s)"
    and "Fingerprint (sha256 cd) (ss_raw_sha s) (ss_ann_sha s) = ss_fingerprint s"
  using assms unfolding snapshot_ok_def by metis+

lemma success_receipt_valid:
  assumes "snapshot_ok (re_codec env) s" and "clock_ok env"
  shows "ValidReceipt (rfc3339 (re_codec env)) (sha256 (re_codec env)) (success_receipt s (re_now env w)) (ss_raw_path s)"
proof -
  from assms(2) obtain t where "rfc3339 (re_codec env) (re_now env w) = Some t" unfolding clock_ok_def by blast
  with snapshot_okD [OF assms(1)] show ?thesis
    by (simp add: ValidReceipt_def success_receipt_def validDigest_facts)
qed

lemma success_receipt_cloud_valid:
  assumes "snapshot_ok (re_codec env) s" and "clock_ok env"
  shows "validCloudReceipt (re_codec env) (ss_source_id s) (success_receipt s (re_now env w))"
proof -
  from assms(2) obtain t where "rfc3339 (re_codec env) (re_now env w) = Some t"
    "format_utc (re_codec env) t \<noteq> ''''" "length (re_now env w) \<le> 64" "re_now env w \<noteq> ''''"
    unfolding clock_ok_def by blast
  with snapshot_okD [OF assms(1)] success_receipt_valid [OF assms, of w] show ?thesis
    by (simp add: validCloudReceipt_def success_receipt_def validDigest_facts
        normalizeCloudTimestamp_def)
qed

lemma failure_receipt_cloud_valid:
  assumes ok: "snapshot_ok cd s"
    and r: "r = zero_receipt \<or> validCloudReceipt cd (ss_source_id s) r"
  shows "validCloudReceipt cd (ss_source_id s) (failure_receipt s r)"
proof -
  have same: "ValidReceipt (rfc3339 cd) (sha256 cd) (failure_receipt s r) (ss_raw_path s) \<longleftrightarrow>
      ValidReceipt (rfc3339 cd) (sha256 cd) r (rc_raw_path r)"
    by (simp add: ValidReceipt_def failure_receipt_def)
  have "\<not> ValidReceipt (rfc3339 cd) (sha256 cd) zero_receipt p" for p
    by (simp add: ValidReceipt_def zero_receipt_def trim_space_def trim_right_def)
  with same ok r show ?thesis
    by (auto simp: validCloudReceipt_def failure_receipt_def zero_receipt_def snapshot_ok_def validDigest_facts
        split: if_splits)
qed

definition receipts_ok :: "codec \<Rightarrow> artifact \<Rightarrow> bool" where
  "receipts_ok cd a \<longleftrightarrow> ar_version a = 1 \<and> map_wf (ar_sources a) \<and>
     list_all (\<lambda>(i, r). validCloudReceipt cd i r) (ar_sources a)"

lemma receipts_ok_set:
  "receipts_ok cd a \<Longrightarrow> validCloudReceipt cd i r \<Longrightarrow> receipts_ok cd (a\<lparr>ar_sources := map_set i r (ar_sources a)\<rparr>)"
  by (auto simp: receipts_ok_def intro: list_all_map_set)

lemma receipts_ok_get:
  "receipts_ok cd a \<Longrightarrow> map_get_or zero_receipt (ar_sources a) i = zero_receipt \<or>
     validCloudReceipt cd i (map_get_or zero_receipt (ar_sources a) i)"
  by (auto simp: receipts_ok_def map_get_or_def list_all_iff dest!: map_of_SomeD split: option.split)

lemma merge_valid:
  assumes "receipts_ok (re_codec env) a" and "snapshots_ok (re_codec env) ss" and "clock_ok env"
  shows "receipts_ok (re_codec env) (fst (merge_success_loop env prefix ss a w))"
    and "receipts_ok (re_codec env) (fst (merge_failure_loop env prefix ss a w))"
proof -
  have ok: "snapshot_ok (re_codec env) s" if "s \<in> set ss" "\<not> ss_tombstone s" for s
    using assms(2) that by (auto simp: snapshots_ok_def list_all_iff)
  show "receipts_ok (re_codec env) (fst (merge_success_loop env prefix ss a w))"
    by (rule merge_success_induct [where P = "receipts_ok (re_codec env)", OF assms(1) surjective_pairing])
      (blast intro: receipts_ok_set success_receipt_cloud_valid ok assms(3))
  show "receipts_ok (re_codec env) (fst (merge_failure_loop env prefix ss a w))"
    by (rule merge_failure_induct [where P = "receipts_ok (re_codec env)", OF assms(1) surjective_pairing])
      (rule receipts_ok_set failure_receipt_cloud_valid ok receipts_ok_get | assumption)+
qed

text \<open>
  Recording the outcome of a run keeps the receipts valid: merging the success or the
  failure of well-formed snapshots into an artifact whose receipts pass the checks gives an
  artifact whose receipts pass the checks, whatever objects changed or could not be read
  meanwhile.
\<close>

theorem merge_keeps_receipts_valid:
  assumes "receipts_ok (re_codec env) a" and "snapshots_ok (re_codec env) ss" and "clock_ok env"
  shows "receipts_ok (re_codec env) (fst (merge_success_loop env prefix ss a w)) \<and>
    receipts_ok (re_codec env) (fst (merge_failure_loop env prefix ss a w))"
  using merge_valid [OF assms] by blast

text \<open>The part of a receipt that describes the last successful ingestion.\<close>

definition success_part :: "receipt \<Rightarrow> string \<times> string \<times> string \<times> string" where
  "success_part r = (rc_raw_sha r, rc_ann_sha r, rc_fingerprint r, rc_success_at r)"

text \<open>
  C24. A failed run never erases what is known about the last success: for every source the
  digests, the fingerprint and the time of the last successful ingestion are the same after
  recording a failure, and receipts of sources that are not in the run are untouched.
\<close>

theorem merge_failure_keeps_success:
  "success_part (map_get_or zero_receipt (ar_sources (fst (merge_failure_loop env prefix ss a w))) i) =
     success_part (map_get_or zero_receipt (ar_sources a) i) \<and>
   (i \<in> ss_source_id ` set ss \<or>
    map_of (ar_sources (fst (merge_failure_loop env prefix ss a w))) i = map_of (ar_sources a) i)"
proof
  show "success_part (map_get_or zero_receipt (ar_sources (fst (merge_failure_loop env prefix ss a w))) i) =
     success_part (map_get_or zero_receipt (ar_sources a) i)"
    by (rule merge_failure_induct [OF _ surjective_pairing, where P = "\<lambda>b.
          success_part (map_get_or zero_receipt (ar_sources b) i) =
          success_part (map_get_or zero_receipt (ar_sources a) i)"])
      (auto simp: success_part_def failure_receipt_def map_get_or_def split: option.splits)
  have "i \<notin> ss_source_id ` set ss \<Longrightarrow>
    map_of (ar_sources (fst (merge_failure_loop env prefix ss a w))) i = map_of (ar_sources a) i"
    by (rule merge_failure_induct [OF _ surjective_pairing, where P = "\<lambda>b.
          map_of (ar_sources b) i = map_of (ar_sources a) i"]) auto
  then show "i \<in> ss_source_id ` set ss \<or>
    map_of (ar_sources (fst (merge_failure_loop env prefix ss a w))) i = map_of (ar_sources a) i" by blast
qed

section \<open>The artifact survives serialisation\<close>

lemma decode_receipt_to_json: "decode_receipt (receipt_to_json r) = Inr r"
  by (simp add: receipt_to_json_def receipt_field_def zero_receipt_def)

lemma map_of_sort_by: "map_wf m \<Longrightarrow> map_wf (sort_by lt m) \<and> map_of (sort_by lt m) = map_of m"
  using map_wf_mset [of m "sort_by lt m"] by simp

text \<open>
  C25. What is written is what is read back: an artifact within the entry budget, serialised with
  sorted keys and decoded, has the same version and the same receipt for every source.
\<close>

theorem artifact_roundtrip:
  assumes "map_wf (ar_sources a)" and "length (ar_sources a) \<le> MaxFiles" and "in_int64 (ar_version a)"
  shows "\<exists>b. sourcestatus_Decode [Some (artifact_to_json a)] = Inr b \<and> ar_version b = ar_version a \<and>
    map_wf (ar_sources b) \<and> map_of (ar_sources b) = map_of (ar_sources a)"
proof -
  let ?m = "sort_by (\<lambda>a b. fst a < fst b) (ar_sources a)"
  have wf: "map_wf ?m" "map_of ?m = map_of (ar_sources a)" using map_of_sort_by [OF assms(1)] by blast+
  have "DecodeBoundedMap decode_receipt (JObj (map (\<lambda>(k, r). (k, receipt_to_json r)) ?m)) = Inr ?m"
    using bounded_map_loop_complete [of ?m "[]" "[]" 0 decode_receipt receipt_to_json] wf(1) assms(2)
    by (simp add: map_wf_def decode_receipt_to_json)
  with assms(3) wf show ?thesis
    by (simp add: sourcestatus_Decode_def artifact_to_json_def artifact_field_def)
qed

lemma artifact_loop_wf:
  "artifact_loop seen a kvs = Inr b \<Longrightarrow> map_wf (ar_sources a) \<Longrightarrow> map_wf (ar_sources b)"
proof (induction seen a kvs rule: artifact_loop.induct)
  case (1 seen a)
  then show ?case by simp
next
  case (2 seen a name v kvs)
  then obtain a' where fresh: "name \<notin> set seen" and f: "artifact_field name v a = Inr a'"
    and rec: "artifact_loop (name # seen) a' kvs = Inr b"
    by (auto split: if_splits sum.splits)
  have "map_wf (ar_sources a')"
    using f "2.prems"(2)
    by (auto simp: artifact_field_def map_sum_def split: if_splits sum.splits elim: DecodeBoundedMap_ok)
  with "2.IH" [OF fresh f rec] show ?case by blast
qed

lemma sourcestatus_Decode_wf:
  "sourcestatus_Decode s = Inr a \<Longrightarrow> map_wf (ar_sources a)"
  by (auto simp: sourcestatus_Decode_def dest: artifact_loop_wf split: sum.splits prod.splits json.splits)

section \<open>The compare-and-swap loop\<close>

text \<open>The artifact a worker starts from when the store holds \<open>c\<close> under the receipts' name.\<close>

definition stored_receipts :: "'w receiptEnv \<Rightarrow> (string \<times> int) option \<Rightarrow> artifact \<Rightarrow> bool" where
  "stored_receipts env c a \<longleftrightarrow>
     (case c of
        None \<Rightarrow> a = \<lparr>ar_version = 1, ar_sources = []\<rparr>
      | Some (d, g) \<Rightarrow> sourcestatus_Decode (re_parse env d) = Inr a \<and> normalizeCloudReceipts (re_codec env) a = None)"

lemma stored_receipts_ok: "stored_receipts env c a \<Longrightarrow> receipts_ok (re_codec env) a"
  by (auto simp: stored_receipts_def receipts_ok_def normalizeCloudReceipts_iff
      dest: sourcestatus_Decode_wf split: option.splits)

text \<open>
  What a conditional write may have left behind when it reported a conflict: the outside call can
  fail although it took effect, so a later attempt may read the artifact an earlier attempt of the
  same recording wrote.
\<close>

inductive attempted ::
  "'w receiptEnv \<Rightarrow> (artifact \<Rightarrow> 'w \<Rightarrow> artifact \<times> 'w) \<Rightarrow> (string \<times> int) option \<Rightarrow> (string \<times> int) option \<Rightarrow> bool"
  for env merge c0 where
  as_found: "attempted env merge c0 c0"
| own_attempt: "attempted env merge c0 c \<Longrightarrow> stored_receipts env c a \<Longrightarrow>
    attempted env merge c0 (Some (re_marshal env (artifact_to_json (fst (merge a v))), g))"

text \<open>A snapshot is current in a store when the raw file and the annotation there have its digests.\<close>

definition snapshot_matches :: "'w receiptEnv \<Rightarrow> string \<Rightarrow> sourceSnapshot \<Rightarrow> contents \<Rightarrow> bool" where
  "snapshot_matches env prefix s ob \<longleftrightarrow>
     (\<exists>d g. ob (prefix @ ss_raw_path s) = Some (d, g) \<and> sha256 (re_codec env) d = ss_raw_sha s) \<and>
     (case ob (prefix @ annotation_Path (ss_source_id s)) of
        None \<Rightarrow> ss_ann_sha s = Digest (sha256 (re_codec env)) []
      | Some (b, _) \<Rightarrow>
          (\<exists>a. annotation_of_json (re_parse env b) = Some a \<and> an_sha256 a = ss_ann_sha s \<and>
             annotation_Validate (rfc3339 (re_codec env)) (sha256 (re_codec env)) a (ss_source_id s) (ss_raw_path s) = None))"

text \<open>The receipt a run that succeeded, or failed, leaves of a source that had the receipt \<open>old\<close>.\<close>

definition outcome_receipt :: "'w receiptEnv \<Rightarrow> bool \<Rightarrow> sourceSnapshot \<Rightarrow> receipt \<Rightarrow> receipt \<Rightarrow> bool" where
  "outcome_receipt env ok s old new \<longleftrightarrow>
     (if ok then \<exists>t. new = success_receipt s (re_now env t)
      else \<exists>r. new = failure_receipt s r \<and> success_part r = success_part old)"

definition merge_outcome :: "'w receiptEnv \<Rightarrow> string \<Rightarrow> bool \<Rightarrow> sourceSnapshot list \<Rightarrow> artifact \<Rightarrow> 'w \<Rightarrow> artifact \<times> 'w" where
  "merge_outcome env prefix ok ss = (if ok then merge_success_loop env prefix ss else merge_failure_loop env prefix ss)"

text \<open>Only the receipts of current snapshots of the run change, and those to its outcome.\<close>

definition only_outcomes ::
  "'w receiptEnv \<Rightarrow> string \<Rightarrow> bool \<Rightarrow> sourceSnapshot list \<Rightarrow> contents \<Rightarrow> artifact \<Rightarrow> artifact \<Rightarrow> bool" where
  "only_outcomes env prefix ok ss ob a a' \<longleftrightarrow>
     (\<forall>i. map_of (ar_sources a') i = map_of (ar_sources a) i \<or>
       (\<exists>s \<in> set ss. \<exists>new. ss_source_id s = i \<and> \<not> ss_tombstone s \<and> snapshot_matches env prefix s ob \<and>
          map_of (ar_sources a') i = Some new \<and> outcome_receipt env ok s (map_get_or zero_receipt (ar_sources a) i) new))"

lemma only_outcomes_refl: "only_outcomes env prefix ok ss ob a a"
  by (simp add: only_outcomes_def)

lemma only_outcomes_weaken: "only_outcomes env prefix ok ss ob a a' \<Longrightarrow> only_outcomes env prefix ok (s # ss) ob a a'"
  unfolding only_outcomes_def by (metis list.set_intros(2))

lemma only_outcomes_step:
  assumes rest: "only_outcomes env prefix ok ss ob (a\<lparr>ar_sources := map_set (ss_source_id s) r (ar_sources a)\<rparr>) a'"
    and s: "\<not> ss_tombstone s" "snapshot_matches env prefix s ob"
    and r: "outcome_receipt env ok s (map_get_or zero_receipt (ar_sources a) (ss_source_id s)) r"
  shows "only_outcomes env prefix ok (s # ss) ob a a'"
  unfolding only_outcomes_def
proof
  fix i
  let ?old = "map_get_or zero_receipt (ar_sources a) (ss_source_id s)"
  have same: "outcome_receipt env ok t r new \<Longrightarrow> outcome_receipt env ok t ?old new" for t new
    using r by (auto simp: outcome_receipt_def success_part_def failure_receipt_def split: if_splits)
  note R = rest [unfolded only_outcomes_def, rule_format, of i]
  show "map_of (ar_sources a') i = map_of (ar_sources a) i \<or>
    (\<exists>t \<in> set (s # ss). \<exists>new. ss_source_id t = i \<and> \<not> ss_tombstone t \<and> snapshot_matches env prefix t ob \<and>
       map_of (ar_sources a') i = Some new \<and> outcome_receipt env ok t (map_get_or zero_receipt (ar_sources a) i) new)"
  proof (cases "i = ss_source_id s")
    case False
    then show ?thesis using R by (auto simp: map_get_or_def)
  next
    case True
    from R True have "map_of (ar_sources a') i = Some r \<or>
      (\<exists>t \<in> set ss. \<exists>new. ss_source_id t = i \<and> \<not> ss_tombstone t \<and> snapshot_matches env prefix t ob \<and>
         map_of (ar_sources a') i = Some new \<and> outcome_receipt env ok t r new)"
      by (simp add: map_get_or_def)
    then show ?thesis using s r same True by (metis list.set_intros)
  qed
qed

lemma success_part_failure [simp]: "success_part (failure_receipt s r) = success_part r"
  by (simp add: success_part_def failure_receipt_def)

locale receipt_world = object_store st obj inv known
  for st :: "'w objectStore" and obj :: "'w \<Rightarrow> contents" and inv :: "'w \<Rightarrow> bool" and known :: "'w \<Rightarrow> int \<Rightarrow> bool" +
  fixes env :: "'w receiptEnv"
  assumes env_store: "re_store env = st"
begin

lemma current_frame:
  assumes "inv w" and "cloudSnapshotCurrent env prefix s w = (b, w')"
  shows "inv w' \<and> obj w' = obj w"
proof -
  obtain r1 w1 where r1: "st_read st (prefix @ ss_raw_path s) 0 MaxFileBytes w = (r1, w1)" by fastforce
  obtain r2 w2 where r2: "st_read st (prefix @ annotation_Path (ss_source_id s)) 0 MaxFileBytes w1 = (r2, w2)"
    by fastforce
  note f1 = read_frame [OF assms(1) r1]
  note f2 = read_frame [OF f1 [THEN conjunct1] r2]
  have "w' = w1 \<or> w' = w2"
    using assms(2) r1 r2
    by (cases r1; cases r2) (auto simp: cloudSnapshotCurrent_def env_store Let_def split: if_splits option.splits)
  with f1 f2 show ?thesis by auto
qed

lemma merge_success_frame:
  "inv w \<Longrightarrow> merge_success_loop env prefix ss a w = (a', w') \<Longrightarrow> inv w' \<and> obj w' = obj w"
proof (induction ss arbitrary: a w)
  case Nil
  then show ?case by simp
next
  case (Cons s ss)
  obtain b w1 where c: "cloudSnapshotCurrent env prefix s w = (b, w1)" by fastforce
  from current_frame [OF Cons.prems(1) c] Cons c show ?case by (auto split: if_splits)
qed

lemma merge_failure_frame:
  "inv w \<Longrightarrow> merge_failure_loop env prefix ss a w = (a', w') \<Longrightarrow> inv w' \<and> obj w' = obj w"
proof (induction ss arbitrary: a w)
  case Nil
  then show ?case by simp
next
  case (Cons s ss)
  obtain b w1 where c: "cloudSnapshotCurrent env prefix s w = (b, w1)" by fastforce
  from current_frame [OF Cons.prems(1) c] Cons c show ?case by (auto simp: Let_def split: if_splits)
qed

lemma read_receipts_ok:
  assumes "inv w" and "read_receipts env prefix w = (Inr (a, c), w')"
  shows "inv w' \<and> obj w' = obj w \<and> stored_receipts env (obj w (prefix @ sourcestatus_Path)) a"
proof -
  obtain r w1 where rd: "st_read st (prefix @ sourcestatus_Path) 0 MaxFileBytes w = (r, w1)" by fastforce
  note f = read_frame [OF assms(1) rd]
  show ?thesis
  proof (cases r)
    case (Inl e)
    with rd assms(2) have e: "isObjectNotFound e" "a = \<lparr>ar_version = 1, ar_sources = []\<rparr>" "w' = w1"
      by (auto simp: read_receipts_def env_store split: if_splits)
    with f read_missing [OF assms(1) rd [unfolded Inl]] show ?thesis by (simp add: stored_receipts_def)
  next
    case (Inr da)
    obtain d attrs where da: "da = (d, attrs)" by (cases da)
    with Inr rd assms(2) have "sourcestatus_Decode (re_parse env d) = Inr a" "w' = w1"
      "normalizeCloudReceipts (re_codec env) a = None"
      by (auto simp: read_receipts_def env_store split: sum.splits option.splits)
    with f read_ok [OF assms(1) rd [unfolded Inr da]] show ?thesis by (simp add: stored_receipts_def)
  qed
qed

lemma current_matches:
  assumes "inv w" and "cloudSnapshotCurrent env prefix s w = (True, w')"
  shows "snapshot_matches env prefix s (obj w)"
proof -
  let ?ann = "prefix @ annotation_Path (ss_source_id s)"
  obtain r1 w1 where r1: "st_read st (prefix @ ss_raw_path s) 0 MaxFileBytes w = (r1, w1)" by fastforce
  obtain r2 w2 where r2: "st_read st ?ann 0 MaxFileBytes w1 = (r2, w2)" by fastforce
  note f1 = read_frame [OF assms(1) r1]
  obtain d at where d: "r1 = Inr (d, at)" "sha256 (re_codec env) d = ss_raw_sha s"
    using assms(2) r1 by (cases r1) (auto simp: cloudSnapshotCurrent_def env_store Let_def split: if_splits)
  have raw: "obj w (prefix @ ss_raw_path s) = Some (d, a_generation at)"
    using read_ok [OF assms(1) r1 [unfolded d(1)]] by blast
  show ?thesis
  proof (cases r2)
    case (Inl e)
    then have e: "isObjectNotFound e" "ss_ann_sha s = Digest (sha256 (re_codec env)) []"
      using assms(2) r1 r2 d by (auto simp: cloudSnapshotCurrent_def env_store Let_def split: if_splits)
    have "obj w1 ?ann = None" using read_missing [OF f1 [THEN conjunct1] r2 [unfolded Inl]] e(1) by simp
    then show ?thesis using raw d(2) f1 e(2) by (auto simp: snapshot_matches_def)
  next
    case (Inr bt)
    obtain b bat where bt: "bt = (b, bat)" by (cases bt)
    have "obj w1 ?ann = Some (b, a_generation bat)"
      using read_ok [OF f1 [THEN conjunct1] r2 [unfolded Inr bt]] by blast
    moreover obtain a where "annotation_of_json (re_parse env b) = Some a" "an_sha256 a = ss_ann_sha s"
      "annotation_Validate (rfc3339 (re_codec env)) (sha256 (re_codec env)) a (ss_source_id s) (ss_raw_path s) = None"
      using assms(2) r1 r2 d Inr bt by (auto simp: cloudSnapshotCurrent_def env_store Let_def split: option.splits)
    ultimately show ?thesis using raw d(2) f1 by (auto simp: snapshot_matches_def)
  qed
qed

lemma merge_success_outcomes:
  "inv w \<Longrightarrow> only_outcomes env prefix True ss (obj w) a (fst (merge_success_loop env prefix ss a w))"
proof (induction ss arbitrary: a w)
  case Nil
  then show ?case by (simp add: only_outcomes_refl)
next
  case (Cons s ss)
  obtain b w1 where c: "cloudSnapshotCurrent env prefix s w = (b, w1)" by fastforce
  note f = current_frame [OF Cons.prems c]
  have skip: "only_outcomes env prefix True (s # ss) (obj w) a (fst (merge_success_loop env prefix ss a v))"
    if "inv v" "obj v = obj w" for v
    using only_outcomes_weaken [OF Cons.IH [OF that(1)]] that(2) by simp
  show ?case
  proof (cases "ss_tombstone s \<or> \<not> b")
    case True
    then show ?thesis using skip [OF Cons.prems refl] skip [of w1] f c by auto
  next
    case False
    let ?r = "success_receipt s (re_now env w1)"
    let ?a1 = "a\<lparr>ar_sources := map_set (ss_source_id s) ?r (ar_sources a)\<rparr>"
    have m: "snapshot_matches env prefix s (obj w)" using current_matches [OF Cons.prems] c False by simp
    have run: "fst (merge_success_loop env prefix (s # ss) a w) = fst (merge_success_loop env prefix ss ?a1 w1)"
      using False c by (simp add: success_receipt_def)
    have "only_outcomes env prefix True ss (obj w) ?a1 (fst (merge_success_loop env prefix ss ?a1 w1))"
      using Cons.IH [of w1 ?a1] f by simp
    then show ?thesis unfolding run using m False by (intro only_outcomes_step) (auto simp: outcome_receipt_def)
  qed
qed

lemma merge_failure_outcomes:
  "inv w \<Longrightarrow> only_outcomes env prefix False ss (obj w) a (fst (merge_failure_loop env prefix ss a w))"
proof (induction ss arbitrary: a w)
  case Nil
  then show ?case by (simp add: only_outcomes_refl)
next
  case (Cons s ss)
  obtain b w1 where c: "cloudSnapshotCurrent env prefix s w = (b, w1)" by fastforce
  note f = current_frame [OF Cons.prems c]
  have skip: "only_outcomes env prefix False (s # ss) (obj w) a (fst (merge_failure_loop env prefix ss a v))"
    if "inv v" "obj v = obj w" for v
    using only_outcomes_weaken [OF Cons.IH [OF that(1)]] that(2) by simp
  show ?case
  proof (cases "ss_tombstone s \<or> \<not> b")
    case True
    then show ?thesis using skip [OF Cons.prems refl] skip [of w1] f c by auto
  next
    case False
    let ?old = "map_get_or zero_receipt (ar_sources a) (ss_source_id s)"
    let ?r = "failure_receipt s ?old"
    let ?a1 = "a\<lparr>ar_sources := map_set (ss_source_id s) ?r (ar_sources a)\<rparr>"
    have m: "snapshot_matches env prefix s (obj w)" using current_matches [OF Cons.prems] c False by simp
    have run: "fst (merge_failure_loop env prefix (s # ss) a w) = fst (merge_failure_loop env prefix ss ?a1 w1)"
      using False c by (simp add: failure_receipt_def Let_def)
    have "only_outcomes env prefix False ss (obj w) ?a1 (fst (merge_failure_loop env prefix ss ?a1 w1))"
      using Cons.IH [of w1 ?a1] f by simp
    then show ?thesis unfolding run using m False by (intro only_outcomes_step) (auto simp: outcome_receipt_def)
  qed
qed

lemma merge_outcome_facts:
  assumes "inv v"
  shows "inv (snd (merge_outcome env prefix ok ss a v)) \<and> obj (snd (merge_outcome env prefix ok ss a v)) = obj v"
    and "only_outcomes env prefix ok ss (obj v) a (fst (merge_outcome env prefix ok ss a v))"
  using merge_success_frame [OF assms surjective_pairing] merge_failure_frame [OF assms surjective_pairing]
    merge_success_outcomes [OF assms] merge_failure_outcomes [OF assms]
  by (simp_all add: merge_outcome_def)

lemma mergeCloudReceipts_ok:
  assumes merge: "\<forall>a v. inv v \<longrightarrow> inv (snd (merge a v)) \<and> obj (snd (merge a v)) = obj v"
  shows "inv w \<Longrightarrow> mergeCloudReceipts n env prefix merge w = (None, w') \<Longrightarrow>
    attempted env merge c0 (obj w (prefix @ sourcestatus_Path)) \<Longrightarrow>
    \<exists>a v c g. attempted env merge c0 c \<and> stored_receipts env c a \<and> inv v \<and>
      (\<forall>k. k \<noteq> prefix @ sourcestatus_Path \<longrightarrow> obj v k = obj w k) \<and>
      obj w' (prefix @ sourcestatus_Path) = Some (re_marshal env (artifact_to_json (fst (merge a v))), g) \<and>
      (\<forall>k. k \<noteq> prefix @ sourcestatus_Path \<longrightarrow> obj w' k = obj w k)"
proof (induction n arbitrary: w)
  case 0
  then show ?case by simp
next
  case (Suc n)
  let ?p = "prefix @ sourcestatus_Path"
  from Suc.prems(2) obtain a c w1 where rd: "read_receipts env prefix w = (Inr (a, c), w1)"
    by (auto split: prod.splits sum.splits)
  note r = read_receipts_ok [OF Suc.prems(1) rd]
  obtain a' w2 where m: "merge a w1 = (a', w2)" by fastforce
  have mf: "inv w2" "obj w2 = obj w" using merge [rule_format, of w1 a] r m by auto
  obtain res w3 where wr: "st_write st ?p (re_marshal env (artifact_to_json a')) [] c w2 = (res, w3)" by fastforce
  show ?case
  proof (cases res)
    case (Inr at)
    with Suc.prems(2) rd m wr have "w' = w3" by (simp add: env_store)
    with write_ok [OF mf(1) wr [unfolded Inr]] mf r m
    have "stored_receipts env (obj w ?p) a" "inv w1" "obj w1 = obj w"
      "obj w' ?p = Some (re_marshal env (artifact_to_json (fst (merge a w1))), a_generation at)"
      "\<forall>k. k \<noteq> ?p \<longrightarrow> obj w' k = obj w k" by auto
    then show ?thesis using Suc.prems(3) by metis
  next
    case (Inl e)
    with Suc.prems(2) rd m wr have rec: "mergeCloudReceipts n env prefix merge w3 = (None, w')"
      by (auto simp: env_store split: if_splits)
    have inv3: "inv w3" using write_inv [OF mf(1) wr] by blast
    have other: "\<forall>k. k \<noteq> ?p \<longrightarrow> obj w3 k = obj w k" using write_other [OF mf(1) wr] mf by metis
    have "obj w3 ?p = obj w ?p \<or> (\<exists>i. obj w3 ?p = Some (re_marshal env (artifact_to_json (fst (merge a w1))), i))"
      using write_error [OF mf(1) wr [unfolded Inl]] mf m by auto
    then have "attempted env merge c0 (obj w3 ?p)"
      using Suc.prems(3) own_attempt [OF Suc.prems(3) r [THEN conjunct2, THEN conjunct2]] by metis
    from Suc.IH [OF inv3 rec this] show ?thesis using other by metis
  qed
qed

lemma merges_recorded:
  assumes w: "inv w" and ss: "snapshots_ok (re_codec env) ss" and clock: "clock_ok env"
    and run: "(if ok then mergeCloudSuccess else mergeCloudFailure) env prefix ss w = (None, w')"
  shows "\<exists>c a v a' g. attempted env (merge_outcome env prefix ok ss) (obj w (prefix @ sourcestatus_Path)) c \<and>
    stored_receipts env c a \<and> a' = fst (merge_outcome env prefix ok ss a v) \<and> receipts_ok (re_codec env) a' \<and>
    (\<forall>k. k \<noteq> prefix @ sourcestatus_Path \<longrightarrow> obj v k = obj w k) \<and> only_outcomes env prefix ok ss (obj v) a a' \<and>
    obj w' (prefix @ sourcestatus_Path) = Some (re_marshal env (artifact_to_json a'), g) \<and>
    (\<forall>k. k \<noteq> prefix @ sourcestatus_Path \<longrightarrow> obj w' k = obj w k)"
proof -
  have "mergeCloudReceipts cloudReceiptCASAttempts env prefix (merge_outcome env prefix ok ss) w = (None, w')"
    using run by (simp add: merge_outcome_def mergeCloudSuccess_def mergeCloudFailure_def split: if_splits)
  from mergeCloudReceipts_ok [OF _ w this as_found] merge_outcome_facts(1)
  obtain a v c g where r: "attempted env (merge_outcome env prefix ok ss) (obj w (prefix @ sourcestatus_Path)) c"
    "stored_receipts env c a" "inv v" "\<forall>k. k \<noteq> prefix @ sourcestatus_Path \<longrightarrow> obj v k = obj w k"
    "obj w' (prefix @ sourcestatus_Path) =
       Some (re_marshal env (artifact_to_json (fst (merge_outcome env prefix ok ss a v))), g)"
    "\<forall>k. k \<noteq> prefix @ sourcestatus_Path \<longrightarrow> obj w' k = obj w k" by blast
  have "receipts_ok (re_codec env) (fst (merge_outcome env prefix ok ss a v))"
    using merge_valid [OF stored_receipts_ok [OF r(2)] ss clock] by (simp add: merge_outcome_def)
  then show ?thesis using r merge_outcome_facts(2) [OF r(3)]
    by (intro exI [of _ c] exI [of _ a] exI [of _ v] exI [of _ "fst (merge_outcome env prefix ok ss a v)"] exI [of _ g] conjI)
      (assumption | rule refl)+
qed

end

text \<open>The merge over the in-memory store.\<close>

definition mem_receipt_env :: "codec \<Rightarrow> (string \<Rightarrow> json_stream) \<Rightarrow> (json \<Rightarrow> string) \<Rightarrow> string \<Rightarrow> memoryObjects receiptEnv" where
  "mem_receipt_env cd parse marshal now =
     \<lparr>re_store = memoryStore, re_codec = cd, re_parse = parse, re_marshal = marshal, re_now = (\<lambda>_. now)\<rparr>"

interpretation mem_receipts: receipt_world memoryStore mem_obj mem_inv mem_known
  "mem_receipt_env cd parse marshal now" for cd parse marshal now
  by unfold_locales (simp add: mem_receipt_env_def)


section \<open>Concrete instances\<close>

definition sample_sha :: string where "sample_sha = replicate 64 (CHR ''a'')"

definition sample_codec :: codec where
  "sample_codec = \<lparr>rfc3339 = (\<lambda>s. if s = ''t'' then Some 0 else None), format_utc = (\<lambda>_. ''t''), sha256 = (\<lambda>_. sample_sha)\<rparr>"

definition sample_snapshot :: sourceSnapshot where
  "sample_snapshot = \<lparr>ss_source_id = ''s1'', ss_raw_path = ''raw/a.md'', ss_raw_bytes = ''x'', ss_raw_sha = sample_sha,
     ss_synto_hash = '''', ss_ann_body = '''', ss_ann_sha = sample_sha, ss_fingerprint = sample_sha,
     ss_dirty = True, ss_tombstone = False\<rparr>"

definition sample_receipt_env :: "memoryObjects receiptEnv" where
  "sample_receipt_env = mem_receipt_env sample_codec (\<lambda>_. []) (\<lambda>_. ''{}'') ''t''"

definition sample_objects :: memoryObjects where
  "sample_objects = snd (mem_Write ''p/raw/a.md'' ''x'' [] unconditional newMemoryObjects)"

definition sample_artifact :: artifact where
  "sample_artifact = \<lparr>ar_version = 1, ar_sources = [(''s0'', success_receipt (sample_snapshot\<lparr>ss_raw_path := ''raw/b.md''\<rparr>) ''t'')]\<rparr>"

lemma sample_codec_simps [simp]: "re_codec sample_receipt_env = sample_codec" "re_now sample_receipt_env w = ''t''"
  by (simp_all add: sample_receipt_env_def mem_receipt_env_def)

lemma sample_snapshot_ok: "snapshots_ok sample_codec [sample_snapshot]"
  by code_simp

lemma sample_clock_ok: "clock_ok sample_receipt_env"
  by (simp add: clock_ok_def) (simp add: sample_codec_def)

lemma sample_artifact_ok: "receipts_ok sample_codec sample_artifact"
  by code_simp

lemma normalizeCloudReceipts_exact_witness: "normalizeCloudReceipts sample_codec sample_artifact = None"
proof -
  have "map_wf (ar_sources sample_artifact)"
    "ar_version sample_artifact = 1 \<and>
     list_all (\<lambda>(i, r). validCloudReceipt sample_codec i r) (ar_sources sample_artifact) \<and>
     distinct (map (rc_raw_path \<circ> snd) (ar_sources sample_artifact))"
    by code_simp+
  then show ?thesis using normalizeCloudReceipts_exact by blast
qed

lemma merge_keeps_receipts_valid_witness:
  "receipts_ok sample_codec (fst (merge_success_loop sample_receipt_env ''p/'' [sample_snapshot] sample_artifact sample_objects)) \<and>
   receipts_ok sample_codec (fst (merge_failure_loop sample_receipt_env ''p/'' [sample_snapshot] sample_artifact sample_objects))"
  using merge_keeps_receipts_valid [of sample_receipt_env sample_artifact "[sample_snapshot]" "''p/''" sample_objects]
    sample_snapshot_ok sample_clock_ok sample_artifact_ok by simp

lemma artifact_roundtrip_witness:
  "\<exists>b. sourcestatus_Decode [Some (artifact_to_json sample_artifact)] = Inr b \<and>
     map_of (ar_sources b) = map_of (ar_sources sample_artifact)"
proof -
  have "map_wf (ar_sources sample_artifact)" "length (ar_sources sample_artifact) \<le> MaxFiles"
    "in_int64 (ar_version sample_artifact)" by code_simp+
  from artifact_roundtrip [OF this] show ?thesis by blast
qed


end
