(* ===== verification/IdMap.thy ===== *)
theory IdMap
  imports Frontmatter Receipts
begin

text \<open>
  The ID map of a wiki (\<open>internal/wikiindex/wikiindex.go\<close>, \<open>identity.go\<close>): which concept and source
  IDs stand for which pages, the redirects from earlier slugs and IDs, its bounded decoder and
  encoder, and how a rebuild derives it from the pages and the previous map, for legacy projects
  and for projects with Synto identities. The front matter parser, MD5 and the JSON printer are
  parameters.
\<close>

section \<open>The map and its decoder\<close>

record sourceMeta =
  sm_slug :: string
  sm_title :: string
  sm_source_file :: string

record idMap =
  im_concept :: "(string, string) gomap"
  im_dormant :: "(string, string) gomap"
  im_entity :: "(string, string) gomap"
  im_source :: "(string, string) gomap"
  im_source_meta :: "(string, sourceMeta) gomap"
  im_redirects :: "(string, string list) gomap"
  im_id_redirects :: "(string, string) gomap"

definition empty_idMap :: idMap where
  "empty_idMap = \<lparr>im_concept = [], im_dormant = [], im_entity = [], im_source = [], im_source_meta = [],
     im_redirects = [], im_id_redirects = []\<rparr>"

definition zero_sourceMeta :: sourceMeta where
  "zero_sourceMeta = \<lparr>sm_slug = '''', sm_title = '''', sm_source_file = ''''\<rparr>"

text \<open>\<open>SourceMeta.UnmarshalJSON\<close>: repeated fields are refused, unknown ones ignored.\<close>

definition source_meta_field :: "string \<Rightarrow> json \<Rightarrow> sourceMeta \<Rightarrow> json_error + sourceMeta" where
  "source_meta_field name v m =
     (if name = ''slug'' then map_sum id (\<lambda>s. m\<lparr>sm_slug := s\<rparr>) (decode_string (sm_slug m) v)
      else if name = ''title'' then map_sum id (\<lambda>s. m\<lparr>sm_title := s\<rparr>) (decode_string (sm_title m) v)
      else if name = ''source_file'' then
        map_sum id (\<lambda>s. m\<lparr>sm_source_file := s\<rparr>) (decode_string (sm_source_file m) v)
      else Inr m)"

fun source_meta_loop :: "string list \<Rightarrow> sourceMeta \<Rightarrow> (string \<times> json) list \<Rightarrow> json_error + sourceMeta" where
  "source_meta_loop seen m [] = Inr m"
| "source_meta_loop seen m ((name, v) # kvs) =
     (if name \<in> set seen then Inl (JDuplicateKey name)
      else (case source_meta_field name v m of
              Inl e \<Rightarrow> Inl e
            | Inr m' \<Rightarrow> source_meta_loop (name # seen) m' kvs))"

fun decode_source_meta :: "json \<Rightarrow> json_error + sourceMeta" where
  "decode_source_meta (JObj kvs) = source_meta_loop [] zero_sourceMeta kvs"
| "decode_source_meta _ = Inl JExpectedObject"

abbreviation decode_string_map :: "json \<Rightarrow> json_error + (string, string) gomap" where
  "decode_string_map \<equiv> DecodeBoundedMap (decode_string '''')"

definition id_map_field :: "string \<Rightarrow> json \<Rightarrow> idMap \<Rightarrow> json_error + idMap" where
  "id_map_field name v m =
     (if name = ''concept'' then map_sum id (\<lambda>x. m\<lparr>im_concept := x\<rparr>) (decode_string_map v)
      else if name = ''dormant_concept'' then map_sum id (\<lambda>x. m\<lparr>im_dormant := x\<rparr>) (decode_string_map v)
      else if name = ''concept_entity_id'' then map_sum id (\<lambda>x. m\<lparr>im_entity := x\<rparr>) (decode_string_map v)
      else if name = ''source'' then map_sum id (\<lambda>x. m\<lparr>im_source := x\<rparr>) (decode_string_map v)
      else if name = ''source_meta'' then
        map_sum id (\<lambda>x. m\<lparr>im_source_meta := x\<rparr>) (DecodeBoundedMap decode_source_meta v)
      else if name = ''redirects'' then map_sum id (\<lambda>x. m\<lparr>im_redirects := x\<rparr>) (DecodeBoundedStringLists v)
      else if name = ''id_redirects'' then map_sum id (\<lambda>x. m\<lparr>im_id_redirects := x\<rparr>) (decode_string_map v)
      else Inr m)"

fun id_map_loop :: "string list \<Rightarrow> idMap \<Rightarrow> (string \<times> json) list \<Rightarrow> json_error + idMap" where
  "id_map_loop seen m [] = Inr m"
| "id_map_loop seen m ((name, v) # kvs) =
     (if name \<in> set seen then Inl (JDuplicateKey name)
      else (case id_map_field name v m of
              Inl e \<Rightarrow> Inl e
            | Inr m' \<Rightarrow> id_map_loop (name # seen) m' kvs))"

definition DecodeIDMap :: "json_stream \<Rightarrow> json_error + idMap" where
  "DecodeIDMap dec =
     (case stream_value dec of
        Inl e \<Rightarrow> Inl e
      | Inr (JObj kvs, rest) \<Rightarrow>
          (case id_map_loop [] empty_idMap kvs of
             Inl e \<Rightarrow> Inl e
           | Inr m \<Rightarrow>
               (case EnsureJSONEOF rest of
                  Inl e \<Rightarrow> Inl e
                | Inr _ \<Rightarrow> Inr m))
      | Inr _ \<Rightarrow> Inl JExpectedObject)"

text \<open>
  \<open>json.MarshalIndent\<close> of a map whose fields are all allocated, as every map the code encodes:
  keys sorted, fields marked \<open>omitempty\<close> left out when empty. An empty redirect list is written as
  \<open>[]\<close> when it is an allocated slice, as in the maps the worker reconciles (\<open>make\<close>, or the decoder's own), and as
  \<open>null\<close> when it is a nil slice, as in a rebuilt map, whose lists are \<open>append([]string(nil), ...)\<close>
  (\<open>cloneRedirects\<close>).
\<close>

definition sort_keys :: "(string, 'v) gomap \<Rightarrow> (string, 'v) gomap" where
  "sort_keys m = sort_by (\<lambda>a b. fst a < fst b) m"

definition map_to_json :: "('v \<Rightarrow> json) \<Rightarrow> (string, 'v) gomap \<Rightarrow> json" where
  "map_to_json f m = JObj (map (\<lambda>(k, v). (k, f v)) (sort_keys m))"

definition omit_empty :: "string \<Rightarrow> ('v \<Rightarrow> json) \<Rightarrow> (string, 'v) gomap \<Rightarrow> (string \<times> json) list" where
  "omit_empty name f m = (if m = [] then [] else [(name, map_to_json f m)])"

definition source_meta_to_json :: "sourceMeta \<Rightarrow> json" where
  "source_meta_to_json m = JObj
     ([(''slug'', JStr (sm_slug m))] @
      (if sm_title m = '''' then [] else [(''title'', JStr (sm_title m))]) @
      (if sm_source_file m = '''' then [] else [(''source_file'', JStr (sm_source_file m))]))"

definition allocated_list :: "string list \<Rightarrow> json" where
  "allocated_list xs = JArr (map JStr xs)"

definition cloned_list :: "string list \<Rightarrow> json" where
  "cloned_list xs = (if xs = [] then JNull else JArr (map JStr xs))"

definition idMap_members :: "(string list \<Rightarrow> json) \<Rightarrow> idMap \<Rightarrow> (string \<times> json) list" where
  "idMap_members enc m =
     ([(''concept'', map_to_json JStr (im_concept m))] @
      omit_empty ''dormant_concept'' JStr (im_dormant m) @
      omit_empty ''concept_entity_id'' JStr (im_entity m) @
      [(''source'', map_to_json JStr (im_source m))] @
      omit_empty ''source_meta'' source_meta_to_json (im_source_meta m) @
      [(''redirects'', map_to_json enc (im_redirects m))] @
      omit_empty ''id_redirects'' JStr (im_id_redirects m))"

definition idMap_to_json :: "idMap \<Rightarrow> json" where "idMap_to_json m = JObj (idMap_members allocated_list m)"

definition encodeIDMap :: "idMap \<Rightarrow> json" where "encodeIDMap m = JObj (idMap_members cloned_list m)"

section \<open>The map survives serialisation\<close>

text \<open>What the decoder can accept: maps with distinct keys within the entry budget.\<close>

definition bounded_map :: "(string, 'v) gomap \<Rightarrow> bool" where
  "bounded_map m \<longleftrightarrow> map_wf m \<and> length m \<le> MaxFiles"

definition bounded_idMap :: "idMap \<Rightarrow> bool" where
  "bounded_idMap m \<longleftrightarrow> bounded_map (im_concept m) \<and> bounded_map (im_dormant m) \<and> bounded_map (im_entity m) \<and>
     bounded_map (im_source m) \<and> bounded_map (im_source_meta m) \<and> bounded_map (im_id_redirects m) \<and>
     bounded_map (im_redirects m) \<and> list_all (\<lambda>(k, xs). length xs \<le> MaxFiles) (im_redirects m)"

lemma sort_keys_wf: "map_wf m \<Longrightarrow> map_wf (sort_keys m) \<and> map_of (sort_keys m) = map_of m"
  using map_wf_mset [of m "sort_keys m"] by (simp add: sort_keys_def)

lemma sort_keys_facts [simp]: "length (sort_keys m) = length m" "set (sort_keys m) = set m" "sort_keys [] = []"
  by (simp_all add: sort_keys_def)

lemma DecodeBoundedMap_map_to_json:
  assumes "bounded_map m" and "\<forall>k v. (k, v) \<in> set m \<longrightarrow> dec (enc v) = Inr v"
  shows "DecodeBoundedMap dec (map_to_json enc m) = Inr (sort_keys m)"
  using bounded_map_loop_complete [of "sort_keys m" "[]" "[]" 0 dec enc] assms sort_keys_wf [of m]
  by (auto simp: map_to_json_def bounded_map_def map_wf_def)

lemma bounded_strings_loop_complete:
  "length acc + length xs \<le> MaxFiles \<Longrightarrow> bounded_strings_loop acc (map JStr xs) = Inr (acc @ xs)"
  by (induction xs arbitrary: acc) auto

lemma decode_source_meta_to_json: "decode_source_meta (source_meta_to_json m) = Inr m"
  by (simp add: source_meta_to_json_def source_meta_field_def zero_sourceMeta_def)

definition sorted_idMap :: "idMap \<Rightarrow> idMap" where
  "sorted_idMap m = \<lparr>im_concept = sort_keys (im_concept m), im_dormant = sort_keys (im_dormant m),
     im_entity = sort_keys (im_entity m), im_source = sort_keys (im_source m),
     im_source_meta = sort_keys (im_source_meta m), im_redirects = sort_keys (im_redirects m),
     im_id_redirects = sort_keys (im_id_redirects m)\<rparr>"

lemma DecodeIDMap_members:
  assumes b: "bounded_idMap m"
    and red: "DecodeBoundedStringLists (map_to_json enc (im_redirects m)) = Inr (sort_keys (im_redirects m))"
  shows "DecodeIDMap [Some (JObj (idMap_members enc m))] = Inr (sorted_idMap m)"
proof -
  have str: "decode_string_map (map_to_json JStr x) = Inr (sort_keys x)" if "bounded_map x" for x
    using that by (intro DecodeBoundedMap_map_to_json) simp_all
  have meta: "DecodeBoundedMap decode_source_meta (map_to_json source_meta_to_json (im_source_meta m)) =
      Inr (sort_keys (im_source_meta m))"
    using b by (intro DecodeBoundedMap_map_to_json) (simp_all add: bounded_idMap_def decode_source_meta_to_json)
  have "id_map_loop [] empty_idMap (idMap_members enc m) = Inr (sorted_idMap m)"
    using b [unfolded bounded_idMap_def] str meta red
    by (cases "im_dormant m = []"; cases "im_entity m = []"; cases "im_source_meta m = []"; cases "im_id_redirects m = []")
      (simp_all add: idMap_members_def omit_empty_def id_map_field_def empty_idMap_def sorted_idMap_def)
  then show ?thesis by (simp add: DecodeIDMap_def)
qed

lemma DecodeIDMap_sorted:
  assumes "bounded_idMap m"
  shows "DecodeIDMap [Some (idMap_to_json m)] = Inr (sorted_idMap m)"
  unfolding idMap_to_json_def
proof (rule DecodeIDMap_members [OF assms])
  show "DecodeBoundedStringLists (map_to_json allocated_list (im_redirects m)) = Inr (sort_keys (im_redirects m))"
    unfolding DecodeBoundedStringLists_def
    using assms bounded_strings_loop_complete [of "[]"]
    by (intro DecodeBoundedMap_map_to_json) (auto simp: bounded_idMap_def list_all_iff allocated_list_def)
qed

lemma DecodeIDMap_encoded:
  assumes "bounded_idMap m" and "list_all (\<lambda>(k, xs). xs \<noteq> []) (im_redirects m)"
  shows "DecodeIDMap [Some (encodeIDMap m)] = Inr (sorted_idMap m)"
  unfolding encodeIDMap_def
proof (rule DecodeIDMap_members [OF assms(1)])
  show "DecodeBoundedStringLists (map_to_json cloned_list (im_redirects m)) = Inr (sort_keys (im_redirects m))"
    unfolding DecodeBoundedStringLists_def
    using assms bounded_strings_loop_complete [of "[]"]
    by (intro DecodeBoundedMap_map_to_json) (auto simp: bounded_idMap_def list_all_iff cloned_list_def)
qed

text \<open>A redirect list that was nil makes the map unreadable.\<close>

lemma bounded_map_loop_bad:
  "(k, v) \<in> set kvs \<Longrightarrow> dec v = Inl e \<Longrightarrow> \<exists>e'. bounded_map_loop dec n seen result kvs = Inl e'"
  by (induction dec n seen result kvs rule: bounded_map_loop.induct) (auto split: sum.splits)

lemma DecodeIDMap_nil_list:
  assumes b: "bounded_idMap m" and nil: "\<not> list_all (\<lambda>(k, xs). xs \<noteq> []) (im_redirects m)"
  shows "\<exists>e. DecodeIDMap [Some (encodeIDMap m)] = Inl e"
proof -
  obtain k where k: "(k, []) \<in> set (im_redirects m)" using nil by (auto simp: list_all_iff)
  have "(k, cloned_list []) \<in> set (map (\<lambda>(k, v). (k, cloned_list v)) (sort_keys (im_redirects m)))"
    using k by (force simp: image_iff)
  moreover have "DecodeBoundedStrings (cloned_list []) = Inl JExpectedArray" by (simp add: cloned_list_def)
  ultimately have "\<exists>e. DecodeBoundedStringLists (map_to_json cloned_list (im_redirects m)) = Inl e"
    unfolding DecodeBoundedStringLists_def map_to_json_def DecodeBoundedMap.simps by (rule bounded_map_loop_bad)
  then obtain e where bad: "DecodeBoundedStringLists (map_to_json cloned_list (im_redirects m)) = Inl e" by blast
  have str: "decode_string_map (map_to_json JStr x) = Inr (sort_keys x)" if "bounded_map x" for x
    using that by (intro DecodeBoundedMap_map_to_json) simp_all
  have meta: "DecodeBoundedMap decode_source_meta (map_to_json source_meta_to_json (im_source_meta m)) =
      Inr (sort_keys (im_source_meta m))"
    using b by (intro DecodeBoundedMap_map_to_json) (simp_all add: bounded_idMap_def decode_source_meta_to_json)
  have "id_map_loop [] empty_idMap (idMap_members cloned_list m) = Inl e"
    using b [unfolded bounded_idMap_def] str meta bad
    by (cases "im_dormant m = []"; cases "im_entity m = []"; cases "im_source_meta m = []")
      (simp_all add: idMap_members_def omit_empty_def id_map_field_def empty_idMap_def)
  then show ?thesis by (simp add: DecodeIDMap_def encodeIDMap_def)
qed

definition same_idMap :: "idMap \<Rightarrow> idMap \<Rightarrow> bool" where
  "same_idMap m m' \<longleftrightarrow>
     map_of (im_concept m) = map_of (im_concept m') \<and> map_of (im_dormant m) = map_of (im_dormant m') \<and>
     map_of (im_entity m) = map_of (im_entity m') \<and> map_of (im_source m) = map_of (im_source m') \<and>
     map_of (im_source_meta m) = map_of (im_source_meta m') \<and> map_of (im_redirects m) = map_of (im_redirects m') \<and>
     map_of (im_id_redirects m) = map_of (im_id_redirects m')"

text \<open>
  C38. What is written is what is read, and when it is not. An ID map within the entry budget as the worker
  writes it is decoded to a map with the same concepts, sources and redirects. The map a rebuild
  writes is decoded to the same map exactly when it has no empty redirect list; with one,
  the list is written as \<open>null\<close> and no later read of the map succeeds.
\<close>

theorem idMap_roundtrip:
  assumes "bounded_idMap m"
  shows "(\<exists>m'. DecodeIDMap [Some (idMap_to_json m)] = Inr m' \<and> same_idMap m' m) \<and>
    (if list_all (\<lambda>(k, xs). xs \<noteq> []) (im_redirects m)
     then \<exists>m'. DecodeIDMap [Some (encodeIDMap m)] = Inr m' \<and> same_idMap m' m
     else \<exists>e. DecodeIDMap [Some (encodeIDMap m)] = Inl e)"
proof -
  have "same_idMap (sorted_idMap m) m"
    using assms by (simp add: bounded_idMap_def bounded_map_def same_idMap_def sorted_idMap_def sort_keys_wf)
  with DecodeIDMap_sorted [OF assms] DecodeIDMap_encoded [OF assms] DecodeIDMap_nil_list [OF assms] show ?thesis by auto
qed

lemma idMap_roundtrip_witness:
  "(\<exists>m'. DecodeIDMap [Some (encodeIDMap (empty_idMap\<lparr>im_concept := [(''b'', ''x''), (''a'', ''y'')]\<rparr>))] = Inr m' \<and>
      same_idMap m' (empty_idMap\<lparr>im_concept := [(''b'', ''x''), (''a'', ''y'')]\<rparr>)) \<and>
   (\<exists>e. DecodeIDMap [Some (encodeIDMap (empty_idMap\<lparr>im_redirects := [(''a'', [])]\<rparr>))] = Inl e)"
proof -
  have b: "bounded_idMap (empty_idMap\<lparr>im_concept := [(''b'', ''x''), (''a'', ''y'')]\<rparr>)"
    "bounded_idMap (empty_idMap\<lparr>im_redirects := [(''a'', [])]\<rparr>)"
    by (simp_all add: bounded_idMap_def bounded_map_def empty_idMap_def MaxFiles_def)
  from idMap_roundtrip [OF b(1)] idMap_roundtrip [OF b(2)] show ?thesis by (simp add: empty_idMap_def)
qed

lemma bounded_map_decoded: "DecodeBoundedMap dec v = Inr m \<Longrightarrow> bounded_map m"
  by (erule DecodeBoundedMap_ok) (simp add: bounded_map_def)

lemma string_lists_decoded:
  assumes "DecodeBoundedStringLists v = Inr m"
  shows "bounded_map m \<and> list_all (\<lambda>(k, xs). length xs \<le> MaxFiles) m"
  using assms DecodeBoundedStringLists_bound [of v] by (simp add: bounded_map_def)

lemma id_map_loop_bounded:
  "id_map_loop seen m kvs = Inr m' \<Longrightarrow> bounded_idMap m \<Longrightarrow> bounded_idMap m'"
proof (induction kvs arbitrary: seen m)
  case Nil
  then show ?case by simp
next
  case (Cons kv kvs)
  obtain name v where kv: "kv = (name, v)" by (cases kv)
  then obtain m1 where f: "id_map_field name v m = Inr m1" and rec: "id_map_loop (name # seen) m1 kvs = Inr m'"
    using Cons.prems(1) by (auto split: if_splits sum.splits)
  have "bounded_idMap m1"
    using f Cons.prems(2)
    by (auto simp: id_map_field_def map_sum_Inr_iff bounded_idMap_def dest: bounded_map_decoded string_lists_decoded
        split: if_splits)
  then show ?case by (rule Cons.IH [OF rec])
qed

lemma DecodeIDMap_bound: "DecodeIDMap dec = Inr m \<Longrightarrow> bounded_idMap m"
proof -
  assume "DecodeIDMap dec = Inr m"
  then obtain kvs where "id_map_loop [] empty_idMap kvs = Inr m"
    by (auto simp: DecodeIDMap_def split: sum.splits prod.splits json.splits)
  moreover have "bounded_idMap empty_idMap" by (simp add: bounded_idMap_def empty_idMap_def bounded_map_def)
  ultimately show ?thesis using id_map_loop_bounded by blast
qed

text \<open>
  A stored ID map is read within bounds: whatever the bytes are, a map that the decoder
  delivers has distinct keys and at most \<open>MaxFiles\<close> entries in every collection, nested ones
  included.
\<close>

theorem DecodeIDMap_bounded:
  "case DecodeIDMap dec of Inl e \<Rightarrow> True | Inr m \<Rightarrow> bounded_idMap m"
  by (auto simp: DecodeIDMap_bound split: sum.split)

section \<open>Rebuilding the map\<close>

record 'w wikiStore =
  wk_list :: "string \<Rightarrow> 'w \<Rightarrow> (gerr + markdownFile list) \<times> 'w"
  wk_read :: "string \<Rightarrow> 'w \<Rightarrow> (gerr + string) \<times> 'w"
  wk_write :: "string \<Rightarrow> string \<Rightarrow> string \<Rightarrow> 'w \<Rightarrow> gerr option \<times> 'w"

definition IDMapPath :: string where "IDMapPath = ''cache/id_map.json''"
definition IDMapTempPath :: string where "IDMapTempPath = ''cache/id_map.json.tmp''"
definition ConceptsJSONLPath :: string where "ConceptsJSONLPath = ''cache/concepts.jsonl''"

definition validConceptSlug :: "string \<Rightarrow> bool" where
  "validConceptSlug slug \<longleftrightarrow> slug \<noteq> '''' \<and> slug = trim_space slug \<and>
     \<not> contains_any slug [CHR ''/'', CHR 0x5C] \<and> slug \<noteq> ''.'' \<and> slug \<noteq> ''..''"

definition page_id :: "pageEnv \<Rightarrow> markdownMatter \<Rightarrow> string \<Rightarrow> string" where
  "page_id env matter data =
     (let i = trim_space (mm_id matter) in if i = '''' then ContentDerivedID env data else i)"

fun id_map_entries :: "pageEnv \<Rightarrow> markdownFile list \<Rightarrow> (string, string) gomap \<Rightarrow> gerr + (string, string) gomap" where
  "id_map_entries env [] entries = Inr entries"
| "id_map_entries env (f # fs) entries =
     (if IsSyntoRootPage (mf_path f) then id_map_entries env fs entries
      else (case parseMarkdownMatter env (mf_data f) of
              Inl e \<Rightarrow> Inl (Wrapped ''parse'' e)
            | Inr matter \<Rightarrow>
                (let i = page_id env matter (mf_data f)
                 in if \<not> ValidSourceID i then Inl (Msg ''unsafe ID'')
                    else if \<not> validConceptSlug (mf_slug f) then Inl (Msg ''unsafe concept slug'')
                    else if map_has entries i then Inl (Msg ''duplicate concept ID'')
                    else if list_ex (\<lambda>(_, oldSlug). oldSlug = mf_slug f) entries then Inl (Msg ''duplicate concept slug'')
                    else id_map_entries env fs (map_set i (mf_slug f) entries))))"

definition addIDMapEntries ::
  "pageEnv \<Rightarrow> 'w wikiStore \<Rightarrow> string \<Rightarrow> (string, string) gomap \<Rightarrow> 'w \<Rightarrow> (gerr + (string, string) gomap) \<times> 'w" where
  "addIDMapEntries env st dir entries w =
     (case wk_list st dir w of
        (Inl e, w') \<Rightarrow> (Inl (Wrapped ''list'' e), w')
      | (Inr fs, w') \<Rightarrow> (id_map_entries env fs entries, w'))"

fun source_entries ::
  "pageEnv \<Rightarrow> markdownFile list \<Rightarrow> (string, string) gomap \<Rightarrow> (string, sourceMeta) gomap
   \<Rightarrow> gerr + ((string, string) gomap \<times> (string, sourceMeta) gomap)" where
  "source_entries env [] ids entries = Inr (ids, entries)"
| "source_entries env (f # fs) ids entries =
     (case parseMarkdownMatter env (mf_data f) of
        Inl e \<Rightarrow> Inl (Wrapped ''parse'' e)
      | Inr matter \<Rightarrow>
          (let i = page_id env matter (mf_data f)
           in source_entries env fs (map_set i (mf_slug f) ids)
                (map_set i \<lparr>sm_slug = mf_slug f, sm_title = trim_space (mm_title matter),
                            sm_source_file = trim_space (mm_source_file matter)\<rparr> entries)))"

definition addSourceEntries ::
  "pageEnv \<Rightarrow> 'w wikiStore \<Rightarrow> 'w \<Rightarrow> (gerr + ((string, string) gomap \<times> (string, sourceMeta) gomap)) \<times> 'w" where
  "addSourceEntries env st w =
     (case wk_list st ''wiki/sources/'' w of
        (Inl e, w') \<Rightarrow> (Inl (Wrapped ''list wiki/sources/'' e), w')
      | (Inr fs, w') \<Rightarrow> (source_entries env fs [] [], w'))"

definition readOldIDMap :: "pageEnv \<Rightarrow> 'w wikiStore \<Rightarrow> 'w \<Rightarrow> (gerr + idMap) \<times> 'w" where
  "readOldIDMap env st w =
     (case wk_read st IDMapPath w of
        (Inl e, w') \<Rightarrow>
          (if errors_is e wikiindexErrNotFound \<or> errors_is e storageErrObjectNotExist then (Inr empty_idMap, w')
           else (Inl (Wrapped ''read old id map'' e), w'))
      | (Inr data, w') \<Rightarrow>
          (if length data = 0 then (Inr empty_idMap, w')
           else (case DecodeIDMap (pg_lex env data) of
                   Inl e \<Rightarrow> (Inl (Msg ''decode old id map''), w')
                 | Inr old \<Rightarrow> (Inr old, w'))))"

text \<open>
  \<open>preserveConceptLifecycle\<close>: the slugs of the active concepts, the dormant concepts that are kept,
  and the entity rows that still have an owner.
\<close>

fun active_by_slug :: "(string \<times> string) list \<Rightarrow> (string, string) gomap \<Rightarrow> gerr + (string, string) gomap" where
  "active_by_slug [] bySlug = Inr bySlug"
| "active_by_slug ((i, slug) # cs) bySlug =
     (if \<not> ValidSourceID i \<or> \<not> validConceptSlug slug then Inl (Msg ''unsafe rebuilt concept mapping'')
      else if map_has bySlug slug \<and> map_get_or '''' bySlug slug \<noteq> i then Inl (Msg ''duplicate rebuilt concept slug'')
      else active_by_slug cs (map_set slug i bySlug))"

fun retain_dormant ::
  "(string, string) gomap \<Rightarrow> (string, string) gomap \<Rightarrow> (string \<times> string) list \<Rightarrow> (string, string) gomap
   \<Rightarrow> (string, string) gomap \<Rightarrow> gerr + (string, string) gomap" where
  "retain_dormant active activeBySlug [] bySlug kept = Inr kept"
| "retain_dormant active activeBySlug ((i, slug) # cs) bySlug kept =
     (if \<not> ValidSourceID i \<or> \<not> validConceptSlug slug \<or> i \<noteq> trim_space i then Inl (Msg ''unsafe dormant concept mapping'')
      else if map_has active i then Inl (Msg ''concept ID is both active and dormant'')
      else if map_has activeBySlug slug then Inl (Msg ''concept slug is both active and dormant'')
      else if map_has bySlug slug \<and> map_get_or '''' bySlug slug \<noteq> i then Inl (Msg ''duplicate dormant concept slug'')
      else retain_dormant active activeBySlug cs (map_set slug i bySlug) (map_set i slug kept))"

fun next_entities ::
  "(string \<Rightarrow> bool) \<Rightarrow> (string \<times> string) list \<Rightarrow> (string, string) gomap \<Rightarrow> (string, string) gomap
   \<Rightarrow> gerr + (string, string) gomap" where
  "next_entities owned [] owners kept = Inr kept"
| "next_entities owned ((i, entityID) # es) owners kept =
     (if \<not> ValidSourceID i \<or> i \<noteq> trim_space i \<or> \<not> ValidSourceID entityID \<or> entityID \<noteq> trim_space entityID
      then Inl (Msg ''unsafe concept entity mapping'')
      else if \<not> owned i then next_entities owned es owners kept
      else if map_has owners entityID \<and> map_get_or '''' owners entityID \<noteq> i
      then Inl (Msg ''concept entity ID maps to multiple LWC IDs'')
      else next_entities owned es (map_set entityID i owners) (map_set i entityID kept))"

definition preserveConceptLifecycle :: "idMap \<Rightarrow> idMap \<Rightarrow> gerr + idMap" where
  "preserveConceptLifecycle next' old =
     (case active_by_slug (im_concept next') [] of
        Inl e \<Rightarrow> Inl e
      | Inr activeBySlug \<Rightarrow>
          (case retain_dormant (im_concept next') activeBySlug (im_dormant old) [] [] of
             Inl e \<Rightarrow> Inl e
           | Inr dormant \<Rightarrow>
               (case next_entities (\<lambda>i. map_has (im_concept next') i \<or> map_has dormant i) (im_entity old) [] [] of
                  Inl e \<Rightarrow> Inl e
                | Inr entities \<Rightarrow> Inr (next'\<lparr>im_dormant := dormant, im_entity := entities\<rparr>))))"

fun appendChangedRedirects ::
  "(string, string) gomap \<Rightarrow> (string \<times> string) list \<Rightarrow> (string, string list) gomap \<Rightarrow> (string, string list) gomap" where
  "appendChangedRedirects oldEntries [] redirects = redirects"
| "appendChangedRedirects oldEntries ((i, newSlug) # es) redirects =
     (let oldSlug = trim_space (map_get_or '''' oldEntries i); have' = map_get_or [] redirects i
      in if oldSlug = '''' \<or> oldSlug = newSlug \<or> oldSlug \<in> set have'
         then appendChangedRedirects oldEntries es redirects
         else appendChangedRedirects oldEntries es (map_set i (have' @ [oldSlug]) redirects))"

definition BuildIDMap :: "pageEnv \<Rightarrow> 'w wikiStore \<Rightarrow> 'w \<Rightarrow> (gerr + idMap) \<times> 'w" where
  "BuildIDMap env st w =
     (case addIDMapEntries env st ''wiki/'' [] w of
        (Inl e, w1) \<Rightarrow> (Inl e, w1)
      | (Inr concepts, w1) \<Rightarrow>
          (case addSourceEntries env st w1 of
             (Inl e, w2) \<Rightarrow> (Inl e, w2)
           | (Inr (sources, meta), w2) \<Rightarrow>
               (case readOldIDMap env st w2 of
                  (Inl e, w3) \<Rightarrow> (Inl e, w3)
                | (Inr old, w3) \<Rightarrow>
                    (case preserveConceptLifecycle
                            (empty_idMap\<lparr>im_concept := concepts, im_source := sources, im_source_meta := meta\<rparr>) old of
                       Inl e \<Rightarrow> (Inl e, w3)
                     | Inr m \<Rightarrow>
                         (Inr (m\<lparr>im_redirects :=
                            appendChangedRedirects (im_source old) (im_source m)
                              (appendChangedRedirects (im_concept old) (im_concept m) (im_redirects old))\<rparr>), w3)))))"

definition Rebuild :: "pageEnv \<Rightarrow> 'w wikiStore \<Rightarrow> 'w \<Rightarrow> (gerr + idMap) \<times> 'w" where
  "Rebuild env st w =
     (case BuildIDMap env st w of
        (Inl e, w1) \<Rightarrow> (Inl e, w1)
      | (Inr m, w1) \<Rightarrow>
          (case wk_list st ''wiki/'' w1 of
             (Inl e, w2) \<Rightarrow> (Inl (Wrapped ''build concepts jsonl'' e), w2)
           | (Inr fs, w2) \<Rightarrow>
               (case concepts_jsonl env fs of
                  Inl e \<Rightarrow> (Inl (Wrapped ''build concepts jsonl'' e), w2)
                | Inr concepts \<Rightarrow>
                    (case wk_write st (pg_marshal env (encodeIDMap m)) IDMapTempPath IDMapPath w2 of
                       (Some e, w3) \<Rightarrow> (Inl (Wrapped ''write id map'' e), w3)
                     | (None, w3) \<Rightarrow>
                         (case wk_write st concepts ''cache/concepts.jsonl.tmp'' ConceptsJSONLPath w3 of
                            (Some e, w4) \<Rightarrow> (Inl (Wrapped ''write concepts.jsonl'' e), w4)
                          | (None, w4) \<Rightarrow> (Inr m, w4))))))"

section \<open>What a rebuilt map promises\<close>

definition concepts_ok :: "(string, string) gomap \<Rightarrow> bool" where
  "concepts_ok cs \<longleftrightarrow> distinct (map fst cs) \<and> distinct (map snd cs) \<and>
     list_all (\<lambda>(i, slug). ValidSourceID i \<and> validConceptSlug slug) cs"

definition lifecycle_ok :: "idMap \<Rightarrow> bool" where
  "lifecycle_ok m \<longleftrightarrow> concepts_ok (im_concept m) \<and> concepts_ok (im_dormant m) \<and>
     set (map fst (im_concept m)) \<inter> set (map fst (im_dormant m)) = {} \<and>
     set (map snd (im_concept m)) \<inter> set (map snd (im_dormant m)) = {} \<and>
     distinct (map fst (im_entity m)) \<and> distinct (map snd (im_entity m)) \<and>
     set (map fst (im_entity m)) \<subseteq> set (map fst (im_concept m)) \<union> set (map fst (im_dormant m))"

lemma id_map_entries_step:
  assumes "id_map_entries env (f # fs) entries = Inr out" and "\<not> IsSyntoRootPage (mf_path f)"
  obtains i where "ValidSourceID i" and "validConceptSlug (mf_slug f)" and "i \<notin> fst ` set entries"
    and "mf_slug f \<notin> snd ` set entries" and "id_map_entries env fs (map_set i (mf_slug f) entries) = Inr out"
proof -
  obtain matter where matter: "parseMarkdownMatter env (mf_data f) = Inr matter"
    using assms by (cases "parseMarkdownMatter env (mf_data f)") simp_all
  let ?i = "page_id env matter (mf_data f)"
  have fresh: "\<not> list_ex (\<lambda>(_, oldSlug). oldSlug = mf_slug f) entries \<longleftrightarrow> mf_slug f \<notin> snd ` set entries"
    by (force simp: list_ex_iff)
  show thesis
    by (rule that [of ?i]; use assms matter fresh in \<open>simp add: Let_def split: if_splits\<close>)
qed

lemma id_map_entries_ok:
  "id_map_entries env fs entries = Inr out \<Longrightarrow> concepts_ok entries \<Longrightarrow> concepts_ok out"
proof (induction fs arbitrary: entries)
  case Nil
  then show ?case by simp
next
  case (Cons f fs)
  show ?case
  proof (cases "IsSyntoRootPage (mf_path f)")
    case True
    then show ?thesis using Cons by simp
  next
    case False
    obtain i where i: "ValidSourceID i" "validConceptSlug (mf_slug f)" "i \<notin> fst ` set entries"
      "mf_slug f \<notin> snd ` set entries"
      and rec: "id_map_entries env fs (map_set i (mf_slug f) entries) = Inr out"
      using id_map_entries_step [OF Cons.prems(1) False] by blast
    have "concepts_ok (map_set i (mf_slug f) entries)"
      using i Cons.prems(2) by (auto simp: concepts_ok_def map_set_fresh image_iff)
    then show ?thesis by (rule Cons.IH [OF rec])
  qed
qed

lemma active_by_slug_keys:
  "active_by_slug cs bySlug = Inr out \<Longrightarrow> fst ` set out = fst ` set bySlug \<union> snd ` set cs"
proof (induction cs arbitrary: bySlug)
  case Nil
  then show ?case by simp
next
  case (Cons c cs)
  then show ?case by (cases c) (auto split: if_splits)
qed

text \<open>The slugs seen so far and the concepts kept so far are inverse to each other.\<close>

definition slug_index :: "(string, string) gomap \<Rightarrow> (string, string) gomap \<Rightarrow> bool" where
  "slug_index bySlug kept \<longleftrightarrow> (\<forall>slug. map_of bySlug slug \<noteq> None \<longleftrightarrow> slug \<in> snd ` set kept) \<and>
     (\<forall>i slug. (i, slug) \<in> set kept \<longrightarrow> map_of bySlug slug = Some i)"

lemma slug_index_fresh:
  assumes "slug_index bySlug kept" and "i \<notin> fst ` set kept"
    and "\<not> (map_has bySlug slug \<and> map_get_or d bySlug slug \<noteq> i)"
  shows "slug \<notin> snd ` set kept"
proof
  assume "slug \<in> snd ` set kept"
  then obtain j where j: "(j, slug) \<in> set kept" by auto
  then have "map_of bySlug slug = Some j" using assms(1) by (simp add: slug_index_def)
  then have "map_has bySlug slug" "map_get_or d bySlug slug = j" by (simp_all add: map_has_def map_get_or_def del: map_has_iff)
  then have "j = i" using assms(3) by blast
  then show False using j assms(2) by (force simp: image_iff)
qed

lemma slug_index_add:
  "slug_index bySlug kept \<Longrightarrow> i \<notin> fst ` set kept \<Longrightarrow> slug \<notin> snd ` set kept \<Longrightarrow>
     slug_index (map_set slug i bySlug) (map_set i slug kept)"
  by (force simp: slug_index_def map_set_fresh)

lemma retain_dormant_ok:
  assumes "retain_dormant active activeBySlug cs bySlug kept = Inr out"
    and "distinct (map fst cs)" and "set (map fst cs) \<inter> fst ` set kept = {}"
    and "slug_index bySlug kept" and "concepts_ok kept"
    and "fst ` set kept \<inter> fst ` set active = {}" and "snd ` set kept \<inter> fst ` set activeBySlug = {}"
  shows "concepts_ok out \<and> fst ` set out \<inter> fst ` set active = {} \<and> snd ` set out \<inter> fst ` set activeBySlug = {}"
  using assms
proof (induction cs arbitrary: bySlug kept)
  case Nil
  then show ?case by simp
next
  case (Cons c cs)
  obtain i slug where c: "c = (i, slug)" by (cases c)
  then have g: "ValidSourceID i" "validConceptSlug slug" "i \<notin> fst ` set active" "slug \<notin> fst ` set activeBySlug"
    "\<not> (map_has bySlug slug \<and> map_get_or '''' bySlug slug \<noteq> i)"
    and rec: "retain_dormant active activeBySlug cs (map_set slug i bySlug) (map_set i slug kept) = Inr out"
    using Cons.prems(1) by (auto split: if_splits)
  have i: "i \<notin> fst ` set kept" using Cons.prems(3) c by auto
  note slug = slug_index_fresh [OF Cons.prems(4) i g(5)]
  show ?case
  proof (rule Cons.IH [OF rec])
    show "slug_index (map_set slug i bySlug) (map_set i slug kept)"
      by (rule slug_index_add [OF Cons.prems(4) i slug])
    show "concepts_ok (map_set i slug kept)"
      using Cons.prems(5) g i slug by (auto simp: concepts_ok_def map_set_fresh)
  qed (use Cons.prems c g i slug in \<open>auto simp: map_set_fresh\<close>)
qed

lemma next_entities_ok:
  assumes "next_entities owned es owners kept = Inr out"
    and "distinct (map fst es)" and "set (map fst es) \<inter> fst ` set kept = {}"
    and "slug_index owners kept" and "distinct (map fst kept)" and "distinct (map snd kept)"
    and "list_all (\<lambda>(i, _). owned i) kept"
  shows "distinct (map fst out) \<and> distinct (map snd out) \<and> list_all (\<lambda>(i, _). owned i) out"
  using assms
proof (induction es arbitrary: owners kept)
  case Nil
  then show ?case by simp
next
  case (Cons e es)
  obtain i ent where e: "e = (i, ent)" by (cases e)
  show ?case
  proof (cases "owned i")
    case False
    then show ?thesis using Cons e by (auto split: if_splits)
  next
    case True
    then have g: "\<not> (map_has owners ent \<and> map_get_or '''' owners ent \<noteq> i)"
      and rec: "next_entities owned es (map_set ent i owners) (map_set i ent kept) = Inr out"
      using Cons.prems(1) e by (auto split: if_splits)
    have i: "i \<notin> fst ` set kept" using Cons.prems(3) e by auto
    note ent = slug_index_fresh [OF Cons.prems(4) i g]
    show ?thesis
    proof (rule Cons.IH [OF rec])
      show "slug_index (map_set ent i owners) (map_set i ent kept)"
        by (rule slug_index_add [OF Cons.prems(4) i ent])
    qed (use Cons.prems e True i ent in \<open>auto simp: map_set_fresh\<close>)
  qed
qed

lemma preserveConceptLifecycle_ok:
  assumes "preserveConceptLifecycle n old = Inr m" and "concepts_ok (im_concept n)"
    and "map_wf (im_dormant old)" and "map_wf (im_entity old)"
  shows "lifecycle_ok m \<and> im_concept m = im_concept n \<and> im_source m = im_source n"
proof -
  obtain act dorm ent where act: "active_by_slug (im_concept n) [] = Inr act"
    and dorm: "retain_dormant (im_concept n) act (im_dormant old) [] [] = Inr dorm"
    and ent: "next_entities (\<lambda>i. map_has (im_concept n) i \<or> map_has dorm i) (im_entity old) [] [] = Inr ent"
    and m: "m = n\<lparr>im_dormant := dorm, im_entity := ent\<rparr>"
    using assms(1) by (auto simp: preserveConceptLifecycle_def split: sum.splits)
  have keys: "fst ` set act = snd ` set (im_concept n)" using active_by_slug_keys [OF act] by simp
  have d: "concepts_ok dorm" "fst ` set dorm \<inter> fst ` set (im_concept n) = {}"
    "snd ` set dorm \<inter> snd ` set (im_concept n) = {}"
    using retain_dormant_ok [OF dorm] assms(3)
    by (auto simp: map_wf_def slug_index_def concepts_ok_def keys)
  have e: "distinct (map fst ent)" "distinct (map snd ent)" "list_all (\<lambda>(i, _). map_has (im_concept n) i \<or> map_has dorm i) ent"
    using next_entities_ok [OF ent] assms(4) by (auto simp: map_wf_def slug_index_def)
  show ?thesis using d e assms(2) unfolding m
    by (auto simp: lifecycle_ok_def list_all_iff split: prod.splits)
qed

lemma readOldIDMap_bounded: "readOldIDMap env st w = (Inr old, w') \<Longrightarrow> bounded_idMap old"
proof -
  have "bounded_idMap empty_idMap" by (simp add: bounded_idMap_def empty_idMap_def bounded_map_def)
  then show "readOldIDMap env st w = (Inr old, w') \<Longrightarrow> bounded_idMap old"
    using DecodeIDMap_bound by (auto simp: readOldIDMap_def split: prod.splits sum.splits if_splits)
qed

text \<open>What a successful build computed, step by step.\<close>

lemma BuildIDMap_parts:
  assumes "fst (BuildIDMap env st w) = Inr m"
  obtains concepts sources meta old w1 w2 w3 m1 where "addIDMapEntries env st ''wiki/'' [] w = (Inr concepts, w1)"
    and "addSourceEntries env st w1 = (Inr (sources, meta), w2)"
    and "readOldIDMap env st w2 = (Inr old, w3)"
    and "preserveConceptLifecycle (empty_idMap\<lparr>im_concept := concepts, im_source := sources, im_source_meta := meta\<rparr>) old = Inr m1"
    and "m = m1\<lparr>im_redirects := appendChangedRedirects (im_source old) (im_source m1)
                  (appendChangedRedirects (im_concept old) (im_concept m1) (im_redirects old))\<rparr>"
  using assms by (auto simp: BuildIDMap_def split: prod.splits sum.splits)

lemma addIDMapEntries_ok: "addIDMapEntries env st dir [] w = (Inr concepts, w') \<Longrightarrow> concepts_ok concepts"
  using id_map_entries_ok [of env _ "[]" concepts]
  by (auto simp: addIDMapEntries_def concepts_ok_def split: prod.splits sum.splits)

text \<open>
  C32. A rebuilt ID map has one identity per page: concept IDs and slugs are safe, no two active
  concepts share an ID or a slug, nor do two dormant ones, nothing is active and dormant at once,
  and every entity row belongs to a concept that exists, with no entity shared, whatever pages and
  whatever previous map the store holds.
\<close>

theorem BuildIDMap_lifecycle:
  "case fst (BuildIDMap env st w) of Inl e \<Rightarrow> True | Inr m \<Rightarrow> lifecycle_ok m"
proof (cases "fst (BuildIDMap env st w)")
  case (Inl e)
  then show ?thesis by simp
next
  case (Inr m)
  show ?thesis
  proof (rule BuildIDMap_parts [OF Inr])
    fix concepts sources meta old w1 w2 w3 m1
    assume c: "addIDMapEntries env st ''wiki/'' [] w = (Inr concepts, w1)"
      and old: "readOldIDMap env st w2 = (Inr old, w3)"
      and p: "preserveConceptLifecycle (empty_idMap\<lparr>im_concept := concepts, im_source := sources, im_source_meta := meta\<rparr>) old = Inr m1"
      and m: "m = m1\<lparr>im_redirects := appendChangedRedirects (im_source old) (im_source m1)
                  (appendChangedRedirects (im_concept old) (im_concept m1) (im_redirects old))\<rparr>"
    have "lifecycle_ok m1"
      using preserveConceptLifecycle_ok [OF p] addIDMapEntries_ok [OF c] readOldIDMap_bounded [OF old]
      by (simp add: bounded_idMap_def bounded_map_def)
    then show ?thesis using Inr m by (simp add: lifecycle_ok_def)
  qed
qed

text \<open>What is appended to the redirects of an ID is its old slug, nothing else.\<close>

lemma appendChangedRedirects_only:
  "\<exists>more. map_get_or [] (appendChangedRedirects oldE es R) i = map_get_or [] R i @ more \<and>
     set more \<subseteq> {trim_space (map_get_or [] oldE i)}"
proof (induction es arbitrary: R)
  case Nil
  then show ?case by simp
next
  case (Cons e es)
  obtain j slug where e: "e = (j, slug)" by (cases e)
  let ?o = "trim_space (map_get_or [] oldE j)"
  show ?case
  proof (cases "?o = [] \<or> ?o = slug \<or> ?o \<in> set (map_get_or [] R j)")
    case True
    then show ?thesis using Cons.IH [of R] e by (simp add: Let_def)
  next
    case False
    have step: "appendChangedRedirects oldE (e # es) R =
        appendChangedRedirects oldE es (map_set j (map_get_or [] R j @ [?o]) R)"
      using False e by (simp only: appendChangedRedirects.simps Let_def if_False)
    show ?thesis
      using Cons.IH [of "map_set j (map_get_or [] R j @ [?o]) R"] unfolding step
      by (cases "i = j") (auto simp: map_get_or_def)
  qed
qed

lemma appendChangedRedirects_keeps:
  "\<exists>more. map_get_or [] (appendChangedRedirects oldE es R) i = map_get_or [] R i @ more"
  using appendChangedRedirects_only [of oldE es R i] by blast

lemma appendChangedRedirects_records:
  "(i, slug) \<in> set es \<Longrightarrow> trim_space (map_get_or '''' oldE i) \<noteq> '''' \<Longrightarrow> trim_space (map_get_or '''' oldE i) \<noteq> slug \<Longrightarrow>
     trim_space (map_get_or '''' oldE i) \<in> set (map_get_or [] (appendChangedRedirects oldE es R) i)"
proof (induction es arbitrary: R)
  case Nil
  then show ?case by simp
next
  case (Cons e es)
  let ?o = "trim_space (map_get_or '''' oldE i)"
  show ?case
  proof (cases "e = (i, slug)")
    case False
    obtain j s where "e = (j, s)" by (cases e)
    then show ?thesis using Cons False by (auto simp: Let_def)
  next
    case True
    let ?R = "if ?o \<in> set (map_get_or [] R i) then R else map_set i (map_get_or [] R i @ [?o]) R"
    have step: "appendChangedRedirects oldE (e # es) R = appendChangedRedirects oldE es ?R"
      using Cons.prems True by (simp add: Let_def)
    have "?o \<in> set (map_get_or [] ?R i)" by (simp add: map_get_or_def)
    then show ?thesis
      using appendChangedRedirects_keeps [of oldE es ?R i] unfolding step by auto
  qed
qed

text \<open>An entry whose slug changed is reachable under the earlier slug.\<close>

definition old_slug_redirected ::
  "(string, string) gomap \<Rightarrow> (string, string list) gomap \<Rightarrow> string \<times> string \<Rightarrow> bool" where
  "old_slug_redirected oldE R = (\<lambda>(i, slug).
     let o' = trim_space (map_get_or '''' oldE i)
     in o' = '''' \<or> o' = slug \<or> o' \<in> set (map_get_or [] R i))"

lemma appendChangedRedirects_redirected:
  "list_all (old_slug_redirected oldE (appendChangedRedirects oldE es R)) es"
  using appendChangedRedirects_records [of _ _ es oldE R] by (auto simp: list_all_iff old_slug_redirected_def Let_def)

lemma old_slug_redirected_append:
  "list_all (old_slug_redirected oldE R) es \<Longrightarrow> list_all (old_slug_redirected oldE (appendChangedRedirects oldE' es' R)) es"
proof -
  have "set (map_get_or [] R i) \<subseteq> set (map_get_or [] (appendChangedRedirects oldE' es' R) i)" for i
    using appendChangedRedirects_keeps [of oldE' es' R i] by auto
  then show "list_all (old_slug_redirected oldE R) es \<Longrightarrow> list_all (old_slug_redirected oldE (appendChangedRedirects oldE' es' R)) es"
    by (fastforce simp: list_all_iff old_slug_redirected_def Let_def)
qed

text \<open>
  C33. Slug links survive a rebuild. Compared with the map the rebuild itself read, after it had listed
  the concepts and the sources, no slug redirect is lost or reordered, and every concept and every
  source whose slug changed can be found under its earlier slug; what it appends for an entry is at most that
  earlier slug, once for the concept and once for the source of that ID. Redirects of IDs are not
  carried over: the rebuilt map has none.
\<close>

theorem BuildIDMap_keeps_links:
  "case fst (BuildIDMap env st w) of
     Inl e \<Rightarrow> True
   | Inr m \<Rightarrow>
       (\<exists>w1 w2 w3 concepts sources old.
          addIDMapEntries env st ''wiki/'' [] w = (Inr concepts, w1) \<and>
          addSourceEntries env st w1 = (Inr sources, w2) \<and> readOldIDMap env st w2 = (Inr old, w3) \<and>
          snd (BuildIDMap env st w) = w3 \<and> im_concept m = concepts \<and> im_source m = fst sources \<and>
          (\<forall>i. \<exists>more. map_get_or [] (im_redirects m) i = map_get_or [] (im_redirects old) i @ more \<and>
             set more \<subseteq> {trim_space (map_get_or [] (im_concept old) i), trim_space (map_get_or [] (im_source old) i)}) \<and>
          list_all (old_slug_redirected (im_concept old) (im_redirects m)) (im_concept m) \<and>
          list_all (old_slug_redirected (im_source old) (im_redirects m)) (im_source m) \<and>
          im_id_redirects m = [])"
proof (cases "fst (BuildIDMap env st w)")
  case (Inl e)
  then show ?thesis by simp
next
  case (Inr m)
  show ?thesis
  proof (rule BuildIDMap_parts [OF Inr])
    fix concepts sources meta old w1 w2 w3 m1
    assume steps: "addIDMapEntries env st ''wiki/'' [] w = (Inr concepts, w1)"
        "addSourceEntries env st w1 = (Inr (sources, meta), w2)" "readOldIDMap env st w2 = (Inr old, w3)"
      and p: "preserveConceptLifecycle (empty_idMap\<lparr>im_concept := concepts, im_source := sources, im_source_meta := meta\<rparr>) old = Inr m1"
      and m: "m = m1\<lparr>im_redirects := appendChangedRedirects (im_source old) (im_source m1)
                  (appendChangedRedirects (im_concept old) (im_concept m1) (im_redirects old))\<rparr>"
    let ?R = "appendChangedRedirects (im_concept old) (im_concept m1) (im_redirects old)"
    have m1: "im_concept m1 = concepts" "im_source m1 = sources" "im_id_redirects m1 = []"
      using p by (auto simp: preserveConceptLifecycle_def empty_idMap_def split: sum.splits)
    have world: "snd (BuildIDMap env st w) = w3" using steps p by (simp add: BuildIDMap_def)
    have "\<exists>more. map_get_or [] (im_redirects m) i = map_get_or [] (im_redirects old) i @ more \<and>
        set more \<subseteq> {trim_space (map_get_or [] (im_concept old) i), trim_space (map_get_or [] (im_source old) i)}" for i
      using appendChangedRedirects_only [of "im_concept old" "im_concept m1" "im_redirects old" i]
        appendChangedRedirects_only [of "im_source old" "im_source m1" ?R i] m by fastforce
    moreover have "list_all (old_slug_redirected (im_concept old) (im_redirects m)) (im_concept m)"
      using old_slug_redirected_append [OF appendChangedRedirects_redirected] m by simp
    moreover have "list_all (old_slug_redirected (im_source old) (im_redirects m)) (im_source m)"
      using appendChangedRedirects_redirected m by simp
    ultimately show ?thesis using steps world m m1 Inr by auto
  qed
qed

end
