(* ===== verification/Workspace.thy ===== *)
theory Workspace
  imports IdMap
begin

text \<open>
  The private workspace of a worker and the snapshots of the sources in it
  (\<open>cmd/olw_worker/main.go\<close>, \<open>source_reconcile.go\<close>, \<open>synto_adapter.go\<close>, \<open>cloud_publish.go\<close>). A workspace
  is a map from clean relative paths to contents; the errors of the file system are a parameter
  that names the paths that cannot be written. It is private, so it has no symbolic links.
\<close>

section \<open>The workspace\<close>

type_synonym workspace = "(string, string) gomap"

definition safeRelativePath :: "string \<Rightarrow> gerr option" where
  "safeRelativePath rel =
     (if path_is_abs rel then Some (Msg ''absolute path is unsafe'')
      else (let clean = path_clean rel
            in if clean = ''.'' \<or> clean = ''..'' \<or> has_prefix clean ''../'' then Some (Msg ''path escapes root'')
               else None))"

text \<open>
  A path cannot be both a file and a directory: \<open>os.MkdirAll\<close> fails below a file and
  \<open>os.WriteFile\<close> on a directory.
\<close>

definition path_conflict :: "workspace \<Rightarrow> string \<Rightarrow> bool" where
  "path_conflict ws p \<longleftrightarrow> list_ex (\<lambda>(q, _). has_prefix q (p @ ''/'') \<or> has_prefix p (q @ ''/'')) ws"

definition writeCloudFile :: "(string \<Rightarrow> gerr option) \<Rightarrow> workspace \<Rightarrow> string \<Rightarrow> string \<Rightarrow> gerr + workspace" where
  "writeCloudFile osf ws rel b =
     (case safeRelativePath rel of
        Some e \<Rightarrow> Inl e
      | None \<Rightarrow>
          (case osf (path_clean rel) of
             Some e \<Rightarrow> Inl e
           | None \<Rightarrow>
               (if path_conflict ws (path_clean rel) then Inl (Msg ''not a directory or is a directory'')
                else Inr (map_set (path_clean rel) b ws))))"

datatype file_read = FileMissing | FileError gerr | FileContents string

definition readRegularFileWithin :: "workspace \<Rightarrow> string \<Rightarrow> file_read" where
  "readRegularFileWithin ws rel =
     (case safeRelativePath rel of
        Some e \<Rightarrow> FileError e
      | None \<Rightarrow>
          (case map_of ws (path_clean rel) of
             Some b \<Rightarrow> FileContents b
           | None \<Rightarrow>
               (if list_ex (\<lambda>(p, _). has_prefix p (path_clean rel @ ''/'')) ws
                then FileError (Msg ''not a regular file'') else FileMissing)))"

definition readBoundedRegularFileWithin :: "workspace \<Rightarrow> string \<Rightarrow> file_read" where
  "readBoundedRegularFileWithin ws rel =
     (case readRegularFileWithin ws rel of
        FileContents d \<Rightarrow>
          (if int (length d) > MaxFileBytes then FileError (Msg ''exceeds generation size limit'') else FileContents d)
      | r \<Rightarrow> r)"

section \<open>Snapshots of sources\<close>

text \<open>The third-party parsers: JSON, the front matter of a page, YAML into a map.\<close>

record sourceEnv =
  se_codec :: codec
  se_parse :: "string \<Rightarrow> json_stream"
  se_frontmatter :: "string \<Rightarrow> gerr + string"
  se_yaml :: "string \<Rightarrow> gerr + (string, gval) gomap"

definition readAnnotation :: "sourceEnv \<Rightarrow> workspace \<Rightarrow> string \<Rightarrow> string \<Rightarrow> gerr + annotation" where
  "readAnnotation env ws sourceID rawPath =
     (case readRegularFileWithin ws (annotation_Path sourceID) of
        FileMissing \<Rightarrow> Inr (zero_annotation\<lparr>an_sha256 := Digest (sha256 (se_codec env)) ''''\<rparr>)
      | FileError e \<Rightarrow> Inl (Wrapped ''read annotation'' e)
      | FileContents data \<Rightarrow>
          (case annotation_of_json (se_parse env data) of
             None \<Rightarrow> Inl (Msg ''invalid annotation'')
           | Some a \<Rightarrow>
               (if annotation_Validate (rfc3339 (se_codec env)) (sha256 (se_codec env)) a sourceID rawPath \<noteq> None
                then Inl (Msg ''invalid annotation'') else Inr a)))"

definition materializedSourceBytes :: "sourceSnapshot \<Rightarrow> string" where
  "materializedSourceBytes s =
     (if trim_space (ss_ann_body s) \<noteq> '''' then
        ss_raw_bytes s @ [lf, lf] @ ''---'' @ [lf, lf] @ ''## Human annotations (system)'' @ [lf] @
        ''<!-- lwc-ann-v1 source_id='' @ ss_source_id s @ '' ann_sha256='' @ ss_ann_sha s @ '' -->'' @ [lf] @
        Normalize (ss_ann_body s) @ [lf]
      else ss_raw_bytes s)"

definition syntoSourceContentHash :: "sourceEnv \<Rightarrow> sourceSnapshot \<Rightarrow> string" where
  "syntoSourceContentHash env s =
     (let data = materializedSourceBytes s;
          body = (case se_frontmatter env data of Inl e \<Rightarrow> data | Inr b \<Rightarrow> b)
      in sha256 (se_codec env) (trim_space body))"

definition tombstone :: "string \<Rightarrow> string \<Rightarrow> sourceSnapshot" where
  "tombstone i p = \<lparr>ss_source_id = i, ss_raw_path = p, ss_raw_bytes = '''', ss_raw_sha = '''', ss_synto_hash = '''',
     ss_ann_body = '''', ss_ann_sha = '''', ss_fingerprint = '''', ss_dirty = False, ss_tombstone = True\<rparr>"

definition snapshot_of :: "sourceEnv \<Rightarrow> string \<Rightarrow> string \<Rightarrow> string \<Rightarrow> annotation \<Rightarrow> receipt \<Rightarrow> sourceSnapshot" where
  "snapshot_of env sourceID rawPath raw ann r =
     (let cd = se_codec env; rawSHA = sha256 cd raw; fp = Fingerprint (sha256 cd) rawSHA (an_sha256 ann);
          snap = \<lparr>ss_source_id = sourceID, ss_raw_path = rawPath, ss_raw_bytes = raw,
                  ss_raw_sha = rawSHA, ss_synto_hash = '''', ss_ann_body = an_body ann,
                  ss_ann_sha = an_sha256 ann, ss_fingerprint = fp,
                  ss_dirty = (\<not> ValidReceipt (rfc3339 cd) (sha256 cd) r rawPath \<or> rc_fingerprint r \<noteq> fp),
                  ss_tombstone = False\<rparr>
      in snap\<lparr>ss_synto_hash := syntoSourceContentHash env snap\<rparr>)"

text \<open>The state of one mapped source; a raw file that is gone gives a tombstone.\<close>

definition snapshot_source :: "sourceEnv \<Rightarrow> workspace \<Rightarrow> string \<Rightarrow> string \<Rightarrow> receipt \<Rightarrow> gerr + sourceSnapshot" where
  "snapshot_source env ws sourceID rawPath r =
     (case readRegularFileWithin ws rawPath of
        FileMissing \<Rightarrow> Inr (tombstone sourceID rawPath)
      | FileError e \<Rightarrow> Inl e
      | FileContents raw \<Rightarrow>
          (case readAnnotation env ws sourceID rawPath of
             Inl e \<Rightarrow> Inl e
           | Inr ann \<Rightarrow> Inr (snapshot_of env sourceID rawPath raw ann r)))"

abbreviation sort_snapshots :: "sourceSnapshot list \<Rightarrow> sourceSnapshot list" where
  "sort_snapshots \<equiv> sort_by (\<lambda>x y. ss_source_id x < ss_source_id y)"

section \<open>Snapshots from the status artifact\<close>

fun snapshot_sources_loop :: "sourceEnv \<Rightarrow> workspace \<Rightarrow> (string \<times> receipt) list \<Rightarrow> gerr + sourceSnapshot list" where
  "snapshot_sources_loop env ws [] = Inr []"
| "snapshot_sources_loop env ws ((sourceID, r) # rs) =
     (if \<not> validCloudReceipt (se_codec env) sourceID r then Inl (Msg ''invalid source status'')
      else (case snapshot_source env ws sourceID (rc_raw_path r) r of
              Inl e \<Rightarrow> Inl e
            | Inr s \<Rightarrow> map_sum id ((#) s) (snapshot_sources_loop env ws rs)))"

definition snapshotCanonicalCloudSources :: "sourceEnv \<Rightarrow> workspace \<Rightarrow> string \<Rightarrow> gerr + sourceSnapshot list" where
  "snapshotCanonicalCloudSources env ws data =
     (case sourcestatus_Decode (se_parse env data) of
        Inl e \<Rightarrow> Inl (annotate errCloudSourceStatusInvalid (Msg ''decode''))
      | Inr a \<Rightarrow>
          (if ar_version a \<noteq> 1 then Inl (annotate errCloudSourceStatusInvalid (Msg ''unsupported source status version''))
           else map_sum id sort_snapshots (snapshot_sources_loop env ws (ar_sources a))))"

section \<open>Snapshots from the ID map\<close>

definition readSourceStatus :: "sourceEnv \<Rightarrow> workspace \<Rightarrow> gerr + artifact" where
  "readSourceStatus env ws =
     (case readRegularFileWithin ws sourcestatus_Path of
        FileMissing \<Rightarrow> Inr \<lparr>ar_version = 1, ar_sources = []\<rparr>
      | FileError e \<Rightarrow> Inl (Wrapped ''read source status'' e)
      | FileContents data \<Rightarrow>
          (case sourcestatus_Decode (se_parse env data) of
             Inl e \<Rightarrow> Inl (Msg ''invalid source status'')
           | Inr a \<Rightarrow>
               (if ar_version a \<noteq> 1 then Inl (Msg ''invalid source status: unsupported version'') else Inr a)))"

text \<open>\<open>mapped\<close> are the raw paths of the sources added so far.\<close>

definition add_snapshot ::
  "sourceEnv \<Rightarrow> workspace \<Rightarrow> artifact \<Rightarrow> string list \<Rightarrow> string \<Rightarrow> string \<Rightarrow> gerr + sourceSnapshot" where
  "add_snapshot env ws status mapped sourceID rawPath =
     (if \<not> ValidSourceID sourceID \<or> \<not> safeMappedRawPath rawPath then Inl (Msg ''unsafe source mapping'')
      else if rawPath \<in> set mapped then Inl (Msg ''duplicate source mapping'')
      else snapshot_source env ws sourceID rawPath (map_get_or zero_receipt (ar_sources status) sourceID))"

fun meta_snapshots ::
  "sourceEnv \<Rightarrow> workspace \<Rightarrow> artifact \<Rightarrow> string list \<Rightarrow> (string \<times> sourceMeta) list \<Rightarrow> gerr + sourceSnapshot list" where
  "meta_snapshots env ws status mapped [] = Inr []"
| "meta_snapshots env ws status mapped ((sourceID, meta) # ms) =
     (let rawPath = trim_space (sm_source_file meta)
      in case add_snapshot env ws status mapped sourceID rawPath of
           Inl e \<Rightarrow> Inl e
         | Inr s \<Rightarrow> map_sum id ((#) s) (meta_snapshots env ws status (rawPath # mapped) ms))"

definition safeSourcePagePath :: "string \<Rightarrow> gerr + string" where
  "safeSourcePagePath slug =
     (if trim_space slug = '''' \<or> contains_any slug [CHR ''/'', CHR 0x5C] \<or> slug = ''.'' \<or> slug = ''..''
         \<or> list_ex (\<lambda>c. byte_in c 0 0x1F \<or> c = CHR 0x7F) slug
      then Inl (Msg ''unsafe generated source page path'')
      else Inr (path_clean (''wiki/sources/'' @ slug @ ''.md'')))"

definition isFrontmatterDelimiter :: "string \<Rightarrow> bool" where
  "isFrontmatterDelimiter line \<longleftrightarrow>
     (let content = line_content line
      in \<not> (has_prefix content '' '' \<or> has_prefix content [CHR 0x09]) \<and>
         trim_right_chars [CHR '' '', CHR 0x09] content = ''---'')"

definition parseSyntoSourcePage :: "sourceEnv \<Rightarrow> string \<Rightarrow> gerr + (string, gval) gomap" where
  "parseSyntoSourcePage env data =
     (case split_after lf data of
        [] \<Rightarrow> Inl (Msg ''source frontmatter is missing'')
      | l # ls \<Rightarrow>
          (if trim_space l \<noteq> ''---'' then Inl (Msg ''source frontmatter is missing'')
           else if dropWhile (\<lambda>l. \<not> isFrontmatterDelimiter l) ls = [] then Inl (Msg ''source frontmatter is unterminated'')
           else se_yaml env (concat (takeWhile (\<lambda>l. \<not> isFrontmatterDelimiter l) ls))))"

text \<open>The raw path of a mapped source: from its metadata, or from the front matter of its page.\<close>

definition mapped_raw_path :: "sourceEnv \<Rightarrow> workspace \<Rightarrow> idMap \<Rightarrow> string \<Rightarrow> string \<Rightarrow> string \<Rightarrow> gerr + string" where
  "mapped_raw_path env ws ids sourceID slug pagePath =
     (case map_of (im_source_meta ids) sourceID of
        Some meta \<Rightarrow>
          (if sm_slug meta \<noteq> '''' \<and> sm_slug meta \<noteq> slug then Inl (Msg ''source metadata slug disagrees'')
           else Inr (trim_space (sm_source_file meta)))
      | None \<Rightarrow>
          (case readBoundedRegularFileWithin ws pagePath of
             FileMissing \<Rightarrow> Inl (Msg ''missing legacy source page'')
           | FileError e \<Rightarrow> Inl (Wrapped ''read legacy source page'' e)
           | FileContents page \<Rightarrow>
               (case parseSyntoSourcePage env page of
                  Inl e \<Rightarrow> Inl (Wrapped ''parse legacy source page'' e)
                | Inr fs \<Rightarrow>
                    (case map_get_or VNil fs ''source_file'' of
                       VStr v \<Rightarrow>
                         (if safeMappedRawPath (trim_space v) then Inr (trim_space v)
                          else Inl (Msg ''missing or unsafe legacy source_file''))
                     | _ \<Rightarrow> Inl (Msg ''missing or unsafe legacy source_file'')))))"

fun mapped_snapshots ::
  "sourceEnv \<Rightarrow> workspace \<Rightarrow> artifact \<Rightarrow> idMap \<Rightarrow> string list \<Rightarrow> string list \<Rightarrow> (string \<times> string) list
   \<Rightarrow> gerr + sourceSnapshot list" where
  "mapped_snapshots env ws status ids slugs mapped [] = Inr []"
| "mapped_snapshots env ws status ids slugs mapped ((sourceID, slug) # ss) =
     (if \<not> ValidSourceID sourceID then Inl (Msg ''unsafe source mapping'')
      else (case safeSourcePagePath slug of
              Inl e \<Rightarrow> Inl (Msg ''unsafe source mapping'')
            | Inr pagePath \<Rightarrow>
                (if trim_space slug \<noteq> slug then Inl (Msg ''unsafe source mapping'')
                 else if slug \<in> set slugs then Inl (Msg ''duplicate legacy source slug'')
                 else (case mapped_raw_path env ws ids sourceID slug pagePath of
                         Inl e \<Rightarrow> Inl e
                       | Inr rawPath \<Rightarrow>
                           (case add_snapshot env ws status mapped sourceID rawPath of
                              Inl e \<Rightarrow> Inl e
                            | Inr s \<Rightarrow>
                                map_sum id ((#) s)
                                  (mapped_snapshots env ws status ids (slug # slugs) (rawPath # mapped) ss))))))"

definition snapshotSources :: "sourceEnv \<Rightarrow> workspace \<Rightarrow> gerr + sourceSnapshot list" where
  "snapshotSources env ws =
     (case readSourceStatus env ws of
        Inl e \<Rightarrow> Inl e
      | Inr status \<Rightarrow>
          (case readRegularFileWithin ws IDMapPath of
             FileMissing \<Rightarrow> Inr []
           | FileError e \<Rightarrow> Inl (Wrapped ''read source map'' e)
           | FileContents data \<Rightarrow>
               (case DecodeIDMap (se_parse env data) of
                  Inl e \<Rightarrow> Inl (Msg ''decode source map'')
                | Inr ids \<Rightarrow>
                    map_sum id sort_snapshots
                      (if im_source ids = [] then meta_snapshots env ws status [] (im_source_meta ids)
                       else if list_ex (\<lambda>(i, _). \<not> map_has (im_source ids) i) (im_source_meta ids)
                       then Inl (Msg ''source metadata has no source mapping'')
                       else mapped_snapshots env ws status ids [] [] (sort_keys (im_source ids))))))"

section \<open>What the snapshots promise\<close>

text \<open>A hash whose values are digests, as SHA-256 in hexadecimal.\<close>

definition digest_hash :: "codec \<Rightarrow> bool" where
  "digest_hash cd \<longleftrightarrow> (\<forall>x. validDigest (sha256 cd x))"

text \<open>
  A snapshot that tells the state of the workspace: a tombstone stands for a raw file that is missing;
  otherwise it carries the bytes of the raw file and their digest, the annotation that is stored for
  the source (the empty one when there is none) and its digest, the fingerprint of both, the
  content hash of the page source made of them, and whether the receipt of the last run is about
  other contents.
\<close>

definition snapshot_annotation :: "sourceEnv \<Rightarrow> workspace \<Rightarrow> sourceSnapshot \<Rightarrow> bool" where
  "snapshot_annotation env ws s \<longleftrightarrow>
     (case readRegularFileWithin ws (annotation_Path (ss_source_id s)) of
        FileMissing \<Rightarrow> ss_ann_body s = [] \<and> ss_ann_sha s = Digest (sha256 (se_codec env)) []
      | FileError e \<Rightarrow> False
      | FileContents data \<Rightarrow>
          (\<exists>a. annotation_of_json (se_parse env data) = Some a \<and> ss_ann_body s = an_body a \<and> ss_ann_sha s = an_sha256 a \<and>
             annotation_Validate (rfc3339 (se_codec env)) (sha256 (se_codec env)) a (ss_source_id s) (ss_raw_path s) = None))"

definition snapshot_good :: "sourceEnv \<Rightarrow> workspace \<Rightarrow> artifact \<Rightarrow> sourceSnapshot \<Rightarrow> bool" where
  "snapshot_good env ws status s \<longleftrightarrow>
     (let sha = sha256 (se_codec env); r = map_get_or zero_receipt (ar_sources status) (ss_source_id s)
      in ValidSourceID (ss_source_id s) \<and> safeMappedRawPath (ss_raw_path s) \<and>
         (if ss_tombstone s then readRegularFileWithin ws (ss_raw_path s) = FileMissing
          else readRegularFileWithin ws (ss_raw_path s) = FileContents (ss_raw_bytes s) \<and>
            ss_raw_sha s = sha (ss_raw_bytes s) \<and> snapshot_annotation env ws s \<and>
            validDigest (ss_raw_sha s) \<and> validDigest (ss_ann_sha s) \<and> validDigest (ss_fingerprint s) \<and>
            ss_fingerprint s = Fingerprint sha (ss_raw_sha s) (ss_ann_sha s) \<and>
            ss_synto_hash s = syntoSourceContentHash env s \<and>
            (ss_dirty s \<longleftrightarrow> \<not> ValidReceipt (rfc3339 (se_codec env)) sha r (ss_raw_path s) \<or> rc_fingerprint r \<noteq> ss_fingerprint s)))"

lemma snapshot_good_ok:
  "snapshot_good env ws status s \<Longrightarrow> length (ss_source_id s) \<le> maxWorkerIDBytes \<Longrightarrow> ss_tombstone s \<or> snapshot_ok (se_codec env) s"
  by (auto simp: snapshot_good_def snapshot_ok_def Let_def)

lemma readAnnotation_snapshot:
  assumes "digest_hash (se_codec env)" and "readAnnotation env ws (ss_source_id s) (ss_raw_path s) = Inr a"
    and "ss_ann_body s = an_body a" and "ss_ann_sha s = an_sha256 a"
  shows "validDigest (ss_ann_sha s) \<and> snapshot_annotation env ws s"
proof (cases "readRegularFileWithin ws (annotation_Path (ss_source_id s))")
  case (FileContents data)
  then show ?thesis
    using assms by (auto simp: readAnnotation_def snapshot_annotation_def digest_hash_def annotation_Validate_def Digest_def
        split: option.split_asm if_split_asm)
qed (use assms in \<open>auto simp: readAnnotation_def snapshot_annotation_def digest_hash_def Digest_def zero_annotation_def\<close>)

lemma materializedSourceBytes_update: "materializedSourceBytes (s\<lparr>ss_synto_hash := h\<rparr>) = materializedSourceBytes s"
  by (simp add: materializedSourceBytes_def)

lemma syntoSourceContentHash_update: "syntoSourceContentHash env (s\<lparr>ss_synto_hash := h\<rparr>) = syntoSourceContentHash env s"
  unfolding syntoSourceContentHash_def materializedSourceBytes_update ..

lemma snapshot_of_hash [simp]:
  "ss_synto_hash (snapshot_of env i p raw a r) = syntoSourceContentHash env (snapshot_of env i p raw a r)"
  unfolding snapshot_of_def Let_def syntoSourceContentHash_update by simp

lemma snapshot_of_fields [simp]:
  "ss_source_id (snapshot_of env i p raw a r) = i" "ss_raw_path (snapshot_of env i p raw a r) = p"
  "ss_raw_bytes (snapshot_of env i p raw a r) = raw" "ss_raw_sha (snapshot_of env i p raw a r) = sha256 (se_codec env) raw"
  "ss_ann_body (snapshot_of env i p raw a r) = an_body a" "ss_ann_sha (snapshot_of env i p raw a r) = an_sha256 a"
  "ss_fingerprint (snapshot_of env i p raw a r) = Fingerprint (sha256 (se_codec env)) (sha256 (se_codec env) raw) (an_sha256 a)"
  "\<not> ss_tombstone (snapshot_of env i p raw a r)"
  "ss_dirty (snapshot_of env i p raw a r) \<longleftrightarrow> \<not> ValidReceipt (rfc3339 (se_codec env)) (sha256 (se_codec env)) r p \<or>
     rc_fingerprint r \<noteq> Fingerprint (sha256 (se_codec env)) (sha256 (se_codec env) raw) (an_sha256 a)"
  by (simp_all add: snapshot_of_def Let_def)

lemma add_snapshot_good:
  assumes dh: "digest_hash (se_codec env)" and add: "add_snapshot env ws status mapped i p = Inr s"
  shows "snapshot_good env ws status s \<and> ss_source_id s = i \<and> ss_raw_path s = p \<and> p \<notin> set mapped"
proof -
  let ?r = "map_get_or zero_receipt (ar_sources status) i"
  have safe: "ValidSourceID i" "safeMappedRawPath p" "p \<notin> set mapped" and src: "snapshot_source env ws i p ?r = Inr s"
    using add by (auto simp: add_snapshot_def split: if_split_asm)
  show ?thesis
  proof (cases "readRegularFileWithin ws p")
    case FileMissing
    then have "s = tombstone i p" using src by (simp add: snapshot_source_def)
    then show ?thesis using safe FileMissing by (simp add: snapshot_good_def tombstone_def Let_def)
  next
    case (FileContents raw)
    then obtain a where a: "readAnnotation env ws i p = Inr a" and s: "s = snapshot_of env i p raw a ?r"
      using src by (auto simp: snapshot_source_def split: sum.splits)
    have "validDigest (ss_ann_sha s) \<and> snapshot_annotation env ws s"
      by (rule readAnnotation_snapshot [OF dh]) (simp_all add: a s)
    then show ?thesis using safe FileContents dh
      by (simp add: s snapshot_good_def Let_def digest_hash_def Fingerprint_def)
  qed (use src in \<open>simp add: snapshot_source_def\<close>)
qed

lemma meta_snapshots_good:
  "meta_snapshots env ws status mapped ms = Inr ss \<Longrightarrow> digest_hash (se_codec env) \<Longrightarrow>
     map ss_source_id ss = map fst ms \<and> map ss_raw_path ss = map (\<lambda>m. trim_space (sm_source_file (snd m))) ms \<and>
     list_all (snapshot_good env ws status) ss \<and>
     distinct (map ss_raw_path ss) \<and> set (map ss_raw_path ss) \<inter> set mapped = {}"
proof (induction ms arbitrary: mapped ss)
  case Nil
  then show ?case by simp
next
  case (Cons m ms)
  obtain i meta where m: "m = (i, meta)" by (cases m)
  let ?p = "trim_space (sm_source_file meta)"
  obtain s where s: "add_snapshot env ws status mapped i ?p = Inr s"
    using Cons.prems(1) m by (cases "add_snapshot env ws status mapped i ?p") (simp_all add: Let_def)
  obtain rest where rest: "meta_snapshots env ws status (?p # mapped) ms = Inr rest" and ss: "ss = s # rest"
    using Cons.prems(1) m s by (auto simp: Let_def map_sum_Inr_iff)
  note I = Cons.IH [OF rest Cons.prems(2)] and g = add_snapshot_good [OF Cons.prems(2) s]
  have "list_all (snapshot_good env ws status) ss \<and> distinct (map ss_raw_path ss) \<and> set (map ss_raw_path ss) \<inter> set mapped = {}"
    using I [THEN conjunct2, THEN conjunct2] g ss by auto
  then show ?case using I g ss m by simp
qed

lemma mapped_snapshots_step:
  assumes "mapped_snapshots env ws status ids slugs mapped ((i, slug) # cs) = Inr ss"
  obtains page p s rest where "mapped_raw_path env ws ids i slug page = Inr p"
    and "add_snapshot env ws status mapped i p = Inr s"
    and "mapped_snapshots env ws status ids (slug # slugs) (p # mapped) cs = Inr rest" and "ss = s # rest"
proof -
  obtain page where page: "safeSourcePagePath slug = Inr page"
    using assms by (cases "safeSourcePagePath slug") (simp_all split: if_split_asm)
  obtain p where p: "mapped_raw_path env ws ids i slug page = Inr p"
    using assms page by (cases "mapped_raw_path env ws ids i slug page") (simp_all split: if_split_asm)
  obtain s where s: "add_snapshot env ws status mapped i p = Inr s"
    using assms page p by (cases "add_snapshot env ws status mapped i p") (simp_all split: if_split_asm)
  obtain rest where "mapped_snapshots env ws status ids (slug # slugs) (p # mapped) cs = Inr rest" "ss = s # rest"
    using assms page p s by (auto simp: map_sum_Inr_iff split: if_split_asm)
  then show thesis using that p s by blast
qed

text \<open>A source with metadata is snapshotted at the raw file its metadata names.\<close>

definition meta_path :: "idMap \<Rightarrow> sourceSnapshot \<Rightarrow> bool" where
  "meta_path ids s \<longleftrightarrow>
     (case map_of (im_source_meta ids) (ss_source_id s) of None \<Rightarrow> True | Some meta \<Rightarrow> ss_raw_path s = trim_space (sm_source_file meta))"

lemma mapped_snapshots_good:
  "mapped_snapshots env ws status ids slugs mapped cs = Inr ss \<Longrightarrow> digest_hash (se_codec env) \<Longrightarrow>
     map ss_source_id ss = map fst cs \<and> list_all (meta_path ids) ss \<and> list_all (snapshot_good env ws status) ss \<and>
     distinct (map ss_raw_path ss) \<and> set (map ss_raw_path ss) \<inter> set mapped = {}"
proof (induction cs arbitrary: slugs mapped ss)
  case Nil
  then show ?case by simp
next
  case (Cons c cs)
  obtain i slug where c: "c = (i, slug)" by (cases c)
  obtain page p s rest where path: "mapped_raw_path env ws ids i slug page = Inr p"
    and s: "add_snapshot env ws status mapped i p = Inr s"
    and rest: "mapped_snapshots env ws status ids (slug # slugs) (p # mapped) cs = Inr rest" and ss: "ss = s # rest"
    using mapped_snapshots_step Cons.prems(1) c by blast
  note g = add_snapshot_good [OF Cons.prems(2) s]
  have "meta_path ids s"
    using path g by (auto simp: meta_path_def mapped_raw_path_def split: option.splits if_splits)
  then show ?case using Cons.IH [OF rest Cons.prems(2)] g ss c by auto
qed

definition snapshot_table :: "sourceEnv \<Rightarrow> workspace \<Rightarrow> artifact \<Rightarrow> sourceSnapshot list \<Rightarrow> bool" where
  "snapshot_table env ws status ss \<longleftrightarrow> list_all (snapshot_good env ws status) ss \<and>
     sorted_wrt (<) (map ss_source_id ss) \<and> distinct (map ss_raw_path ss)"

lemma snapshot_table_sort:
  assumes "list_all (snapshot_good env ws status) ss" and "distinct (map ss_source_id ss)" and "distinct (map ss_raw_path ss)"
  shows "snapshot_table env ws status (sort_snapshots ss)"
proof -
  have "sorted (map ss_source_id (sort_snapshots ss))"
    using key_less.sorted_sort_by [of ss_source_id ss] by (simp add: sorted_map not_less)
  then show ?thesis
    using assms by (simp add: snapshot_table_def list_all_iff strict_sorted_iff)
qed

text \<open>
  C37. The snapshots of a run are one consistent and faithful table: sorted by source ID, with no source
  twice and no raw file under two sources, one snapshot for every source of the ID map and none
  besides, at the raw file its metadata names. Each tells the state of the workspace: a
  tombstone stands for a missing raw file only; every other snapshot carries the bytes of the raw
  file, the stored annotation, the digests and the fingerprint of both, and is dirty exactly when the
  receipt does not vouch for this fingerprint.
\<close>

theorem snapshotSources_table:
  assumes "digest_hash (se_codec env)" and "snapshotSources env ws = Inr ss"
  shows "\<exists>status. readSourceStatus env ws = Inr status \<and> snapshot_table env ws status ss \<and>
    (case readRegularFileWithin ws IDMapPath of
       FileContents data \<Rightarrow>
         (\<exists>ids. DecodeIDMap (se_parse env data) = Inr ids \<and> list_all (meta_path ids) ss \<and>
            ss_source_id ` set ss = (if im_source ids = [] then fst ` set (im_source_meta ids) else fst ` set (im_source ids)))
     | _ \<Rightarrow> ss = [])"
proof -
  obtain status where st: "readSourceStatus env ws = Inr status"
    using assms(2) by (cases "readSourceStatus env ws") (simp_all add: snapshotSources_def)
  show ?thesis
  proof (cases "readRegularFileWithin ws IDMapPath")
    case (FileContents data)
    obtain ids where ids: "DecodeIDMap (se_parse env data) = Inr ids"
      using assms(2) st FileContents by (cases "DecodeIDMap (se_parse env data)") (simp_all add: snapshotSources_def)
    have wf: "map_wf (im_source ids)" "map_wf (im_source_meta ids)"
      using DecodeIDMap_bound [OF ids] by (simp_all add: bounded_idMap_def bounded_map_def)
    note run = assms(2) [unfolded snapshotSources_def st, simplified, unfolded FileContents, simplified, unfolded ids, simplified]
    have "snapshot_table env ws status ss \<and> list_all (meta_path ids) ss \<and>
        ss_source_id ` set ss = (if im_source ids = [] then fst ` set (im_source_meta ids) else fst ` set (im_source ids))"
    proof (cases "im_source ids = []")
      case True
      then obtain ss0 where m: "meta_snapshots env ws status [] (im_source_meta ids) = Inr ss0"
        and ss: "ss = sort_snapshots ss0"
        using run by (auto simp: map_sum_Inr_iff)
      note g = meta_snapshots_good [OF m assms(1)]
      have "snapshot_table env ws status ss"
        using g wf(2) unfolding ss by (intro snapshot_table_sort) (auto simp: map_wf_def)
      moreover have "list_all (meta_path ids) ss0" unfolding list_all_length
      proof (intro allI impI)
        fix k assume k: "k < length ss0"
        have l: "length ss0 = length (im_source_meta ids)" using g by (metis length_map)
        have e: "ss_source_id (ss0 ! k) = fst (im_source_meta ids ! k)"
          "ss_raw_path (ss0 ! k) = trim_space (sm_source_file (snd (im_source_meta ids ! k)))"
          using g k l by (metis nth_map)+
        have "map_of (im_source_meta ids) (fst (im_source_meta ids ! k)) = Some (snd (im_source_meta ids ! k))"
          using wf(2) k l by (simp add: map_wf_def)
        then show "meta_path ids (ss0 ! k)" using e by (simp add: meta_path_def)
      qed
      moreover have "ss_source_id ` set ss0 = fst ` set (im_source_meta ids)" using g by (metis set_map)
      ultimately show ?thesis using True by (simp add: ss list_all_iff)
    next
      case False
      then obtain ss0 where m: "mapped_snapshots env ws status ids [] [] (sort_keys (im_source ids)) = Inr ss0"
        and ss: "ss = sort_snapshots ss0"
        using run by (auto simp: map_sum_Inr_iff split: if_split_asm)
      note g = mapped_snapshots_good [OF m assms(1)]
      have "distinct (map fst (sort_keys (im_source ids)))" using sort_keys_wf [OF wf(1)] by (simp add: map_wf_def)
      then have "snapshot_table env ws status ss" using g unfolding ss by (intro snapshot_table_sort) auto
      moreover have "ss_source_id ` set ss0 = fst ` set (im_source ids)" using g by (metis set_map sort_keys_facts(2))
      ultimately show ?thesis using False g by (simp add: ss list_all_iff)
    qed
    then show ?thesis using st ids FileContents by auto
  qed (use assms(2) st in \<open>simp_all add: snapshotSources_def snapshot_table_def\<close>)
qed

text \<open>A workspace with one source, and one whose source ID is longer than a receipt may have.\<close>

definition sample_source_env :: sourceEnv where
  "sample_source_env = \<lparr>se_codec = sample_codec,
     se_parse = \<lambda>d. if d = ''map'' then [Some (idMap_to_json (empty_idMap\<lparr>im_source := [(''s1'', ''a'')],
        im_source_meta := [(''s1'', \<lparr>sm_slug = ''a'', sm_title = '''', sm_source_file = ''raw/a.md''\<rparr>)]\<rparr>))] else [],
     se_frontmatter = \<lambda>d. Inr d, se_yaml = \<lambda>_. Inr []\<rparr>"

definition sample_workspace :: workspace where
  "sample_workspace = [(IDMapPath, ''map''), (''raw/a.md'', ''x'')]"

lemma snapshotSources_table_witness:
  "map ss_raw_path (projr (snapshotSources sample_source_env sample_workspace)) = [''raw/a.md''] \<and>
   (\<exists>status. snapshot_table sample_source_env sample_workspace status (projr (snapshotSources sample_source_env sample_workspace)))"
proof -
  have "digest_hash (se_codec sample_source_env)"
    by (simp add: digest_hash_def sample_source_env_def sample_codec_def) code_simp
  moreover have run: "snapshotSources sample_source_env sample_workspace =
      Inr [snapshot_of sample_source_env ''s1'' ''raw/a.md'' ''x'' (zero_annotation\<lparr>an_sha256 := sample_sha\<rparr>) zero_receipt]"
    by code_simp
  ultimately show ?thesis
    using snapshotSources_table [of sample_source_env sample_workspace] by auto
qed

end
