(* ===== verification/Materialize.thy ===== *)
theory Materialize
  imports Workspace
begin

text \<open>
  Filling the private workspace of a cloud worker from the object store
  (\<open>cmd/olw_worker/cloud_publish.go\<close>): the budget that bounds what is read, the copies of raw
  files and annotations, the snapshots of the sources, and the copy of the committed generation,
  checked against its manifest. The workspace is a map from clean relative paths to contents; the
  errors of the file system are a parameter that names the paths that cannot be written.
\<close>

section \<open>The budget\<close>

record budget =
  bd_objects :: nat
  bd_bytes :: int

definition empty_budget :: budget where "empty_budget = \<lparr>bd_objects = 0, bd_bytes = 0\<rparr>"

definition reserve :: "budget \<Rightarrow> int \<Rightarrow> gerr + budget" where
  "reserve b sz =
     (if sz < 0 \<or> sz > MaxFileBytes \<or> bd_objects b \<ge> MaxFiles \<or> bd_bytes b > MaxTotalSize - sz
      then Inl (Msg ''cloud materialization exceeds limit'')
      else Inr \<lparr>bd_objects = Suc (bd_objects b), bd_bytes = bd_bytes b + sz\<rparr>)"

definition readCloudMaterializedObject ::
  "'w objectStore \<Rightarrow> string \<Rightarrow> int \<Rightarrow> int \<Rightarrow> budget \<Rightarrow> 'w \<Rightarrow> (gerr + string \<times> objectAttrs) \<times> budget \<times> 'w" where
  "readCloudMaterializedObject st name generationID expectedSize b w =
     (case reserve b expectedSize of
        Inl e \<Rightarrow> (Inl e, b, w)
      | Inr b' \<Rightarrow>
          (let limit = (if expectedSize > MaxFileBytes then MaxFileBytes else expectedSize)
           in case st_read st name generationID limit w of
                (Inl e, w') \<Rightarrow> (Inl (annotate errCloudObjectRead e), b', w')
              | (Inr (data, attrs), w') \<Rightarrow>
                  (if a_size attrs \<noteq> expectedSize \<or> int (length data) \<noteq> expectedSize
                   then (Inl (annotate errCloudObjectRead (Msg ''size mismatch'')), b', w')
                   else (Inr (data, attrs), b', w'))))"

section \<open>Copying objects\<close>

text \<open>The mutable parts of a materialization: workspace, budget and world.\<close>

type_synonym 'w mstate = "workspace \<times> budget \<times> 'w"

fun copy_objects ::
  "'w objectStore \<Rightarrow> (string \<Rightarrow> gerr option) \<Rightarrow> string \<Rightarrow> string \<Rightarrow> (string \<Rightarrow> bool) \<Rightarrow> objectAttrs list
   \<Rightarrow> 'w mstate \<Rightarrow> gerr option \<times> 'w mstate" where
  "copy_objects st osf prefix objectPrefix keep [] s = (None, s)"
| "copy_objects st osf prefix objectPrefix keep (a # as) (ws, b, w) =
     (let rel = trim_prefix (a_name a) prefix
      in if \<not> has_prefix (a_name a) (prefix @ objectPrefix) \<or> \<not> keep rel
         then copy_objects st osf prefix objectPrefix keep as (ws, b, w)
         else (case readCloudMaterializedObject st (a_name a) 0 (a_size a) b w of
                 (Inl e, b', w') \<Rightarrow> (Some e, ws, b', w')
               | (Inr (data, _), b', w') \<Rightarrow>
                   (case writeCloudFile osf ws rel data of
                      Inl e \<Rightarrow> (Some e, ws, b', w')
                    | Inr ws' \<Rightarrow> copy_objects st osf prefix objectPrefix keep as (ws', b', w'))))"

definition materializeCloudObjects ::
  "'w objectStore \<Rightarrow> (string \<Rightarrow> gerr option) \<Rightarrow> string \<Rightarrow> string \<Rightarrow> (string \<Rightarrow> bool) \<Rightarrow> 'w mstate \<Rightarrow> gerr option \<times> 'w mstate" where
  "materializeCloudObjects st osf prefix objectPrefix keep s =
     (case s of (ws, b, w) \<Rightarrow>
        (case st_list st (prefix @ objectPrefix) (int MaxFiles - int (bd_objects b)) w of
           (Inl e, w') \<Rightarrow> (Some e, ws, b, w')
         | (Inr attrs, w') \<Rightarrow> copy_objects st osf prefix objectPrefix keep attrs (ws, b, w')))"

record 'w cloudEnv =
  ce_store :: "'w objectStore"
  ce_sources :: sourceEnv
  ce_osf :: "string \<Rightarrow> gerr option"

abbreviation ce_codec :: "'w cloudEnv \<Rightarrow> codec" where "ce_codec env \<equiv> se_codec (ce_sources env)"
abbreviation ce_parse :: "'w cloudEnv \<Rightarrow> string \<Rightarrow> json_stream" where "ce_parse env \<equiv> se_parse (ce_sources env)"

definition annotation_object :: "string \<Rightarrow> bool" where
  "annotation_object rel \<longleftrightarrow>
     has_suffix rel ''.json'' \<and> ValidSourceID (trim_suffix (trim_prefix rel ''cache/annotations/'') ''.json'')"

definition materializeCanonicalCloudInputs ::
  "'w cloudEnv \<Rightarrow> string \<Rightarrow> 'w mstate \<Rightarrow> (gerr + sourceSnapshot list) \<times> 'w mstate" where
  "materializeCanonicalCloudInputs env prefix s =
     (case materializeCloudObjects (ce_store env) (ce_osf env) prefix ''raw/'' SafeRawPath s of
        (Some e, s1) \<Rightarrow> (Inl e, s1)
      | (None, s1) \<Rightarrow>
          (case materializeCloudObjects (ce_store env) (ce_osf env) prefix ''cache/annotations/'' annotation_object s1 of
             (Some e, s2) \<Rightarrow> (Inl e, s2)
           | (None, (ws, b, w)) \<Rightarrow>
               (case st_read (ce_store env) (prefix @ sourcestatus_Path) 0 MaxFileBytes w of
                  (Inl e, w') \<Rightarrow> (if isObjectNotFound e then (Inr [], ws, b, w') else (Inl e, ws, b, w'))
                | (Inr (data, attrs), w') \<Rightarrow>
                    (case reserve b (a_size attrs) of
                       Inl e \<Rightarrow> (Inl (annotate errCloudObjectRead e), ws, b, w')
                     | Inr b' \<Rightarrow>
                         (if int (length data) \<noteq> a_size attrs
                          then (Inl (annotate errCloudObjectRead (Msg ''size mismatch'')), ws, b', w')
                          else (case writeCloudFile (ce_osf env) ws sourcestatus_Path data of
                                  Inl e \<Rightarrow> (Inl e, ws, b', w')
                                | Inr ws' \<Rightarrow>
                                    (snapshotCanonicalCloudSources (ce_sources env) ws' data,
                                     ws', b', w')))))))"

definition legacy_groups :: "(string \<times> (string \<Rightarrow> bool)) list" where
  "legacy_groups = [(''wiki/'', GenerationOwned), (''cache/'', \<lambda>rel. GenerationOwned rel \<and> rel \<noteq> sourcestatus_Path),
     (''.olw/'', GenerationOwned), (''.synto/'', GenerationOwned)]"

fun legacy_objects ::
  "'w cloudEnv \<Rightarrow> string \<Rightarrow> (string \<times> (string \<Rightarrow> bool)) list \<Rightarrow> 'w mstate \<Rightarrow> gerr option \<times> 'w mstate" where
  "legacy_objects env prefix [] s = (None, s)"
| "legacy_objects env prefix ((p, keep) # gs) s =
     (case materializeCloudObjects (ce_store env) (ce_osf env) prefix p keep s of
        (Some e, s') \<Rightarrow> (Some e, s')
      | (None, s') \<Rightarrow> legacy_objects env prefix gs s')"

fun legacy_configs :: "'w cloudEnv \<Rightarrow> string \<Rightarrow> string list \<Rightarrow> 'w mstate \<Rightarrow> gerr option \<times> 'w mstate" where
  "legacy_configs env prefix [] s = (None, s)"
| "legacy_configs env prefix (config # cs) (ws, b, w) =
     (case st_read (ce_store env) (prefix @ config) 0 MaxFileBytes w of
        (Inl e, w') \<Rightarrow>
          (if isObjectNotFound e then legacy_configs env prefix cs (ws, b, w')
           else (Some (annotate errCloudObjectRead e), ws, b, w'))
      | (Inr (data, attrs), w') \<Rightarrow>
          (case reserve b (a_size attrs) of
             Inl e \<Rightarrow> (Some (annotate errCloudObjectRead e), ws, b, w')
           | Inr b' \<Rightarrow>
               (if int (length data) \<noteq> a_size attrs
                then (Some (annotate errCloudObjectRead (Msg ''size mismatch'')), ws, b', w')
                else (case writeCloudFile (ce_osf env) ws config data of
                        Inl e \<Rightarrow> (Some e, ws, b', w')
                      | Inr ws' \<Rightarrow> legacy_configs env prefix cs (ws', b', w')))))"

definition materializeLegacyCloudOutputs :: "'w cloudEnv \<Rightarrow> string \<Rightarrow> 'w mstate \<Rightarrow> gerr option \<times> 'w mstate" where
  "materializeLegacyCloudOutputs env prefix s =
     (case legacy_objects env prefix legacy_groups s of
        (Some e, s') \<Rightarrow> (Some e, s')
      | (None, s') \<Rightarrow> legacy_configs env prefix [''wiki.toml'', ''synto.toml''] s')"

section \<open>Copying the committed generation\<close>

definition generation_mismatch :: "gerr \<Rightarrow> gerr" where
  "generation_mismatch e = Wrapped ''generation object fails manifest validation'' e"

fun copy_generation :: "'w cloudEnv \<Rightarrow> string \<Rightarrow> manifest \<Rightarrow> gfile list \<Rightarrow> 'w mstate \<Rightarrow> gerr option \<times> 'w mstate" where
  "copy_generation env prefix m [] s = (None, s)"
| "copy_generation env prefix m (f # fs) (ws, b, w) =
     (case readCloudMaterializedObject (ce_store env) (prefix @ ObjectPath m f) (f_generation f) (f_size f) b w of
        (Inl e, b', w') \<Rightarrow> (Some (generation_mismatch e), ws, b', w')
      | (Inr (data, attrs), b', w') \<Rightarrow>
          (if a_size attrs \<noteq> f_size f \<or> sha256 (ce_codec env) data \<noteq> f_sha256 f
           then (Some (Msg ''generation object fails manifest validation: size/digest mismatch''), ws, b', w')
           else (case writeCloudFile (ce_osf env) ws (f_path f) data of
                   Inl e \<Rightarrow> (Some e, ws, b', w')
                 | Inr ws' \<Rightarrow> copy_generation env prefix m fs (ws', b', w'))))"

text \<open>
  \<open>materializeCloudWorkspace\<close> returns the snapshots together with a possible error, the manifest
  bytes and attributes (of generation 0 when there is no manifest), and the filled workspace.
\<close>

record materialized =
  mt_snapshots :: "sourceSnapshot list"
  mt_manifest :: string
  mt_attrs :: objectAttrs
  mt_error :: "gerr option"

definition no_attrs :: objectAttrs where
  "no_attrs = \<lparr>a_name = '''', a_generation = 0, a_size = 0, a_metadata = []\<rparr>"

definition mt_failed :: "sourceSnapshot list \<Rightarrow> gerr \<Rightarrow> materialized" where
  "mt_failed ss e = \<lparr>mt_snapshots = ss, mt_manifest = '''', mt_attrs = no_attrs, mt_error = Some e\<rparr>"

definition remap_snapshots ::
  "'w cloudEnv \<Rightarrow> workspace \<Rightarrow> sourceSnapshot list \<Rightarrow> sourceSnapshot list \<times> gerr option" where
  "remap_snapshots env ws ss =
     (if ss = [] then
        (case snapshotSources (ce_sources env) ws of
           Inl e \<Rightarrow> (ss, Some e)
         | Inr mapped \<Rightarrow> (if mapped \<noteq> [] then (mapped, None) else (ss, None)))
      else (case snapshotSources (ce_sources env) ws of
              Inl e \<Rightarrow> (ss, Some e)
            | Inr mapped \<Rightarrow>
                (if mapped \<noteq> [] then (appendCloudReservations mapped (cloudTombstones ss), None) else (ss, None))))"

definition materializeCloudWorkspace ::
  "'w cloudEnv \<Rightarrow> string \<Rightarrow> bool \<Rightarrow> workspace \<Rightarrow> 'w \<Rightarrow> materialized \<times> 'w mstate" where
  "materializeCloudWorkspace env prefix cleanRebuild ws0 w0 =
     (case materializeCanonicalCloudInputs env prefix (ws0, empty_budget, w0) of
        (Inl e, s) \<Rightarrow> (mt_failed [] e, s)
      | (Inr ss, (ws, b, w)) \<Rightarrow>
          (case st_read (ce_store env) (prefix @ ManifestPath) 0 (int MaxManifestBytes) w of
             (r, w1) \<Rightarrow>
               (let finish = (\<lambda>data attrs (s :: 'w mstate).
                      (case remap_snapshots env (fst s) ss of
                         (ss', e) \<Rightarrow> (\<lparr>mt_snapshots = ss', mt_manifest = data, mt_attrs = attrs, mt_error = e\<rparr>, s)))
                in case r of
                     Inl e \<Rightarrow>
                       (if \<not> isObjectNotFound e then (mt_failed ss e, ws, b, w1)
                        else if cleanRebuild then finish '''' no_attrs (ws, b, w1)
                        else (case materializeLegacyCloudOutputs env prefix (ws, b, w1) of
                                (Some e', s) \<Rightarrow> (mt_failed ss e', s)
                              | (None, s) \<Rightarrow> finish '''' no_attrs s))
                   | Inr (data, attrs) \<Rightarrow>
                       (case Decode (rfc3339 (ce_codec env)) (ce_parse env) data of
                          Inl e \<Rightarrow> (mt_failed ss (Msg ''invalid generation manifest''), ws, b, w1)
                        | Inr m \<Rightarrow>
                            (if cleanRebuild then finish data attrs (ws, b, w1)
                             else (case copy_generation env prefix m (m_files m) (ws, b, w1) of
                                     (Some e', s) \<Rightarrow> (mt_failed ss e', s)
                                   | (None, s) \<Rightarrow> finish data attrs s))))))"

section \<open>The budget bounds the workspace\<close>

definition ws_bytes :: "workspace \<Rightarrow> int" where
  "ws_bytes ws = sum_list (map (\<lambda>(p, b). int (length b)) ws)"

definition within_budget :: "'w mstate \<Rightarrow> bool" where
  "within_budget = (\<lambda>(ws, b, w).
     length ws \<le> bd_objects b \<and> ws_bytes ws \<le> bd_bytes b \<and> bd_objects b \<le> MaxFiles \<and> bd_bytes b \<le> MaxTotalSize)"

lemma ws_bytes_set: "ws_bytes (map_set p d ws) \<le> ws_bytes ws + int (length d)"
  by (induction ws) (auto simp: ws_bytes_def)

lemma reserve_ok:
  "reserve b n = Inr b' \<Longrightarrow>
     bd_objects b' = Suc (bd_objects b) \<and> bd_bytes b' = bd_bytes b + n \<and> 0 \<le> n \<and>
     bd_objects b' \<le> MaxFiles \<and> bd_bytes b' \<le> MaxTotalSize"
  by (auto simp: reserve_def split: if_splits)

text \<open>A reservation keeps the bound, and pays for a write of that many bytes.\<close>

lemma within_reserve: "within_budget (ws, b, w) \<Longrightarrow> reserve b n = Inr b' \<Longrightarrow> within_budget (ws, b', w')"
  using reserve_ok [of b n b'] by (auto simp: within_budget_def)

lemma within_write:
  assumes "within_budget (ws, b, w)" and "reserve b n = Inr b'" and "int (length d) = n"
    and "writeCloudFile osf ws rel d = Inr ws'"
  shows "within_budget (ws', b', w')"
proof -
  have "ws' = map_set (path_clean rel) d ws"
    using assms(4) by (auto simp: writeCloudFile_def split: option.splits if_splits)
  then show ?thesis
    using assms(1) reserve_ok [OF assms(2)] assms(3) ws_bytes_set [of "path_clean rel" d ws]
      length_map_set_le [of "path_clean rel" d ws]
    by (auto simp: within_budget_def)
qed

lemma within_world: "within_budget (ws, b, w) \<Longrightarrow> within_budget (ws, b, w')"
  by (simp add: within_budget_def)

lemma readCloudMaterializedObject_budget:
  assumes "readCloudMaterializedObject st n g sz b w = (r, b', w')"
  shows "(b' = b \<or> reserve b sz = Inr b') \<and>
    (case r of Inl e \<Rightarrow> True | Inr (d, a) \<Rightarrow> reserve b sz = Inr b' \<and> int (length d) = sz)"
  using assms
  by (auto simp: readCloudMaterializedObject_def Let_def split: sum.splits prod.splits if_splits)

lemma within_read:
  "within_budget (ws, b, w) \<Longrightarrow> readCloudMaterializedObject st n g sz b w = (r, b', w') \<Longrightarrow> within_budget (ws, b', w')"
  using readCloudMaterializedObject_budget [of st n g sz b w r b' w'] within_reserve [of ws b w sz b' w']
  by (auto intro: within_world)

lemma within_read_write:
  assumes "within_budget (ws, b, w)" and "readCloudMaterializedObject st n g sz b w = (Inr (d, a), b', w')"
    and "writeCloudFile osf ws rel d = Inr ws'"
  shows "within_budget (ws', b', w'')"
proof -
  have "reserve b sz = Inr b'" "int (length d) = sz" using readCloudMaterializedObject_budget [OF assms(2)] by auto
  then show ?thesis by (rule within_write [OF assms(1) _ _ assms(3)])
qed

lemma copy_objects_within:
  "within_budget s \<Longrightarrow> copy_objects st osf prefix op keep as s = (e, s') \<Longrightarrow> within_budget s'"
proof (induction as arbitrary: s)
  case Nil
  then show ?case by simp
next
  case (Cons a as)
  obtain ws b w where s: "s = (ws, b, w)" by (cases s)
  let ?rel = "trim_prefix (a_name a) prefix"
  obtain r b1 w1 where rd: "readCloudMaterializedObject st (a_name a) 0 (a_size a) b w = (r, b1, w1)"
    by (metis prod_cases3)
  note before = Cons.prems(1) [unfolded s]
  show ?case
  proof (cases "\<not> has_prefix (a_name a) (prefix @ op) \<or> \<not> keep ?rel")
    case True
    then show ?thesis using Cons.IH [OF before] Cons.prems(2) s by (simp add: Let_def)
  next
    case False
    then have kept: "copy_objects st osf prefix op keep (a # as) s =
        (case r of
           Inl x \<Rightarrow> (Some x, ws, b1, w1)
         | Inr (d, _) \<Rightarrow>
             (case writeCloudFile osf ws ?rel d of
                Inl x \<Rightarrow> (Some x, ws, b1, w1)
              | Inr ws' \<Rightarrow> copy_objects st osf prefix op keep as (ws', b1, w1)))"
      using rd s by (simp add: Let_def split: sum.split)
    show ?thesis
    proof (cases "\<exists>d x ws'. r = Inr (d, x) \<and> writeCloudFile osf ws ?rel d = Inr ws'")
      case True
      then obtain d x ws' where r: "r = Inr (d, x)" and wr: "writeCloudFile osf ws ?rel d = Inr ws'" by blast
      have "within_budget (ws', b1, w1)" by (rule within_read_write [OF before rd [unfolded r] wr])
      then show ?thesis using Cons.IH kept Cons.prems(2) r wr by simp
    next
      case False
      then have "s' = (ws, b1, w1)"
        using kept Cons.prems(2) by (auto split: sum.splits prod.splits)
      then show ?thesis using within_read [OF before rd] by simp
    qed
  qed
qed

lemma materializeCloudObjects_within:
  assumes "within_budget s" and "materializeCloudObjects st osf prefix op keep s = (e, s')"
  shows "within_budget s'"
proof -
  obtain ws b w where s: "s = (ws, b, w)" by (cases s)
  obtain r w1 where ls: "st_list st (prefix @ op) (int MaxFiles - int (bd_objects b)) w = (r, w1)" by fastforce
  have w1: "within_budget (ws, b, w1)" using assms(1) s by (simp add: within_budget_def)
  then show ?thesis
    using assms(2) s ls copy_objects_within [OF w1]
    by (auto simp: materializeCloudObjects_def split: sum.splits)
qed

lemma legacy_objects_within:
  "within_budget s \<Longrightarrow> legacy_objects env prefix gs s = (e, s') \<Longrightarrow> within_budget s'"
proof (induction gs arbitrary: s)
  case Nil
  then show ?case by simp
next
  case (Cons g gs)
  obtain p keep where g: "g = (p, keep)" by (cases g)
  obtain e1 s1 where m: "materializeCloudObjects (ce_store env) (ce_osf env) prefix p keep s = (e1, s1)" by (metis prod.exhaust)
  from materializeCloudObjects_within [OF Cons.prems(1) m] show ?case
    using Cons.IH Cons.prems(2) g m by (cases e1) auto
qed

lemma legacy_configs_within:
  "within_budget s \<Longrightarrow> legacy_configs env prefix cs s = (e, s') \<Longrightarrow> within_budget s'"
proof (induction cs arbitrary: s)
  case Nil
  then show ?case by simp
next
  case (Cons c cs)
  obtain ws b w where s: "s = (ws, b, w)" by (cases s)
  obtain r w1 where rd: "st_read (ce_store env) (prefix @ c) 0 MaxFileBytes w = (r, w1)" by fastforce
  note before = Cons.prems(1) [unfolded s]
  note after = within_world [OF before, of w1]
  show ?case
  proof (cases r)
    case (Inl x)
    then show ?thesis using Cons.IH [OF after] Cons.prems(2) s rd after by (auto split: if_splits)
  next
    case (Inr da)
    obtain d at where da: "da = (d, at)" by (cases da)
    show ?thesis
    proof (cases "reserve b (a_size at)")
      case (Inl x)
      then show ?thesis using Cons.prems(2) s rd Inr da after by simp
    next
      case rs: (Inr b1)
      note paid = within_reserve [OF before rs, of w1]
      show ?thesis
      proof (cases "int (length d) \<noteq> a_size at")
        case True
        then show ?thesis using Cons.prems(2) s rd Inr da rs paid by simp
      next
        case len: False
        show ?thesis
        proof (cases "writeCloudFile (ce_osf env) ws c d")
          case (Inl x)
          then show ?thesis using Cons.prems(2) s rd Inr da rs paid len by simp
        next
          case wr: (Inr ws1)
          have "within_budget (ws1, b1, w1)" using within_write [OF before rs _ wr] len by simp
          then show ?thesis using Cons.IH Cons.prems(2) s rd Inr da rs len wr by simp
        qed
      qed
    qed
  qed
qed

lemma copy_generation_within:
  "within_budget s \<Longrightarrow> copy_generation env prefix m fs s = (e, s') \<Longrightarrow> within_budget s'"
proof (induction fs arbitrary: s)
  case Nil
  then show ?case by simp
next
  case (Cons f fs)
  obtain ws b w where s: "s = (ws, b, w)" by (cases s)
  obtain r b1 w1 where rd: "readCloudMaterializedObject (ce_store env) (prefix @ ObjectPath m f) (f_generation f) (f_size f) b w
      = (r, b1, w1)" by (metis prod_cases3)
  note before = Cons.prems(1) [unfolded s]
  show ?case
  proof (cases "\<exists>d a ws'. r = Inr (d, a) \<and> a_size a = f_size f \<and> sha256 (ce_codec env) d = f_sha256 f \<and>
      writeCloudFile (ce_osf env) ws (f_path f) d = Inr ws'")
    case True
    then obtain d a ws' where r: "r = Inr (d, a)" "a_size a = f_size f" "sha256 (ce_codec env) d = f_sha256 f"
      and wr: "writeCloudFile (ce_osf env) ws (f_path f) d = Inr ws'" by blast
    have "within_budget (ws', b1, w1)" by (rule within_read_write [OF before rd [unfolded r(1)] wr])
    then show ?thesis using Cons.IH Cons.prems(2) s rd r wr by simp
  next
    case False
    then have "s' = (ws, b1, w1)"
      using Cons.prems(2) s rd by (auto split: sum.splits prod.splits if_splits)
    then show ?thesis using within_read [OF before rd] by simp
  qed
qed

lemma materializeCanonical_within:
  assumes "within_budget s" and "materializeCanonicalCloudInputs env prefix s = (r, s')"
  shows "within_budget s'"
proof -
  obtain e1 s1 where m1: "materializeCloudObjects (ce_store env) (ce_osf env) prefix ''raw/'' SafeRawPath s = (e1, s1)"
    by (metis prod.exhaust)
  obtain e2 ws b w where m2: "materializeCloudObjects (ce_store env) (ce_osf env) prefix ''cache/annotations/'' annotation_object s1
      = (e2, ws, b, w)" by (metis prod_cases4)
  note w1 = materializeCloudObjects_within [OF assms(1) m1]
  note w2 = materializeCloudObjects_within [OF w1 m2]
  obtain rd w' where rd: "st_read (ce_store env) (prefix @ sourcestatus_Path) 0 MaxFileBytes w = (rd, w')" by fastforce
  have paid: "within_budget (ws', b', w')"
    if "rd = Inr (d, at)" "reserve b (a_size at) = Inr b'" "int (length d) = a_size at"
      "writeCloudFile (ce_osf env) ws sourcestatus_Path d = Inr ws'" for d at b' ws'
    using within_write [OF w2 that(2,3,4)] .
  show ?thesis
    using assms(2) m1 m2 rd w1 w2 paid within_world [OF w2] within_reserve [OF w2]
    by (auto simp: materializeCanonicalCloudInputs_def split: option.splits sum.splits prod.splits if_splits)
qed

lemma legacy_within:
  assumes "within_budget s" and "materializeLegacyCloudOutputs env prefix s = (e, s')"
  shows "within_budget s'"
proof -
  obtain e1 s1 where m: "legacy_objects env prefix legacy_groups s = (e1, s1)" by (metis prod.exhaust)
  note w1 = legacy_objects_within [OF assms(1) m]
  show ?thesis
    using assms(2) m w1 legacy_configs_within [OF w1]
    by (auto simp: materializeLegacyCloudOutputs_def simp del: legacy_configs.simps split: option.splits)
qed

text \<open>
  C31. What a worker materializes is bounded: whatever the store lists, serves or fails to serve,
  the workspace it fills from nothing holds at most \<open>MaxFiles\<close> files with at most \<open>MaxTotalSize\<close>
  bytes in all.
\<close>

theorem materialize_bounded:
  "case snd (materializeCloudWorkspace env prefix cleanRebuild [] w) of
     (ws, b, w') \<Rightarrow> length ws \<le> MaxFiles \<and> ws_bytes ws \<le> MaxTotalSize"
proof -
  have start: "within_budget ([], empty_budget, w)"
    by (simp add: within_budget_def empty_budget_def ws_bytes_def MaxTotalSize_def)
  obtain r ws b w1 where m: "materializeCanonicalCloudInputs env prefix ([], empty_budget, w) = (r, ws, b, w1)"
    by (metis prod_cases4)
  note w1 = materializeCanonical_within [OF start m]
  obtain rd w2 where rd: "st_read (ce_store env) (prefix @ ManifestPath) 0 (int MaxManifestBytes) w1 = (rd, w2)" by fastforce
  note w2 = within_world [OF w1, of w2]
  have legacy: "within_budget s" if leg: "materializeLegacyCloudOutputs env prefix (ws, b, w2) = (e, s)" for e s
    by (rule legacy_within [OF w2 leg])
  have gen: "within_budget s" if "copy_generation env prefix m (m_files m) (ws, b, w2) = (e, s)" for e s m
    using copy_generation_within [OF w2 that] .
  have "within_budget (snd (materializeCloudWorkspace env prefix cleanRebuild [] w))"
    using m rd w1 w2 legacy gen
    by (auto simp: materializeCloudWorkspace_def Let_def split: sum.splits prod.splits option.splits)
  then show ?thesis by (auto simp: within_budget_def split: prod.splits)
qed

section \<open>The committed generation is restored\<close>

lemma GenerationOwned_clean: "GenerationOwned p \<Longrightarrow> path_clean p = p"
proof -
  assume own: "GenerationOwned p"
  have "list_all (\<lambda>q. path_clean q = q) owned_files" by code_simp
  then show ?thesis using own by (auto simp: GenerationOwned_def safePath_def list_all_iff split: if_splits)
qed

definition restored :: "codec \<Rightarrow> workspace \<Rightarrow> gfile \<Rightarrow> bool" where
  "restored cd ws f \<longleftrightarrow>
     (case map_of ws (f_path f) of
        None \<Rightarrow> False
      | Some d \<Rightarrow> int (length d) = f_size f \<and> sha256 cd d = f_sha256 f)"

lemma restored_other: "map_of ws' (f_path f) = map_of ws (f_path f) \<Longrightarrow> restored cd ws f \<Longrightarrow> restored cd ws' f"
  by (simp add: restored_def)

lemma copy_generation_restores:
  assumes "copy_generation env prefix m fs (ws, b, w) = (None, ws', b', w')"
    and "distinct (map f_path fs)" and "list_all (\<lambda>f. GenerationOwned (f_path f)) fs"
  shows "list_all (restored (ce_codec env) ws') fs \<and>
    (\<forall>p. p \<notin> f_path ` set fs \<longrightarrow> map_of ws' p = map_of ws p)"
  using assms
proof (induction fs arbitrary: ws b w)
  case Nil
  then show ?case by simp
next
  case (Cons f fs)
  obtain r b1 w1 where rd: "readCloudMaterializedObject (ce_store env) (prefix @ ObjectPath m f) (f_generation f) (f_size f) b w
      = (r, b1, w1)" by (metis prod_cases3)
  obtain d a where r: "r = Inr (d, a)" using Cons.prems(1) rd by (cases r) auto
  have len: "int (length d) = f_size f" using readCloudMaterializedObject_budget [OF rd] r by simp
  obtain ws1 where wr: "writeCloudFile (ce_osf env) ws (f_path f) d = Inr ws1"
    and sha: "sha256 (ce_codec env) d = f_sha256 f"
    and rest: "copy_generation env prefix m fs (ws1, b1, w1) = (None, ws', b', w')"
    using Cons.prems(1) rd r by (auto split: if_splits sum.splits)
  have clean: "path_clean (f_path f) = f_path f" using Cons.prems(3) GenerationOwned_clean by simp
  have ws1: "ws1 = map_set (f_path f) d ws"
    using wr clean by (auto simp: writeCloudFile_def split: option.splits if_splits)
  have "f_path f \<notin> f_path ` set fs" using Cons.prems(2) by simp
  with Cons.IH [OF rest] Cons.prems(2,3)
  have ih: "list_all (restored (ce_codec env) ws') fs"
    and other: "\<And>p. p \<notin> f_path ` set fs \<Longrightarrow> map_of ws' p = map_of ws1 p"
    and here: "map_of ws' (f_path f) = Some d"
    using ws1 by auto
  have "restored (ce_codec env) ws' f" using here len sha by (simp add: restored_def)
  then show ?case using ih other ws1 by auto
qed

lemma Validate_files_facts:
  assumes "Validate rfc m = Inr ()"
  shows "distinct (map f_path (m_files m))" and "list_all (\<lambda>f. GenerationOwned (f_path f)) (m_files m)"
proof -
  have "sorted_wrt (<) (map f_path (m_files m))" using assms by (simp add: Validate_ok_iff)
  then show "distinct (map f_path (m_files m))" by (simp add: strict_sorted_iff)
  show "list_all (\<lambda>f. GenerationOwned (f_path f)) (m_files m)"
    using assms by (auto simp: Validate_ok_iff list_all_iff file_ok_def)
qed

text \<open>
  C9. A worker that continues from a committed generation starts from all of it: when the
  materialization delivers a manifest without an error, every file the manifest names is in the
  workspace with the size and the digest of the manifest, and the manifest is a valid one,
  whatever the object store served.
\<close>

theorem generation_restored:
  assumes "materializeCloudWorkspace env prefix False ws0 w = (r, ws, b, w')"
    and "mt_error r = None" and "mt_attrs r \<noteq> no_attrs"
  shows "\<exists>m. Decode (rfc3339 (ce_codec env)) (ce_parse env) (mt_manifest r) = Inr m \<and>
    Validate (rfc3339 (ce_codec env)) m = Inr () \<and> list_all (restored (ce_codec env) ws) (m_files m)"
proof -
  obtain ri ws1 b1 w1 where inp: "materializeCanonicalCloudInputs env prefix (ws0, empty_budget, w) = (ri, ws1, b1, w1)"
    by (metis prod_cases4)
  obtain rd w2 where rd: "st_read (ce_store env) (prefix @ ManifestPath) 0 (int MaxManifestBytes) w1 = (rd, w2)" by fastforce
  note start = assms(1) [unfolded materializeCloudWorkspace_def Let_def inp, simplified]
  obtain ss where ri: "ri = Inr ss" using start assms(2) by (cases ri) (auto simp: mt_failed_def)
  note run = start [unfolded ri, simplified, unfolded rd, simplified]
  obtain data attrs where rd': "rd = Inr (data, attrs)"
    using run ri assms(2,3) by (cases rd) (auto simp: mt_failed_def remap_snapshots_def split: if_splits prod.splits option.splits sum.splits)
  obtain m where m: "Decode (rfc3339 (ce_codec env)) (ce_parse env) data = Inr m"
    using run ri rd' assms(2) by (auto simp: mt_failed_def split: sum.splits)
  obtain e s where cp: "copy_generation env prefix m (m_files m) (ws1, b1, w2) = (e, s)" by (metis prod.exhaust)
  have e: "e = None" using run ri rd' m cp assms(2) by (cases e) (auto simp: mt_failed_def)
  then have fin: "mt_manifest r = data" "s = (ws, b, w')"
    using run ri rd' m cp by (auto split: prod.splits)
  note valid = Decode_valid [OF m]
  show ?thesis
    using copy_generation_restores [of env prefix m "m_files m" ws1 b1 w2 ws b w'] cp e fin m valid
      Validate_files_facts [OF valid] by auto
qed

text \<open>A committed generation of one page, read back by a worker.\<close>

definition sample_generation :: manifest where
  "sample_generation =
     \<lparr>m_version = 1, m_generation_id = ''g_012345'', m_previous = '''', m_created_at = ''t'',
      m_input_fingerprint = ''fp'',
      m_files = [\<lparr>f_path = ''wiki/a.md'', f_size = 1, f_sha256 = sample_digest, f_generation = 2\<rparr>]\<rparr>"

definition sample_cloud :: memoryObjects where
  "sample_cloud = \<lparr>mem_next = 2, mem_objects =
     [(''p/'' @ ManifestPath, \<lparr>mo_data = ''m'', mo_attrs = \<lparr>a_name = ''p/'' @ ManifestPath, a_generation = 1, a_size = 1, a_metadata = []\<rparr>\<rparr>),
      (''p/'' @ ObjectPath sample_generation (hd (m_files sample_generation)), \<lparr>mo_data = ''x'', mo_attrs = \<lparr>a_name = '''', a_generation = 2, a_size = 1, a_metadata = []\<rparr>\<rparr>)]\<rparr>"

definition sample_sources :: sourceEnv where
  "sample_sources = \<lparr>se_codec = \<lparr>rfc3339 = \<lambda>_. Some 0, format_utc = \<lambda>_. ''t'', sha256 = \<lambda>_. sample_digest\<rparr>,
     se_parse = \<lambda>d. if d = ''m'' then [Some (manifest_to_json sample_generation)] else [],
     se_frontmatter = \<lambda>d. Inr d, se_yaml = \<lambda>_. Inr []\<rparr>"

definition sample_cloud_env :: "memoryObjects cloudEnv" where
  "sample_cloud_env = \<lparr>ce_store = memoryStore, ce_sources = sample_sources, ce_osf = \<lambda>_. None\<rparr>"

lemmas cloud_eval = sample_cloud_env_def memoryStore_def mem_List_def mem_Read_def sample_cloud_def materializeCloudObjects_def
  has_prefix_def ManifestPath_def ObjectPath_def GenPrefix_def sample_generation_def sourcestatus_Path_def
  empty_budget_def isObjectNotFound_def MaxFiles_def MaxPathBytes_def MaxManifestBytes_def

lemma sample_inputs: "materializeCanonicalCloudInputs sample_cloud_env ''p/'' ([], empty_budget, sample_cloud) = (Inr [], [], empty_budget, sample_cloud)"
  by (simp add: materializeCanonicalCloudInputs_def cloud_eval)

lemma sample_manifest_read: "st_read (ce_store sample_cloud_env) (''p/'' @ ManifestPath) 0 (int MaxManifestBytes) sample_cloud =
   (Inr (''m'', \<lparr>a_name = ''p/'' @ ManifestPath, a_generation = 1, a_size = 1, a_metadata = []\<rparr>), sample_cloud)"
  by (simp add: cloud_eval)

lemma sample_generation_valid: "Validate (\<lambda>_. Some 0) sample_generation = Inr ()" by code_simp

lemma sample_generation_decodes: "Decode (rfc3339 (ce_codec sample_cloud_env)) (ce_parse sample_cloud_env) ''m'' = Inr sample_generation"
proof -
  have "decodeManifestStrict [Some (manifest_to_json sample_generation)] = Inr sample_generation"
    by (rule decodeManifestStrict_to_json) (simp_all add: sample_generation_def in_int64_def MaxFiles_def)
  then show ?thesis using sample_generation_valid
   by (simp add: Decode_def sample_cloud_env_def sample_sources_def MaxManifestBytes_def)
qed

lemma sample_generation_copied: "copy_generation sample_cloud_env ''p/'' sample_generation (m_files sample_generation) ([], empty_budget, sample_cloud)
  = (None, [(''wiki/a.md'', ''x'')], \<lparr>bd_objects = 1, bd_bytes = 1\<rparr>, sample_cloud)"
  by (simp add: cloud_eval readCloudMaterializedObject_def reserve_def MaxFileBytes_def MaxTotalSize_def writeCloudFile_def
    safeRelativePath_def path_is_abs_def path_clean_def path_conflict_def sample_sources_def Let_def)

lemma sample_sources_none: "snapshotSources (ce_sources sample_cloud_env) [(''wiki/a.md'', ''x'')] = Inr []"
  by (simp add: snapshotSources_def readSourceStatus_def readRegularFileWithin_def safeRelativePath_def path_is_abs_def path_clean_def
    sourcestatus_Path_def IDMapPath_def has_prefix_def)

lemma sample_run: "materializeCloudWorkspace sample_cloud_env ''p/'' False [] sample_cloud =
   (\<lparr>mt_snapshots = [], mt_manifest = ''m'', mt_attrs = \<lparr>a_name = ''p/'' @ ManifestPath, a_generation = 1, a_size = 1, a_metadata = []\<rparr>,
      mt_error = None\<rparr>, [(''wiki/a.md'', ''x'')], \<lparr>bd_objects = 1, bd_bytes = 1\<rparr>, sample_cloud)"
  unfolding materializeCloudWorkspace_def sample_inputs prod.case sum.case sample_manifest_read Let_def
  by (simp add: sample_generation_decodes sample_generation_copied sample_sources_none remap_snapshots_def)

lemma generation_restored_witness:
  "\<exists>m. Decode (rfc3339 (ce_codec sample_cloud_env)) (ce_parse sample_cloud_env) ''m'' = Inr m \<and>
    Validate (rfc3339 (ce_codec sample_cloud_env)) m = Inr () \<and>
    list_all (restored (ce_codec sample_cloud_env) [(''wiki/a.md'', ''x'')]) (m_files m)"
  using generation_restored [OF sample_run] by (simp add: no_attrs_def)

end
