(* ===== verification/SyntoIdentity.thy ===== *)
theory SyntoIdentity
  imports IdMap
begin

text \<open>
  Projects whose concepts carry Synto entity IDs (\<open>internal/wikiindex/wikiindex.go\<close>,
  \<open>synto_identity.go\<close>): the strict decoder of the Synto INDEX artifact into an identity plan, the
  checks of the plan against the pages, the redirects from legacy concept IDs to entities, and the
  rebuild that makes the pages carry the plan's identities.
\<close>

section \<open>The plan\<close>

record identityPlan =
  ip_by_path :: "(string, string) gomap"
  ip_active :: "(string, bool) gomap"

definition UnboundActiveEntities :: "identityPlan \<Rightarrow> string list" where
  "UnboundActiveEntities plan =
     sort_by (<) (filter (\<lambda>e. e \<notin> snd ` set (ip_by_path plan)) (map fst (ip_active plan)))"

definition validSyntoArticlePath :: "string \<Rightarrow> bool" where
  "validSyntoArticlePath path =
     (if \<not> has_prefix path ''wiki/'' \<or> contains_any path [CHR 0x5C] \<or> contains path ''//'' \<or> contains path ''..''
         \<or> contains path ''/./'' then False
      else (let rel = trim_prefix path ''wiki/''
            in has_suffix rel ''.md'' \<and> \<not> contains rel ''/'' \<and> validConceptSlug (trim_suffix rel ''.md'')))"

fun plan_files :: "markdownFile list \<Rightarrow> string list \<Rightarrow> gerr + string list" where
  "plan_files [] paths = Inr paths"
| "plan_files (f # fs) paths =
     (if IsSyntoRootPage (mf_path f) then plan_files fs paths
      else if \<not> validSyntoArticlePath (mf_path f) \<or> \<not> validConceptSlug (mf_slug f) then Inl (Msg ''unsafe Synto article path'')
      else if mf_path f \<in> set paths then Inl (Msg ''duplicate Synto article path'')
      else plan_files fs (mf_path f # paths))"

fun plan_bindings :: "string list \<Rightarrow> string list \<Rightarrow> (string \<times> string) list \<Rightarrow> gerr option" where
  "plan_bindings paths entities [] = None"
| "plan_bindings paths entities ((path, entityID) # bs) =
     (if \<not> validSyntoArticlePath path \<or> \<not> ValidSyntoEntityID entityID \<or> entityID \<noteq> trim_space entityID
      then Some (Msg ''unsafe Synto identity mapping'')
      else if path \<notin> set paths then Some (Msg ''Synto identity path is absent from wiki'')
      else if entityID \<in> set entities then Some (Msg ''Synto entity_id maps to multiple articles'')
      else plan_bindings paths (entityID # entities) bs)"

fun plan_active :: "(string \<times> bool) list \<Rightarrow> gerr option" where
  "plan_active [] = None"
| "plan_active ((entityID, _) # es) =
     (if \<not> ValidSyntoEntityID entityID \<or> entityID \<noteq> trim_space entityID then Some (Msg ''unsafe active Synto entity_id'')
      else plan_active es)"

definition validateSyntoIdentityPlan :: "markdownFile list \<Rightarrow> identityPlan \<Rightarrow> gerr option" where
  "validateSyntoIdentityPlan files plan =
     (case plan_files files [] of
        Inl e \<Rightarrow> Some e
      | Inr paths \<Rightarrow>
          (case plan_bindings paths [] (ip_by_path plan) of
             Some e \<Rightarrow> Some e
           | None \<Rightarrow> plan_active (ip_active plan)))"

definition syntoPlanForAvailableFiles :: "markdownFile list \<Rightarrow> identityPlan \<Rightarrow> identityPlan" where
  "syntoPlanForAvailableFiles files plan =
     plan\<lparr>ip_by_path := filter (\<lambda>(path, _). path \<in> mf_path ` set files) (ip_by_path plan)\<rparr>"

section \<open>Redirects from legacy IDs\<close>

fun current_by_slug :: "(string \<times> string) list \<Rightarrow> (string, string) gomap \<Rightarrow> gerr + (string, string) gomap" where
  "current_by_slug [] bySlug = Inr bySlug"
| "current_by_slug ((entityID, slug) # cs) bySlug =
     (if map_has bySlug slug \<and> map_get_or '''' bySlug slug \<noteq> entityID then Inl (Msg ''multiple current concepts use slug'')
      else current_by_slug cs (map_set slug entityID bySlug))"

definition add_redirect ::
  "(string, string) gomap \<Rightarrow> string \<Rightarrow> string \<Rightarrow> (string, string) gomap \<Rightarrow> gerr + (string, string) gomap" where
  "add_redirect concepts source target redirects =
     (if \<not> ValidLegacyConceptID source \<or> source = target then Inl (Msg ''invalid ID redirect source'')
      else if map_has concepts source then Inl (Msg ''ID redirect source is an active concept'')
      else if \<not> ValidSyntoEntityID target then Inl (Msg ''invalid ID redirect target'')
      else if \<not> map_has concepts target then Inl (Msg ''ID redirect target not found'')
      else if map_has redirects source \<and> map_get_or '''' redirects source \<noteq> target then Inl (Msg ''ID redirect conflict'')
      else Inr (map_set source target redirects))"

fun carry_redirects ::
  "(string, string) gomap \<Rightarrow> (string \<times> string) list \<Rightarrow> (string, string) gomap \<Rightarrow> gerr + (string, string) gomap" where
  "carry_redirects concepts [] redirects = Inr redirects"
| "carry_redirects concepts ((source, target) # rs) redirects =
     (case add_redirect concepts source (trim_space target) redirects of
        Inl e \<Rightarrow> Inl e
      | Inr redirects' \<Rightarrow> carry_redirects concepts rs redirects')"

fun migrate_redirects ::
  "(string, string) gomap \<Rightarrow> (string, string) gomap \<Rightarrow> (string \<times> string) list \<Rightarrow> (string, string) gomap
   \<Rightarrow> gerr + (string, string) gomap" where
  "migrate_redirects concepts bySlug [] redirects = Inr redirects"
| "migrate_redirects concepts bySlug ((oldID, slug) # cs) redirects =
     (let target = map_get_or '''' bySlug slug
      in if target = '''' \<or> oldID = target then migrate_redirects concepts bySlug cs redirects
         else if ValidSyntoEntityID oldID then migrate_redirects concepts bySlug cs redirects
         else if \<not> ValidLegacyConceptID oldID then Inl (Msg ''non-legacy prior concept ID cannot be migrated'')
         else (case add_redirect concepts oldID target redirects of
                 Inl e \<Rightarrow> Inl e
               | Inr redirects' \<Rightarrow> migrate_redirects concepts bySlug cs redirects'))"

fun redirect_chain :: "(string, string) gomap \<Rightarrow> (string \<times> string) list \<Rightarrow> gerr option" where
  "redirect_chain redirects [] = None"
| "redirect_chain redirects ((source, target) # rs) =
     (if map_has redirects target then Some (Msg ''ID redirect chain detected'')
      else if source = target then Some (Msg ''ID redirect cycle detected'')
      else redirect_chain redirects rs)"

definition planSyntoIDRedirects :: "idMap \<Rightarrow> idMap \<Rightarrow> gerr + (idMap \<times> int)" where
  "planSyntoIDRedirects next' old =
     (case current_by_slug (im_concept next') [] of
        Inl e \<Rightarrow> Inl e
      | Inr bySlug \<Rightarrow>
          (case carry_redirects (im_concept next') (im_id_redirects old) [] of
             Inl e \<Rightarrow> Inl e
           | Inr r1 \<Rightarrow>
               (case migrate_redirects (im_concept next') bySlug (im_concept old) r1 of
                  Inl e \<Rightarrow> Inl e
                | Inr r2 \<Rightarrow>
                    (case migrate_redirects (im_concept next') bySlug (im_dormant old) r2 of
                       Inl e \<Rightarrow> Inl e
                     | Inr r3 \<Rightarrow>
                         (case redirect_chain r3 r3 of
                            Some e \<Rightarrow> Inl e
                          | None \<Rightarrow> Inr (next'\<lparr>im_id_redirects := r3\<rparr>,
                                         int (length r3) - int (length (im_id_redirects old))))))))"

section \<open>What the redirects promise\<close>

definition redirect_ok :: "(string, string) gomap \<Rightarrow> string \<times> string \<Rightarrow> bool" where
  "redirect_ok concepts = (\<lambda>(source, target).
     ValidLegacyConceptID source \<and> source \<notin> fst ` set concepts \<and>
     ValidSyntoEntityID target \<and> target \<in> fst ` set concepts)"

lemma add_redirect_ok:
  assumes "add_redirect concepts source target r = Inr r'" and "list_all (redirect_ok concepts) r" and "map_wf r"
  shows "list_all (redirect_ok concepts) r' \<and> map_wf r' \<and> map_of r' source = Some target \<and> map_of r \<subseteq>\<^sub>m map_of r'"
proof -
  have r': "r' = map_set source target r" and ok: "redirect_ok concepts (source, target)"
    and new: "\<not> (map_has r source \<and> map_get_or '''' r source \<noteq> target)"
    using assms(1) by (auto simp: add_redirect_def redirect_ok_def split: if_splits)
  have "map_of r source = None \<or> map_of r source = Some target"
    using new by (auto simp: map_has_def map_get_or_def simp del: map_has_iff split: option.splits)
  then show ?thesis using r' ok assms(2,3) by (auto simp: map_le_def intro: list_all_map_set)
qed

text \<open>Both loops only add acceptable redirects, and each handles all of its rows.\<close>

lemma carry_redirects_ok:
  assumes "carry_redirects concepts rs r = Inr r'" and "list_all (redirect_ok concepts) r" and "map_wf r"
  shows "list_all (redirect_ok concepts) r' \<and> map_wf r' \<and> map_of r \<subseteq>\<^sub>m map_of r' \<and>
    list_all (\<lambda>(s, t). map_of r' s = Some (trim_space t)) rs"
  using assms
proof (induction rs arbitrary: r)
  case Nil
  then show ?case by simp
next
  case (Cons x rs)
  obtain s t where x: "x = (s, t)" by (cases x)
  then obtain r1 where r1: "add_redirect concepts s (trim_space t) r = Inr r1" and rec: "carry_redirects concepts rs r1 = Inr r'"
    using Cons.prems(1) by (auto split: sum.splits)
  note a = add_redirect_ok [OF r1 Cons.prems(2,3)]
  have ih: "list_all (redirect_ok concepts) r' \<and> map_wf r' \<and> map_of r1 \<subseteq>\<^sub>m map_of r' \<and>
    list_all (\<lambda>(s, t). map_of r' s = Some (trim_space t)) rs"
    using Cons.IH [OF rec] a by blast
  have "map_of r' s = Some (trim_space t)" using a ih by (auto simp: map_le_def dom_def)
  then show ?case using a ih x by (auto intro: map_le_trans)
qed

definition migrated :: "(string, string) gomap \<Rightarrow> (string, string) gomap \<Rightarrow> string \<times> string \<Rightarrow> bool" where
  "migrated bySlug r = (\<lambda>(i, slug).
     let target = map_get_or '''' bySlug slug
     in target = '''' \<or> i = target \<or> ValidSyntoEntityID i \<or> map_of r i = Some target)"

lemma migrated_mono: "map_of r \<subseteq>\<^sub>m map_of r' \<Longrightarrow> migrated bySlug r c \<Longrightarrow> migrated bySlug r' c"
  by (auto simp: migrated_def Let_def map_le_def dom_def split: prod.splits)

lemma migrate_redirects_ok:
  assumes "migrate_redirects concepts bySlug cs r = Inr r'" and "list_all (redirect_ok concepts) r" and "map_wf r"
  shows "list_all (redirect_ok concepts) r' \<and> map_wf r' \<and> map_of r \<subseteq>\<^sub>m map_of r' \<and> list_all (migrated bySlug r') cs"
  using assms
proof (induction cs arbitrary: r)
  case Nil
  then show ?case by simp
next
  case (Cons c cs)
  obtain i slug where c: "c = (i, slug)" by (cases c)
  let ?t = "map_get_or '''' bySlug slug"
  show ?case
  proof (cases "?t = '''' \<or> i = ?t \<or> ValidSyntoEntityID i")
    case True
    then have "migrate_redirects concepts bySlug cs r = Inr r'" using Cons.prems(1) c by (auto simp: Let_def split: if_splits)
    then show ?thesis using Cons.IH Cons.prems(2,3) True c by (auto simp: migrated_def Let_def)
  next
    case False
    then obtain r1 where r1: "add_redirect concepts i ?t r = Inr r1" and rec: "migrate_redirects concepts bySlug cs r1 = Inr r'"
      using Cons.prems(1) c by (auto simp: Let_def split: sum.splits if_splits)
    note a = add_redirect_ok [OF r1 Cons.prems(2,3)]
    have ih: "list_all (redirect_ok concepts) r' \<and> map_wf r' \<and> map_of r1 \<subseteq>\<^sub>m map_of r' \<and> list_all (migrated bySlug r') cs"
      using Cons.IH [OF rec] a by blast
    have "migrated bySlug r1 c" using a c by (simp add: migrated_def Let_def)
    then have "migrated bySlug r' c" using ih migrated_mono by blast
    then show ?thesis using a ih by (auto intro: map_le_trans)
  qed
qed

lemma current_by_slug_ok:
  "current_by_slug cs bySlug = Inr out \<Longrightarrow>
     map_of bySlug \<subseteq>\<^sub>m map_of out \<and> list_all (\<lambda>(e, slug). map_of out slug = Some e) cs"
proof (induction cs arbitrary: bySlug)
  case Nil
  then show ?case by simp
next
  case (Cons c cs)
  obtain e slug where c: "c = (e, slug)" by (cases c)
  have new: "\<not> (map_has bySlug slug \<and> map_get_or '''' bySlug slug \<noteq> e)"
    and rec: "current_by_slug cs (map_set slug e bySlug) = Inr out"
    using Cons.prems c by (auto split: if_splits)
  have old: "map_of bySlug slug = None \<or> map_of bySlug slug = Some e"
    using new by (auto simp: map_has_def map_get_or_def simp del: map_has_iff split: option.splits)
  have ih: "map_of (map_set slug e bySlug) \<subseteq>\<^sub>m map_of out" "list_all (\<lambda>(e, slug). map_of out slug = Some e) cs"
    using Cons.IH [OF rec] by blast+
  have "map_of out slug = Some e" using ih(1) by (auto simp: map_le_def)
  moreover have "map_of bySlug \<subseteq>\<^sub>m map_of out" using ih(1) old by (auto simp: map_le_def dom_def split: if_splits)
  ultimately show ?case using ih(2) c by simp
qed

text \<open>The entity that now holds the slug of an earlier concept is where its legacy ID leads.\<close>

definition legacy_id_led ::
  "(string, string) gomap \<Rightarrow> (string, string) gomap \<Rightarrow> string \<times> string \<Rightarrow> bool" where
  "legacy_id_led concepts r = (\<lambda>(i, slug).
     list_all (\<lambda>(e, slug'). slug' \<noteq> slug \<or> e = '''' \<or> i = e \<or> ValidSyntoEntityID i \<or> map_of r i = Some e) concepts)"

lemma planSyntoIDRedirects_ok:
  "case planSyntoIDRedirects n old of
     Inl e \<Rightarrow> True
   | Inr (m, k) \<Rightarrow>
       list_all (redirect_ok (im_concept n)) (im_id_redirects m) \<and> map_wf (im_id_redirects m) \<and>
       list_all (\<lambda>(source, target). map_of (im_id_redirects m) target = None) (im_id_redirects m) \<and>
       list_all (\<lambda>(source, target). map_of (im_id_redirects m) source = Some (trim_space target)) (im_id_redirects old) \<and>
       list_all (legacy_id_led (im_concept n) (im_id_redirects m)) (im_concept old @ im_dormant old)"
proof (cases "planSyntoIDRedirects n old")
  case (Inl e)
  then show ?thesis by simp
next
  case (Inr mk)
  obtain m k where mk: "mk = (m, k)" by (cases mk)
  obtain bySlug r1 r2 r3 where bs: "current_by_slug (im_concept n) [] = Inr bySlug"
    and r1: "carry_redirects (im_concept n) (im_id_redirects old) [] = Inr r1"
    and r2: "migrate_redirects (im_concept n) bySlug (im_concept old) r1 = Inr r2"
    and r3: "migrate_redirects (im_concept n) bySlug (im_dormant old) r2 = Inr r3"
    and m: "im_id_redirects m = r3"
    using Inr mk by (auto simp: planSyntoIDRedirects_def split: sum.splits option.splits)
  note a = carry_redirects_ok [OF r1, simplified]
  note b = migrate_redirects_ok [OF r2 conjunct1 [OF a] conjunct1 [OF conjunct2 [OF a]]]
  note c = migrate_redirects_ok [OF r3 conjunct1 [OF b] conjunct1 [OF conjunct2 [OF b]]]
  note slugs = conjunct2 [OF current_by_slug_ok [OF bs]]
  have led: "legacy_id_led (im_concept n) r3 x" if "migrated bySlug r3 x" for x
  proof -
    obtain i slug where x: "x = (i, slug)" by (cases x)
    have "map_of r3 i = Some e" if "(e, slug) \<in> set (im_concept n)" "e \<noteq> ''''" "i \<noteq> e" "\<not> ValidSyntoEntityID i" for e
      using \<open>migrated bySlug r3 x\<close> x slugs that by (auto simp: migrated_def list_all_iff map_get_or_def)
    then show ?thesis using x by (auto simp: legacy_id_led_def list_all_iff)
  qed
  have "list_all (migrated bySlug r3) (im_concept old)"
    using b c migrated_mono unfolding list_all_iff by blast
  then have "list_all (legacy_id_led (im_concept n) r3) (im_concept old @ im_dormant old)"
    using c led unfolding list_all_append by (simp add: list_all_iff)
  moreover have "list_all (\<lambda>(s, t). map_of r3 t = None) r3"
  proof -
    have "t \<notin> fst ` set r3" if "(s, t) \<in> set r3" for s t
    proof
      assume "t \<in> fst ` set r3"
      then obtain u where "(t, u) \<in> set r3" by auto
      then have "redirect_ok (im_concept n) (s, t)" "redirect_ok (im_concept n) (t, u)"
        using c that unfolding list_all_iff by blast+
      then show False by (simp add: redirect_ok_def)
    qed
    then show ?thesis by (auto simp: list_all_iff map_of_eq_None_iff)
  qed
  moreover have "list_all (\<lambda>(s, t). map_of r3 s = Some (trim_space t)) (im_id_redirects old)"
  proof -
    have "map_of r1 \<subseteq>\<^sub>m map_of r3" using b c by (blast intro: map_le_trans)
    then have "map_of r3 s = Some v" if "map_of r1 s = Some v" for s v using that by (auto simp: map_le_def dom_def)
    then show ?thesis using a by (auto simp: list_all_iff)
  qed
  ultimately show ?thesis using Inr mk m c by simp
qed

lemma redirects_planned:
  "planSyntoIDRedirects n old = Inr (m, k) \<Longrightarrow> list_all (redirect_ok (im_concept n)) (im_id_redirects m)"
  using planSyntoIDRedirects_ok [of n old] by simp

text \<open>
  C34. Old links to concepts still work after the move to Synto identities: every redirect leads
  from a legacy ID that is not a concept to a current entity in one step, so there are neither
  chains nor cycles; every earlier redirect is kept; and every earlier concept with a legacy ID,
  active or dormant, whose slug a current concept holds, leads to that concept.
\<close>

theorem planSyntoIDRedirects_sound:
  "case planSyntoIDRedirects n old of
     Inl e \<Rightarrow> True
   | Inr (m, k) \<Rightarrow>
       list_all (redirect_ok (im_concept n)) (im_id_redirects m) \<and> map_wf (im_id_redirects m) \<and>
       list_all (\<lambda>(source, target). map_of (im_id_redirects m) target = None) (im_id_redirects m) \<and>
       list_all (\<lambda>(source, target). map_of (im_id_redirects m) source = Some (trim_space target)) (im_id_redirects old) \<and>
       list_all (legacy_id_led (im_concept n) (im_id_redirects m)) (im_concept old @ im_dormant old)"
  by (rule planSyntoIDRedirects_ok)

section \<open>The rebuild\<close>

fun rewrite_pages :: "pageEnv \<Rightarrow> markdownFile list \<Rightarrow> (string \<times> string) list \<Rightarrow> gerr + (string, string) gomap" where
  "rewrite_pages env files [] = Inr []"
| "rewrite_pages env files ((path, entityID) # bs) =
     (let data = (case List.find (\<lambda>f. mf_path f = path) (rev files) of None \<Rightarrow> '''' | Some f \<Rightarrow> mf_data f)
      in case RewriteSyntoConceptPage env data entityID of
           Inl e \<Rightarrow> Inl (Wrapped ''rewrite'' e)
         | Inr page \<Rightarrow> map_sum id (map_set path page) (rewrite_pages env files bs))"

fun synto_concepts :: "(string, string) gomap \<Rightarrow> markdownFile list \<Rightarrow> (string, string) gomap \<Rightarrow> (string, string) gomap" where
  "synto_concepts byPath [] concepts = concepts"
| "synto_concepts byPath (f # fs) concepts =
     (if IsSyntoRootPage (mf_path f) then synto_concepts byPath fs concepts
      else (let entityID = map_get_or '''' byPath (mf_path f)
            in synto_concepts byPath fs (if entityID \<noteq> '''' then map_set entityID (mf_slug f) concepts else concepts)))"

definition cache_files :: "(string, string) gomap \<Rightarrow> markdownFile list \<Rightarrow> markdownFile list" where
  "cache_files rewritten files =
     map (\<lambda>f. case map_of rewritten (mf_path f) of None \<Rightarrow> f | Some page \<Rightarrow> f\<lparr>mf_data := page\<rparr>) files"

fun write_pages :: "'w wikiStore \<Rightarrow> (string \<times> string) list \<Rightarrow> 'w \<Rightarrow> gerr option \<times> 'w" where
  "write_pages st [] w = (None, w)"
| "write_pages st ((path, page) # ps) w =
     (case wk_write st page (path @ ''.tmp'') path w of
        (Some e, w') \<Rightarrow> (Some (Wrapped ''write'' e), w')
      | (None, w') \<Rightarrow> write_pages st ps w')"

text \<open>The map of the new generation from the plan, the sources and the previous map.\<close>

definition synto_id_map ::
  "identityPlan \<Rightarrow> markdownFile list \<Rightarrow> (string, string) gomap \<Rightarrow> (string, sourceMeta) gomap \<Rightarrow> idMap \<Rightarrow> gerr + idMap" where
  "synto_id_map plan files sources meta old =
     (let n = empty_idMap\<lparr>im_concept := synto_concepts (ip_by_path plan) files [], im_source := sources,
                im_source_meta := meta,
                im_redirects := filter (\<lambda>(sourceID, _). map_has (im_source old) sourceID) (im_redirects old)\<rparr>
      in case planSyntoIDRedirects n old of
           Inl e \<Rightarrow> Inl e
         | Inr (m, _) \<Rightarrow>
             Inr (m\<lparr>im_redirects := appendChangedRedirects (im_source old) (im_source m) (im_redirects m)\<rparr>))"

definition write_artifacts ::
  "pageEnv \<Rightarrow> 'w wikiStore \<Rightarrow> idMap \<Rightarrow> (string, string) gomap \<Rightarrow> string \<Rightarrow> 'w \<Rightarrow> (gerr + idMap) \<times> 'w" where
  "write_artifacts env st m rewritten concepts w =
     (case wk_write st (pg_marshal env (encodeIDMap m)) IDMapTempPath IDMapPath w of
        (Some e, w1) \<Rightarrow> (Inl (Wrapped ''write id map'' e), w1)
      | (None, w1) \<Rightarrow>
          (case write_pages st rewritten w1 of
             (Some e, w2) \<Rightarrow> (Inl e, w2)
           | (None, w2) \<Rightarrow>
               (case wk_write st concepts ''cache/concepts.jsonl.tmp'' ConceptsJSONLPath w2 of
                  (Some e, w3) \<Rightarrow> (Inl (Wrapped ''write concepts.jsonl'' e), w3)
                | (None, w3) \<Rightarrow> (Inr m, w3))))"

definition RebuildWithSyntoIdentity ::
  "pageEnv \<Rightarrow> 'w wikiStore \<Rightarrow> identityPlan \<Rightarrow> 'w \<Rightarrow> (gerr + idMap) \<times> 'w" where
  "RebuildWithSyntoIdentity env st plan0 w =
     (case wk_list st ''wiki/'' w of
        (Inl e, w1) \<Rightarrow> (Inl (Wrapped ''list wiki/'' e), w1)
      | (Inr files, w1) \<Rightarrow>
          (case validateSyntoIdentityPlan files plan0 of
             Some e \<Rightarrow> (Inl e, w1)
           | None \<Rightarrow>
               (let plan = syntoPlanForAvailableFiles files plan0
                in case rewrite_pages env files (ip_by_path plan) of
                     Inl e \<Rightarrow> (Inl e, w1)
                   | Inr rewritten \<Rightarrow>
                       (case addSourceEntries env st w1 of
                          (Inl e, w2) \<Rightarrow> (Inl e, w2)
                        | (Inr (sources, meta), w2) \<Rightarrow>
                            (case readOldIDMap env st w2 of
                               (Inl e, w3) \<Rightarrow> (Inl e, w3)
                             | (Inr old, w3) \<Rightarrow>
                                 (case synto_id_map plan files sources meta old of
                                    Inl e \<Rightarrow> (Inl e, w3)
                                  | Inr m \<Rightarrow>
                                      (case buildSyntoConceptsJSONL env (ip_by_path plan) (cache_files rewritten files) of
                                         Inl e \<Rightarrow> (Inl e, w3)
                                       | Inr concepts \<Rightarrow> write_artifacts env st m rewritten concepts w3)))))))"

section \<open>What the rebuild promises\<close>

lemma plan_bindings_facts:
  "plan_bindings paths entities bs = None \<Longrightarrow>
     list_all (\<lambda>(p, e). ValidSyntoEntityID e \<and> p \<in> set paths) bs \<and> distinct (map snd bs) \<and> set (map snd bs) \<inter> set entities = {}"
  by (induction paths entities bs rule: plan_bindings.induct) (auto split: if_splits)

lemma synto_concepts_exact:
  assumes "set (map snd byPath) \<inter> fst ` set concepts = {}" and "distinct (map snd byPath)" and "map_wf byPath"
    and "distinct (map mf_path (filter (\<lambda>f. \<not> IsSyntoRootPage (mf_path f)) fs))"
    and "list_all (\<lambda>(p, e). e \<noteq> '''') byPath"
  shows "synto_concepts byPath fs concepts = concepts @
    map (\<lambda>f. (map_get_or '''' byPath (mf_path f), mf_slug f))
      (filter (\<lambda>f. \<not> IsSyntoRootPage (mf_path f) \<and> map_has byPath (mf_path f)) fs)"
proof -
  have gen: "synto_concepts byPath fs concepts = concepts @
    map (\<lambda>f. (map_get_or '''' byPath (mf_path f), mf_slug f))
      (filter (\<lambda>f. \<not> IsSyntoRootPage (mf_path f) \<and> map_has byPath (mf_path f)) fs)"
    if "\<forall>f e. f \<in> set fs \<longrightarrow> \<not> IsSyntoRootPage (mf_path f) \<longrightarrow> map_of byPath (mf_path f) = Some e \<longrightarrow> e \<notin> fst ` set concepts"
      and "distinct (map mf_path (filter (\<lambda>f. \<not> IsSyntoRootPage (mf_path f)) fs))" for fs concepts
    using that
  proof (induction fs arbitrary: concepts)
    case Nil
    then show ?case by simp
  next
    case (Cons f fs)
    show ?case
    proof (cases "IsSyntoRootPage (mf_path f) \<or> map_of byPath (mf_path f) = None")
      case True
      then show ?thesis using Cons
        by (auto simp: map_get_or_def map_has_def simp del: map_has_iff split: if_splits)
    next
      case False
      then obtain e where e: "map_of byPath (mf_path f) = Some e" and nr: "\<not> IsSyntoRootPage (mf_path f)" by auto
      have ne: "e \<noteq> ''''" using e assms(5) by (auto simp: list_all_iff dest!: map_of_SomeD)
      have fresh: "e \<notin> fst ` set concepts" using Cons.prems(1) e nr by simp
      have inj: "p = mf_path f" if "map_of byPath p = Some e" for p
        using assms(2) that e by (metis eq_snd_iff inj_onD distinct_map map_of_SomeD prod.inject)
      have "synto_concepts byPath fs (concepts @ [(e, mf_slug f)]) = (concepts @ [(e, mf_slug f)]) @
        map (\<lambda>f. (map_get_or '''' byPath (mf_path f), mf_slug f))
          (filter (\<lambda>f. \<not> IsSyntoRootPage (mf_path f) \<and> map_has byPath (mf_path f)) fs)"
      proof (rule Cons.IH)
        show "\<forall>g x. g \<in> set fs \<longrightarrow> \<not> IsSyntoRootPage (mf_path g) \<longrightarrow> map_of byPath (mf_path g) = Some x \<longrightarrow>
            x \<notin> fst ` set (concepts @ [(e, mf_slug f)])"
        proof (intro allI impI)
          fix g x assume g: "g \<in> set fs" "\<not> IsSyntoRootPage (mf_path g)" "map_of byPath (mf_path g) = Some x"
          have "mf_path g \<noteq> mf_path f" using Cons.prems(2) g nr by (force simp: image_iff)
          then have "x \<noteq> e" using inj g(3) by blast
          then show "x \<notin> fst ` set (concepts @ [(e, mf_slug f)])" using Cons.prems(1) g by simp
        qed
        show "distinct (map mf_path (filter (\<lambda>f. \<not> IsSyntoRootPage (mf_path f)) fs))" using Cons.prems(2) nr by simp
      qed
      then show ?thesis using e ne nr fresh
        by (simp add: map_get_or_def map_set_fresh map_has_def del: map_has_iff)
    qed
  qed
  have "e \<notin> fst ` set concepts" if "map_of byPath p = Some e" for p e
    using assms(1) map_of_SomeD [OF that] by (force simp: image_iff)
  then show ?thesis using gen assms(4) by blast
qed

lemma plan_files_distinct:
  "plan_files fs paths = Inr out \<Longrightarrow>
     distinct (map mf_path (filter (\<lambda>f. \<not> IsSyntoRootPage (mf_path f)) fs)) \<and>
     set (map mf_path (filter (\<lambda>f. \<not> IsSyntoRootPage (mf_path f)) fs)) \<inter> set paths = {}"
  by (induction fs paths rule: plan_files.induct) (auto split: if_splits)

lemma validate_plan_facts:
  assumes "validateSyntoIdentityPlan files plan = None"
  shows "list_all (\<lambda>(p, e). ValidSyntoEntityID e) (ip_by_path plan)" and "distinct (map snd (ip_by_path plan))"
    and "distinct (map mf_path (filter (\<lambda>f. \<not> IsSyntoRootPage (mf_path f)) files))"
proof -
  obtain paths where "plan_files files [] = Inr paths" "plan_bindings paths [] (ip_by_path plan) = None"
    using assms by (auto simp: validateSyntoIdentityPlan_def split: sum.splits option.splits)
  then have b: "list_all (\<lambda>(p, e). ValidSyntoEntityID e \<and> p \<in> set paths) (ip_by_path plan)"
    and d: "distinct (map snd (ip_by_path plan))"
    and f: "distinct (map mf_path (filter (\<lambda>f. \<not> IsSyntoRootPage (mf_path f)) files))"
    using plan_bindings_facts [of paths "[]"] plan_files_distinct [of files "[]"] by simp_all
  show "list_all (\<lambda>(p, e). ValidSyntoEntityID e) (ip_by_path plan)" using b by (auto simp: list_all_iff)
  show "distinct (map snd (ip_by_path plan))" by (rule d)
  show "distinct (map mf_path (filter (\<lambda>f. \<not> IsSyntoRootPage (mf_path f)) files))" by (rule f)
qed

text \<open>The pages a plan binds, with their entities.\<close>

definition bound_concepts :: "identityPlan \<Rightarrow> markdownFile list \<Rightarrow> (string, string) gomap" where
  "bound_concepts plan files =
     map (\<lambda>f. (map_get_or '''' (ip_by_path plan) (mf_path f), mf_slug f))
       (filter (\<lambda>f. \<not> IsSyntoRootPage (mf_path f) \<and> map_has (ip_by_path plan) (mf_path f)) files)"

lemma map_of_filter_key: "map_of (filter (\<lambda>(k, v). P k) m) k = (if P k then map_of m k else None)"
  by (induction m) auto

lemma available_plan_concepts:
  assumes "validateSyntoIdentityPlan files plan = None" and "map_wf (ip_by_path plan)"
  shows "synto_concepts (ip_by_path (syntoPlanForAvailableFiles files plan)) files [] = bound_concepts plan files"
proof -
  let ?b = "ip_by_path (syntoPlanForAvailableFiles files plan)"
  have b: "?b = filter (\<lambda>(path, _). path \<in> mf_path ` set files) (ip_by_path plan)"
    by (simp add: syntoPlanForAvailableFiles_def)
  note v = validate_plan_facts [OF assms(1)]
  have "map_wf ?b" using assms(2) unfolding b map_wf_def by (rule distinct_map_filter)
  moreover have "distinct (map snd ?b)" using v(2) unfolding b by (rule distinct_map_filter)
  moreover have "list_all (\<lambda>(p, e). e \<noteq> '''') ?b"
    using v(1) by (auto simp: b list_all_iff ValidSyntoEntityID_def)
  ultimately have "synto_concepts ?b files [] = [] @
    map (\<lambda>f. (map_get_or '''' ?b (mf_path f), mf_slug f))
      (filter (\<lambda>f. \<not> IsSyntoRootPage (mf_path f) \<and> map_has ?b (mf_path f)) files)"
    using v(3) by (intro synto_concepts_exact) simp_all
  moreover have "map_of ?b (mf_path f) = map_of (ip_by_path plan) (mf_path f)" if "f \<in> set files" for f
    using that unfolding b map_of_filter_key by simp
  ultimately show ?thesis
    unfolding bound_concepts_def by (auto simp: map_get_or_def map_has_def simp del: map_has_iff cong: filter_cong map_cong)
qed

lemma RebuildWithSyntoIdentity_parts:
  assumes "RebuildWithSyntoIdentity env st plan w = (Inr m, w')"
  shows "\<exists>files sources meta old. fst (wk_list st ''wiki/'' w) = Inr files \<and> validateSyntoIdentityPlan files plan = None \<and>
    synto_id_map (syntoPlanForAvailableFiles files plan) files sources meta old = Inr m"
proof -
  obtain r1 w1 where ls: "wk_list st ''wiki/'' w = (r1, w1)" by fastforce
  note run = assms [unfolded RebuildWithSyntoIdentity_def Let_def ls]
  obtain files where r1: "r1 = Inr files" using run by (cases r1) simp_all
  have val: "validateSyntoIdentityPlan files plan = None"
    using run r1 by (cases "validateSyntoIdentityPlan files plan") simp_all
  let ?plan = "syntoPlanForAvailableFiles files plan"
  obtain rewritten where rw: "rewrite_pages env files (ip_by_path ?plan) = Inr rewritten"
    using run r1 val by (cases "rewrite_pages env files (ip_by_path ?plan)") simp_all
  obtain r2 w2 where src: "addSourceEntries env st w1 = (r2, w2)" by fastforce
  obtain sources meta where r2: "r2 = Inr (sources, meta)" using run r1 val rw src by (cases r2) auto
  obtain r3 w3 where old: "readOldIDMap env st w2 = (r3, w3)" by fastforce
  obtain o' where r3: "r3 = Inr o'" using run r1 val rw src r2 old by (cases r3) auto
  have "synto_id_map ?plan files sources meta o' = Inr m"
    using run r1 val rw src r2 old r3
    by (simp add: write_artifacts_def split: sum.split_asm prod.split_asm option.split_asm)
  then show ?thesis using ls r1 val by auto
qed

lemma synto_id_map_parts:
  assumes "synto_id_map plan files sources meta old = Inr m"
  obtains n m1 k where "planSyntoIDRedirects n old = Inr (m1, k)" and "im_concept n = synto_concepts (ip_by_path plan) files []"
    and "im_id_redirects m = im_id_redirects m1" and "im_concept m = im_concept n"
proof -
  let ?n = "empty_idMap\<lparr>im_concept := synto_concepts (ip_by_path plan) files [], im_source := sources,
                im_source_meta := meta,
                im_redirects := filter (\<lambda>(sourceID, _). map_has (im_source old) sourceID) (im_redirects old)\<rparr>"
  obtain m1 k where p: "planSyntoIDRedirects ?n old = Inr (m1, k)"
    and m: "m = m1\<lparr>im_redirects := appendChangedRedirects (im_source old) (im_source m1) (im_redirects m1)\<rparr>"
    using assms by (auto simp: synto_id_map_def Let_def split: sum.split_asm)
  have "im_concept m1 = im_concept ?n"
    using p by (auto simp: planSyntoIDRedirects_def split: sum.split_asm option.split_asm)
  then show thesis using that [of ?n m1 k] p m by simp
qed

text \<open>
  C35. In a project with Synto identities the plan alone decides what is a concept: after a successful
  rebuild the concepts of the ID map are exactly the pages the plan binds, each under its entity, and
  the redirects lead from legacy IDs to those entities.
\<close>

theorem Synto_rebuild_follows_plan:
  assumes "map_wf (ip_by_path plan)"
    and "RebuildWithSyntoIdentity env st plan w = (Inr m, w')"
  shows "\<exists>files. fst (wk_list st ''wiki/'' w) = Inr files \<and> im_concept m = bound_concepts plan files \<and>
    list_all (redirect_ok (im_concept m)) (im_id_redirects m)"
proof -
  obtain files sources meta old where ls: "fst (wk_list st ''wiki/'' w) = Inr files"
    and val: "validateSyntoIdentityPlan files plan = None"
    and idm: "synto_id_map (syntoPlanForAvailableFiles files plan) files sources meta old = Inr m"
    using RebuildWithSyntoIdentity_parts [OF assms(2)] by blast
  obtain n m1 k where p: "planSyntoIDRedirects n old = Inr (m1, k)"
    and n: "im_concept n = synto_concepts (ip_by_path (syntoPlanForAvailableFiles files plan)) files []"
    and m: "im_id_redirects m = im_id_redirects m1" "im_concept m = im_concept n"
    using synto_id_map_parts [OF idm] by blast
  have "im_concept m = bound_concepts plan files" using n m available_plan_concepts [OF val assms(1)] by simp
  moreover have "list_all (redirect_ok (im_concept m)) (im_id_redirects m)"
    using redirects_planned [OF p] m by simp
  ultimately show ?thesis using ls by blast
qed

end
