(* ===== verification/SyntoIndex.thy ===== *)
theory SyntoIndex
  imports SyntoIdentity
begin

text \<open>
  The strict decoder of the Synto INDEX artifact (\<open>internal/wikiindex/synto_identity.go\<close>): what a
  released artifact may look like, and the identity plan it gives. A \<open>json.RawMessage\<close> is the value
  it holds, a missing member is \<open>None\<close>. The lexer, \<open>strings.ToLower\<close> and the range check of
  \<open>float64\<close> literals are parameters.
\<close>

section \<open>Strict objects and bounded values\<close>

definition decodeStrictObject :: "string list \<Rightarrow> json \<Rightarrow> gerr + (string \<times> json) list" where
  "decodeStrictObject allowed v =
     (case v of
        JObj kvs \<Rightarrow>
          (if distinct (map fst kvs) \<and> list_all (\<lambda>(name, _). name \<in> set allowed) kvs then Inr kvs
           else Inl (Msg ''invalid or duplicate JSON object field''))
      | _ \<Rightarrow> Inl (Msg ''expected JSON object''))"

definition missing_field :: "string list \<Rightarrow> (string \<times> json) list \<Rightarrow> bool" where
  "missing_field keys object \<longleftrightarrow> list_ex (\<lambda>k. map_of object k = None) keys"

definition maxReleasedSyntoJSONDepth :: nat where "maxReleasedSyntoJSONDepth = 64"

fun json_value_ok :: "nat \<Rightarrow> json \<Rightarrow> bool"
  and json_members_ok :: "nat \<Rightarrow> string list \<Rightarrow> (string \<times> json) list \<Rightarrow> bool"
  and json_items_ok :: "nat \<Rightarrow> nat \<Rightarrow> json list \<Rightarrow> bool" where
  "json_value_ok depth v =
     (if depth > maxReleasedSyntoJSONDepth then False
      else (case v of
              JObj kvs \<Rightarrow> json_members_ok (Suc depth) [] kvs
            | JArr vs \<Rightarrow> json_items_ok (Suc depth) 0 vs
            | _ \<Rightarrow> True))"
| "json_members_ok depth seen [] = True"
| "json_members_ok depth seen ((key, v) # kvs) =
     (if length seen \<ge> MaxFiles then False
      else if key \<in> set seen then False
      else if \<not> json_value_ok depth v then False
      else json_members_ok depth (key # seen) kvs)"
| "json_items_ok depth n [] = True"
| "json_items_ok depth n (v # vs) =
     (if n \<ge> MaxFiles then False
      else if \<not> json_value_ok depth v then False
      else json_items_ok depth (Suc n) vs)"

declare json_value_ok.simps [simp del]

definition releasedSyntoArray :: "json option \<Rightarrow> gerr + json list" where
  "releasedSyntoArray v =
     (case v of
        Some (JArr items) \<Rightarrow>
          (if length items > MaxFiles then Inl (Msg ''Synto INDEX field must be a bounded array'')
           else if list_all (json_value_ok 0) items then Inr items else Inl (Msg ''invalid Synto INDEX field''))
      | _ \<Rightarrow> Inl (Msg ''Synto INDEX field must be an array''))"

definition releasedSyntoString :: "json option \<Rightarrow> nat \<Rightarrow> bool \<Rightarrow> gerr + string" where
  "releasedSyntoString v mx trim =
     (case v of
        None \<Rightarrow> Inl (Msg ''expected bounded string'')
      | Some x \<Rightarrow>
          (case decode_string '''' x of
             Inl e \<Rightarrow> Inl (Msg ''expected bounded string'')
           | Inr s \<Rightarrow>
               (if length s > mx then Inl (Msg ''expected bounded string'')
                else Inr (if trim then trim_space s else s))))"

fun released_strings :: "nat \<Rightarrow> json list \<Rightarrow> gerr + string list" where
  "released_strings mx [] = Inr []"
| "released_strings mx (v # vs) =
     (case releasedSyntoString (Some v) mx False of
        Inl e \<Rightarrow> Inl e
      | Inr s \<Rightarrow> map_sum id ((#) s) (released_strings mx vs))"

definition releasedSyntoStringArray :: "json option \<Rightarrow> nat \<Rightarrow> gerr + string list" where
  "releasedSyntoStringArray v mx =
     (case releasedSyntoArray v of
        Inl e \<Rightarrow> Inl e
      | Inr items \<Rightarrow> released_strings mx items)"

definition releasedSyntoNullableString :: "json option \<Rightarrow> nat \<Rightarrow> gerr option" where
  "releasedSyntoNullableString v mx =
     (if v = Some JNull then None
      else (case releasedSyntoString v mx False of Inl e \<Rightarrow> Some e | Inr _ \<Rightarrow> None))"

definition validateReleasedSyntoConfidence :: "(json \<Rightarrow> bool) \<Rightarrow> json option \<Rightarrow> gerr option" where
  "validateReleasedSyntoConfidence float_ok v =
     (case v of
        Some JNull \<Rightarrow> None
      | Some (JStr s) \<Rightarrow> None
      | Some (JInt i) \<Rightarrow> (if float_ok (JInt i) then None else Some (Msg ''number out of range''))
      | Some (JNum l) \<Rightarrow> (if float_ok (JNum l) then None else Some (Msg ''number out of range''))
      | _ \<Rightarrow> Some (Msg ''invalid article confidence''))"

text \<open>A string that must be there: decoded, bounded, trimmed and not empty.\<close>

definition required_string :: "json option \<Rightarrow> nat \<Rightarrow> bool" where
  "required_string v mx \<longleftrightarrow> (case releasedSyntoString v mx True of Inl e \<Rightarrow> False | Inr s \<Rightarrow> s \<noteq> '''')"

section \<open>The released artifact\<close>

definition pack_capabilities :: "string list" where
  "pack_capabilities = [''articles'', ''concepts'', ''segments'', ''lifecycle'']"

definition nonempty_strings :: "json option \<Rightarrow> (string \<Rightarrow> bool) \<Rightarrow> bool" where
  "nonempty_strings v ok \<longleftrightarrow>
     (case releasedSyntoStringArray v 1024 of Inl e \<Rightarrow> False | Inr ss \<Rightarrow> ss \<noteq> [] \<and> list_all ok ss)"

definition validateReleasedSyntoPack :: "json \<Rightarrow> gerr option" where
  "validateReleasedSyntoPack v =
     (case decodeStrictObject [''id'', ''name'', ''version'', ''language'', ''capabilities''] v of
        Inl e \<Rightarrow> Some (Wrapped ''invalid Synto pack'' e)
      | Inr object \<Rightarrow>
          (if missing_field [''id'', ''name'', ''version'', ''language'', ''capabilities''] object then Some (Msg ''missing pack field'')
           else if \<not> list_all (\<lambda>k. required_string (map_of object k) 1024) [''id'', ''name'', ''version'']
           then Some (Msg ''invalid pack field'')
           else if \<not> nonempty_strings (map_of object ''language'') (\<lambda>_. True) then Some (Msg ''invalid pack field'')
           else if \<not> nonempty_strings (map_of object ''capabilities'') (\<lambda>c. c \<in> set pack_capabilities)
           then Some (Msg ''invalid pack capability'')
           else None))"

definition stats_fields :: "string list" where
  "stats_fields = [''article_count'', ''draft_count'', ''concept_count'', ''alias_count'', ''knowledge_item_count'',
     ''source_count'', ''source_segment_count'', ''failed_note_count'', ''failed_concept_count'']"

definition stats_value_ok :: "json option \<Rightarrow> bool" where
  "stats_value_ok v \<longleftrightarrow>
     (case v of
        None \<Rightarrow> False
      | Some x \<Rightarrow> x \<noteq> JNull \<and> (case decode_int64 0 x of Inl e \<Rightarrow> False | Inr i \<Rightarrow> i \<ge> 0))"

definition validateReleasedSyntoStats :: "json \<Rightarrow> gerr option" where
  "validateReleasedSyntoStats v =
     (case decodeStrictObject stats_fields v of
        Inl e \<Rightarrow> Some (Wrapped ''invalid Synto stats'' e)
      | Inr object \<Rightarrow>
          (if list_all (\<lambda>k. stats_value_ok (map_of object k)) stats_fields then None
           else Some (Msg ''invalid Synto stats value'')))"

definition article_fields :: "string list" where
  "article_fields = [''id'', ''entity_id'', ''name'', ''path'', ''summary'', ''tags'', ''aliases'', ''confidence'']"

definition article_required :: "string list" where
  "article_required = [''id'', ''name'', ''path'', ''summary'', ''tags'', ''aliases'', ''confidence'']"

definition entity_id_ok :: "json option \<Rightarrow> bool" where
  "entity_id_ok v \<longleftrightarrow> v = None \<or> v = Some JNull \<or>
     (case releasedSyntoString v 1024 True of Inl e \<Rightarrow> False | Inr s \<Rightarrow> s \<noteq> '''' \<and> ValidSyntoEntityID s)"

definition validate_article :: "(json \<Rightarrow> bool) \<Rightarrow> json \<Rightarrow> gerr option" where
  "validate_article float_ok v =
     (case decodeStrictObject article_fields v of
        Inl e \<Rightarrow> Some (Wrapped ''invalid Synto article'' e)
      | Inr object \<Rightarrow>
          (if missing_field article_required object then Some (Msg ''missing Synto article field'')
           else if \<not> list_all (\<lambda>k. required_string (map_of object k) MaxPathBytes) [''id'', ''name'', ''path'']
           then Some (Msg ''invalid Synto article'')
           else if \<not> entity_id_ok (map_of object ''entity_id'') then Some (Msg ''invalid Synto article entity_id'')
           else (case releasedSyntoNullableString (map_of object ''summary'') (2 ^ 20) of
                   Some e \<Rightarrow> Some e
                 | None \<Rightarrow>
                     (if list_all (\<lambda>k. case releasedSyntoStringArray (map_of object k) 4096 of Inl e \<Rightarrow> False | Inr _ \<Rightarrow> True)
                           [''tags'', ''aliases'']
                      then validateReleasedSyntoConfidence float_ok (map_of object ''confidence'')
                      else Some (Msg ''invalid Synto article'')))))"

text \<open>The first error of a loop over the items of an array.\<close>

fun first_error :: "('a \<Rightarrow> gerr option) \<Rightarrow> 'a list \<Rightarrow> gerr option" where
  "first_error f [] = None"
| "first_error f (x # xs) = (case f x of Some e \<Rightarrow> Some e | None \<Rightarrow> first_error f xs)"

definition validate_items :: "(json \<Rightarrow> gerr option) \<Rightarrow> json option \<Rightarrow> gerr option" where
  "validate_items f v =
     (case releasedSyntoArray v of
        Inl e \<Rightarrow> Some e
      | Inr items \<Rightarrow> first_error f items)"

definition safeSyntoSourcePath :: "string \<Rightarrow> bool" where
  "safeSyntoSourcePath v \<longleftrightarrow> v \<noteq> '''' \<and> trim_space v = v \<and> \<not> has_prefix v ''/'' \<and>
     \<not> contains_any v [CHR 0x5C, CHR 0x00] \<and> \<not> contains v ''..'' \<and> \<not> contains v ''//''"

definition control_byte :: "char \<Rightarrow> bool" where
  "control_byte c \<longleftrightarrow> byte_in c 0 0x1F \<or> c = CHR 0x7F"

definition safeReleasedSyntoSourceID :: "string \<Rightarrow> bool" where
  "safeReleasedSyntoSourceID v =
     (if list_ex control_byte v then False
      else if length v \<ge> 2 \<and> v ! 1 = CHR '':'' \<and> (byte_in (v ! 0) 65 90 \<or> byte_in (v ! 0) 97 122) then False
      else v \<noteq> ''.'' \<and> safeSyntoSourcePath v)"

definition validSyntoHash :: "string \<Rightarrow> bool" where
  "validSyntoHash v \<longleftrightarrow> length v = 64 \<and> list_all (\<lambda>c. byte_in c 48 57 \<or> byte_in c 97 102) v"

definition validate_source :: "json \<Rightarrow> gerr option" where
  "validate_source v =
     (case decodeStrictObject [''id'', ''title'', ''source_type''] v of
        Inl e \<Rightarrow> Some (Wrapped ''invalid Synto source entry'' e)
      | Inr object \<Rightarrow>
          (if missing_field [''id'', ''title'', ''source_type''] object then Some (Msg ''missing Synto source field'')
           else if (case releasedSyntoString (map_of object ''id'') 1024 False of
                      Inl e \<Rightarrow> True | Inr i \<Rightarrow> \<not> safeReleasedSyntoSourceID i)
           then Some (Msg ''invalid Synto source entry id'')
           else (case releasedSyntoNullableString (map_of object ''title'') 4096 of
                   Some e \<Rightarrow> Some e
                 | None \<Rightarrow>
                     (if required_string (map_of object ''source_type'') 256 then None
                      else Some (Msg ''invalid Synto source entry type'')))))"

text \<open>The concepts of one group, each pair of name and entity once.\<close>

definition item_identity :: "json \<Rightarrow> gerr + (string \<times> string)" where
  "item_identity v =
     (case decodeStrictObject [''name'', ''entity_id''] v of
        Inl e \<Rightarrow> Inl (Wrapped ''invalid Synto source concept'' e)
      | Inr item \<Rightarrow>
          (case (releasedSyntoString (map_of item ''name'') 4096 True,
                 releasedSyntoString (map_of item ''entity_id'') 1024 True) of
             (Inr name, Inr entityID) \<Rightarrow>
               (if name = '''' \<or> \<not> ValidSyntoEntityID entityID then Inl (Msg ''invalid Synto source concept identity'')
                else Inr (name, entityID))
           | _ \<Rightarrow> Inl (Msg ''invalid Synto source concept identity'')))"

fun validate_concepts :: "string list \<Rightarrow> json list \<Rightarrow> gerr option" where
  "validate_concepts seen [] = None"
| "validate_concepts seen (v # vs) =
     (case item_identity v of
        Inl e \<Rightarrow> Some e
      | Inr (name, entityID) \<Rightarrow>
          (let semantic = name @ [CHR 0x00] @ entityID
           in if semantic \<in> set seen then Some (Msg ''duplicate Synto source concept'')
              else validate_concepts (semantic # seen) vs))"

fun validate_groups :: "string list \<Rightarrow> json list \<Rightarrow> gerr option" where
  "validate_groups seen [] = None"
| "validate_groups seen (v # vs) =
     (case decodeStrictObject [''source_path'', ''content_hash'', ''concepts''] v of
        Inl e \<Rightarrow> Some (Wrapped ''invalid Synto source_concepts group'' e)
      | Inr grp \<Rightarrow>
          (if missing_field [''source_path'', ''content_hash'', ''concepts''] grp
           then Some (Msg ''missing Synto source_concepts field'')
           else (case releasedSyntoString (map_of grp ''source_path'') MaxPathBytes True of
                   Inl e \<Rightarrow> Some (Msg ''invalid Synto source concept source_path'')
                 | Inr path \<Rightarrow>
                     (if \<not> safeSyntoSourcePath path then Some (Msg ''invalid Synto source concept source_path'')
                      else if path \<in> set seen then Some (Msg ''duplicate Synto source_concepts group'')
                      else (case releasedSyntoString (map_of grp ''content_hash'') 256 True of
                              Inl e \<Rightarrow> Some (Msg ''invalid Synto source concept content_hash'')
                            | Inr h \<Rightarrow>
                                (if \<not> validSyntoHash h then Some (Msg ''invalid Synto source concept content_hash'')
                                 else (case releasedSyntoArray (map_of grp ''concepts'') of
                                         Inl e \<Rightarrow> Some e
                                       | Inr items \<Rightarrow>
                                           (case validate_concepts [] items of
                                              Some e \<Rightarrow> Some e
                                            | None \<Rightarrow> validate_groups (path # seen) vs))))))))"

definition validate_synthesis :: "json \<Rightarrow> gerr option" where
  "validate_synthesis v =
     (case decodeStrictObject [''path'', ''title''] v of
        Inl e \<Rightarrow> Some (Wrapped ''invalid Synto synthesis entry'' e)
      | Inr object \<Rightarrow>
          (case (releasedSyntoString (map_of object ''path'') MaxPathBytes True,
                 releasedSyntoString (map_of object ''title'') 4096 True) of
             (Inr p, Inr title) \<Rightarrow>
               (if \<not> safeSyntoSourcePath p \<or> title = '''' then Some (Msg ''invalid Synto synthesis entry'') else None)
           | _ \<Rightarrow> Some (Msg ''invalid Synto synthesis entry'')))"

definition index_fields :: "string list" where
  "index_fields = [''schema_version'', ''pack'', ''articles'', ''terms'', ''papers'', ''sources'', ''source_concepts'',
     ''synthesis'', ''stats'', ''identity_log'', ''entity_aliases'', ''alias_denials'']"

definition index_required :: "string list" where
  "index_required = [''schema_version'', ''pack'', ''articles'', ''terms'', ''papers'', ''sources'', ''source_concepts'',
     ''synthesis'', ''stats'']"

definition optional_array :: "json option \<Rightarrow> bool" where
  "optional_array v \<longleftrightarrow> v = None \<or> (case releasedSyntoArray v of Inl e \<Rightarrow> False | Inr _ \<Rightarrow> True)"

definition required_array :: "json option \<Rightarrow> bool" where
  "required_array v \<longleftrightarrow> (case releasedSyntoArray v of Inl e \<Rightarrow> False | Inr _ \<Rightarrow> True)"

definition or_error :: "gerr option \<Rightarrow> gerr option \<Rightarrow> gerr option" where
  "or_error a b = (case a of Some e \<Rightarrow> Some e | None \<Rightarrow> b)"

definition member :: "(string \<times> json) list \<Rightarrow> string \<Rightarrow> json" where
  "member object k = map_get_or JNull object k"

definition validate_groups_field :: "json option \<Rightarrow> gerr option" where
  "validate_groups_field v =
     (case releasedSyntoArray v of
        Inl e \<Rightarrow> Some e
      | Inr groups \<Rightarrow> validate_groups [] groups)"

definition validateReleasedSyntoIndex :: "(json \<Rightarrow> bool) \<Rightarrow> json \<Rightarrow> gerr option" where
  "validateReleasedSyntoIndex float_ok v =
     (case decodeStrictObject index_fields v of
        Inl e \<Rightarrow> Some e
      | Inr document \<Rightarrow>
          (if missing_field index_required document then Some (Msg ''missing Synto INDEX field'')
           else if map_of document ''schema_version'' \<noteq> Some (JInt 1) then Some (Msg ''Synto INDEX schema_version must be 1'')
           else or_error (validateReleasedSyntoPack (member document ''pack''))
               (or_error (validateReleasedSyntoStats (member document ''stats''))
               (or_error (validate_items (validate_article float_ok) (map_of document ''articles''))
               (or_error (if list_all (\<lambda>k. required_array (map_of document k)) [''terms'', ''papers''] then None
                          else Some (Msg ''Synto INDEX field must be an array''))
               (or_error (validate_items validate_source (map_of document ''sources''))
               (or_error (validate_groups_field (map_of document ''source_concepts''))
               (or_error (validate_items validate_synthesis (map_of document ''synthesis''))
                 (if list_all (\<lambda>k. optional_array (map_of document k)) [''identity_log'', ''entity_aliases'', ''alias_denials'']
                  then None else Some (Msg ''Synto INDEX field must be an array''))))))))))"

section \<open>The identity plan\<close>

record identityArticle =
  ia_id :: string
  ia_entity :: string
  ia_name :: string
  ia_path :: string

definition plain_string :: "json option \<Rightarrow> gerr + string" where
  "plain_string v =
     (case v of
        None \<Rightarrow> Inl (Msg ''unexpected end of JSON input'')
      | Some x \<Rightarrow> map_sum (\<lambda>_. Msg ''wrong kind'') id (decode_string '''' x))"

definition decode_entity :: "json option \<Rightarrow> gerr + string" where
  "decode_entity v =
     (case v of
        None \<Rightarrow> Inr ''''
      | Some JNull \<Rightarrow> Inr ''''
      | Some (JStr s) \<Rightarrow>
          (let e = trim_space s
           in if e = '''' \<or> \<not> ValidSyntoEntityID e then Inl (Msg ''invalid Synto article entity_id'') else Inr e)
      | _ \<Rightarrow> Inl (Msg ''invalid Synto article entity_id''))"

definition identity_article :: "json \<Rightarrow> gerr + identityArticle" where
  "identity_article v =
     (case decodeStrictObject article_fields v of
        Inl e \<Rightarrow> Inl (Wrapped ''decode Synto article'' e)
      | Inr object \<Rightarrow>
          (if missing_field article_required object then Inl (Msg ''missing Synto article field'')
           else (case (plain_string (map_of object ''id''), plain_string (map_of object ''name''),
                       plain_string (map_of object ''path'')) of
                   (Inr i, Inr name, Inr path) \<Rightarrow>
                     (if i = '''' \<or> name = '''' \<or> path = '''' then Inl (Msg ''invalid Synto article'')
                      else map_sum id (\<lambda>e. \<lparr>ia_id = i, ia_entity = e, ia_name = name, ia_path = path\<rparr>)
                             (decode_entity (map_of object ''entity_id'')))
                 | _ \<Rightarrow> Inl (Msg ''invalid Synto article''))))"

fun map_error :: "('a \<Rightarrow> gerr + 'b) \<Rightarrow> 'a list \<Rightarrow> gerr + 'b list" where
  "map_error f [] = Inr []"
| "map_error f (x # xs) =
     (case f x of
        Inl e \<Rightarrow> Inl e
      | Inr y \<Rightarrow> map_sum id ((#) y) (map_error f xs))"

definition decodeSyntoIdentityArticles :: "json option \<Rightarrow> gerr + identityArticle list" where
  "decodeSyntoIdentityArticles v =
     (case v of
        Some (JArr items) \<Rightarrow>
          (if length items > MaxFiles then Inl (Msg ''Synto INDEX articles must be a bounded array'')
           else map_error identity_article items)
      | _ \<Rightarrow> Inl (Msg ''Synto INDEX articles must be a bounded array''))"

definition concept_entity :: "json \<Rightarrow> gerr + string" where
  "concept_entity v =
     (case decodeStrictObject [''name'', ''entity_id''] v of
        Inl e \<Rightarrow> Inl (Wrapped ''decode Synto source concept'' e)
      | Inr item \<Rightarrow>
          (case (plain_string (map_of item ''name''), plain_string (map_of item ''entity_id'')) of
             (Inr name, Inr entityID) \<Rightarrow>
               (if name = '''' \<or> \<not> ValidSyntoEntityID entityID then Inl (Msg ''invalid Synto source concept identity'')
                else Inr entityID)
           | _ \<Rightarrow> Inl (Msg ''invalid Synto source concept identity'')))"

definition group_entities :: "json \<Rightarrow> gerr + string list" where
  "group_entities v =
     (case decodeStrictObject [''source_path'', ''content_hash'', ''concepts''] v of
        Inl e \<Rightarrow> Inl (Wrapped ''decode Synto source_concepts'' e)
      | Inr grp \<Rightarrow>
          (if missing_field [''source_path'', ''content_hash'', ''concepts''] grp
           then Inl (Msg ''missing Synto source_concepts field'')
           else (case (plain_string (map_of grp ''source_path''), plain_string (map_of grp ''content_hash'')) of
                   (Inr path, Inr h) \<Rightarrow>
                     (if \<not> safeSyntoSourcePath path \<or> \<not> validSyntoHash h
                      then Inl (Msg ''invalid Synto source concept provenance'')
                      else (case map_of grp ''concepts'' of
                              Some (JArr items) \<Rightarrow>
                                (if length items > MaxFiles then Inl (Msg ''Synto source concepts must be a bounded array'')
                                 else map_error concept_entity items)
                            | _ \<Rightarrow> Inl (Msg ''Synto source concepts must be a bounded array'')))
                 | _ \<Rightarrow> Inl (Msg ''invalid Synto source concept provenance''))))"

definition decodeSyntoIdentitySourceConcepts :: "json option \<Rightarrow> gerr + (string, bool) gomap" where
  "decodeSyntoIdentitySourceConcepts v =
     (case v of
        Some (JArr groups) \<Rightarrow>
          (if length groups > MaxFiles then Inl (Msg ''Synto source_concepts must be a bounded array'')
           else (case map_error group_entities groups of
                   Inl e \<Rightarrow> Inl e
                 | Inr es \<Rightarrow> Inr (foldl (\<lambda>m e. map_set e True m) [] (concat es))))
      | _ \<Rightarrow> Inl (Msg ''Synto source_concepts must be a bounded array''))"

definition syntoIdentitySlug :: "string \<Rightarrow> gerr + string" where
  "syntoIdentitySlug v =
     (let p = (if has_prefix v ''articles/'' then ''wiki/'' @ trim_prefix v ''articles/'' else v)
      in if \<not> validSyntoArticlePath p then Inl (Msg ''unsafe Synto article path'')
         else Inr (trim_suffix (trim_prefix p ''wiki/'') ''.md''))"

text \<open>The loop over the articles: IDs, lower-case slugs and entities seen, and the bindings so far.\<close>

fun plan_articles ::
  "(string \<Rightarrow> string) \<Rightarrow> string list \<Rightarrow> string list \<Rightarrow> string list \<Rightarrow> (string, string) gomap \<Rightarrow> identityArticle list
   \<Rightarrow> gerr + (string, string) gomap" where
  "plan_articles lower ids slugs entities byPath [] = Inr byPath"
| "plan_articles lower ids slugs entities byPath (a # as) =
     (if ia_id a = '''' \<or> \<not> ValidSourceID (ia_id a) then Inl (Msg ''invalid Synto article ID'')
      else if ia_id a \<in> set ids then Inl (Msg ''duplicate Synto article ID'')
      else (case syntoIdentitySlug (ia_path a) of
              Inl e \<Rightarrow> Inl e
            | Inr slug \<Rightarrow>
                (if lower slug \<in> set slugs then Inl (Msg ''duplicate Synto article slug'')
                 else (let path = ''wiki/'' @ slug @ ''.md''
                       in if ia_entity a = ''''
                          then plan_articles lower (ia_id a # ids) (lower slug # slugs) entities byPath as
                          else if \<not> ValidSyntoEntityID (ia_entity a) then Inl (Msg ''unsafe Synto article entity_id'')
                          else if ia_entity a \<in> set entities then Inl (Msg ''Synto entity_id maps to multiple articles'')
                          else plan_articles lower (ia_id a # ids) (lower slug # slugs) (ia_entity a # entities)
                                 (if IsSyntoRootPage path then byPath else map_set path (ia_entity a) byPath) as))))"

definition is_array :: "json option \<Rightarrow> bool" where
  "is_array v = (case v of Some (JArr _) \<Rightarrow> True | _ \<Rightarrow> False)"

definition is_object :: "json option \<Rightarrow> bool" where
  "is_object v = (case v of Some (JObj _) \<Rightarrow> True | _ \<Rightarrow> False)"

definition DecodeSyntoIdentityPlan ::
  "(json \<Rightarrow> bool) \<Rightarrow> (string \<Rightarrow> string) \<Rightarrow> (string \<Rightarrow> json_stream) \<Rightarrow> string \<Rightarrow> gerr + identityPlan" where
  "DecodeSyntoIdentityPlan float_ok lower parse data =
     (if int (length data) > MaxFileBytes then Inl (Msg ''Synto INDEX exceeds limit'')
      else (case parse data of
              [Some v] \<Rightarrow>
                (case validateReleasedSyntoIndex float_ok v of
                   Some e \<Rightarrow> Inl (Wrapped ''validate Synto INDEX'' e)
                 | None \<Rightarrow>
                     (case decodeStrictObject index_fields v of
                        Inl e \<Rightarrow> Inl (Wrapped ''decode Synto INDEX'' e)
                      | Inr document \<Rightarrow>
                          (if missing_field index_required document then Inl (Msg ''missing Synto INDEX field'')
                           else if decode_int64 0 (member document ''schema_version'') \<noteq> Inr 1
                           then Inl (Msg ''Synto INDEX schema_version must be 1'')
                           else if \<not> list_all (\<lambda>k. is_array (map_of document k))
                                     [''articles'', ''terms'', ''papers'', ''sources'', ''source_concepts'', ''synthesis'']
                           then Inl (Msg ''Synto INDEX field must be an array'')
                           else if \<not> list_all (\<lambda>k. is_object (map_of document k)) [''pack'', ''stats'']
                           then Inl (Msg ''Synto INDEX field must be an object'')
                           else (case decodeSyntoIdentityArticles (map_of document ''articles'') of
                                   Inl e \<Rightarrow> Inl e
                                 | Inr articles \<Rightarrow>
                                     (case decodeSyntoIdentitySourceConcepts (map_of document ''source_concepts'') of
                                        Inl e \<Rightarrow> Inl e
                                      | Inr active \<Rightarrow>
                                          (case plan_articles lower [] [] [] [] articles of
                                             Inl e \<Rightarrow> Inl e
                                           | Inr byPath \<Rightarrow> Inr \<lparr>ip_by_path = byPath, ip_active = active\<rparr>))))))
            | _ \<Rightarrow> Inl (Wrapped ''validate Synto INDEX'' (Msg ''expected JSON object''))))"

section \<open>What a decoded plan promises\<close>

lemma ValidSyntoEntityID_trim: "ValidSyntoEntityID e \<Longrightarrow> trim_space e = e"
  by (rule trim_space_visible) (auto simp: ValidSyntoEntityID_def list_all_iff visible_def byte_in_def)

definition binding_ok :: "string \<times> string \<Rightarrow> bool" where
  "binding_ok = (\<lambda>(path, e). validSyntoArticlePath path \<and> \<not> IsSyntoRootPage path \<and> ValidSyntoEntityID e)"

definition plan_ok :: "identityPlan \<Rightarrow> bool" where
  "plan_ok plan \<longleftrightarrow> list_all binding_ok (ip_by_path plan) \<and> distinct (map fst (ip_by_path plan)) \<and>
     distinct (map snd (ip_by_path plan)) \<and> list_all (\<lambda>(e, _). ValidSyntoEntityID e) (ip_active plan)"

lemma trim_prefix_has: "has_prefix p q \<Longrightarrow> q @ trim_prefix p q = p"
  by (auto simp: trim_prefix_def has_prefix_iff)

lemma trim_suffix_has: "has_suffix p q \<Longrightarrow> trim_suffix p q @ q = p"
  by (auto simp: trim_suffix_def has_suffix_iff)

lemma syntoIdentitySlug_path:
  assumes "syntoIdentitySlug v = Inr slug"
  shows "validSyntoArticlePath (''wiki/'' @ slug @ ''.md'')"
proof -
  obtain p where p: "validSyntoArticlePath p" and slug: "slug = trim_suffix (trim_prefix p ''wiki/'') ''.md''"
    using assms by (auto simp: syntoIdentitySlug_def Let_def split: if_splits)
  have "has_prefix p ''wiki/''" "has_suffix (trim_prefix p ''wiki/'') ''.md''"
    using p by (auto simp: validSyntoArticlePath_def Let_def split: if_splits)
  then have "''wiki/'' @ slug @ ''.md'' = p" using slug by (metis trim_prefix_has trim_suffix_has)
  then show ?thesis using p by simp
qed

text \<open>The loop invariant: the bindings are good, their slugs and entities have been seen.\<close>

definition articles_inv :: "(string \<Rightarrow> string) \<Rightarrow> string list \<Rightarrow> string list \<Rightarrow> (string, string) gomap \<Rightarrow> bool" where
  "articles_inv lower slugs entities m \<longleftrightarrow> list_all binding_ok m \<and> distinct (map fst m) \<and> distinct (map snd m) \<and>
     snd ` set m \<subseteq> set entities \<and> (\<forall>path e. (path, e) \<in> set m \<longrightarrow> (\<exists>s. path = ''wiki/'' @ s @ ''.md'' \<and> lower s \<in> set slugs))"

lemma articles_inv_add:
  assumes "articles_inv lower slugs entities m" and "lower slug \<notin> set slugs" and "e \<notin> set entities"
    and "binding_ok (''wiki/'' @ slug @ ''.md'', e)"
  shows "articles_inv lower (lower slug # slugs) (e # entities) (map_set (''wiki/'' @ slug @ ''.md'') e m)"
proof -
  have "''wiki/'' @ slug @ ''.md'' \<notin> fst ` set m"
  proof
    assume "''wiki/'' @ slug @ ''.md'' \<in> fst ` set m"
    then obtain s where "''wiki/'' @ slug @ ''.md'' = ''wiki/'' @ s @ ''.md''" "lower s \<in> set slugs"
      using assms(1) by (fastforce simp: articles_inv_def)
    then show False using assms(2) by simp
  qed
  then have "map_set (''wiki/'' @ slug @ ''.md'') e m = m @ [(''wiki/'' @ slug @ ''.md'', e)]"
    and "''wiki/'' @ slug @ ''.md'' \<notin> fst ` set m" by (simp_all add: map_set_fresh)
  then show ?thesis using assms by (auto simp: articles_inv_def)
qed

lemma articles_inv_mono:
  "articles_inv lower slugs entities m \<Longrightarrow> set slugs \<subseteq> set slugs' \<Longrightarrow> set entities \<subseteq> set entities' \<Longrightarrow>
     articles_inv lower slugs' entities' m"
  unfolding articles_inv_def by blast

lemma plan_articles_ok:
  "plan_articles lower ids slugs entities m as = Inr out \<Longrightarrow> articles_inv lower slugs entities m \<Longrightarrow>
     list_all binding_ok out \<and> distinct (map fst out) \<and> distinct (map snd out)"
proof (induction as arbitrary: ids slugs entities m)
  case Nil
  then show ?case by (simp add: articles_inv_def)
next
  case (Cons a as)
  obtain slug where slug: "syntoIdentitySlug (ia_path a) = Inr slug" and fresh: "lower slug \<notin> set slugs"
    using Cons.prems(1) by (auto split: if_splits sum.splits)
  let ?path = "''wiki/'' @ slug @ ''.md''"
  let ?ids = "ia_id a # ids" and ?slugs = "lower slug # slugs"
  show ?case
  proof (cases "ia_entity a = ''''")
    case True
    then have "plan_articles lower ?ids ?slugs entities m as = Inr out"
      using Cons.prems(1) slug fresh by (auto simp: Let_def split: if_splits)
    then show ?thesis
      by (rule Cons.IH) (rule articles_inv_mono [OF Cons.prems(2)], auto)
  next
    case False
    then have e: "ValidSyntoEntityID (ia_entity a)" "ia_entity a \<notin> set entities"
      and rec: "plan_articles lower ?ids ?slugs (ia_entity a # entities)
        (if IsSyntoRootPage ?path then m else map_set ?path (ia_entity a) m) as = Inr out"
      using Cons.prems(1) slug fresh by (auto simp: Let_def split: if_splits)
    show ?thesis
    proof (rule Cons.IH [OF rec])
      show "articles_inv lower ?slugs (ia_entity a # entities)
          (if IsSyntoRootPage ?path then m else map_set ?path (ia_entity a) m)"
        using articles_inv_add [OF Cons.prems(2) fresh e(2)] e(1) syntoIdentitySlug_path [OF slug]
          articles_inv_mono [OF Cons.prems(2), of ?slugs "ia_entity a # entities"]
        by (auto simp: binding_ok_def)
    qed
  qed
qed

lemma map_error_ok: "map_error f xs = Inr ys \<Longrightarrow> y \<in> set ys \<Longrightarrow> \<exists>x. f x = Inr y"
  by (induction xs arbitrary: ys) (auto simp: map_sum_Inr_iff split: sum.splits)

lemma foldl_keys: "fst ` set (foldl (\<lambda>m e. map_set e True m) m es) = fst ` set m \<union> set es"
  by (induction es arbitrary: m) auto

lemma group_entities_items: "group_entities v = Inr x \<Longrightarrow> \<exists>items. map_error concept_entity items = Inr x"
proof -
  assume g: "group_entities v = Inr x"
  let ?fs = "[''source_path'', ''content_hash'', ''concepts'']"
  obtain grp where grp: "decodeStrictObject ?fs v = Inr grp"
    using g unfolding group_entities_def by (cases "decodeStrictObject ?fs v") simp_all
  obtain p h where ph: "plain_string (map_of grp ''source_path'') = Inr p" "plain_string (map_of grp ''content_hash'') = Inr h"
    using g grp unfolding group_entities_def
    by (cases "plain_string (map_of grp ''source_path'')"; cases "plain_string (map_of grp ''content_hash'')")
      (simp_all split: if_split_asm)
  obtain c where c: "map_of grp ''concepts'' = Some c"
    using g grp ph unfolding group_entities_def by (cases "map_of grp ''concepts''") (simp_all split: if_split_asm)
  show ?thesis
    using g grp ph c unfolding group_entities_def by (cases c) (auto split: if_split_asm)
qed

lemma concept_entity_ok:
  assumes "concept_entity v = Inr e"
  shows "ValidSyntoEntityID e"
proof -
  obtain item where item: "decodeStrictObject [''name'', ''entity_id''] v = Inr item"
    using assms unfolding concept_entity_def by (cases "decodeStrictObject [''name'', ''entity_id''] v") simp_all
  obtain n i where "plain_string (map_of item ''name'') = Inr n" "plain_string (map_of item ''entity_id'') = Inr i"
    using assms item unfolding concept_entity_def
    by (cases "plain_string (map_of item ''name'')"; cases "plain_string (map_of item ''entity_id'')") simp_all
  then show ?thesis using assms item unfolding concept_entity_def by (simp split: if_split_asm)
qed

lemma active_ok:
  assumes "decodeSyntoIdentitySourceConcepts v = Inr active"
  shows "list_all (\<lambda>(e, _). ValidSyntoEntityID e) active"
proof -
  obtain groups es where es: "map_error group_entities groups = Inr es"
    and a: "active = foldl (\<lambda>m e. map_set e True m) [] (concat es)"
    using assms by (auto simp: decodeSyntoIdentitySourceConcepts_def split: option.splits json.splits if_splits sum.splits)
  have "ValidSyntoEntityID e" if "x \<in> set es" "e \<in> set x" for x e
  proof -
    obtain v' where "group_entities v' = Inr x" using map_error_ok [OF es \<open>x \<in> set es\<close>] by blast
    then obtain items where items: "map_error concept_entity items = Inr x" using group_entities_items by blast
    obtain v'' where "concept_entity v'' = Inr e" using map_error_ok [OF items \<open>e \<in> set x\<close>] by blast
    then show ?thesis by (rule concept_entity_ok)
  qed
  then have "ValidSyntoEntityID e" if "e \<in> fst ` set active" for e
    using that foldl_keys [of "[]" "concat es"] by (auto simp: a)
  then show ?thesis by (force simp: list_all_iff)
qed

lemma DecodeSyntoIdentityPlan_parts:
  assumes "DecodeSyntoIdentityPlan float_ok lower parse data = Inr plan"
  shows "\<exists>articles v. plan_articles lower [] [] [] [] articles = Inr (ip_by_path plan) \<and>
    decodeSyntoIdentitySourceConcepts v = Inr (ip_active plan)"
  using assms
  by (auto simp: DecodeSyntoIdentityPlan_def split: if_split_asm list.split_asm option.split_asm sum.split_asm)

lemma plan_decoded_ok:
  assumes "DecodeSyntoIdentityPlan float_ok lower parse data = Inr plan"
  shows "plan_ok plan"
proof -
  obtain articles v where p: "plan_articles lower [] [] [] [] articles = Inr (ip_by_path plan)"
    and a: "decodeSyntoIdentitySourceConcepts v = Inr (ip_active plan)"
    using DecodeSyntoIdentityPlan_parts [OF assms] by blast
  have "articles_inv lower [] [] []" by (simp add: articles_inv_def)
  then show ?thesis using plan_articles_ok [OF p] active_ok [OF a] by (auto simp: plan_ok_def)
qed

lemma plan_bindings_ok:
  "list_all binding_ok bs \<Longrightarrow> distinct (map snd bs) \<Longrightarrow> set (map snd bs) \<inter> set entities = {} \<Longrightarrow>
   fst ` set bs \<subseteq> set paths \<Longrightarrow> plan_bindings paths entities bs = None"
  by (induction bs arbitrary: entities) (auto simp: binding_ok_def ValidSyntoEntityID_trim split: prod.splits)

lemma plan_active_ok: "list_all (\<lambda>(e, _). ValidSyntoEntityID e) as \<Longrightarrow> plan_active as = None"
  by (induction as) (auto simp: ValidSyntoEntityID_trim)

text \<open>
  An identity plan that the strict decoder delivers is safe to rebuild from: every binding names
  a safe page path that is not a root page and a valid entity, no page and no entity is bound twice,
  and the plan passes the checks of the rebuild for every set of well-formed pages that has the
  bound ones.
\<close>

theorem DecodeSyntoIdentityPlan_safe:
  assumes "DecodeSyntoIdentityPlan float_ok lower parse data = Inr plan"
    and "plan_files files [] = Inr paths" and "fst ` set (ip_by_path plan) \<subseteq> set paths"
  shows "plan_ok plan \<and> validateSyntoIdentityPlan files plan = None"
proof -
  note ok = plan_decoded_ok [OF assms(1)]
  have "plan_bindings paths [] (ip_by_path plan) = None"
    using ok assms(3) by (intro plan_bindings_ok) (simp_all add: plan_ok_def)
  moreover have "plan_active (ip_active plan) = None" using ok by (intro plan_active_ok) (simp add: plan_ok_def)
  ultimately show ?thesis using ok assms(2) by (simp add: validateSyntoIdentityPlan_def)
qed

definition sample_entity :: string where "sample_entity = ''01ARZ3NDEKTSV4RRFFQ69G5FAV''"

definition sample_index :: json where
  "sample_index = JObj
     [(''schema_version'', JInt 1),
      (''pack'', JObj [(''id'', JStr ''p''), (''name'', JStr ''n''), (''version'', JStr ''1''),
         (''language'', JArr [JStr ''en'']), (''capabilities'', JArr [JStr ''articles''])]),
      (''articles'', JArr [JObj [(''id'', JStr ''a1''), (''entity_id'', JStr sample_entity), (''name'', JStr ''A''),
         (''path'', JStr ''articles/a.md''), (''summary'', JNull), (''tags'', JArr []), (''aliases'', JArr []),
         (''confidence'', JNull)]]),
      (''terms'', JArr []), (''papers'', JArr []), (''sources'', JArr []), (''source_concepts'', JArr []),
      (''synthesis'', JArr []), (''stats'', JObj (map (\<lambda>k. (k, JInt 1)) stats_fields))]"

definition sample_page :: markdownFile where
  "sample_page = \<lparr>mf_slug = ''a'', mf_path = ''wiki/a.md'', mf_data = ''text''\<rparr>"

definition sample_plan :: identityPlan where
  "sample_plan = \<lparr>ip_by_path = [(''wiki/a.md'', sample_entity)], ip_active = []\<rparr>"

text \<open>A small released artifact, and the facts that evaluate the decoder on it.\<close>

lemmas index_eval = decodeStrictObject_def index_fields_def member_def map_get_or_def validateReleasedSyntoPack_def
  missing_field_def required_string_def releasedSyntoString_def trim_space_def trim_right_def nonempty_strings_def
  releasedSyntoStringArray_def releasedSyntoArray_def ascii_space_def space2_def space3_def byte_in_def MaxFiles_def
  json_value_ok.simps maxReleasedSyntoJSONDepth_def pack_capabilities_def stats_fields_def stats_value_ok_def in_int64_def
  validateReleasedSyntoStats_def validateReleasedSyntoIndex_def index_required_def or_error_def validate_items_def
  validate_article_def article_fields_def article_required_def entity_id_ok_def ValidSyntoEntityID_def
  releasedSyntoNullableString_def validateReleasedSyntoConfidence_def MaxPathBytes_def required_array_def
  optional_array_def validate_groups_field_def

lemmas plan_eval = DecodeSyntoIdentityPlan_def decodeSyntoIdentityArticles_def identity_article_def plain_string_def
  decode_entity_def decodeSyntoIdentitySourceConcepts_def syntoIdentitySlug_def is_array_def is_object_def
  ValidSourceID_def validSyntoArticlePath_def validConceptSlug_def has_prefix_def has_suffix_def trim_prefix_def
  trim_suffix_def contains_any_def path_clean_def path_is_abs_def IsSyntoRootPage_def MaxFileBytes_def

lemma sample_index_released: "validateReleasedSyntoIndex (\<lambda>_. True) sample_index = None"
  by (simp add: sample_index_def sample_entity_def index_eval)

lemma sample_index_plan: "DecodeSyntoIdentityPlan (\<lambda>_. True) id (\<lambda>_. [Some sample_index]) ''x'' = Inr sample_plan"
  using sample_index_released
  by (simp add: sample_index_def sample_entity_def sample_plan_def plan_eval)
    (simp add: index_eval plan_eval sample_entity_def)

lemma DecodeSyntoIdentityPlan_safe_witness:
  "plan_ok sample_plan \<and> validateSyntoIdentityPlan [sample_page] sample_plan = None"
proof (rule DecodeSyntoIdentityPlan_safe [OF sample_index_plan])
  show "plan_files [sample_page] [] = Inr [''wiki/a.md'']" by code_simp
  show "fst ` set (ip_by_path sample_plan) \<subseteq> set [''wiki/a.md'']" by (simp add: sample_plan_def)
qed

section \<open>Strictness of the artifact\<close>

text \<open>
  The nesting check in closed form: no value lies deeper than the limit, and every container, at
  every level, is within the entry budget with distinct keys.
\<close>

fun json_bounded :: "nat \<Rightarrow> json \<Rightarrow> bool" where
  "json_bounded n (JObj kvs) \<longleftrightarrow> length kvs \<le> MaxFiles \<and> distinct (map fst kvs) \<and>
     (\<forall>p \<in> set kvs. 0 < n \<and> json_bounded (n - 1) (snd p))"
| "json_bounded n (JArr vs) \<longleftrightarrow> length vs \<le> MaxFiles \<and> (\<forall>v \<in> set vs. 0 < n \<and> json_bounded (n - 1) v)"
| "json_bounded n _ \<longleftrightarrow> True"

definition json_in_depth :: "nat \<Rightarrow> json \<Rightarrow> bool" where
  "json_in_depth d v \<longleftrightarrow> d \<le> maxReleasedSyntoJSONDepth \<and> json_bounded (maxReleasedSyntoJSONDepth - d) v"

lemma json_in_depth_item:
  "d \<le> maxReleasedSyntoJSONDepth \<Longrightarrow>
     (0 < maxReleasedSyntoJSONDepth - d \<and> json_bounded (maxReleasedSyntoJSONDepth - d - 1) v) = json_in_depth (Suc d) v"
  by (auto simp: json_in_depth_def)

lemma json_value_ok_iff:
  "json_value_ok d v \<longleftrightarrow> json_in_depth d v"
  "json_members_ok d seen kvs \<longleftrightarrow> (kvs = [] \<or> length seen + length kvs \<le> MaxFiles) \<and> distinct (map fst kvs) \<and>
     set seen \<inter> fst ` set kvs = {} \<and> (\<forall>p \<in> set kvs. json_in_depth d (snd p))"
  "json_items_ok d n vs \<longleftrightarrow> (vs = [] \<or> n + length vs \<le> MaxFiles) \<and> (\<forall>v \<in> set vs. json_in_depth d v)"
proof (induction d v and d seen kvs and d n vs rule: json_value_ok_json_members_ok_json_items_ok.induct)
  case (1 d v)
  show ?case
  proof (cases "d \<le> maxReleasedSyntoJSONDepth")
    case False
    then show ?thesis by (simp add: json_value_ok.simps json_in_depth_def)
  next
    case True
    note item = json_in_depth_item [OF True, symmetric]
    have no: "\<not> maxReleasedSyntoJSONDepth < d" using True by simp
    show ?thesis
    proof (cases v)
      case (JObj kvs)
      have "json_in_depth d v \<longleftrightarrow> length kvs \<le> MaxFiles \<and> distinct (map fst kvs) \<and> (\<forall>p \<in> set kvs. json_in_depth (Suc d) (snd p))"
        using True unfolding item by (auto simp: JObj json_in_depth_def [of d])
      then show ?thesis using "1.IH" no JObj by (auto simp: json_value_ok.simps)
    next
      case (JArr vs)
      have "json_in_depth d v \<longleftrightarrow> length vs \<le> MaxFiles \<and> (\<forall>v \<in> set vs. json_in_depth (Suc d) v)"
        using True unfolding item by (auto simp: JArr json_in_depth_def [of d])
      then show ?thesis using "1.IH" no JArr by (auto simp: json_value_ok.simps)
    qed (use True in \<open>simp_all add: json_value_ok.simps json_in_depth_def\<close>)
  qed
next
  case (3 d seen key v kvs)
  then show ?case by (auto simp: Suc_le_eq)
next
  case (5 d n v vs)
  then show ?case by (auto simp: Suc_le_eq)
qed auto

text \<open>
  C36. The INDEX artifact is bounded in every direction: an array field is accepted exactly when it
  has at most \<open>MaxFiles\<close> items and in each of them every container has at most \<open>MaxFiles\<close> members,
  no object repeats a key, and nothing is nested deeper than \<open>maxReleasedSyntoJSONDepth\<close>.
\<close>

theorem releasedSyntoArray_exact:
  "(releasedSyntoArray (Some (JArr items)) = Inr items) =
     (length items \<le> MaxFiles \<and> list_all (json_bounded maxReleasedSyntoJSONDepth) items)"
  by (auto simp: releasedSyntoArray_def json_value_ok_iff json_in_depth_def list_all_iff)

definition sample_page_env :: pageEnv where
  "sample_page_env = \<lparr>pg_map = (\<lambda>_. Inr ([], '''')), pg_matter = (\<lambda>_. Inr zero_matter), pg_yaml = (\<lambda>_. []),
     pg_sprint = (\<lambda>_. ''''), pg_md5 = (\<lambda>_. replicate 32 (CHR ''0'')), pg_lex = (\<lambda>_. []), pg_marshal = (\<lambda>_. ''{}''),
     pg_marshal_entry = (\<lambda>_. Inr ''{}'')\<rparr>"

definition sample_wiki :: "unit wikiStore" where
  "sample_wiki = \<lparr>wk_list = (\<lambda>dir w. (Inr (if dir = ''wiki/'' then [sample_page] else []), w)),
     wk_read = (\<lambda>path w. (Inl (Sentinel wikiindexErrNotFound), w)), wk_write = (\<lambda>data tmp final w. (None, w))\<rparr>"

lemma sample_rebuild:
  "RebuildWithSyntoIdentity sample_page_env sample_wiki sample_plan () =
     (Inr (empty_idMap\<lparr>im_concept := [(sample_entity, ''a'')]\<rparr>), ())"
  by code_simp

lemma Synto_rebuild_follows_plan_witness:
  "[(sample_entity, ''a'')] = bound_concepts sample_plan [sample_page]"
  using Synto_rebuild_follows_plan [OF _ sample_rebuild]
  by (simp add: sample_plan_def sample_wiki_def sample_page_def)

end
