(* ===== verification/IndexTruth.thy ===== *)
theory IndexTruth
  imports SyntoIndex Workspace "HOL-Library.Word"
begin

text \<open>
  The worker's reading of the INDEX artifact of Synto (\<open>cmd/olw_worker/synto_adapter.go\<close>): the
  strict decoder, the truth it delivers, the identity plan and the entity map derived from it, the
  join with the exported agent concepts, and the check of the SQLite state. A decoder that walks
  the tokens of an object is a loop over its members; \<open>strings.ToLower\<close> and
  \<open>strings.EqualFold\<close> on texts beyond ASCII, and SQLite itself, are parameters.
\<close>

section \<open>Data\<close>

record syntoIndexEntry =
  se_id :: string
  se_entity :: string
  se_name :: string
  se_path :: string

record syntoSourceConcept =
  sc_name :: string
  sc_entity :: string
  sc_source_path :: string
  sc_hash :: string

record syntoIndexTruth =
  it_articles :: "syntoIndexEntry list"
  it_concepts :: "syntoSourceConcept list"
  it_active :: "(string, bool) gomap"
  it_present :: bool
  it_ambiguous :: bool

definition zero_entry :: syntoIndexEntry where
  "zero_entry = \<lparr>se_id = '''', se_entity = '''', se_name = '''', se_path = ''''\<rparr>"

definition zero_concept :: syntoSourceConcept where
  "zero_concept = \<lparr>sc_name = '''', sc_entity = '''', sc_source_path = '''', sc_hash = ''''\<rparr>"

definition zero_truth :: syntoIndexTruth where
  "zero_truth = \<lparr>it_articles = [], it_concepts = [], it_active = [], it_present = False, it_ambiguous = False\<rparr>"

datatype syntoIndexDecodeReason = ReasonSourceConceptIdentity | ReasonArticleIdentity | ReasonArticlePath

datatype index_error =
    IndexError string
  | IndexJson json_error
  | IndexDecodeError syntoIndexDecodeReason

section \<open>Decoders of bounded values\<close>

definition decodeStringInto :: "string \<Rightarrow> nat \<Rightarrow> json \<Rightarrow> index_error + string" where
  "decodeStringInto old mx v =
     (case decode_string old v of
        Inl e \<Rightarrow> Inl (IndexJson e)
      | Inr s \<Rightarrow> (if length s > mx then Inl (IndexError ''INDEX.json string exceeds limit'') else Inr s))"

definition decodeNullableStringInto :: "nat \<Rightarrow> json \<Rightarrow> index_error + string option" where
  "decodeNullableStringInto mx v =
     (case v of
        JNull \<Rightarrow> Inr None
      | JStr s \<Rightarrow> (if length s > mx then Inl (IndexError ''invalid bounded nullable string'') else Inr (Some s))
      | _ \<Rightarrow> Inl (IndexError ''invalid bounded nullable string''))"

definition decodeNullableString :: "nat \<Rightarrow> json \<Rightarrow> index_error + unit" where
  "decodeNullableString mx v =
     (case v of
        JNull \<Rightarrow> Inr ()
      | JStr s \<Rightarrow> (if length s > mx then Inl (IndexError ''invalid INDEX.json nullable string'') else Inr ())
      | _ \<Rightarrow> Inl (IndexError ''invalid INDEX.json nullable string''))"

fun bounded_string_items :: "nat \<Rightarrow> string list \<Rightarrow> json list \<Rightarrow> index_error + string list" where
  "bounded_string_items mx out [] = Inr out"
| "bounded_string_items mx out (v # vs) =
     (if length out \<ge> MaxFiles then Inl (IndexJson JEntryLimit)
      else (case decodeStringInto '''' mx v of
              Inl e \<Rightarrow> Inl e
            | Inr s \<Rightarrow> bounded_string_items mx (out @ [s]) vs))"

definition decodeBoundedStringArray :: "nat \<Rightarrow> json \<Rightarrow> index_error + string list" where
  "decodeBoundedStringArray mx v =
     (case v of
        JArr vs \<Rightarrow> bounded_string_items mx [] vs
      | _ \<Rightarrow> Inl (IndexError ''INDEX.json field must be a string array''))"

definition decodeSyntoConfidence :: "json \<Rightarrow> index_error + unit" where
  "decodeSyntoConfidence v =
     (case v of
        JNull \<Rightarrow> Inr () | JStr _ \<Rightarrow> Inr () | JInt _ \<Rightarrow> Inr () | JNum _ \<Rightarrow> Inr ()
      | _ \<Rightarrow> Inl (IndexError ''invalid article confidence''))"

text \<open>
  \<open>decodeSyntoObject\<close>: every member is allowed and new, and is handed to \<open>field\<close>; the names
  seen come back with what \<open>field\<close> made of the variables it assigns.
\<close>

fun synto_object_loop ::
  "string list \<Rightarrow> (string \<Rightarrow> json \<Rightarrow> 's \<Rightarrow> index_error + 's) \<Rightarrow> string list \<Rightarrow> 's \<Rightarrow> (string \<times> json) list
   \<Rightarrow> index_error + (string list \<times> 's)" where
  "synto_object_loop allowed field seen s [] = Inr (seen, s)"
| "synto_object_loop allowed field seen s ((key, v) # kvs) =
     (if key \<in> set seen \<or> key \<notin> set allowed then Inl (IndexError ''invalid or duplicate INDEX.json field'')
      else (case field key v s of
              Inl e \<Rightarrow> Inl e
            | Inr s' \<Rightarrow> synto_object_loop allowed field (key # seen) s' kvs))"

definition decodeSyntoObject ::
  "string list \<Rightarrow> (string \<Rightarrow> json \<Rightarrow> 's \<Rightarrow> index_error + 's) \<Rightarrow> 's \<Rightarrow> json \<Rightarrow> index_error + (string list \<times> 's)" where
  "decodeSyntoObject allowed field s v =
     (case v of
        JObj kvs \<Rightarrow> synto_object_loop allowed field [] s kvs
      | _ \<Rightarrow> Inl (IndexError ''expected INDEX.json object''))"

text \<open>
  \<open>decodeStrictJSONValueAtDepth\<close> (\<open>concept_reconcile.go\<close>): any value with bounded collections,
  bounded nesting and no duplicate keys.
\<close>

definition maxStrictJSONDepth :: nat where "maxStrictJSONDepth = 64"

fun decodeStrictJSONValueAtDepth :: "nat \<Rightarrow> json \<Rightarrow> index_error + json"
  and strict_members :: "nat \<Rightarrow> (string \<times> json) list \<Rightarrow> (string \<times> json) list \<Rightarrow> index_error + (string \<times> json) list"
  and strict_items :: "nat \<Rightarrow> json list \<Rightarrow> json list \<Rightarrow> index_error + json list" where
  "decodeStrictJSONValueAtDepth depth v =
     (if depth > maxStrictJSONDepth then Inl (IndexError ''JSON nesting depth exceeds limit'')
      else (case v of
              JObj kvs \<Rightarrow> map_sum id JObj (strict_members (Suc depth) [] kvs)
            | JArr vs \<Rightarrow> map_sum id JArr (strict_items (Suc depth) [] vs)
            | _ \<Rightarrow> Inr v))"
| "strict_members depth obj [] = Inr obj"
| "strict_members depth obj ((key, v) # kvs) =
     (if length obj \<ge> MaxFiles then Inl (IndexJson JEntryLimit)
      else if key \<in> fst ` set obj then Inl (IndexError ''duplicate JSON object key'')
      else (case decodeStrictJSONValueAtDepth depth v of
              Inl e \<Rightarrow> Inl e
            | Inr w \<Rightarrow> strict_members depth (obj @ [(key, w)]) kvs))"
| "strict_items depth arr [] = Inr arr"
| "strict_items depth arr (v # vs) =
     (if length arr \<ge> MaxFiles then Inl (IndexJson JEntryLimit)
      else (case decodeStrictJSONValueAtDepth depth v of
              Inl e \<Rightarrow> Inl e
            | Inr w \<Rightarrow> strict_items depth (arr @ [w]) vs))"

declare decodeStrictJSONValueAtDepth.simps [simp del]

definition decodeStrictJSONValue :: "json \<Rightarrow> index_error + json" where
  "decodeStrictJSONValue v = decodeStrictJSONValueAtDepth 0 v"

section \<open>Paths and digests\<close>

definition safeSyntoRelativePath :: "string \<Rightarrow> bool" where
  "safeSyntoRelativePath v \<longleftrightarrow> v \<noteq> '''' \<and> \<not> has_prefix v ''/'' \<and> \<not> contains v [CHR 0x5C] \<and> path_clean v = v \<and>
     \<not> has_prefix v ''../'' \<and> v \<noteq> ''..''"

definition safeConceptSlug :: "string \<Rightarrow> bool" where
  "safeConceptSlug slug \<longleftrightarrow> trim_space slug \<noteq> '''' \<and> slug = trim_space slug \<and>
     \<not> contains_any slug [CHR ''/'', CHR 0x5C] \<and> slug \<noteq> ''.'' \<and> slug \<noteq> ''..''"

text \<open>\<open>filepath.Base\<close> of a path without trailing slashes: its last element.\<close>

definition base_name :: "string \<Rightarrow> string" where
  "base_name p = (if p = '''' then ''.'' else if p = ''/'' then ''/'' else List.last (split_on (CHR ''/'') p))"

definition normalizeSyntoArticlePath :: "string \<Rightarrow> index_error + string" where
  "normalizeSyntoArticlePath v =
     (if v = '''' \<or> contains v [CHR 0x5C] \<or> has_prefix v ''/'' \<or> list_ex control_byte v
      then Inl (IndexError ''unsafe Synto article path'')
      else (let rel = (if has_prefix v ''articles/'' then Some (trim_prefix v ''articles/'')
                       else if has_prefix v ''wiki/'' then Some (trim_prefix v ''wiki/'') else None)
            in case rel of
                 None \<Rightarrow> Inl (IndexError ''unexpected Synto article path prefix'')
               | Some rel \<Rightarrow>
                   (if contains rel ''/'' \<or> \<not> has_suffix rel ''.md'' then Inl (IndexError ''unsafe Synto article path'')
                    else (let slug = trim_suffix rel ''.md''
                          in if \<not> safeConceptSlug slug \<or> base_name rel \<noteq> rel \<or> path_clean v \<noteq> v
                             then Inl (IndexError ''unsafe Synto article path'')
                             else Inr slug))))"

definition safeSyntoSourceID :: "string \<Rightarrow> bool" where
  "safeSyntoSourceID v =
     (if list_ex control_byte v then False
      else if length v \<ge> 2 \<and> v ! 1 = CHR '':'' \<and> (byte_in (v ! 0) 65 90 \<or> byte_in (v ! 0) 97 122) then False
      else v \<noteq> ''.'' \<and> safeSyntoRelativePath v)"

definition validSyntoContentHash :: "string \<Rightarrow> bool" where
  "validSyntoContentHash v \<longleftrightarrow> length v = 64 \<and> list_all (\<lambda>c. byte_in c 48 57 \<or> byte_in c 97 102) v"

section \<open>The members of the artifact\<close>

definition pack_field :: "string \<Rightarrow> json \<Rightarrow> unit \<Rightarrow> index_error + unit" where
  "pack_field key v s =
     (if key = ''language'' then map_sum id (\<lambda>_. ()) (decodeBoundedStringArray 1024 v)
      else if key = ''capabilities'' then
        (case decodeBoundedStringArray 64 v of
           Inl e \<Rightarrow> Inl e
         | Inr values \<Rightarrow>
             (if list_all (\<lambda>c. c \<in> {''articles'', ''concepts'', ''segments'', ''lifecycle''}) values then Inr ()
              else Inl (IndexError ''invalid pack capability'')))
      else map_sum id (\<lambda>_. ()) (decodeStringInto '''' 1024 v))"

definition pack_fields :: "string list" where
  "pack_fields = [''id'', ''name'', ''version'', ''language'', ''capabilities'']"

definition decodeSyntoPack :: "json \<Rightarrow> index_error + unit" where
  "decodeSyntoPack v =
     (case decodeSyntoObject pack_fields pack_field () v of
        Inl e \<Rightarrow> Inl e
      | Inr (seen, _) \<Rightarrow>
          (case first_missing pack_fields seen of
             Some key \<Rightarrow> Inl (IndexError ''missing pack field'')
           | None \<Rightarrow> Inr ()))"

text \<open>One article: the entry and the nullable \<open>entity_id\<close>.\<close>

definition article_field ::
  "string \<Rightarrow> json \<Rightarrow> syntoIndexEntry \<times> string option \<Rightarrow> index_error + (syntoIndexEntry \<times> string option)" where
  "article_field key v = (\<lambda>(a, entityID).
     if key = ''id'' then map_sum id (\<lambda>s. (a\<lparr>se_id := s\<rparr>, entityID)) (decodeStringInto (se_id a) 1024 v)
     else if key = ''entity_id'' then map_sum id (\<lambda>e. (a, e)) (decodeNullableStringInto 1024 v)
     else if key = ''name'' then map_sum id (\<lambda>s. (a\<lparr>se_name := s\<rparr>, entityID)) (decodeStringInto (se_name a) 4096 v)
     else if key = ''path'' then map_sum id (\<lambda>s. (a\<lparr>se_path := s\<rparr>, entityID)) (decodeStringInto (se_path a) MaxPathBytes v)
     else if key = ''summary'' then map_sum id (\<lambda>_. (a, entityID)) (decodeNullableString (2 ^ 20) v)
     else if key = ''tags'' \<or> key = ''aliases'' then map_sum id (\<lambda>_. (a, entityID)) (decodeBoundedStringArray 4096 v)
     else map_sum id (\<lambda>_. (a, entityID)) (decodeSyntoConfidence v))"

definition index_article_fields :: "string list" where
  "index_article_fields = [''id'', ''entity_id'', ''name'', ''path'', ''summary'', ''tags'', ''aliases'', ''confidence'']"

definition index_article_required :: "string list" where
  "index_article_required = [''id'', ''name'', ''path'', ''summary'', ''tags'', ''aliases'', ''confidence'']"

definition decode_article :: "json \<Rightarrow> index_error + syntoIndexEntry" where
  "decode_article v =
     (case decodeSyntoObject index_article_fields article_field (zero_entry, None) v of
        Inl e \<Rightarrow> Inl e
      | Inr (seen, article, entityID) \<Rightarrow>
          (if (case entityID of None \<Rightarrow> False | Some e \<Rightarrow> trim_space e = '''' \<or> \<not> ValidSyntoEntityID e)
           then Inl (IndexDecodeError ReasonArticleIdentity)
           else (let a = (case entityID of None \<Rightarrow> article | Some e \<Rightarrow> article\<lparr>se_entity := e\<rparr>)
                 in if first_missing index_article_required seen \<noteq> None then Inl (IndexError ''missing article field'')
                    else if (se_id a \<noteq> '''' \<and> \<not> ValidSourceID (se_id a)) \<or>
                            (se_entity a \<noteq> '''' \<and> \<not> ValidSyntoEntityID (se_entity a)) \<or> se_name a = ''''
                    then Inl (IndexDecodeError ReasonArticleIdentity)
                    else (case normalizeSyntoArticlePath (se_path a) of
                            Inl e \<Rightarrow> Inl (IndexDecodeError ReasonArticlePath)
                          | Inr _ \<Rightarrow> Inr a))))"

fun decode_articles_loop :: "syntoIndexEntry list \<Rightarrow> json list \<Rightarrow> index_error + syntoIndexEntry list" where
  "decode_articles_loop out [] = Inr out"
| "decode_articles_loop out (v # vs) =
     (if length out \<ge> MaxFiles then Inl (IndexJson JEntryLimit)
      else (case decode_article v of
              Inl e \<Rightarrow> Inl e
            | Inr a \<Rightarrow> decode_articles_loop (out @ [a]) vs))"

definition decodeSyntoArticles :: "json \<Rightarrow> index_error + syntoIndexEntry list" where
  "decodeSyntoArticles v =
     (case v of JArr vs \<Rightarrow> decode_articles_loop [] vs | _ \<Rightarrow> Inl (IndexError ''articles must be an array''))"

text \<open>The concepts of one source.\<close>

fun concept_item_loop :: "string list \<Rightarrow> string \<times> string \<Rightarrow> (string \<times> json) list \<Rightarrow> index_error + (string list \<times> string \<times> string)" where
  "concept_item_loop seen (name, entity) [] = Inr (seen, name, entity)"
| "concept_item_loop seen (name, entity) ((key, v) # kvs) =
     (if key \<in> set seen \<or> key \<noteq> ''name'' \<and> key \<noteq> ''entity_id'' then Inl (IndexDecodeError ReasonSourceConceptIdentity)
      else if key = ''name'' then
        (case decodeStringInto name 4096 v of
           Inl e \<Rightarrow> Inl e
         | Inr n \<Rightarrow> concept_item_loop (key # seen) (n, entity) kvs)
      else
        (case decodeStringInto entity 1024 v of
           Inl e \<Rightarrow> Inl e
         | Inr i \<Rightarrow> concept_item_loop (key # seen) (name, i) kvs))"

definition decode_concept_item :: "json \<Rightarrow> index_error + syntoSourceConcept" where
  "decode_concept_item v =
     (case v of
        JObj kvs \<Rightarrow>
          (case concept_item_loop [] ('''', '''') kvs of
             Inl e \<Rightarrow> Inl e
           | Inr (seen, name, entity) \<Rightarrow>
               (if ''name'' \<notin> set seen \<or> ''entity_id'' \<notin> set seen \<or> name = '''' \<or> \<not> ValidSyntoEntityID entity
                then Inl (IndexDecodeError ReasonSourceConceptIdentity)
                else Inr (zero_concept\<lparr>sc_name := name, sc_entity := entity\<rparr>)))
      | JStr s \<Rightarrow>
          (if s \<noteq> '''' then Inl (IndexError ''source concept string lacks authoritative entity_id'')
           else Inl (IndexError ''invalid source concept item''))
      | _ \<Rightarrow> Inl (IndexError ''invalid source concept item''))"

fun concept_items_loop :: "syntoSourceConcept list \<Rightarrow> json list \<Rightarrow> index_error + syntoSourceConcept list" where
  "concept_items_loop out [] = Inr out"
| "concept_items_loop out (v # vs) =
     (if length out \<ge> MaxFiles then Inl (IndexJson JEntryLimit)
      else (case decode_concept_item v of
              Inl e \<Rightarrow> Inl e
            | Inr c \<Rightarrow> concept_items_loop (out @ [c]) vs))"

definition decodeSyntoSourceConceptItems :: "json \<Rightarrow> index_error + syntoSourceConcept list" where
  "decodeSyntoSourceConceptItems v =
     (case v of JArr vs \<Rightarrow> concept_items_loop [] vs | _ \<Rightarrow> Inl (IndexError ''source concepts must be an array''))"

definition group_field ::
  "string \<Rightarrow> json \<Rightarrow> string \<times> string \<times> syntoSourceConcept list
   \<Rightarrow> index_error + (string \<times> string \<times> syntoSourceConcept list)" where
  "group_field key v = (\<lambda>(path, h, items).
     if key = ''source_path'' then
       (case decodeStringInto path MaxPathBytes v of
          Inl e \<Rightarrow> Inl e
        | Inr p \<Rightarrow>
            (if \<not> safeSyntoRelativePath p then Inl (IndexError ''unsafe Synto source path'') else Inr (p, h, items)))
     else if key = ''content_hash'' then map_sum id (\<lambda>d. (path, d, items)) (decodeStringInto h 256 v)
     else map_sum id (\<lambda>cs. (path, h, cs)) (decodeSyntoSourceConceptItems v))"

definition group_fields :: "string list" where "group_fields = [''source_path'', ''content_hash'', ''concepts'']"

definition semantic_key :: "syntoSourceConcept \<Rightarrow> string" where
  "semantic_key c = sc_name c @ [CHR 0x00] @ sc_entity c"

definition decode_group :: "string list \<Rightarrow> json \<Rightarrow> index_error + (string \<times> syntoSourceConcept list)" where
  "decode_group seenGroups v =
     (case decodeSyntoObject group_fields group_field ('''', '''', []) v of
        Inl e \<Rightarrow> Inl e
      | Inr (seen, path, h, items) \<Rightarrow>
          (if first_missing group_fields seen \<noteq> None then Inl (IndexError ''missing source_concepts field'')
           else if \<not> validSyntoContentHash h
           then Inl (IndexError ''source_concepts content_hash must be a lowercase SHA-256 digest'')
           else if path \<in> set seenGroups then Inl (IndexError ''duplicate Synto source_concepts group'')
           else if \<not> distinct (map semantic_key items) then Inl (IndexError ''duplicate Synto source concept'')
           else Inr (path, map (\<lambda>c. c\<lparr>sc_source_path := path, sc_hash := h\<rparr>) items)))"

fun decode_groups_loop ::
  "string list \<Rightarrow> syntoSourceConcept list \<Rightarrow> json list \<Rightarrow> index_error + syntoSourceConcept list" where
  "decode_groups_loop seenGroups out [] = Inr out"
| "decode_groups_loop seenGroups out (v # vs) =
     (if length out \<ge> MaxFiles then Inl (IndexJson JEntryLimit)
      else (case decode_group seenGroups v of
              Inl e \<Rightarrow> Inl e
            | Inr (path, items) \<Rightarrow>
                (if length (out @ items) > MaxFiles then Inl (IndexJson JEntryLimit)
                 else decode_groups_loop (path # seenGroups) (out @ items) vs)))"

definition decodeSyntoSourceConcepts :: "json \<Rightarrow> index_error + syntoSourceConcept list" where
  "decodeSyntoSourceConcepts v =
     (case v of JArr vs \<Rightarrow> decode_groups_loop [] [] vs | _ \<Rightarrow> Inl (IndexError ''source_concepts must be an array''))"

text \<open>The members whose contents are checked and dropped.\<close>

fun counted_items :: "(json \<Rightarrow> index_error + 'a) \<Rightarrow> nat \<Rightarrow> json list \<Rightarrow> index_error + unit" where
  "counted_items f n [] = Inr ()"
| "counted_items f n (v # vs) =
     (if n \<ge> MaxFiles then Inl (IndexJson JEntryLimit)
      else (case f v of Inl e \<Rightarrow> Inl e | Inr _ \<Rightarrow> counted_items f (Suc n) vs))"

definition source_field :: "string \<Rightarrow> json \<Rightarrow> string \<times> string \<Rightarrow> index_error + (string \<times> string)" where
  "source_field key v = (\<lambda>(i, t).
     if key = ''id'' then map_sum id (\<lambda>s. (s, t)) (decodeStringInto i 1024 v)
     else if key = ''title'' then map_sum id (\<lambda>_. (i, t)) (decodeNullableString 4096 v)
     else map_sum id (\<lambda>s. (i, s)) (decodeStringInto t 256 v))"

definition decode_source :: "json \<Rightarrow> index_error + unit" where
  "decode_source v =
     (case decodeSyntoObject [''id'', ''title'', ''source_type''] source_field ('''', '''') v of
        Inl e \<Rightarrow> Inl e
      | Inr (seen, i, t) \<Rightarrow>
          (if ''id'' \<notin> set seen \<or> ''title'' \<notin> set seen \<or> ''source_type'' \<notin> set seen \<or> \<not> safeSyntoSourceID i \<or> t = ''''
           then Inl (IndexError ''invalid Synto source entry'') else Inr ()))"

definition decodeSyntoSources :: "json \<Rightarrow> index_error + unit" where
  "decodeSyntoSources v =
     (case v of JArr vs \<Rightarrow> counted_items decode_source 0 vs | _ \<Rightarrow> Inl (IndexError ''sources must be an array''))"

definition synthesis_field :: "string \<Rightarrow> json \<Rightarrow> string \<times> string \<Rightarrow> index_error + (string \<times> string)" where
  "synthesis_field key v = (\<lambda>(p, t).
     if key = ''path'' then map_sum id (\<lambda>s. (s, t)) (decodeStringInto p MaxPathBytes v)
     else map_sum id (\<lambda>s. (p, s)) (decodeStringInto t 4096 v))"

definition decode_synthesis_entry :: "json \<Rightarrow> index_error + unit" where
  "decode_synthesis_entry v =
     (case decodeSyntoObject [''path'', ''title''] synthesis_field ('''', '''') v of
        Inl e \<Rightarrow> Inl e
      | Inr (seen, p, t) \<Rightarrow>
          (if ''path'' \<notin> set seen \<or> ''title'' \<notin> set seen \<or> \<not> safeSyntoRelativePath p \<or> t = ''''
           then Inl (IndexError ''invalid Synto synthesis entry'') else Inr ()))"

definition decodeSyntoSynthesis :: "json \<Rightarrow> index_error + unit" where
  "decodeSyntoSynthesis v =
     (case v of JArr vs \<Rightarrow> counted_items decode_synthesis_entry 0 vs | _ \<Rightarrow> Inl (IndexError ''synthesis must be an array''))"

definition index_stats_fields :: "string list" where
  "index_stats_fields = [''article_count'', ''draft_count'', ''concept_count'', ''alias_count'', ''knowledge_item_count'',
     ''source_count'', ''source_segment_count'', ''failed_note_count'', ''failed_concept_count'']"

definition stats_field :: "string \<Rightarrow> json \<Rightarrow> unit \<Rightarrow> index_error + unit" where
  "stats_field key v s =
     (case decode_int64 0 v of
        Inl e \<Rightarrow> Inl (IndexError ''invalid Synto stats value'')
      | Inr i \<Rightarrow> (if i < 0 then Inl (IndexError ''invalid Synto stats value'') else Inr ()))"

definition decodeSyntoStats :: "json \<Rightarrow> index_error + unit" where
  "decodeSyntoStats v =
     (case decodeSyntoObject index_stats_fields stats_field () v of
        Inl e \<Rightarrow> Inl e
      | Inr (seen, _) \<Rightarrow>
          (if first_missing index_stats_fields seen \<noteq> None then Inl (IndexError ''missing stats field'') else Inr ()))"

definition decodeSyntoArray :: "json \<Rightarrow> index_error + unit" where
  "decodeSyntoArray v =
     (case v of
        JArr vs \<Rightarrow> counted_items decodeStrictJSONValue 0 vs
      | _ \<Rightarrow> Inl (IndexError ''INDEX.json field must be an array''))"

definition lineage_op :: "json \<Rightarrow> bool" where
  "lineage_op v =
     (case v of
        JObj kvs \<Rightarrow> (case map_of kvs ''op'' of Some (JStr op) \<Rightarrow> op = ''merge'' \<or> op = ''split'' | _ \<Rightarrow> False)
      | _ \<Rightarrow> False)"

fun identity_log_loop :: "nat \<Rightarrow> bool \<Rightarrow> json list \<Rightarrow> index_error + bool" where
  "identity_log_loop n ambiguous [] = Inr ambiguous"
| "identity_log_loop n ambiguous (v # vs) =
     (if n \<ge> MaxFiles then Inl (IndexJson JEntryLimit)
      else (case decodeStrictJSONValue v of
              Inl e \<Rightarrow> Inl e
            | Inr w \<Rightarrow> identity_log_loop (Suc n) (if lineage_op w then True else ambiguous) vs))"

definition decodeSyntoIdentityLog :: "json \<Rightarrow> index_error + bool" where
  "decodeSyntoIdentityLog v =
     (case v of JArr vs \<Rightarrow> identity_log_loop 0 False vs | _ \<Rightarrow> Inl (IndexError ''identity_log must be an array''))"

section \<open>The artifact\<close>

definition index_truth_field :: "string \<Rightarrow> json \<Rightarrow> syntoIndexTruth \<Rightarrow> index_error + syntoIndexTruth" where
  "index_truth_field key v out =
     (if key = ''schema_version'' then
        (if decode_int64 0 v = Inr 1 then Inr out else Inl (IndexError ''schema_version must be 1''))
      else if key = ''pack'' then map_sum id (\<lambda>_. out) (decodeSyntoPack v)
      else if key = ''articles'' then map_sum id (\<lambda>as. out\<lparr>it_articles := as\<rparr>) (decodeSyntoArticles v)
      else if key = ''terms'' \<or> key = ''papers'' then map_sum id (\<lambda>_. out) (decodeSyntoArray v)
      else if key = ''sources'' then map_sum id (\<lambda>_. out) (decodeSyntoSources v)
      else if key = ''source_concepts'' then map_sum id (\<lambda>es. out\<lparr>it_concepts := es\<rparr>) (decodeSyntoSourceConcepts v)
      else if key = ''synthesis'' then map_sum id (\<lambda>_. out) (decodeSyntoSynthesis v)
      else if key = ''stats'' then map_sum id (\<lambda>_. out) (decodeSyntoStats v)
      else if key = ''identity_log'' then
        map_sum id (\<lambda>b. out\<lparr>it_ambiguous := it_ambiguous out \<or> b\<rparr>) (decodeSyntoIdentityLog v)
      else if key = ''entity_aliases'' \<or> key = ''alias_denials'' then map_sum id (\<lambda>_. out) (decodeSyntoArray v)
      else Inl (IndexError ''unsupported INDEX.json field''))"

fun index_truth_loop :: "string list \<Rightarrow> syntoIndexTruth \<Rightarrow> (string \<times> json) list \<Rightarrow> index_error + (string list \<times> syntoIndexTruth)" where
  "index_truth_loop seen out [] = Inr (seen, out)"
| "index_truth_loop seen out ((key, v) # kvs) =
     (if key \<in> set seen then Inl (IndexError ''duplicate or invalid INDEX.json key'')
      else (case index_truth_field key v out of
              Inl e \<Rightarrow> Inl e
            | Inr out' \<Rightarrow> index_truth_loop (key # seen) out' kvs))"

definition index_truth_required :: "string list" where
  "index_truth_required = [''schema_version'', ''pack'', ''articles'', ''terms'', ''papers'', ''sources'', ''source_concepts'',
     ''synthesis'', ''stats'']"

definition decodeSyntoIndex :: "json_stream \<Rightarrow> index_error + syntoIndexTruth" where
  "decodeSyntoIndex dec =
     (case stream_value dec of
        Inl e \<Rightarrow> Inl (IndexJson e)
      | Inr (v, rest) \<Rightarrow>
          (case v of
             JObj kvs \<Rightarrow>
               (case index_truth_loop [] zero_truth kvs of
                  Inl e \<Rightarrow> Inl e
                | Inr (seen, out) \<Rightarrow>
                    (case EnsureJSONEOF rest of
                       Inl e \<Rightarrow> Inl (IndexJson e)
                     | Inr _ \<Rightarrow>
                         (if first_missing index_truth_required seen \<noteq> None
                          then Inl (IndexError ''missing INDEX.json field'') else Inr out)))
           | _ \<Rightarrow> Inl (IndexError ''INDEX.json must be an object'')))"

definition syntoIndexPath :: string where "syntoIndexPath = ''.synto/INDEX.json''"

definition readSyntoIndexTruth :: "sourceEnv \<Rightarrow> workspace \<Rightarrow> index_error + syntoIndexTruth" where
  "readSyntoIndexTruth env ws =
     (case readBoundedRegularFileWithin ws syntoIndexPath of
        FileMissing \<Rightarrow>
          (case readBoundedRegularFileWithin ws ''.synto/state.db'' of
             FileContents d \<Rightarrow>
               (if has_prefix d ''SQLite format 3'' then Inl (IndexError ''Synto state exists without INDEX.json'')
                else Inr zero_truth)
           | _ \<Rightarrow> Inr zero_truth)
      | FileError e \<Rightarrow> Inl (IndexError ''read Synto INDEX.json'')
      | FileContents data \<Rightarrow>
          (case decodeSyntoIndex (se_parse env data) of
             Inl e \<Rightarrow> Inl e
           | Inr index \<Rightarrow>
               Inr (index\<lparr>it_active := foldl (\<lambda>m c. map_set (sc_entity c) True m) [] (it_concepts index),
                          it_present := True\<rparr>)))"

section \<open>The identity plan of an artifact\<close>

definition article_page :: "string \<Rightarrow> string" where
  "article_page slug = path_clean (''wiki/'' @ slug @ ''.md'')"

fun index_plan_articles ::
  "(string \<Rightarrow> string) \<Rightarrow> string list \<Rightarrow> string list \<Rightarrow> string list \<Rightarrow> (string, string) gomap \<Rightarrow> syntoIndexEntry list
   \<Rightarrow> index_error + (string, string) gomap" where
  "index_plan_articles lower ids slugs entities byPath [] = Inr byPath"
| "index_plan_articles lower ids slugs entities byPath (a # as) =
     (case normalizeSyntoArticlePath (se_path a) of
        Inl e \<Rightarrow> Inl e
      | Inr slug \<Rightarrow>
          (if se_id a = '''' \<or> \<not> ValidSourceID (se_id a) then Inl (IndexError ''invalid Synto article ID'')
           else if se_id a \<in> set ids then Inl (IndexError ''duplicate Synto article ID'')
           else if lower slug \<in> set slugs then Inl (IndexError ''duplicate Synto article slug'')
           else if se_entity a = ''''
           then index_plan_articles lower (se_id a # ids) (lower slug # slugs) entities byPath as
           else if \<not> ValidSyntoEntityID (se_entity a) then Inl (IndexError ''unsafe Synto article entity_id'')
           else if se_entity a \<in> set entities then Inl (IndexError ''Synto entity_id maps to multiple articles'')
           else index_plan_articles lower (se_id a # ids) (lower slug # slugs) (se_entity a # entities)
                  (if IsSyntoRootPage (article_page slug) then byPath
                   else map_set (article_page slug) (se_entity a) byPath) as))"

fun index_active :: "(string, bool) gomap \<Rightarrow> syntoSourceConcept list \<Rightarrow> index_error + (string, bool) gomap" where
  "index_active active [] = Inr active"
| "index_active active (c # cs) =
     (if sc_name c = '''' \<or> \<not> ValidSyntoEntityID (sc_entity c) then Inl (IndexError ''invalid Synto source concept identity'')
      else index_active (map_set (sc_entity c) True active) cs)"

definition syntoIdentityPlanFromIndex :: "(string \<Rightarrow> string) \<Rightarrow> syntoIndexTruth \<Rightarrow> index_error + identityPlan" where
  "syntoIdentityPlanFromIndex lower index =
     (if list_ex (\<lambda>(e, _). \<not> ValidSyntoEntityID e) (it_active index)
      then Inl (IndexError ''unsafe active Synto entity_id'')
      else (case index_active (foldl (\<lambda>m (e, _). map_set e True m) [] (it_active index)) (it_concepts index) of
              Inl e \<Rightarrow> Inl e
            | Inr active \<Rightarrow>
                (case index_plan_articles lower [] [] [] [] (it_articles index) of
                   Inl e \<Rightarrow> Inl e
                 | Inr byPath \<Rightarrow> Inr \<lparr>ip_by_path = byPath, ip_active = active\<rparr>)))"

definition enforceActiveEntityCoverage :: "identityPlan \<Rightarrow> index_error option" where
  "enforceActiveEntityCoverage plan =
     (if length (ip_active plan) = 0 then None
      else if length (UnboundActiveEntities plan) = length (ip_active plan)
      then Some (IndexError ''identity_coverage_empty'') else None)"

section \<open>The entities of the concepts\<close>

record conceptSnapshot =
  cs_id :: string
  cs_slug :: string
  cs_entity :: string
  cs_dormant :: bool
  cs_page :: string
  cs_cache_row :: string
  cs_source_paths :: "string list"
  cs_redirects :: "(string, string) gomap"

datatype mapping_detail =
    DetailSourceConceptIdentity | DetailArticleIdentity | DetailArticlePath | DetailIndexTruth
  | DetailDuplicateArticleID | DetailDuplicateArticlePath | DetailDuplicateEntityID | DetailActiveEntityUnknown
  | DetailConceptSlugCase | DetailConceptIDPathDisagreement | DetailConceptMissingMapping | DetailConceptEntityCollision

fun check_prior :: "string list \<Rightarrow> string list \<Rightarrow> string list \<Rightarrow> conceptSnapshot list \<Rightarrow> mapping_detail option" where
  "check_prior ids slugs entities [] = None"
| "check_prior ids slugs entities (c # cs) =
     (if \<not> ValidSourceID (cs_id c) \<or> \<not> safeConceptSlug (cs_slug c) \<or>
         (cs_entity c \<noteq> '''' \<and> \<not> ValidSyntoEntityID (cs_entity c)) then Some DetailConceptMissingMapping
      else if cs_id c \<in> set ids then Some DetailDuplicateArticleID
      else if cs_slug c \<in> set slugs then Some DetailDuplicateArticlePath
      else if cs_entity c \<noteq> '''' \<and> cs_entity c \<in> set entities then Some DetailConceptEntityCollision
      else check_prior (cs_id c # ids) (cs_slug c # slugs)
             (if cs_entity c \<noteq> '''' then cs_entity c # entities else entities) cs)"

record articleMaps =
  am_by_id :: "(string, string) gomap"
  am_by_slug :: "(string, string) gomap"
  am_by_entity :: "(string, string) gomap"
  am_plain_ids :: "(string, string) gomap"
  am_plain_slugs :: "(string, string) gomap"
  am_ids :: "(string, string) gomap"
  am_slugs :: "(string, string) gomap"

definition empty_maps :: articleMaps where
  "empty_maps = \<lparr>am_by_id = [], am_by_slug = [], am_by_entity = [], am_plain_ids = [], am_plain_slugs = [],
     am_ids = [], am_slugs = []\<rparr>"

definition map_article :: "(string \<Rightarrow> string) \<Rightarrow> articleMaps \<Rightarrow> syntoIndexEntry \<Rightarrow> mapping_detail + articleMaps" where
  "map_article lower m a =
     (if (se_id a \<noteq> '''' \<and> \<not> ValidSourceID (se_id a)) \<or> (se_entity a \<noteq> '''' \<and> \<not> ValidSyntoEntityID (se_entity a))
      then Inl DetailArticleIdentity
      else (case normalizeSyntoArticlePath (se_path a) of
              Inl e \<Rightarrow> Inl DetailArticlePath
            | Inr slug \<Rightarrow>
                (if map_has (am_ids m) (se_id a) then Inl DetailDuplicateArticleID
                 else if map_has (am_slugs m) (lower slug) then Inl DetailDuplicateArticlePath
                 else (let m1 = m\<lparr>am_ids := map_set (se_id a) slug (am_ids m),
                                  am_slugs := map_set (lower slug) (se_path a) (am_slugs m)\<rparr>
                       in if IsSyntoRootPage (se_path a) then Inr m1
                          else if se_entity a = ''''
                          then Inr (m1\<lparr>am_plain_ids := map_set (se_id a) slug (am_plain_ids m1),
                                       am_plain_slugs := map_set (lower slug) (se_id a) (am_plain_slugs m1)\<rparr>)
                          else if se_id a \<noteq> '''' \<and> map_has (am_by_id m1) (se_id a) then Inl DetailDuplicateArticleID
                          else (let m2 = (if se_id a \<noteq> ''''
                                          then m1\<lparr>am_by_id := map_set (se_id a) (se_entity a) (am_by_id m1)\<rparr> else m1)
                                in if map_has (am_by_slug m2) (lower slug) then Inl DetailDuplicateArticlePath
                                   else (let m3 = m2\<lparr>am_by_slug := map_set (lower slug) slug (am_by_slug m2)\<rparr>
                                         in if (case map_of (am_by_entity m3) (se_entity a) of
                                                  Some old \<Rightarrow> old \<noteq> slug | None \<Rightarrow> False)
                                            then Inl DetailDuplicateEntityID
                                            else Inr (m3\<lparr>am_by_entity := map_set (se_entity a) slug (am_by_entity m3)\<rparr>)))))))"

fun map_articles :: "(string \<Rightarrow> string) \<Rightarrow> articleMaps \<Rightarrow> syntoIndexEntry list \<Rightarrow> mapping_detail + articleMaps" where
  "map_articles lower m [] = Inr m"
| "map_articles lower m (a # as) =
     (case map_article lower m a of Inl e \<Rightarrow> Inl e | Inr m' \<Rightarrow> map_articles lower m' as)"

definition byEntityForSlug :: "(string, string) gomap \<Rightarrow> string \<Rightarrow> string" where
  "byEntityForSlug byEntity slug =
     (case List.find (\<lambda>(_, s). s = slug) byEntity of Some (e, _) \<Rightarrow> e | None \<Rightarrow> '''')"

text \<open>The entity of one concept, \<open>None\<close> for a concept of an ordinary article, which has none.\<close>

definition concept_mapping ::
  "(string \<Rightarrow> string) \<Rightarrow> (string \<Rightarrow> string \<Rightarrow> bool) \<Rightarrow> articleMaps \<Rightarrow> string \<Rightarrow> string \<Rightarrow> mapping_detail + string option" where
  "concept_mapping lower fold_eq m currentID slug =
     (let byID = map_of (am_by_id m) currentID;
          byPath = map_of (am_by_slug m) (lower slug);
          plainSlug = map_of (am_plain_ids m) currentID;
          plainID = map_of (am_plain_slugs m) (lower slug)
      in if plainSlug \<noteq> None \<or> plainID \<noteq> None then
           (case plainSlug of
              Some s \<Rightarrow>
                (if plainID = Some currentID \<and> fold_eq s slug then Inr None else Inl DetailConceptIDPathDisagreement)
            | None \<Rightarrow>
                (if map_has (am_ids m) currentID then Inl DetailConceptIDPathDisagreement else Inr None))
         else if (case byPath of Some s \<Rightarrow> s \<noteq> slug | None \<Rightarrow> False) then Inl DetailConceptSlugCase
         else (let pathEntity = (case byPath of Some s \<Rightarrow> byEntityForSlug (am_by_entity m) s | None \<Rightarrow> '''')
               in if byID \<noteq> None \<and> byPath \<noteq> None \<and> byID \<noteq> Some pathEntity then Inl DetailConceptIDPathDisagreement
                  else if byPath = None then Inl DetailConceptMissingMapping
                  else Inr (Some pathEntity)))"

fun map_concepts ::
  "(string \<Rightarrow> string) \<Rightarrow> (string \<Rightarrow> string \<Rightarrow> bool) \<Rightarrow> articleMaps \<Rightarrow> (string, string) gomap \<Rightarrow> (string, string) gomap
   \<Rightarrow> (string \<times> string) list \<Rightarrow> mapping_detail + (string, string) gomap" where
  "map_concepts lower fold_eq m used out [] = Inr out"
| "map_concepts lower fold_eq m used out ((currentID, slug) # cs) =
     (case concept_mapping lower fold_eq m currentID slug of
        Inl e \<Rightarrow> Inl e
      | Inr None \<Rightarrow> map_concepts lower fold_eq m used out cs
      | Inr (Some entityID) \<Rightarrow>
          (if (case map_of used entityID of Some old \<Rightarrow> old \<noteq> currentID | None \<Rightarrow> False)
           then Inl DetailConceptEntityCollision
           else map_concepts lower fold_eq m (map_set entityID currentID used) (map_set currentID entityID out) cs))"

definition mapSyntoEntityIDsFromIndexTruth ::
  "(string \<Rightarrow> string) \<Rightarrow> (string \<Rightarrow> string \<Rightarrow> bool) \<Rightarrow> syntoIndexTruth \<Rightarrow> (string, string) gomap \<Rightarrow> conceptSnapshot list list
   \<Rightarrow> mapping_detail + (string, string) gomap" where
  "mapSyntoEntityIDsFromIndexTruth lower fold_eq index concepts prior =
     (if length prior > 1 then Inl DetailConceptMissingMapping
      else (case (case prior of [p] \<Rightarrow> check_prior [] [] [] p | _ \<Rightarrow> None) of
              Some d \<Rightarrow> Inl d
            | None \<Rightarrow>
                (if list_ex (\<lambda>c. sc_name c = '''' \<or> \<not> ValidSyntoEntityID (sc_entity c)) (it_concepts index)
                 then Inl DetailSourceConceptIdentity
                 else (case map_articles lower empty_maps (it_articles index) of
                         Inl d \<Rightarrow> Inl d
                       | Inr m \<Rightarrow>
                           (if list_ex (\<lambda>(e, _). \<not> map_has (am_by_entity m) e) (it_active index)
                            then Inl DetailActiveEntityUnknown
                            else map_concepts lower fold_eq m [] [] (sort_keys concepts))))))"

definition index_error_detail :: "index_error \<Rightarrow> mapping_detail" where
  "index_error_detail e =
     (case e of
        IndexDecodeError ReasonSourceConceptIdentity \<Rightarrow> DetailSourceConceptIdentity
      | IndexDecodeError ReasonArticleIdentity \<Rightarrow> DetailArticleIdentity
      | IndexDecodeError ReasonArticlePath \<Rightarrow> DetailArticlePath
      | _ \<Rightarrow> DetailIndexTruth)"

definition readSyntoEntityIDs ::
  "sourceEnv \<Rightarrow> (string \<Rightarrow> string) \<Rightarrow> (string \<Rightarrow> string \<Rightarrow> bool) \<Rightarrow> workspace \<Rightarrow> (string, string) gomap \<Rightarrow> conceptSnapshot list list
   \<Rightarrow> mapping_detail + (string, string) gomap" where
  "readSyntoEntityIDs env lower fold_eq ws concepts prior =
     (case readSyntoIndexTruth env ws of
        Inl e \<Rightarrow> Inl (index_error_detail e)
      | Inr index \<Rightarrow>
          (if \<not> it_present index then Inr []
           else mapSyntoEntityIDsFromIndexTruth lower fold_eq index concepts prior))"

section \<open>The SQLite state\<close>

text \<open>
  The header and page geometry of a state file, then SQLite's own \<open>PRAGMA quick_check\<close>: its result
  over the contents, or the error of opening or querying, is the parameter \<open>quick\<close>.
\<close>

unbundle bit_operations_syntax

definition sqliteHeader :: string where "sqliteHeader = ''SQLite format 3'' @ [CHR 0x00]"

definition be_uint :: "string \<Rightarrow> int" where
  "be_uint bs = foldl (\<lambda>n c. n * 256 + int (of_char c)) 0 bs"

definition sqlite_page_size :: "string \<Rightarrow> int" where
  "sqlite_page_size data =
     (let n = be_uint (take 2 (drop 16 data)) in if n = 1 then 65536 else n)"

definition validateSQLiteArtifact :: "(string \<Rightarrow> gerr + string) \<Rightarrow> workspace \<Rightarrow> string \<Rightarrow> gerr option" where
  "validateSQLiteArtifact quick ws rel =
     (case readBoundedRegularFileWithin ws rel of
        FileMissing \<Rightarrow> Some (Msg ''file does not exist'')
      | FileError e \<Rightarrow> Some e
      | FileContents data \<Rightarrow>
          (if length data < 100 \<or> take (length sqliteHeader) data \<noteq> sqliteHeader
           then Some (Msg ''state.db is not a SQLite database'')
           else (let pageSize = sqlite_page_size data
                 in if pageSize < 512 \<or> pageSize > 65536 \<or> pageSize AND (pageSize - 1) \<noteq> 0
                    then Some (Msg ''state.db has an invalid SQLite page size'')
                    else (let pageCount = be_uint (take 4 (drop 28 data))
                          in if pageCount < 1 \<or> pageCount > MaxFileBytes div pageSize \<or>
                                pageCount * pageSize > int (length data) \<or> int (length data) mod pageSize \<noteq> 0
                             then Some (Msg ''state.db has truncated or inconsistent SQLite pages'')
                             else (case quick data of
                                     Inl e \<Rightarrow> Some (Wrapped ''check state.db'' e)
                                   | Inr result \<Rightarrow>
                                       (if result \<noteq> ''ok'' then Some (Msg ''state.db integrity check failed'') else None))))))"

section \<open>Joining the agent concepts\<close>

record syntoAgentConcept =
  ac_entity :: string
  ac_article_id :: "string option"
  ac_article_path :: "string option"

definition agent_fields :: "string list" where
  "agent_fields = [''name'', ''entity_id'', ''aliases'', ''canonical_article_id'', ''article_path'', ''related_names'']"

definition agent_field ::
  "string \<Rightarrow> json \<Rightarrow> string \<times> syntoAgentConcept \<Rightarrow> index_error + (string \<times> syntoAgentConcept)" where
  "agent_field key v = (\<lambda>(name, c).
     if key = ''name'' then map_sum id (\<lambda>s. (s, c)) (decodeStringInto name 4096 v)
     else if key = ''entity_id'' then map_sum id (\<lambda>s. (name, c\<lparr>ac_entity := s\<rparr>)) (decodeStringInto (ac_entity c) 1024 v)
     else if key = ''aliases'' \<or> key = ''related_names'' then map_sum id (\<lambda>_. (name, c)) (decodeBoundedStringArray 4096 v)
     else if key = ''canonical_article_id'' then
       map_sum id (\<lambda>i. (name, c\<lparr>ac_article_id := i\<rparr>)) (decodeNullableStringInto 1024 v)
     else map_sum id (\<lambda>p. (name, c\<lparr>ac_article_path := p\<rparr>)) (decodeNullableStringInto MaxPathBytes v))"

definition decode_agent_concept :: "json \<Rightarrow> index_error + syntoAgentConcept" where
  "decode_agent_concept v =
     (case decodeSyntoObject agent_fields agent_field
             ('''', \<lparr>ac_entity = '''', ac_article_id = None, ac_article_path = None\<rparr>) v of
        Inl e \<Rightarrow> Inl e
      | Inr (seen, name, c) \<Rightarrow>
          (if first_missing agent_fields seen \<noteq> None then Inl (IndexError ''missing agent concept field'')
           else if name = '''' then Inl (IndexError ''agent concept name is empty'')
           else if ac_entity c \<noteq> '''' \<and> \<not> ValidSyntoEntityID (ac_entity c)
           then Inl (IndexError ''agent concept entity_id is unsafe'')
           else if (case ac_article_id c of Some i \<Rightarrow> \<not> ValidSourceID i | None \<Rightarrow> False)
           then Inl (IndexError ''agent concept canonical_article_id is unsafe'')
           else (case ac_article_path c of
                   None \<Rightarrow> Inr c
                 | Some p \<Rightarrow>
                     (case normalizeSyntoArticlePath p of
                        Inl e \<Rightarrow> Inl (IndexError ''agent concept article_path is unsafe'')
                      | Inr _ \<Rightarrow> Inr c))))"

fun agent_concepts_loop :: "syntoAgentConcept list \<Rightarrow> json list \<Rightarrow> index_error + syntoAgentConcept list" where
  "agent_concepts_loop out [] = Inr out"
| "agent_concepts_loop out (v # vs) =
     (if length out \<ge> MaxFiles then Inl (IndexJson JEntryLimit)
      else (case decode_agent_concept v of
              Inl e \<Rightarrow> Inl e
            | Inr c \<Rightarrow> agent_concepts_loop (out @ [c]) vs))"

definition decodeSyntoAgentConceptList :: "json \<Rightarrow> index_error + syntoAgentConcept list" where
  "decodeSyntoAgentConceptList v =
     (case v of JArr vs \<Rightarrow> agent_concepts_loop [] vs | _ \<Rightarrow> Inl (IndexError ''agent concepts must be an array''))"

fun agent_document_loop ::
  "string list \<Rightarrow> syntoAgentConcept list \<Rightarrow> (string \<times> json) list \<Rightarrow> index_error + (string list \<times> syntoAgentConcept list)" where
  "agent_document_loop seen concepts [] = Inr (seen, concepts)"
| "agent_document_loop seen concepts ((key, v) # kvs) =
     (if key \<in> set seen then Inl (IndexError ''duplicate or invalid agent concepts key'')
      else if key = ''schema_version'' then
        (if decode_int64 0 v = Inr 1 then agent_document_loop (key # seen) concepts kvs
         else Inl (IndexError ''agent concepts schema_version must be 1''))
      else if key = ''concepts'' then
        (case decodeSyntoAgentConceptList v of
           Inl e \<Rightarrow> Inl e
         | Inr cs \<Rightarrow> agent_document_loop (key # seen) cs kvs)
      else Inl (IndexError ''unsupported agent concepts field''))"

definition decodeSyntoAgentConcepts :: "json_stream \<Rightarrow> index_error + syntoAgentConcept list" where
  "decodeSyntoAgentConcepts dec =
     (case stream_value dec of
        Inl e \<Rightarrow> Inl (IndexJson e)
      | Inr (v, rest) \<Rightarrow>
          (case v of
             JObj kvs \<Rightarrow>
               (case agent_document_loop [] [] kvs of
                  Inl e \<Rightarrow> Inl e
                | Inr (seen, concepts) \<Rightarrow>
                    (case EnsureJSONEOF rest of
                       Inl e \<Rightarrow> Inl (IndexJson e)
                     | Inr _ \<Rightarrow>
                         (if first_missing [''schema_version'', ''concepts''] seen \<noteq> None
                          then Inl (IndexError ''missing agent concepts field'') else Inr concepts)))
           | _ \<Rightarrow> Inl (IndexError ''agent concepts must be an object'')))"

text \<open>The articles by ID, by slug and by entity, each with its position.\<close>

fun article_index ::
  "nat \<Rightarrow> (string, nat) gomap \<Rightarrow> (string, nat) gomap \<Rightarrow> (string, nat) gomap \<Rightarrow> syntoIndexEntry list
   \<Rightarrow> index_error + ((string, nat) gomap \<times> (string, nat) gomap \<times> (string, nat) gomap)" where
  "article_index i byID byPath ents [] = Inr (byID, byPath, ents)"
| "article_index i byID byPath ents (a # as) =
     (case normalizeSyntoArticlePath (se_path a) of
        Inl e \<Rightarrow> Inl e
      | Inr path \<Rightarrow>
          (if se_id a \<noteq> '''' \<and> map_has byID (se_id a) then Inl (IndexError ''duplicate INDEX article ID'')
           else if map_has byPath path then Inl (IndexError ''duplicate INDEX article path'')
           else if se_entity a \<noteq> '''' \<and> map_has ents (se_entity a)
           then Inl (IndexError ''INDEX article entity_id maps to multiple articles'')
           else article_index (Suc i) (if se_id a \<noteq> '''' then map_set (se_id a) i byID else byID) (map_set path i byPath)
                  (if se_entity a \<noteq> '''' then map_set (se_entity a) i ents else ents) as))"

type_synonym proof_key = "string \<times> string"

fun agent_proofs ::
  "(string, nat) gomap \<Rightarrow> (string, nat) gomap \<Rightarrow> (proof_key, string) gomap \<Rightarrow> (string, proof_key) gomap
   \<Rightarrow> syntoAgentConcept list \<Rightarrow> index_error + (proof_key, string) gomap" where
  "agent_proofs byID byPath proofs owners [] = Inr proofs"
| "agent_proofs byID byPath proofs owners (c # cs) =
     (case (ac_article_id c, ac_article_path c) of
        (None, None) \<Rightarrow> agent_proofs byID byPath proofs owners cs
      | (Some i, Some p) \<Rightarrow>
          (case normalizeSyntoArticlePath p of
             Inl e \<Rightarrow> Inl e
           | Inr path \<Rightarrow>
               (case (map_of byID i, map_of byPath path) of
                  (Some n, Some k) \<Rightarrow>
                    (if n \<noteq> k then Inl (IndexError ''agent concept canonical article ID/path disagreement'')
                     else if ac_entity c = '''' \<or> \<not> ValidSyntoEntityID (ac_entity c)
                     then Inl (IndexError ''agent concept has invalid entity_id'')
                     else if map_has proofs (i, path)
                     then Inl (IndexError ''agent concept article has more than one proof'')
                     else if (case map_of owners (ac_entity c) of Some previous \<Rightarrow> previous \<noteq> (i, path) | None \<Rightarrow> False)
                     then Inl (IndexError ''agent entity_id maps to multiple articles'')
                     else agent_proofs byID byPath (map_set (i, path) (ac_entity c) proofs)
                            (map_set (ac_entity c) (i, path) owners) cs)
                | _ \<Rightarrow> Inl (IndexError ''agent concept canonical article does not match INDEX'')))
      | _ \<Rightarrow> Inl (IndexError ''agent concept has incomplete canonical article binding''))"

fun agent_fills ::
  "syntoIndexEntry list \<Rightarrow> (string, nat) gomap \<Rightarrow> (string, nat) gomap \<Rightarrow> (nat, string) gomap
   \<Rightarrow> (proof_key \<times> string) list \<Rightarrow> index_error + (nat, string) gomap" where
  "agent_fills articles byID ents fills [] = Inr fills"
| "agent_fills articles byID ents fills (((i, path), entityID) # ps) =
     (let idx = map_get_or 0 byID i
      in if se_entity (articles ! idx) \<noteq> '''' then agent_fills articles byID ents fills ps
         else if (case map_of ents entityID of Some previous \<Rightarrow> previous \<noteq> idx | None \<Rightarrow> False)
         then Inl (IndexError ''agent entity_id already bound to another INDEX article'')
         else if (case map_of fills idx of Some previous \<Rightarrow> previous \<noteq> entityID | None \<Rightarrow> False)
         then Inl (IndexError ''agent concept article has multiple entity_id values'')
         else agent_fills articles byID (map_set entityID idx ents) (map_set idx entityID fills) ps)"

text \<open>
  \<open>applyAgentEntityFillsToIndex\<close>: the document goes through \<open>map[string]json.RawMessage\<close>, so the
  members come back sorted by key, with those of each article; other values are kept as they are.
  The document has been decoded before, so it is an object without duplicate keys.
\<close>

definition object_members :: "json \<Rightarrow> (string \<times> json) list" where
  "object_members v = (case v of JObj kvs \<Rightarrow> kvs | _ \<Rightarrow> [])"

fun fill_articles :: "json list \<Rightarrow> (nat \<times> string) list \<Rightarrow> index_error + json list" where
  "fill_articles articles [] = Inr articles"
| "fill_articles articles ((idx, entityID) # fs) =
     (if idx \<ge> length articles then Inl (IndexError ''agent fill index out of range'')
      else fill_articles (articles[idx := JObj (map_set ''entity_id'' (JStr entityID) (object_members (articles ! idx)))]) fs)"

definition sort_object :: "json \<Rightarrow> json" where
  "sort_object v = JObj (sort_keys (object_members v))"

definition applyAgentEntityFillsToIndex ::
  "(string \<Rightarrow> json_stream) \<Rightarrow> (json \<Rightarrow> string) \<Rightarrow> json \<Rightarrow> (nat \<times> string) list \<Rightarrow> index_error + string" where
  "applyAgentEntityFillsToIndex parse marshal document fills =
     (case map_of (object_members document) ''articles'' of
        Some (JArr articles) \<Rightarrow>
          (case fill_articles articles fills of
             Inl e \<Rightarrow> Inl e
           | Inr filled \<Rightarrow>
               (let out = marshal (sort_object (JObj (map_set ''articles'' (JArr (map sort_object filled)) (object_members document))))
                in case decodeSyntoIndex (parse out) of
                     Inl e \<Rightarrow> Inl e
                   | Inr _ \<Rightarrow> Inr out))
      | Some _ \<Rightarrow> Inl (IndexError ''decode INDEX articles for agent fill'')
      | None \<Rightarrow> Inl (IndexError ''INDEX.json missing articles''))"

definition plan_agent_fills :: "syntoIndexEntry list \<Rightarrow> syntoAgentConcept list \<Rightarrow> index_error + (nat, string) gomap" where
  "plan_agent_fills articles concepts =
     (case article_index 0 [] [] [] articles of
        Inl e \<Rightarrow> Inl e
      | Inr (byID, byPath, ents) \<Rightarrow>
          (case agent_proofs byID byPath [] [] concepts of
             Inl e \<Rightarrow> Inl e
           | Inr proofs \<Rightarrow> agent_fills articles byID ents [] proofs))"

definition enrichSyntoIndexWithAgentConcepts ::
  "(string \<Rightarrow> json_stream) \<Rightarrow> (json \<Rightarrow> string) \<Rightarrow> string \<Rightarrow> string \<Rightarrow> index_error + string" where
  "enrichSyntoIndexWithAgentConcepts parse marshal indexData conceptsData =
     (case decodeSyntoIndex (parse indexData) of
        Inl e \<Rightarrow> Inl e
      | Inr index \<Rightarrow>
          (case decodeSyntoAgentConcepts (parse conceptsData) of
             Inl e \<Rightarrow> Inl e
           | Inr concepts \<Rightarrow>
               (case plan_agent_fills (it_articles index) concepts of
                  Inl e \<Rightarrow> Inl e
                | Inr fills \<Rightarrow>
                    (if fills = [] then Inr indexData
                     else (case stream_value (parse indexData) of
                             Inl e \<Rightarrow> Inl (IndexJson e)
                           | Inr (document, _) \<Rightarrow> applyAgentEntityFillsToIndex parse marshal document fills)))))"

end
