(* ===== verification/Publish.thy ===== *)
theory Publish
  imports Materialize IndexTruth
begin

text \<open>
  Publishing a generation (\<open>cmd/olw_worker/cloud_publish.go\<close>): the preflight that builds the table
  of output files from a walk of the workspace, the upload of every file as an immutable object, and
  the commit of the manifest by a conditional write, with the read-back that resolves an ambiguous
  outcome. The order in which \<open>filepath.WalkDir\<close> visits the workspace and what it finds there is
  the list of its callbacks; the random source, the clock and \<open>json.Marshal\<close> are parameters.
\<close>

section \<open>The table of outputs\<close>

record generationOutput =
  go_path :: string
  go_size :: int
  go_sha256 :: string

record generationTraversalLimits =
  tl_entries :: nat
  tl_directories :: nat
  tl_depth :: nat
  tl_symlinks :: nat
  tl_non_regular :: nat
  tl_bytes :: int

definition defaultGenerationTraversalLimits :: generationTraversalLimits where
  "defaultGenerationTraversalLimits = \<lparr>tl_entries = MaxFiles + 128, tl_directories = MaxFiles, tl_depth = 64,
     tl_symlinks = 0, tl_non_regular = 0, tl_bytes = MaxTotalSize\<rparr>"

text \<open>
  One callback of the walk below the root: the error handed in, the slash-separated relative path,
  the type of the entry, what \<open>Info\<close> reports, and what reading the file to its end delivers.
\<close>

datatype entryType = Directory | Regular | Symlink | Special

record walkEntry =
  we_err :: "gerr option"
  we_rel :: string
  we_type :: entryType
  we_info :: "gerr + int"
  we_data :: "gerr + string"

definition digestGenerationFile :: "codec \<Rightarrow> gerr + string \<Rightarrow> int \<Rightarrow> gerr + string" where
  "digestGenerationFile cd data sz =
     (case data of
        Inl e \<Rightarrow> Inl (Wrapped ''generation output digest failed'' e)
      | Inr d \<Rightarrow>
          (if int (length d) \<noteq> sz then Inl (Msg ''generation output digest failed: size mismatch'') else Inr (sha256 cd d)))"

record walkState =
  wk_entries :: nat
  wk_directories :: nat
  wk_total :: int
  wk_traversed :: int
  wk_files :: "generationOutput list"

definition start_walk :: walkState where
  "start_walk = \<lparr>wk_entries = 0, wk_directories = 0, wk_total = 0, wk_traversed = 0, wk_files = []\<rparr>"

definition regular_file ::
  "codec \<Rightarrow> generationTraversalLimits \<Rightarrow> walkEntry \<Rightarrow> walkState \<Rightarrow> gerr + walkState" where
  "regular_file cd limits d s =
     (case we_info d of
        Inl e \<Rightarrow> Inl e
      | Inr sz \<Rightarrow>
          (if sz < 0 \<or> wk_traversed s > tl_bytes limits - sz then Inl (Msg ''workspace traversal exceeds byte limit'')
           else (let s1 = s\<lparr>wk_traversed := wk_traversed s + sz\<rparr>
                 in if \<not> GenerationOwned (we_rel d) then Inr s1
                    else if sz > MaxFileBytes then Inl (Msg ''generation output too large'')
                    else if length (wk_files s1) \<ge> MaxFiles then Inl (Msg ''too many generation files'')
                    else if wk_total s1 + sz > MaxTotalSize then Inl (Msg ''generation output too large'')
                    else (case digestGenerationFile cd (we_data d) sz of
                            Inl e \<Rightarrow> Inl e
                          | Inr digest \<Rightarrow>
                              Inr (s1\<lparr>wk_total := wk_total s1 + sz,
                                      wk_files := wk_files s1 @ [\<lparr>go_path = we_rel d, go_size = sz, go_sha256 = digest\<rparr>]\<rparr>)))))"

definition walk_entry ::
  "codec \<Rightarrow> generationTraversalLimits \<Rightarrow> walkEntry \<Rightarrow> walkState \<Rightarrow> gerr + walkState" where
  "walk_entry cd limits d s =
     (case we_err d of
        Some e \<Rightarrow> Inl e
      | None \<Rightarrow>
          (let s1 = s\<lparr>wk_entries := Suc (wk_entries s)\<rparr>
           in if wk_entries s1 > tl_entries limits then Inl (Msg ''workspace traversal exceeds entry limit'')
              else if length (split_on (CHR ''/'') (we_rel d)) > tl_depth limits
              then Inl (Msg ''workspace traversal exceeds depth limit'')
              else (case safeRelativePath (we_rel d) of
                      Some e \<Rightarrow> Inl e
                    | None \<Rightarrow>
                        (case we_type d of
                           Symlink \<Rightarrow>
                             (if 1 > tl_symlinks limits then Inl (Msg ''workspace traversal contains too many symlinks'')
                              else Inl (Msg ''generation contains symlink''))
                         | Directory \<Rightarrow>
                             (if Suc (wk_directories s1) > tl_directories limits
                              then Inl (Msg ''workspace traversal exceeds directory limit'')
                              else Inr (s1\<lparr>wk_directories := Suc (wk_directories s1)\<rparr>))
                         | Special \<Rightarrow>
                             (if 1 > tl_non_regular limits
                              then Inl (Msg ''workspace traversal contains too many non-regular entries'')
                              else Inl (Msg ''generation contains special file''))
                         | Regular \<Rightarrow> regular_file cd limits d s1))))"

fun walk_generation ::
  "codec \<Rightarrow> generationTraversalLimits \<Rightarrow> walkEntry list \<Rightarrow> walkState \<Rightarrow> gerr + walkState" where
  "walk_generation cd limits [] s = Inr s"
| "walk_generation cd limits (d # ds) s =
     (case walk_entry cd limits d s of
        Inl e \<Rightarrow> Inl e
      | Inr s' \<Rightarrow> walk_generation cd limits ds s')"

definition required_outputs :: "string list" where
  "required_outputs = [''synto.toml'', ''cache/id_map.json'', ''cache/concepts.jsonl'', ''cache/dormant_concepts.jsonl'',
     ''cache/raw_status.json'', ''cache/suggested_queries.json'', ''.synto/state.db'', ''.synto/INDEX.json'']"

fun check_states :: "(string \<Rightarrow> gerr + string) \<Rightarrow> workspace \<Rightarrow> string list \<Rightarrow> string list \<Rightarrow> gerr option" where
  "check_states quick ws seen [] = None"
| "check_states quick ws seen (state # states) =
     (if state \<in> set seen then
        (case validateSQLiteArtifact quick ws state of
           Some e \<Rightarrow> Some (Wrapped ''invalid state'' e)
         | None \<Rightarrow> check_states quick ws seen states)
      else check_states quick ws seen states)"

definition preflightGenerationOutputsWithLimits ::
  "sourceEnv \<Rightarrow> (string \<Rightarrow> gerr + string) \<Rightarrow> generationTraversalLimits \<Rightarrow> walkEntry list \<Rightarrow> workspace
   \<Rightarrow> gerr + generationOutput list" where
  "preflightGenerationOutputsWithLimits env quick limits entries ws =
     (case walk_generation (se_codec env) limits entries start_walk of
        Inl e \<Rightarrow> Inl e
      | Inr s \<Rightarrow>
          (let files = wk_files s; seen = map go_path files
           in if \<not> list_all (\<lambda>r. r \<in> set seen) required_outputs then Inl (Msg ''generation output is incomplete'')
              else if (''wiki.toml'' \<in> set seen) \<noteq> (''.olw/state.db'' \<in> set seen)
              then Inl (Msg ''migrated generation rollback artifacts are incomplete'')
              else (case check_states quick ws seen [''.synto/state.db'', ''.olw/state.db''] of
                      Some e \<Rightarrow> Inl e
                    | None \<Rightarrow>
                        (case readSyntoIndexTruth env ws of
                           Inl e \<Rightarrow> Inl (Msg ''invalid .synto/INDEX.json'')
                         | Inr _ \<Rightarrow> Inr (sort_by (\<lambda>a b. go_path a < go_path b) files)))))"

definition preflightGenerationOutputs ::
  "sourceEnv \<Rightarrow> (string \<Rightarrow> gerr + string) \<Rightarrow> walkEntry list \<Rightarrow> workspace \<Rightarrow> gerr + generationOutput list" where
  "preflightGenerationOutputs env quick entries ws =
     preflightGenerationOutputsWithLimits env quick defaultGenerationTraversalLimits entries ws"

definition generationOutputFiles ::
  "sourceEnv \<Rightarrow> (string \<Rightarrow> gerr + string) \<Rightarrow> walkEntry list \<Rightarrow> workspace \<Rightarrow> gerr + string list" where
  "generationOutputFiles env quick entries ws = map_sum id (map go_path) (preflightGenerationOutputs env quick entries ws)"

section \<open>Uploading and committing\<close>

record 'w publishEnv = "'w cloudEnv" +
  pe_quick :: "string \<Rightarrow> gerr + string"
  pe_marshal :: "json \<Rightarrow> string"
  pe_now :: string
  pe_random :: "gerr + string"

definition newGenerationID :: "gerr + string \<Rightarrow> gerr + string" where
  "newGenerationID random = map_sum id (\<lambda>b. ''g_'' @ hex_encode b) random"

fun upload_files ::
  "'w publishEnv \<Rightarrow> string \<Rightarrow> workspace \<Rightarrow> string \<Rightarrow> generationOutput list \<Rightarrow> gfile list \<Rightarrow> 'w
   \<Rightarrow> (gerr + gfile list) \<times> 'w" where
  "upload_files env prefix ws i [] files w = (Inr files, w)"
| "upload_files env prefix ws i (f # fs) files w =
     (case map_of ws (go_path f) of
        None \<Rightarrow> (Inl (annotate errCloudGenerationOutputRead (Msg ''file does not exist'')), w)
      | Some b \<Rightarrow>
          (let digest = sha256 (se_codec (ce_sources env)) b
           in if int (length b) \<noteq> go_size f \<or> digest \<noteq> go_sha256 f
              then (Inl (Msg ''generation output changed after validation''), w)
              else (case st_write (ce_store env) (prefix @ GenPrefix @ i @ ''/'' @ go_path f) b [(''sha256'', digest)] createOnly w of
                      (Inl e, w') \<Rightarrow> (Inl (annotate errCloudGenerationUpload e), w')
                    | (Inr a, w') \<Rightarrow>
                        (if a_size a \<noteq> go_size f \<or> map_get_or '''' (a_metadata a) ''sha256'' \<noteq> go_sha256 f \<or>
                            a_generation a \<le> 0
                         then (Inl (annotate errCloudGenerationUpload (Msg ''upload attrs mismatch'')), w')
                         else upload_files env prefix ws i fs
                                (files @ [\<lparr>f_path = go_path f, f_size = go_size f, f_sha256 = go_sha256 f,
                                           f_generation = a_generation a\<rparr>]) w'))))"

text \<open>\<open>confirmManifestCommit\<close>: whether the manifest object is the proposed one, or unknown.\<close>

definition confirmManifestCommit ::
  "'w publishEnv \<Rightarrow> string \<Rightarrow> string \<Rightarrow> manifest \<Rightarrow> 'w \<Rightarrow> (gerr + (bool \<times> objectAttrs)) \<times> 'w" where
  "confirmManifestCommit env prefix proposed m w =
     (case st_read (ce_store env) (prefix @ ManifestPath) 0 (int MaxManifestBytes) w of
        (Inl e, w') \<Rightarrow>
          (if isObjectNotFound e then (Inr (False, no_attrs), w')
           else (Inl (Sentinel errManifestCommitOutcomeUnknown), w'))
      | (Inr (data, attrs), w') \<Rightarrow>
          (if data = proposed then (Inr (True, attrs), w')
           else (case Decode (rfc3339 (se_codec (ce_sources env))) (se_parse (ce_sources env)) data of
                   Inl e \<Rightarrow> (Inr (False, no_attrs), w')
                 | Inr readback \<Rightarrow>
                     (if readback \<noteq> m then (Inr (False, no_attrs), w') else (Inr (True, attrs), w')))))"

definition manifest_for :: "'w publishEnv \<Rightarrow> string \<Rightarrow> string \<Rightarrow> sourceSnapshot list \<Rightarrow> gfile list \<Rightarrow> manifest" where
  "manifest_for env i old snapshots files =
     \<lparr>m_version = ManifestVersion, m_generation_id = i, m_previous = old, m_created_at = pe_now env,
      m_input_fingerprint = snapshotFingerprint (sha256 (se_codec (ce_sources env))) snapshots,
      m_files = sort_by (\<lambda>a b. f_path a < f_path b) files\<rparr>"

definition commit_manifest ::
  "'w publishEnv \<Rightarrow> string \<Rightarrow> manifest \<Rightarrow> objectConditions \<Rightarrow> 'w \<Rightarrow> (gerr + (manifest \<times> int)) \<times> 'w" where
  "commit_manifest env prefix m condition w =
     (let data = pe_marshal env (manifest_to_json m)
      in case st_write (ce_store env) (prefix @ ManifestPath) data
                [(''sha256'', sha256 (se_codec (ce_sources env)) data)] condition w of
           (Inr a, w') \<Rightarrow> (Inr (m, a_generation a), w')
         | (Inl e, w') \<Rightarrow>
             (case confirmManifestCommit env prefix data m w' of
                (Inr (True, attrs), w'') \<Rightarrow> (Inr (m, a_generation attrs), w'')
              | (Inr (False, _), w'') \<Rightarrow>
                  (Inl (Wrapped ''generation manifest commit conflicted'' (Sentinel errObjectGenerationConflict)), w'')
              | (Inl outcome, w'') \<Rightarrow>
                  (if errors_is outcome errManifestCommitOutcomeUnknown
                   then (Inl (Sentinel errManifestCommitOutcomeUnknown), w'')
                   else (Inl (Wrapped ''generation manifest commit conflicted'' (Sentinel errObjectGenerationConflict)), w''))))"

definition publishCloudGenerationWithFiles ::
  "'w publishEnv \<Rightarrow> string \<Rightarrow> workspace \<Rightarrow> sourceSnapshot list \<Rightarrow> generationOutput list \<Rightarrow> string \<Rightarrow> objectAttrs \<Rightarrow> bool \<Rightarrow> 'w
   \<Rightarrow> (gerr + (manifest \<times> int)) \<times> 'w" where
  "publishCloudGenerationWithFiles env prefix ws snapshots files oldData oldAttrs oldExists w =
     (case (if oldExists
            then map_sum id m_generation_id (Decode (rfc3339 (se_codec (ce_sources env))) (se_parse (ce_sources env)) oldData)
            else Inr '''') of
        Inl e \<Rightarrow> (Inl (Msg ''invalid generation manifest''), w)
      | Inr old \<Rightarrow>
          (case newGenerationID (pe_random env) of
             Inl e \<Rightarrow> (Inl e, w)
           | Inr i \<Rightarrow>
               (case upload_files env prefix ws i files [] w of
                  (Inl e, w1) \<Rightarrow> (Inl e, w1)
                | (Inr uploaded, w1) \<Rightarrow>
                    (let m = manifest_for env i old snapshots uploaded
                     in case Validate (rfc3339 (se_codec (ce_sources env))) m of
                          Inl e \<Rightarrow> (Inl (Msg ''invalid generation manifest''), w1)
                        | Inr _ \<Rightarrow>
                            commit_manifest env prefix m
                              (if oldExists then matchGeneration (a_generation oldAttrs) else createOnly) w1))))"

definition publishCloudGenerationFromStart ::
  "'w publishEnv \<Rightarrow> string \<Rightarrow> walkEntry list \<Rightarrow> workspace \<Rightarrow> sourceSnapshot list \<Rightarrow> string \<Rightarrow> objectAttrs \<Rightarrow> bool \<Rightarrow> 'w
   \<Rightarrow> (gerr + (manifest \<times> int)) \<times> 'w" where
  "publishCloudGenerationFromStart env prefix entries ws snapshots oldData oldAttrs oldExists w =
     (case preflightGenerationOutputs (ce_sources env) (pe_quick env) entries ws of
        Inl e \<Rightarrow> (Inl (Wrapped ''generation output validation failed'' e), w)
      | Inr files \<Rightarrow> publishCloudGenerationWithFiles env prefix ws snapshots files oldData oldAttrs oldExists w)"

definition publishCloudGeneration ::
  "'w publishEnv \<Rightarrow> string \<Rightarrow> walkEntry list \<Rightarrow> workspace \<Rightarrow> sourceSnapshot list \<Rightarrow> 'w \<Rightarrow> (gerr + (manifest \<times> int)) \<times> 'w" where
  "publishCloudGeneration env prefix entries ws snapshots w =
     (case preflightGenerationOutputs (ce_sources env) (pe_quick env) entries ws of
        Inl e \<Rightarrow> (Inl (Wrapped ''generation output validation failed'' e), w)
      | Inr files \<Rightarrow>
          (case st_read (ce_store env) (prefix @ ManifestPath) 0 (int MaxManifestBytes) w of
             (Inl e, w1) \<Rightarrow>
               (if isObjectNotFound e then publishCloudGenerationWithFiles env prefix ws snapshots files '''' no_attrs False w1
                else (Inl e, w1))
           | (Inr (oldData, oldAttrs), w1) \<Rightarrow>
               publishCloudGenerationWithFiles env prefix ws snapshots files oldData oldAttrs True w1))"

section \<open>What an upload leaves in the store\<close>

definition generation_dir :: "string \<Rightarrow> string \<Rightarrow> string" where
  "generation_dir prefix i = prefix @ GenPrefix @ i @ ''/''"

text \<open>A file of a manifest is stored when its object holds the workspace's bytes at its generation.\<close>

definition stored_file :: "codec \<Rightarrow> workspace \<Rightarrow> string \<Rightarrow> string \<Rightarrow> contents \<Rightarrow> gfile \<Rightarrow> bool" where
  "stored_file cd ws prefix i ob f \<longleftrightarrow>
     (\<exists>b. map_of ws (f_path f) = Some b \<and> ob (generation_dir prefix i @ f_path f) = Some (b, f_generation f) \<and>
        int (length b) = f_size f \<and> sha256 cd b = f_sha256 f \<and> 0 < f_generation f)"

text \<open>Only new objects under a directory.\<close>

definition only_new_under :: "string \<Rightarrow> contents \<Rightarrow> contents \<Rightarrow> bool" where
  "only_new_under dir ob ob' \<longleftrightarrow> (\<forall>n. ob n = ob' n \<or> has_prefix n dir \<and> ob n = None)"

lemma only_new_under_refl [simp]: "only_new_under dir ob ob"
  by (simp add: only_new_under_def)

lemma only_new_under_trans: "only_new_under dir a b \<Longrightarrow> only_new_under dir b c \<Longrightarrow> only_new_under dir a c"
  unfolding only_new_under_def by metis

lemma only_new_under_keeps: "only_new_under dir a b \<Longrightarrow> a n = Some x \<Longrightarrow> b n = Some x"
  unfolding only_new_under_def by (metis option.distinct(1))

lemma stored_file_keeps:
  "stored_file cd ws prefix i a f \<Longrightarrow> only_new_under dir a b \<Longrightarrow> stored_file cd ws prefix i b f"
  unfolding stored_file_def using only_new_under_keeps by metis

definition output_of :: "gfile \<Rightarrow> generationOutput" where
  "output_of f = \<lparr>go_path = f_path f, go_size = f_size f, go_sha256 = f_sha256 f\<rparr>"

text \<open>What the commit leaves: the manifest object, and why an error means that nothing was committed.\<close>

definition committed :: "'w publishEnv \<Rightarrow> string \<Rightarrow> manifest \<Rightarrow> int \<Rightarrow> contents \<Rightarrow> bool" where
  "committed env prefix m g ob \<longleftrightarrow>
     (\<exists>d. ob (prefix @ ManifestPath) = Some (d, g) \<and>
        (d = pe_marshal env (manifest_to_json m) \<or>
         Decode (rfc3339 (se_codec (ce_sources env))) (se_parse (ce_sources env)) d = Inr m))"

text \<open>
  Publishing as a whole: on success the manifest is committed over exactly the manifest object the
  worker started from (or it was already there), it validates, and each of its files is stored; on
  any error but the unknown outcome the manifest object is as before; nothing else is touched but
  new objects in the directory of the new generation.
\<close>

definition publish_outcome ::
  "'w publishEnv \<Rightarrow> string \<Rightarrow> workspace \<Rightarrow> sourceSnapshot list \<Rightarrow> generationOutput list \<Rightarrow> objectConditions
   \<Rightarrow> contents \<Rightarrow> (gerr + (manifest \<times> int)) \<Rightarrow> contents \<Rightarrow> bool" where
  "publish_outcome env prefix ws snapshots files condition ob r ob' \<longleftrightarrow>
     (case r of
        Inr (m, g) \<Rightarrow>
          committed env prefix m g ob' \<and> Validate (rfc3339 (se_codec (ce_sources env))) m = Inr () \<and>
          newGenerationID (pe_random env) = Inr (m_generation_id m) \<and> mset (map output_of (m_files m)) = mset files \<and>
          list_all (stored_file (se_codec (ce_sources env)) ws prefix (m_generation_id m) ob') (m_files m) \<and>
          (precondition condition (ob (prefix @ ManifestPath)) \<or> ob' (prefix @ ManifestPath) = ob (prefix @ ManifestPath))
      | Inl e \<Rightarrow> errors_is e errManifestCommitOutcomeUnknown \<or> ob' (prefix @ ManifestPath) = ob (prefix @ ManifestPath)) \<and>
     (ob' = ob \<or> (\<exists>i. newGenerationID (pe_random env) = Inr i \<and>
        (\<forall>n. n \<noteq> prefix @ ManifestPath \<longrightarrow> ob' n = ob n \<or> has_prefix n (generation_dir prefix i) \<and> ob n = None)))"

lemma manifest_outside: "\<not> has_prefix (prefix @ ManifestPath) (generation_dir prefix i)"
  by (simp add: generation_dir_def GenPrefix_def ManifestPath_def has_prefix_def)

context object_store
begin

lemma create_only_under:
  assumes "inv w" and "st_write st n d md createOnly w = (r, w')" and "has_prefix n dir"
  shows "inv w' \<and> only_new_under dir (obj w) (obj w')"
proof (cases r)
  case (Inl e)
  then have "inv w' \<and> (obj w' = obj w \<or> precondition createOnly (obj w n) \<and> (\<exists>i. obj w' = (obj w)(n \<mapsto> (d, i))))"
    using write_error assms(1,2) by blast
  then show ?thesis using assms(3) by (cases "obj w n") (auto simp: only_new_under_def split: if_splits)
next
  case (Inr a)
  then have "inv w' \<and> precondition createOnly (obj w n) \<and> obj w' = (obj w)(n \<mapsto> (d, a_generation a))"
    using write_ok assms(1,2) by blast
  then show ?thesis using assms(3) by (cases "obj w n") (auto simp: only_new_under_def)
qed

lemma upload_files_frame:
  assumes "upload_files env prefix ws i fs files w = (r, w')" and "inv w" and "ce_store env = st"
  shows "inv w' \<and> only_new_under (generation_dir prefix i) (obj w) (obj w')"
  using assms
proof (induction fs arbitrary: files w)
  case Nil
  then show ?case by simp
next
  case (Cons f fs)
  show ?case
  proof (cases "map_of ws (go_path f)")
    case None
    then show ?thesis using Cons.prems by simp
  next
    case (Some b)
    let ?digest = "sha256 (se_codec (ce_sources env)) b" and ?n = "prefix @ GenPrefix @ i @ ''/'' @ go_path f"
    obtain rw w1 where wr: "st_write st ?n b [(''sha256'', ?digest)] createOnly w = (rw, w1)" by fastforce
    have "has_prefix ?n (generation_dir prefix i)" by (simp add: generation_dir_def has_prefix_iff)
    then have w1: "inv w1 \<and> only_new_under (generation_dir prefix i) (obj w) (obj w1)"
      using create_only_under [OF Cons.prems(2) wr] by blast
    show ?thesis
    proof (cases rw)
      case (Inl e)
      then show ?thesis using Cons.prems Some wr w1 by (auto simp: Let_def split: if_splits)
    next
      case (Inr a)
      show ?thesis
      proof (cases "w' = w \<or> w' = w1")
        case True
        then show ?thesis using w1 Cons.prems(2) by auto
      next
        case False
        then obtain files' where "upload_files env prefix ws i fs files' w1 = (r, w')"
          using Cons.prems Some wr Inr by (auto simp: Let_def split: if_splits)
        then show ?thesis using Cons.IH [of files' w1] Cons.prems(3) w1 only_new_under_trans by blast
      qed
    qed
  qed
qed

lemma upload_files_ok:
  assumes "upload_files env prefix ws i fs files w = (Inr out, w')" and "inv w" and "ce_store env = st"
    and "list_all (stored_file (se_codec (ce_sources env)) ws prefix i (obj w)) files"
  shows "list_all (stored_file (se_codec (ce_sources env)) ws prefix i (obj w')) out \<and>
    map output_of out = map output_of files @ fs"
  using assms
proof (induction fs arbitrary: files w)
  case Nil
  then show ?case by simp
next
  case (Cons f fs)
  obtain b where b: "map_of ws (go_path f) = Some b" using Cons.prems(1) by (cases "map_of ws (go_path f)") auto
  let ?cd = "se_codec (ce_sources env)"
  let ?n = "prefix @ GenPrefix @ i @ ''/'' @ go_path f"
  have same: "int (length b) = go_size f" "sha256 ?cd b = go_sha256 f"
    using Cons.prems(1) b by (auto simp: Let_def split: if_splits)
  obtain a w1 where wr: "st_write st ?n b [(''sha256'', sha256 ?cd b)] createOnly w = (Inr a, w1)"
    using Cons.prems(1,3) b same by (auto simp: Let_def split: if_splits sum.splits prod.splits)
  let ?g = "\<lparr>f_path = go_path f, f_size = go_size f, f_sha256 = go_sha256 f, f_generation = a_generation a\<rparr>"
  have gen: "0 < a_generation a"
    and rec: "upload_files env prefix ws i fs (files @ [?g]) w1 = (Inr out, w')"
    using Cons.prems(1,3) b same wr by (auto simp: Let_def split: if_splits)
  have n: "has_prefix ?n (generation_dir prefix i)" "?n = generation_dir prefix i @ go_path f"
    by (simp_all add: generation_dir_def has_prefix_iff)
  have w1: "inv w1" "only_new_under (generation_dir prefix i) (obj w) (obj w1)"
    using create_only_under [OF Cons.prems(2) wr n(1)] by blast+
  have "obj w1 ?n = Some (b, a_generation a)" using create_only_ok [OF Cons.prems(2) wr] by blast
  then have "stored_file ?cd ws prefix i (obj w1) ?g"
    using b same gen by (simp add: stored_file_def n(2) [symmetric])
  moreover have "list_all (stored_file ?cd ws prefix i (obj w1)) files"
    using Cons.prems(4) stored_file_keeps [OF _ w1(2)] by (auto simp: list_all_iff)
  ultimately show ?case using Cons.IH [OF rec w1(1) Cons.prems(3)] by (simp add: output_of_def)
qed

lemma confirm_ok:
  assumes "confirmManifestCommit env prefix proposed m w = (r, w')" and "inv w" and "ce_store env = st"
    and "proposed = pe_marshal env (manifest_to_json m)"
  shows "inv w' \<and> obj w' = obj w \<and>
    (case r of
       Inr (True, attrs) \<Rightarrow> committed env prefix m (a_generation attrs) (obj w)
     | Inr (False, _) \<Rightarrow> (\<forall>g. obj w (prefix @ ManifestPath) \<noteq> Some (proposed, g))
     | Inl e \<Rightarrow> errors_is e errManifestCommitOutcomeUnknown)"
proof -
  obtain rd w1 where rd: "st_read st (prefix @ ManifestPath) 0 (int MaxManifestBytes) w = (rd, w1)" by fastforce
  have w1: "inv w1" "obj w1 = obj w" using read_frame [OF assms(2) rd] by blast+
  show ?thesis
  proof (cases rd)
    case (Inl e)
    then have "isObjectNotFound e \<Longrightarrow> obj w (prefix @ ManifestPath) = None"
      using read_missing [OF assms(2)] rd by simp
    then show ?thesis using assms(1,3) rd w1 Inl by (auto simp: confirmManifestCommit_def split: if_splits)
  next
    case (Inr p)
    obtain data attrs where p: "p = (data, attrs)" by (cases p)
    have "obj w (prefix @ ManifestPath) = Some (data, a_generation attrs)"
      using read_ok [OF assms(2)] rd Inr p by blast
    then show ?thesis using assms(1,3,4) rd w1 Inr p
      by (auto simp: confirmManifestCommit_def committed_def split: if_splits sum.splits)
  qed
qed

lemma commit_ok:
  assumes "commit_manifest env prefix m condition w = (r, w')" and "inv w" and "ce_store env = st"
  shows "inv w' \<and> (\<forall>n. n \<noteq> prefix @ ManifestPath \<longrightarrow> obj w' n = obj w n) \<and>
    (case r of
       Inr (m', g) \<Rightarrow> m' = m \<and> committed env prefix m g (obj w') \<and>
         (precondition condition (obj w (prefix @ ManifestPath)) \<or> obj w' = obj w)
     | Inl e \<Rightarrow> errors_is e errManifestCommitOutcomeUnknown \<or> obj w' = obj w)"
proof -
  let ?data = "pe_marshal env (manifest_to_json m)" and ?n = "prefix @ ManifestPath"
  let ?md = "[(''sha256'', sha256 (se_codec (ce_sources env)) ?data)]"
  obtain rw w1 where wr: "st_write st ?n ?data ?md condition w = (rw, w1)" by fastforce
  have others: "n \<noteq> ?n \<Longrightarrow> obj w1 n = obj w n" for n using write_other [OF assms(2) wr] by blast
  show ?thesis
  proof (cases rw)
    case (Inr a)
    then have "inv w1 \<and> precondition condition (obj w ?n) \<and> obj w1 = (obj w)(?n \<mapsto> (?data, a_generation a))"
      using write_ok assms(2) wr by blast
    then show ?thesis using assms(1,3) wr Inr by (auto simp: commit_manifest_def committed_def Let_def)
  next
    case (Inl e)
    have w1: "inv w1" "obj w1 = obj w \<or> precondition condition (obj w ?n) \<and> (\<exists>i. obj w1 = (obj w)(?n \<mapsto> (?data, i)))"
      using write_error [OF assms(2)] wr Inl by blast+
    obtain rc w2 where cf: "confirmManifestCommit env prefix ?data m w1 = (rc, w2)" by fastforce
    note c = confirm_ok [OF cf w1(1) assms(3) refl]
    have w': "w' = w2" and r: "r = (case rc of Inr (True, attrs) \<Rightarrow> Inr (m, a_generation attrs)
        | Inr (False, _) \<Rightarrow> Inl (Wrapped ''generation manifest commit conflicted'' (Sentinel errObjectGenerationConflict))
        | Inl x \<Rightarrow> if errors_is x errManifestCommitOutcomeUnknown then Inl (Sentinel errManifestCommitOutcomeUnknown)
            else Inl (Wrapped ''generation manifest commit conflicted'' (Sentinel errObjectGenerationConflict)))"
      using assms(1,3) wr Inl cf by (auto simp: commit_manifest_def Let_def split: sum.splits bool.splits if_splits)
    show ?thesis
    proof (cases rc)
      case (Inl x)
      then show ?thesis using c w' r others by simp
    next
      case (Inr q)
      obtain b attrs where q: "q = (b, attrs)" by (cases q)
      show ?thesis
      proof (cases b)
        case True
        then show ?thesis using c w' r others w1(2) Inr q by auto
      next
        case False
        then have "\<forall>g. obj w1 ?n \<noteq> Some (?data, g)" using c Inr q by simp
        then have "obj w1 = obj w" using w1(2) by auto
        then show ?thesis using c w' r Inr q False by simp
      qed
    qed
  qed
qed

lemma publish_ok:
  assumes "publishCloudGenerationWithFiles env prefix ws snapshots files oldData oldAttrs oldExists w = (r, w')"
    and "inv w" and "ce_store env = st"
  shows "inv w' \<and> publish_outcome env prefix ws snapshots files
      (if oldExists then matchGeneration (a_generation oldAttrs) else createOnly) (obj w) r (obj w')"
proof -
  let ?cd = "se_codec (ce_sources env)" and ?mp = "prefix @ ManifestPath"
  let ?cond = "if oldExists then matchGeneration (a_generation oldAttrs) else createOnly"
  note out = publish_outcome_def
  consider "w' = w" "\<exists>e. r = Inl e" | old i where "newGenerationID (pe_random env) = Inr i"
    "(case upload_files env prefix ws i files [] w of
        (Inl e, w1) \<Rightarrow> (Inl e, w1)
      | (Inr uploaded, w1) \<Rightarrow>
          (let m = manifest_for env i old snapshots uploaded
           in case Validate (rfc3339 ?cd) m of
                Inl e \<Rightarrow> (Inl (Msg ''invalid generation manifest''), w1)
              | Inr _ \<Rightarrow> commit_manifest env prefix m ?cond w1)) = (r, w')"
    using assms(1) unfolding publishCloudGenerationWithFiles_def by (auto split: sum.splits)
  then show ?thesis
  proof cases
    case 1
    then show ?thesis using assms(2) by (auto simp: out)
  next
    case 2
    obtain ru w1 where up: "upload_files env prefix ws i files [] w = (ru, w1)" by fastforce
    have w1: "inv w1" "only_new_under (generation_dir prefix i) (obj w) (obj w1)"
      using upload_files_frame [OF up assms(2,3)] by blast+
    have mp: "obj w1 ?mp = obj w ?mp"
      using w1(2) manifest_outside unfolding only_new_under_def by metis
    have unknown: "publish_outcome env prefix ws snapshots files ?cond (obj w) (Inl e) (obj w1)" for e
      using w1(2) mp 2(1) unfolding only_new_under_def out by simp metis
    show ?thesis
    proof (cases ru)
      case (Inl e)
      then have "r = Inl e" "w' = w1" using 2(2) up by simp_all
      then show ?thesis using w1(1) unknown by blast
    next
      case (Inr uploaded)
      let ?m = "manifest_for env i old snapshots uploaded"
      have st: "list_all (stored_file ?cd ws prefix i (obj w1)) uploaded" "map output_of uploaded = files"
        using upload_files_ok [OF up [unfolded Inr] assms(2,3)] by simp_all
      show ?thesis
      proof (cases "Validate (rfc3339 ?cd) ?m")
        case (Inl e)
        then have "r = Inl (Msg ''invalid generation manifest'')" "w' = w1"
          using 2(2) up \<open>ru = Inr uploaded\<close> by (simp_all add: Let_def)
        then show ?thesis using w1(1) unknown by blast
      next
        case (Inr u)
        then have cm: "commit_manifest env prefix ?m ?cond w1 = (r, w')"
          using 2(2) up \<open>ru = Inr uploaded\<close> by (simp add: Let_def)
        note c = commit_ok [OF cm w1(1) assms(3)]
        have only: "\<forall>n. n \<noteq> ?mp \<longrightarrow> obj w' n = obj w n \<or> has_prefix n (generation_dir prefix i) \<and> obj w n = None"
          using c w1(2) unfolding only_new_under_def by metis
        show ?thesis
        proof (cases r)
          case (Inl e)
          then show ?thesis using c only mp 2(1) by (auto simp: out)
        next
          case (Inr mg)
          obtain g where mg: "r = Inr (?m, g)" using c Inr by (cases mg) auto
          have "stored_file ?cd ws prefix i (obj w') f" if "f \<in> set (m_files ?m)" for f
          proof -
            have f: "stored_file ?cd ws prefix i (obj w1) f" using st that by (auto simp: manifest_for_def list_all_iff)
            have "generation_dir prefix i @ f_path f \<noteq> ?mp"
              using manifest_outside [of prefix i] by (metis has_prefix_iff)
            then show ?thesis using f c by (simp add: stored_file_def)
          qed
          moreover have "mset (map output_of (m_files ?m)) = mset files"
            using arg_cong [OF st(2), of mset] by (simp add: manifest_for_def)
          ultimately show ?thesis
            using c mg only mp 2(1) \<open>Validate (rfc3339 ?cd) ?m = Inr u\<close>
            by (auto simp: out manifest_for_def list_all_iff)
        qed
      qed
    qed
  qed
qed

end
section \<open>What the preflight guarantees\<close>

definition owned_regular :: "walkEntry \<Rightarrow> bool" where
  "owned_regular d \<longleftrightarrow> we_type d = Regular \<and> GenerationOwned (we_rel d)"

definition output_entry :: "codec \<Rightarrow> walkEntry \<Rightarrow> generationOutput \<Rightarrow> bool" where
  "output_entry cd d f \<longleftrightarrow> go_path f = we_rel d \<and> GenerationOwned (go_path f) \<and> go_size f \<le> MaxFileBytes \<and>
     (\<exists>b. we_data d = Inr b \<and> int (length b) = go_size f \<and> sha256 cd b = go_sha256 f)"

definition walk_step :: "codec \<Rightarrow> walkEntry list \<Rightarrow> walkState \<Rightarrow> walkState \<Rightarrow> bool" where
  "walk_step cd ds s s' \<longleftrightarrow>
     (\<exists>fs. wk_files s' = wk_files s @ fs \<and> list_all2 (output_entry cd) (filter owned_regular ds) fs \<and>
        wk_total s' = wk_total s + sum_list (map go_size fs) \<and>
        (wk_total s \<le> MaxTotalSize \<longrightarrow> wk_total s' \<le> MaxTotalSize) \<and>
        (length (wk_files s) \<le> MaxFiles \<longrightarrow> length (wk_files s') \<le> MaxFiles))"

lemma regular_file_step:
  assumes "regular_file cd limits d s = Inr s'" and "we_type d = Regular"
  shows "walk_step cd [d] s s'"
proof -
  obtain sz where sz: "we_info d = Inr sz" using assms(1) by (auto simp: regular_file_def split: sum.splits)
  show ?thesis
  proof (cases "GenerationOwned (we_rel d)")
    case False
    then show ?thesis using assms sz
      by (auto simp: regular_file_def walk_step_def owned_regular_def Let_def split: if_splits)
  next
    case True
    obtain b where b: "we_data d = Inr b" "int (length b) = sz"
      and c: "sz \<le> MaxFileBytes" "length (wk_files s) < MaxFiles" "wk_total s + sz \<le> MaxTotalSize"
      and s': "wk_files s' = wk_files s @ [\<lparr>go_path = we_rel d, go_size = sz, go_sha256 = sha256 cd b\<rparr>]"
        "wk_total s' = wk_total s + sz"
      using assms(1) sz True
      by (auto simp: regular_file_def Let_def digestGenerationFile_def split: if_splits sum.splits)
    then show ?thesis using True assms(2)
      unfolding walk_step_def
      by (intro exI [of _ "[\<lparr>go_path = we_rel d, go_size = sz, go_sha256 = sha256 cd b\<rparr>]"])
        (simp add: owned_regular_def output_entry_def)
  qed
qed

lemma walk_entry_step:
  assumes "walk_entry cd limits d s = Inr s'"
  shows "walk_step cd [d] s s'"
proof (cases "we_type d = Regular")
  case True
  then have "regular_file cd limits d (s\<lparr>wk_entries := Suc (wk_entries s)\<rparr>) = Inr s'"
    using assms by (auto simp: walk_entry_def Let_def split: option.splits if_splits)
  then have "walk_step cd [d] (s\<lparr>wk_entries := Suc (wk_entries s)\<rparr>) s'" using True by (rule regular_file_step)
  then show ?thesis by (simp add: walk_step_def)
next
  case False
  then have "wk_files s' = wk_files s" "wk_total s' = wk_total s"
    using assms by (auto simp: walk_entry_def Let_def split: option.splits if_splits entryType.splits)
  then show ?thesis using False by (simp add: walk_step_def owned_regular_def)
qed

lemma walk_step_trans:
  assumes "walk_step cd [d] s s1" and "walk_step cd ds s1 s2"
  shows "walk_step cd (d # ds) s s2"
proof -
  obtain fs gs where "wk_files s1 = wk_files s @ fs" "list_all2 (output_entry cd) (filter owned_regular [d]) fs"
    "wk_total s1 = wk_total s + sum_list (map go_size fs)"
    "wk_files s2 = wk_files s1 @ gs" "list_all2 (output_entry cd) (filter owned_regular ds) gs"
    "wk_total s2 = wk_total s1 + sum_list (map go_size gs)"
    using assms unfolding walk_step_def by blast
  moreover from this have "list_all2 (output_entry cd) (filter owned_regular (d # ds)) (fs @ gs)"
    using list_all2_appendI [of "output_entry cd" "filter owned_regular [d]" fs] by (simp split: if_splits)
  ultimately show ?thesis using assms unfolding walk_step_def
    by (intro exI [of _ "fs @ gs"]) auto
qed

lemma walk_generation_step: "walk_generation cd limits ds s = Inr s' \<Longrightarrow> walk_step cd ds s s'"
proof (induction ds arbitrary: s)
  case Nil
  then show ?case by (simp add: walk_step_def)
next
  case (Cons d ds)
  then obtain s1 where "walk_entry cd limits d s = Inr s1" "walk_generation cd limits ds s1 = Inr s'"
    by (auto split: sum.splits)
  then show ?case using Cons.IH walk_entry_step walk_step_trans by metis
qed

text \<open>The table of outputs: what the preflight promises of it.\<close>

definition output_table :: "codec \<Rightarrow> walkEntry list \<Rightarrow> generationOutput list \<Rightarrow> bool" where
  "output_table cd entries files \<longleftrightarrow>
     mset (map go_path files) = mset (map we_rel (filter owned_regular entries)) \<and>
     sorted_wrt (\<lambda>a b. go_path a \<le> go_path b) files \<and>
     (\<forall>f\<in>set files. \<exists>d\<in>set entries. owned_regular d \<and> output_entry cd d f) \<and>
     length files \<le> MaxFiles \<and> sum_list (map go_size files) \<le> MaxTotalSize"

lemma sum_list_insert_by: "sum_list (map f (insert_by lt x ys)) = f x + sum_list (map f ys)" for f :: "'a \<Rightarrow> int"
  by (induction ys) auto

lemma sum_list_sort_by: "sum_list (map f (sort_by lt xs)) = sum_list (map f xs)" for f :: "'a \<Rightarrow> int"
  by (induction xs) (simp_all add: sum_list_insert_by)

lemma output_tableD:
  "output_table cd entries files \<Longrightarrow> f \<in> set files \<Longrightarrow> \<exists>d\<in>set entries. owned_regular d \<and> output_entry cd d f"
  by (simp add: output_table_def)

lemma list_all2_paths: "list_all2 (output_entry cd) ds fs \<Longrightarrow> map go_path fs = map we_rel ds"
  by (induction rule: list_all2_induct) (simp_all add: output_entry_def)

lemma walk_output_table:
  assumes "walk_generation cd limits entries start_walk = Inr s"
  shows "output_table cd entries (sort_by (\<lambda>a b. go_path a < go_path b) (wk_files s))"
proof -
  let ?sorted = "sort_by (\<lambda>a b. go_path a < go_path b) (wk_files s)"
  have "walk_step cd entries start_walk s" by (rule walk_generation_step [OF assms])
  then have w: "list_all2 (output_entry cd) (filter owned_regular entries) (wk_files s)"
    "sum_list (map go_size (wk_files s)) \<le> MaxTotalSize" "length (wk_files s) \<le> MaxFiles"
    by (auto simp: walk_step_def start_walk_def MaxTotalSize_def)
  have "mset (map go_path ?sorted) = mset (map we_rel (filter owned_regular entries))"
    using list_all2_paths [OF w(1)] by (metis mset_map mset_sort_by)
  moreover have "sorted_wrt (\<lambda>a b. go_path a \<le> go_path b) ?sorted"
    using key_less.sorted_sort_by [of go_path "wk_files s"] by (simp add: not_less)
  moreover have "\<exists>d\<in>set entries. owned_regular d \<and> output_entry cd d f" if "f \<in> set ?sorted" for f
  proof -
    have "f \<in> set (wk_files s)" using that by simp
    then obtain k where "k < length (wk_files s)" "f = wk_files s ! k" unfolding in_set_conv_nth by blast
    then have k: "output_entry cd (filter owned_regular entries ! k) f" "k < length (filter owned_regular entries)"
      using w(1) by (auto simp: list_all2_conv_all_nth)
    have "filter owned_regular entries ! k \<in> set (filter owned_regular entries)" by (rule nth_mem [OF k(2)])
    then show ?thesis using k(1) by (intro bexI [of _ "filter owned_regular entries ! k"]) auto
  qed
  moreover have "sum_list (map go_size ?sorted) = sum_list (map go_size (wk_files s))"
    by (rule sum_list_sort_by)
  ultimately show ?thesis using w(2,3) by (simp add: output_table_def)
qed

lemma preflight_ok:
  assumes "preflightGenerationOutputsWithLimits env quick limits entries ws = Inr files"
  shows "output_table (se_codec env) entries files \<and> set required_outputs \<subseteq> go_path ` set files"
proof -
  obtain s where s: "walk_generation (se_codec env) limits entries start_walk = Inr s"
    and f: "files = sort_by (\<lambda>a b. go_path a < go_path b) (wk_files s)"
    and r: "list_all (\<lambda>r. r \<in> set (map go_path (wk_files s))) required_outputs"
    using assms by (auto simp: preflightGenerationOutputsWithLimits_def Let_def split: sum.splits if_splits option.splits)
  show ?thesis using walk_output_table [OF s] r unfolding f by (auto simp: list_all_iff)
qed

text \<open>
  C21. A preflight that passes delivers the complete table of the outputs: exactly the owned regular
  files the walk met, in the order of their paths, each with the size and digest of what was read,
  no more than the limits of a manifest allow, and with every required output among them; a
  workspace with a symbolic link or a special file never passes.
\<close>

theorem preflight_complete:
  "case preflightGenerationOutputsWithLimits env quick limits entries ws of
     Inl e \<Rightarrow> True
   | Inr files \<Rightarrow>
       output_table (se_codec env) entries files \<and> set required_outputs \<subseteq> go_path ` set files \<and>
       list_all (\<lambda>d. we_type d = Directory \<or> we_type d = Regular) entries \<and> length entries \<le> tl_entries limits"
proof (cases "preflightGenerationOutputsWithLimits env quick limits entries ws")
  case (Inr files)
  obtain s where s: "walk_generation (se_codec env) limits entries start_walk = Inr s"
    using Inr by (auto simp: preflightGenerationOutputsWithLimits_def split: sum.splits)
  have "list_all (\<lambda>d. we_type d = Directory \<or> we_type d = Regular) ds \<and> wk_entries s2 = wk_entries s1 + length ds \<and>
      (ds = [] \<or> wk_entries s2 \<le> tl_entries limits)"
    if "walk_generation (se_codec env) limits ds s1 = Inr s2" for ds s1 s2
    using that
  proof (induction ds arbitrary: s1)
    case (Cons d ds)
    obtain s0 where s0: "walk_entry (se_codec env) limits d s1 = Inr s0" and rec: "walk_generation (se_codec env) limits ds s0 = Inr s2"
      using Cons.prems by (auto split: sum.splits)
    have "(we_type d = Directory \<or> we_type d = Regular) \<and> wk_entries s0 = Suc (wk_entries s1) \<and> wk_entries s0 \<le> tl_entries limits"
      using s0 by (auto simp: walk_entry_def regular_file_def Let_def split: option.splits if_splits entryType.splits sum.splits)
    then show ?case using Cons.IH [OF rec] rec by (cases ds) auto
  qed simp
  from this [OF s] have "list_all (\<lambda>d. we_type d = Directory \<or> we_type d = Regular) entries" "length entries \<le> tl_entries limits"
    by (cases entries; auto simp: start_walk_def)+
  then show ?thesis using Inr preflight_ok [OF Inr] by simp
qed simp

section \<open>A generation identifier is safe\<close>

lemma hex_char_id: "n < 16 \<Longrightarrow> id_char (hex_char n)"
  by (auto simp: hex_char_def id_char_def byte_in_def)

lemma hex_encode_facts: "length (hex_encode bs) = 2 * length bs \<and> list_all id_char (hex_encode bs)"
proof (induction bs)
  case (Cons b bs)
  have "(of_char b :: nat) div 16 < 16" "(of_char b :: nat) mod 16 < 16"
    using less_mult_imp_div_less [of "of_char b" 16 16] nat_of_char_less_256 [of b] by simp_all
  then show ?case using Cons hex_char_id by (simp add: hex_encode_def)
qed (simp add: hex_encode_def)

lemma newGenerationID_safe:
  assumes "newGenerationID (Inr b) = Inr i" and "length b = 16"
  shows "safeGenerationID i"
proof -
  have "id_char CHR ''g''" "id_char CHR ''_''" by code_simp+
  then show ?thesis using assms hex_encode_facts [of b] by (auto simp: newGenerationID_def safeGenerationID_def)
qed

section \<open>Publishing succeeds\<close>

text \<open>The workspace has not changed since the walk.\<close>

definition walk_of :: "walkEntry list \<Rightarrow> workspace \<Rightarrow> bool" where
  "walk_of entries ws \<longleftrightarrow> distinct (map we_rel entries) \<and>
     (\<forall>d\<in>set entries. owned_regular d \<longrightarrow> map_of ws (we_rel d) = (case we_data d of Inr b \<Rightarrow> Some b | Inl _ \<Rightarrow> None))"

definition output_current :: "codec \<Rightarrow> workspace \<Rightarrow> generationOutput \<Rightarrow> bool" where
  "output_current cd ws f \<longleftrightarrow>
     (\<exists>b. map_of ws (go_path f) = Some b \<and> int (length b) = go_size f \<and> sha256 cd b = go_sha256 f)"

lemma mem_create:
  assumes "mem_obj w n = None"
  shows "\<exists>w'. st_write memoryStore n d md createOnly w =
    (Inr \<lparr>a_name = n, a_generation = mem_next w + 1, a_size = int (length d), a_metadata = md\<rparr>, w')"
  using assms by (simp add: memoryStore_def mem_Write_def mem_obj_def Let_def)

lemma upload_files_succeeds:
  assumes "mem_inv w" and "ce_store env = memoryStore" and "distinct (map go_path fs)"
    and "\<forall>f\<in>set fs. output_current (se_codec (ce_sources env)) ws f"
    and "\<forall>f\<in>set fs. mem_obj w (generation_dir prefix i @ go_path f) = None"
  shows "\<exists>out w'. upload_files env prefix ws i fs acc w = (Inr (acc @ out), w') \<and> map output_of out = fs \<and>
    list_all (\<lambda>f. 0 < f_generation f) out"
  using assms
proof (induction fs arbitrary: acc w)
  case Nil
  then show ?case by simp
next
  case (Cons f fs)
  let ?cd = "se_codec (ce_sources env)"
  obtain b where b: "map_of ws (go_path f) = Some b" "int (length b) = go_size f" "sha256 ?cd b = go_sha256 f"
    using Cons.prems(4) by (auto simp: output_current_def)
  let ?n = "prefix @ GenPrefix @ i @ ''/'' @ go_path f"
  have n: "?n = generation_dir prefix i @ go_path f" by (simp add: generation_dir_def)
  have none: "mem_obj w ?n = None" unfolding n using Cons.prems(5) by simp
  let ?a = "\<lparr>a_name = ?n, a_generation = mem_next w + 1, a_size = int (length b), a_metadata = [(''sha256'', sha256 ?cd b)]\<rparr>"
  obtain w1 where wr: "st_write memoryStore ?n b [(''sha256'', sha256 ?cd b)] createOnly w = (Inr ?a, w1)"
    using mem_create [OF none] by blast
  have w1: "mem_inv w1" "mem_obj w1 = (mem_obj w)(?n \<mapsto> (b, mem_next w + 1))" "0 < mem_next w + 1"
    using mem_Write_ok [OF Cons.prems(1) wr] by simp_all
  let ?g = "\<lparr>f_path = go_path f, f_size = go_size f, f_sha256 = go_sha256 f, f_generation = mem_next w + 1\<rparr>"
  have step: "upload_files env prefix ws i (f # fs) acc w = upload_files env prefix ws i fs (acc @ [?g]) w1"
    using b w1(3) Cons.prems(2) wr by (simp add: Let_def map_get_or_def)
  have fresh: "\<forall>g\<in>set fs. mem_obj w1 (generation_dir prefix i @ go_path g) = None"
    unfolding w1(2) n using Cons.prems(3,5) by (auto simp: image_iff)
  have cur: "\<forall>g\<in>set fs. output_current ?cd ws g" and dist: "distinct (map go_path fs)" using Cons.prems(3,4) by auto
  obtain out w' where "upload_files env prefix ws i fs (acc @ [?g]) w1 = (Inr ((acc @ [?g]) @ out), w')"
    "map output_of out = fs" "list_all (\<lambda>f. 0 < f_generation f) out"
    using Cons.IH [OF w1(1) Cons.prems(2) dist cur fresh, of "acc @ [?g]"] by blast
  then have "upload_files env prefix ws i (f # fs) acc w = (Inr (acc @ ?g # out), w')"
    "map output_of (?g # out) = f # fs" "list_all (\<lambda>f. 0 < f_generation f) (?g # out)"
    using step w1(3) by (simp_all add: output_of_def)
  then show ?case by (intro exI [of _ "?g # out"] exI [of _ w']) blast
qed

lemma output_table_current:
  assumes "output_table cd entries files" and "walk_of entries ws"
  shows "distinct (map go_path files) \<and> (\<forall>f\<in>set files. output_current cd ws f)"
proof -
  have "distinct (map we_rel (filter owned_regular entries))"
    using assms(2) by (auto simp: walk_of_def intro: distinct_map_filter)
  then have "distinct (map go_path files)"
    using assms(1) unfolding output_table_def by (metis mset_eq_imp_distinct_iff)
  moreover have "output_current cd ws f" if "f \<in> set files" for f
  proof -
    have "\<exists>d\<in>set entries. owned_regular d \<and> output_entry cd d f" by (rule output_tableD [OF assms(1) that])
    then obtain d where d: "d \<in> set entries" "owned_regular d" "output_entry cd d f" by blast
    then have "map_of ws (we_rel d) = (case we_data d of Inr b \<Rightarrow> Some b | Inl _ \<Rightarrow> None)"
      using assms(2) by (simp add: walk_of_def)
    then show ?thesis using d(3) by (auto simp: output_entry_def output_current_def)
  qed
  ultimately show ?thesis by blast
qed

lemma sorted_distinct_strict:
  "sorted_wrt (\<lambda>a b. f a \<le> f b) xs \<Longrightarrow> distinct (map f xs) \<Longrightarrow> sorted_wrt (<) (map f xs)" for f :: "'a \<Rightarrow> string"
  by (induction xs) (auto simp: order_le_less)

lemma published_manifest_valid:
  assumes table: "output_table cd entries files" and dist: "distinct (map go_path files)"
    and out: "map output_of uploaded = files" "list_all (\<lambda>f. 0 < f_generation f) uploaded"
    and cd: "cd = se_codec (ce_sources env)" "digest_hash cd" and now: "rfc3339 cd (pe_now env) \<noteq> None"
    and i: "safeGenerationID i" and old: "old = '''' \<or> safeGenerationID old"
  shows "Validate (rfc3339 cd) (manifest_for env i old snapshots uploaded) = Inr ()"
proof -
  let ?fs = "sort_by (\<lambda>a b. f_path a < f_path b) uploaded"
  have "file_ok f" if "f \<in> set uploaded" for f
  proof -
    have "output_of f \<in> set files" using out(1) that by auto
    then obtain d where "output_entry cd d (output_of f)" using output_tableD [OF table] by blast
    then show ?thesis using out(2) that cd(2)
      by (auto simp: file_ok_def output_entry_def output_of_def list_all_iff digest_hash_def) metis
  qed
  then have "list_all file_ok ?fs" by (simp add: list_all_iff)
  moreover have "sorted_wrt (<) (map f_path ?fs)"
  proof (rule sorted_distinct_strict)
    show "sorted_wrt (\<lambda>a b. f_path a \<le> f_path b) ?fs"
      using key_less.sorted_sort_by [of f_path uploaded] by (simp add: not_less)
    have "map f_path uploaded = map go_path files" unfolding out(1) [symmetric] by (simp add: output_of_def)
    then show "distinct (map f_path ?fs)" using dist by simp
  qed
  moreover have "'''' < f_path f" if "f \<in> set ?fs" for f
    using \<open>list_all file_ok ?fs\<close> that
    by (cases "f_path f") (auto simp: list_all_iff file_ok_def GenerationOwned_def owned_files_def has_prefix_def)
  moreover have "sum_list (map f_size ?fs) \<le> MaxTotalSize"
  proof -
    have "map f_size uploaded = map go_size files" unfolding out(1) [symmetric] by (simp add: output_of_def)
    moreover have "sum_list (map f_size ?fs) = sum_list (map f_size uploaded)"
      by (rule sum_list_sort_by)
    ultimately show ?thesis using table by (simp add: output_table_def)
  qed
  moreover have "length ?fs \<le> MaxFiles"
    using table out(1) by (metis length_map length_sort_by output_table_def)
  moreover have "trim_space (snapshotFingerprint (sha256 cd) snapshots) \<noteq> ''''"
  proof -
    have "validDigest (snapshotFingerprint (sha256 cd) snapshots)"
      using cd(2) by (simp add: snapshotFingerprint_def digest_hash_def)
    then show ?thesis by (auto simp: validDigest_def hex_decodable_def trim_space_hex)
  qed
  ultimately show ?thesis
    unfolding Validate_ok_iff using now i old cd(1) by (simp add: manifest_for_def ManifestVersion_def)
qed

text \<open>
  C3. Publishing is atomic at the manifest. Over any store that keeps its contract: when it
  succeeds, the committed manifest validates, names the new generation, lists exactly the files of
  the preflight, each stored with the bytes of the workspace at the recorded generation, and it
  replaced exactly the manifest object the run started from; when it fails, the manifest object is
  what it was, unless the error is the one that says the outcome is unknown; in every case only new
  objects under the new generation and the manifest are written.
\<close>

theorem publish_atomic:
  assumes "object_store (ce_store env) obj good known" and "good w"
  shows "case publishCloudGenerationFromStart env prefix entries ws snapshots oldData oldAttrs oldExists w of
     (r, w') \<Rightarrow> good w' \<and>
       (case preflightGenerationOutputs (ce_sources env) (pe_quick env) entries ws of
          Inl e \<Rightarrow> w' = w \<and> r = Inl (Wrapped ''generation output validation failed'' e)
        | Inr files \<Rightarrow> publish_outcome env prefix ws snapshots files
            (if oldExists then matchGeneration (a_generation oldAttrs) else createOnly) (obj w) r (obj w'))"
proof (cases "preflightGenerationOutputs (ce_sources env) (pe_quick env) entries ws")
  case (Inl e)
  then show ?thesis using assms(2) by (simp add: publishCloudGenerationFromStart_def)
next
  case (Inr files)
  obtain r w' where p: "publishCloudGenerationWithFiles env prefix ws snapshots files oldData oldAttrs oldExists w = (r, w')"
    by fastforce
  show ?thesis
    using object_store.publish_ok [OF assms(1) p assms(2) refl] p Inr by (simp add: publishCloudGenerationFromStart_def)
qed

text \<open>
  C22. Publishing succeeds. Over the in-memory store a worker whose workspace passes the preflight
  and is not changed behind its back publishes, provided the manifest object is still the one it
  started from and no object of the new generation exists: the upload, the validation of the built
  manifest and the commit never fail then.
\<close>

theorem publish_succeeds:
  assumes store: "ce_store env = memoryStore" "mem_inv w"
    and pre: "preflightGenerationOutputs (ce_sources env) (pe_quick env) entries ws = Inr files" "walk_of entries ws"
    and sha: "digest_hash (se_codec (ce_sources env))" and now: "rfc3339 (se_codec (ce_sources env)) (pe_now env) \<noteq> None"
    and rnd: "pe_random env = Inr b" "length b = 16"
    and fresh: "\<forall>n. has_prefix n (generation_dir prefix (''g_'' @ hex_encode b)) \<longrightarrow> mem_obj w n = None"
    and start: "if oldExists
      then (\<exists>m d. Decode (rfc3339 (se_codec (ce_sources env))) (se_parse (ce_sources env)) oldData = Inr m \<and>
              mem_obj w (prefix @ ManifestPath) = Some (d, a_generation oldAttrs))
      else mem_obj w (prefix @ ManifestPath) = None"
  shows "\<exists>m g w'. publishCloudGenerationFromStart env prefix entries ws snapshots oldData oldAttrs oldExists w = (Inr (m, g), w')"
proof -
  let ?cd = "se_codec (ce_sources env)" and ?i = "''g_'' @ hex_encode b" and ?mp = "prefix @ ManifestPath"
  let ?dec = "Decode (rfc3339 ?cd) (se_parse (ce_sources env))"
  have i: "newGenerationID (pe_random env) = Inr ?i" "safeGenerationID ?i"
    using newGenerationID_safe [of b ?i] rnd by (simp_all add: newGenerationID_def)
  obtain old where old: "(if oldExists then map_sum id m_generation_id (?dec oldData) else Inr '''') = Inr old"
    and old_ok: "old = '''' \<or> safeGenerationID old"
  proof (cases oldExists)
    case True
    then obtain m where m: "?dec oldData = Inr m" using start by auto
    then have "safeGenerationID (m_generation_id m)" using Decode_valid Validate_ok_iff by metis
    then show thesis using that [of "m_generation_id m"] True m by simp
  qed (simp add: that)
  have table: "output_table ?cd entries files"
    using preflight_ok pre(1) unfolding preflightGenerationOutputs_def by blast
  then have cur: "distinct (map go_path files)" "\<forall>f\<in>set files. output_current ?cd ws f"
    using output_table_current [OF _ pre(2)] by blast+
  have "\<forall>f\<in>set files. mem_obj w (generation_dir prefix ?i @ go_path f) = None"
    using fresh by (simp add: has_prefix_iff)
  then obtain uploaded w1 where up: "upload_files env prefix ws ?i files [] w = (Inr uploaded, w1)"
    and out: "map output_of uploaded = files" "list_all (\<lambda>f. 0 < f_generation f) uploaded"
    using upload_files_succeeds [OF store(2,1) cur, of prefix ?i "[]"] by auto
  have w1: "mem_inv w1" "mem_obj w1 ?mp = mem_obj w ?mp"
    using mem.upload_files_frame [OF up store(2,1)] manifest_outside [of prefix ?i] unfolding only_new_under_def by metis+
  let ?m = "manifest_for env ?i old snapshots uploaded"
  let ?cond = "if oldExists then matchGeneration (a_generation oldAttrs) else createOnly"
  have valid: "Validate (rfc3339 ?cd) ?m = Inr ()"
    by (rule published_manifest_valid [OF table cur(1) out refl sha now i(2) old_ok])
  obtain a w2 where wr: "st_write memoryStore ?mp (pe_marshal env (manifest_to_json ?m))
      [(''sha256'', sha256 ?cd (pe_marshal env (manifest_to_json ?m)))] ?cond w1 = (Inr a, w2)"
  proof (cases oldExists)
    case True
    then obtain d where "mem_obj w1 ?mp = Some (d, a_generation oldAttrs)" using start w1(2) by auto
    then show thesis using that True by (auto simp: memoryStore_def mem_Write_def mem_obj_def Let_def)
  next
    case False
    then have "mem_obj w1 ?mp = None" using start w1(2) by simp
    then show thesis using that False mem_create by force
  qed
  have "publishCloudGenerationWithFiles env prefix ws snapshots files oldData oldAttrs oldExists w = (Inr (?m, a_generation a), w2)"
    unfolding publishCloudGenerationWithFiles_def old i(1) sum.case up prod.case Let_def valid
    using wr store(1) by (simp add: commit_manifest_def Let_def)
  then show ?thesis using pre(1) by (simp add: publishCloudGenerationFromStart_def)
qed

section \<open>A complete workspace\<close>

definition sample_db :: string where
  "sample_db = sqliteHeader @ [CHR 0x02, CHR 0x00] @ replicate 10 (CHR 0x00) @ [CHR 0x00, CHR 0x00, CHR 0x00, CHR 0x01] @
     replicate 480 (CHR 0x00)"

definition empty_index :: json where
  "empty_index = JObj [(''schema_version'', JInt 1),
     (''pack'', JObj [(''id'', JStr ''p''), (''name'', JStr ''p''), (''version'', JStr ''1''), (''language'', JArr []), (''capabilities'', JArr [])]),
     (''articles'', JArr []), (''terms'', JArr []), (''papers'', JArr []), (''sources'', JArr []), (''source_concepts'', JArr []),
     (''synthesis'', JArr []), (''stats'', JObj (map (\<lambda>k. (k, JInt 0)) index_stats_fields))]"

definition sample_outputs :: workspace where
  "sample_outputs = [(''.synto/INDEX.json'', ''{}''), (''.synto/state.db'', sample_db), (''cache/concepts.jsonl'', ''''),
     (''cache/dormant_concepts.jsonl'', ''''), (''cache/id_map.json'', ''{}''), (''cache/raw_status.json'', ''{}''),
     (''cache/suggested_queries.json'', ''{}''), (''synto.toml'', ''x''), (''wiki/a.md'', ''page'')]"

definition sample_walk :: "walkEntry list" where
  "sample_walk = map (\<lambda>(p, b). \<lparr>we_err = None, we_rel = p, we_type = Regular, we_info = Inr (int (length b)), we_data = Inr b\<rparr>)
     sample_outputs"

definition sample_publish_env :: "memoryObjects publishEnv" where
  "sample_publish_env = \<lparr>ce_store = memoryStore,
     ce_sources = \<lparr>se_codec = \<lparr>rfc3339 = \<lambda>_. Some 0, format_utc = \<lambda>_. ''t'', sha256 = \<lambda>_. sample_digest\<rparr>,
       se_parse = \<lambda>_. [Some empty_index], se_frontmatter = \<lambda>d. Inr d, se_yaml = \<lambda>_. Inr []\<rparr>,
     ce_osf = \<lambda>_. None, pe_quick = \<lambda>_. Inr ''ok'', pe_marshal = \<lambda>_. ''{}'', pe_now = ''t'',
     pe_random = Inr (replicate 16 (CHR 0x5A))\<rparr>"

lemma sample_paths: "list_all (\<lambda>(p, b). GenerationOwned p \<and> safeRelativePath p = None \<and> length (split_on (CHR ''/'') p) \<le> 2) sample_outputs"
  by code_simp

lemma empty_index_decodes: "decodeSyntoIndex [Some empty_index] = Inr zero_truth"
  by code_simp

lemma sample_index_read: "\<exists>t. readSyntoIndexTruth (ce_sources sample_publish_env) sample_outputs = Inr t"
proof -
  have "readBoundedRegularFileWithin sample_outputs syntoIndexPath = FileContents ''{}''" by code_simp
  then show ?thesis by (simp add: readSyntoIndexTruth_def sample_publish_env_def empty_index_decodes)
qed

lemma sample_db_valid: "validateSQLiteArtifact (\<lambda>_. Inr ''ok'') sample_outputs ''.synto/state.db'' = None"
  by code_simp

lemma sample_walk_ok:
  "\<exists>s. walk_generation (se_codec (ce_sources sample_publish_env)) defaultGenerationTraversalLimits sample_walk start_walk = Inr s \<and>
     map go_path (wk_files s) = map fst sample_outputs"
  using sample_paths
  by (simp add: sample_walk_def sample_outputs_def walk_entry_def regular_file_def digestGenerationFile_def start_walk_def
    defaultGenerationTraversalLimits_def MaxFiles_def MaxTotalSize_def MaxFileBytes_def sample_db_def sqliteHeader_def Let_def)

lemma sample_preflight:
  "\<exists>files. preflightGenerationOutputs (ce_sources sample_publish_env) (pe_quick sample_publish_env) sample_walk sample_outputs = Inr files"
proof -
  obtain s where s: "walk_generation (se_codec (ce_sources sample_publish_env)) defaultGenerationTraversalLimits sample_walk start_walk = Inr s"
    "map go_path (wk_files s) = map fst sample_outputs"
    using sample_walk_ok by blast
  have "list_all (\<lambda>r. r \<in> set (map fst sample_outputs)) required_outputs" "''wiki.toml'' \<notin> set (map fst sample_outputs)"
    "''.olw/state.db'' \<notin> set (map fst sample_outputs)" "''.synto/state.db'' \<in> set (map fst sample_outputs)"
    by code_simp+
  moreover have "pe_quick sample_publish_env = (\<lambda>_. Inr ''ok'')" by (simp add: sample_publish_env_def)
  ultimately show ?thesis using sample_index_read sample_db_valid
    by (auto simp: preflightGenerationOutputs_def preflightGenerationOutputsWithLimits_def s Let_def simp del: set_map)
qed

lemma sample_walk_of: "walk_of sample_walk sample_outputs"
  by (auto simp: walk_of_def sample_walk_def sample_outputs_def)

lemma sample_digest_hash: "digest_hash (se_codec (ce_sources sample_publish_env))"
proof -
  have "validDigest sample_digest" by code_simp
  then show ?thesis by (simp add: digest_hash_def sample_publish_env_def)
qed

lemma publish_succeeds_witness:
  "\<exists>m g w'. publishCloudGenerationFromStart sample_publish_env ''p/'' sample_walk sample_outputs [] '''' no_attrs False
     newMemoryObjects = (Inr (m, g), w')"
proof -
  obtain files where "preflightGenerationOutputs (ce_sources sample_publish_env) (pe_quick sample_publish_env) sample_walk sample_outputs = Inr files"
    using sample_preflight by blast
  moreover have "mem_inv newMemoryObjects" by code_simp
  moreover have "pe_random sample_publish_env = Inr (replicate 16 (CHR 0x5A))" by (simp add: sample_publish_env_def)
  ultimately show ?thesis
    by (intro publish_succeeds [OF _ _ _ sample_walk_of sample_digest_hash, where b = "replicate 16 (CHR 0x5A)"])
      (simp_all add: sample_publish_env_def mem_obj_def newMemoryObjects_def)
qed

lemma publish_atomic_witness:
  "case publishCloudGenerationFromStart sample_publish_env ''p/'' sample_walk sample_outputs [] '''' no_attrs False newMemoryObjects of
     (r, w') \<Rightarrow> mem_inv w' \<and> (\<exists>files. publish_outcome sample_publish_env ''p/'' sample_outputs [] files createOnly
        (mem_obj newMemoryObjects) r (mem_obj w'))"
proof -
  have "ce_store sample_publish_env = memoryStore" by (simp add: sample_publish_env_def)
  then have st: "object_store (ce_store sample_publish_env) mem_obj mem_inv mem_known" using mem.object_store_axioms by simp
  have "mem_inv newMemoryObjects" by code_simp
  from publish_atomic [OF st this, where prefix = "''p/''" and entries = sample_walk and ws = sample_outputs and snapshots = "[]"
      and oldData = "''''" and oldAttrs = no_attrs and oldExists = False] sample_preflight
  show ?thesis by (auto split: prod.splits sum.splits)
qed

end
