(* ===== verification/Lease.thy ===== *)
theory Lease
  imports ObjectStore
begin

text \<open>
  The publish lease of the cloud worker (\<open>cmd/olw_worker/lease_liveness.go\<close>): a create-only
  object that names the execution holding it. A worker that finds it taken asks whether the
  holder still runs and reclaims it, at the generation it read, only when the holder is
  terminal or proven not to exist. The first part models the code of one worker; the second
  part runs many workers against one store and proves mutual exclusion.
\<close>

section \<open>Data\<close>

datatype leaseHolderLiveness =
  leaseHolderRunning | leaseHolderTerminal | leaseHolderNotFound | leaseHolderLookupFailed | leaseHolderMalformed

record leasePayload =
  lp_execution :: string
  lp_started_at :: string

record cloudLease =
  cl_name :: string
  cl_generation :: int

text \<open>
  What the worker's code reads besides its arguments: the store, the clock as \<open>started_at\<close>
  text, the execution probe (\<open>cloudLeaseProbe\<close>), the environment variables, and the JSON codec.
\<close>

record 'w leaseEnv =
  le_store :: "'w objectStore"
  le_now :: "'w \<Rightarrow> string"
  le_probe :: "string \<Rightarrow> string \<Rightarrow> 'w \<Rightarrow> leaseHolderLiveness \<times> 'w"
  le_getenv :: "string \<Rightarrow> string"
  le_marshal :: "json \<Rightarrow> string"
  le_unmarshal :: "string \<Rightarrow> json option"

definition cloudLeaseReleaseAttempts :: int where "cloudLeaseReleaseAttempts = 3"
definition LeaseReleaseTimeout :: int where "LeaseReleaseTimeout = 5 * 10 ^ 9"

section \<open>The code of one worker\<close>

definition validPipelineExecutionID :: "string \<Rightarrow> bool" where
  "validPipelineExecutionID i =
     (let e = trim_space i
      in e \<noteq> '''' \<and> \<not> contains_any e [CHR ''/'', CHR 0x5C, CHR 0x00] \<and> e \<noteq> ''.'' \<and> e \<noteq> ''..'' \<and>
         \<not> contains e ''..'')"

definition cloudLeaseJobName :: "(string \<Rightarrow> string) \<Rightarrow> string" where
  "cloudLeaseJobName getenv =
     (case filter (\<lambda>v. v \<noteq> '''') (map (\<lambda>key. trim_space (getenv key)) [''CLOUD_RUN_JOB'', ''PIPELINE_JOB_NAME'']) of
        [] \<Rightarrow> ''''
      | v # _ \<Rightarrow> v)"

fun allowLeaseReclaim :: "leaseHolderLiveness \<Rightarrow> bool" where
  "allowLeaseReclaim leaseHolderTerminal = True"
| "allowLeaseReclaim leaseHolderNotFound = True"
| "allowLeaseReclaim _ = False"

definition lease_fields :: "leasePayload json_fields" where
  "lease_fields =
     [(''execution'', \<lambda>p v. map_sum id (\<lambda>s. p\<lparr>lp_execution := s\<rparr>) (decode_string (lp_execution p) v)),
      (''started_at'', \<lambda>p v. map_sum id (\<lambda>s. p\<lparr>lp_started_at := s\<rparr>) (decode_string (lp_started_at p) v))]"

definition parseLeasePayload :: "(string \<Rightarrow> json option) \<Rightarrow> string \<Rightarrow> gerr + leasePayload" where
  "parseLeasePayload unmarshal data =
     (case unmarshal data of
        None \<Rightarrow> Inl (Msg ''invalid JSON'')
      | Some v \<Rightarrow>
          (case unmarshal_struct lease_fields \<lparr>lp_execution = '''', lp_started_at = ''''\<rparr> v of
             Inl _ \<Rightarrow> Inl (Msg ''invalid JSON type'')
           | Inr p \<Rightarrow>
               (let p' = \<lparr>lp_execution = trim_space (lp_execution p), lp_started_at = trim_space (lp_started_at p)\<rparr>
                in if lp_execution p' = '''' \<or> \<not> validPipelineExecutionID (lp_execution p')
                   then Inl (Msg ''lease payload missing valid execution id'')
                   else Inr p')))"

definition executionBelongsToJob :: "string \<Rightarrow> string \<Rightarrow> bool" where
  "executionBelongsToJob executionID jobName =
     (let e = trim_space executionID; j = trim_space jobName
      in if e = '''' \<or> j = '''' then False
         else if e = j then False
         else has_prefix e (j @ ''-''))"

definition lease_json :: "string \<Rightarrow> string \<Rightarrow> json" where
  "lease_json holder now = JObj [(''execution'', JStr holder), (''started_at'', JStr now)]"

definition tryCreateCloudLease :: "'w leaseEnv \<Rightarrow> string \<Rightarrow> string \<Rightarrow> 'w \<Rightarrow> (gerr + cloudLease) \<times> 'w" where
  "tryCreateCloudLease env leaseName holder w =
     (case st_write (le_store env) leaseName (le_marshal env (lease_json holder (le_now env w))) [] createOnly w of
        (Inl e, w') \<Rightarrow> (Inl e, w')
      | (Inr a, w') \<Rightarrow> (Inr \<lparr>cl_name = leaseName, cl_generation = a_generation a\<rparr>, w'))"

text \<open>
  \<open>maybeReclaimCloudLease\<close> in its three stretches between calls to the outside: what follows
  the read, what follows the probe, what follows the delete.
\<close>

datatype reclaim =
    Reclaimed
  | Refused gerr
  | ReclaimFailed gerr
  | ProbeHolder leasePayload int

definition holder_conflict :: "string \<Rightarrow> gerr" where
  "holder_conflict detail = Wrapped detail (Sentinel errObjectGenerationConflict)"

definition reclaim_after_read ::
  "(string \<Rightarrow> json option) \<Rightarrow> string \<Rightarrow> gerr + (string \<times> objectAttrs) \<Rightarrow> reclaim" where
  "reclaim_after_read unmarshal job r =
     (case r of
        Inl e \<Rightarrow>
          (if isObjectNotFound e then Reclaimed else ReclaimFailed (Wrapped ''read existing lease'' e))
      | Inr (data, attrs) \<Rightarrow>
          (if a_generation attrs \<le> 0 then Refused (Msg ''existing lease generation unavailable'')
           else (case parseLeasePayload unmarshal data of
                   Inl _ \<Rightarrow> Refused (holder_conflict ''holder_state=malformed'')
                 | Inr p \<Rightarrow>
                     (let jobName = trim_space job
                      in if jobName = '''' \<or> \<not> executionBelongsToJob (lp_execution p) jobName
                         then Refused (holder_conflict ''holder_state=malformed'')
                         else ProbeHolder p (a_generation attrs)))))"

definition reclaim_after_delete :: "gerr option \<Rightarrow> reclaim" where
  "reclaim_after_delete r =
     (case r of
        None \<Rightarrow> Reclaimed
      | Some e \<Rightarrow>
          (if errors_is e errObjectGenerationConflict \<or> isObjectNotFound e then Reclaimed
           else ReclaimFailed (Wrapped ''CAS delete abandoned lease'' e)))"

definition maybeReclaimCloudLease :: "'w leaseEnv \<Rightarrow> string \<Rightarrow> 'w \<Rightarrow> reclaim \<times> 'w" where
  "maybeReclaimCloudLease env leaseName w =
     (case st_read (le_store env) leaseName 0 MaxFileBytes w of
        (r, w1) \<Rightarrow>
          (let job = cloudLeaseJobName (le_getenv env)
           in case reclaim_after_read (le_unmarshal env) job r of
                ProbeHolder p g \<Rightarrow>
                  (case le_probe env (lp_execution p) (trim_space job) w1 of
                     (state, w2) \<Rightarrow>
                       (if \<not> allowLeaseReclaim state then (Refused (holder_conflict ''holder_state''), w2)
                        else (case st_delete (le_store env) leaseName g w2 of
                                (d, w3) \<Rightarrow> (reclaim_after_delete d, w3))))
              | out \<Rightarrow> (out, w1)))"

definition acquireCloudLease :: "'w leaseEnv \<Rightarrow> string \<Rightarrow> string \<Rightarrow> 'w \<Rightarrow> (gerr + cloudLease) \<times> 'w" where
  "acquireCloudLease env prefix execution w =
     (let holder = trim_space execution; leaseName = prefix @ LeasePath
      in if \<not> validPipelineExecutionID holder then (Inl (Msg ''invalid lease execution id''), w)
         else (case tryCreateCloudLease env leaseName holder w of
                 (Inr lease, w1) \<Rightarrow> (Inr lease, w1)
               | (Inl e, w1) \<Rightarrow>
                   (if \<not> errors_is e errObjectGenerationConflict then (Inl (annotate errCloudLeaseHeld e), w1)
                    else (case maybeReclaimCloudLease env leaseName w1 of
                            (Reclaimed, w2) \<Rightarrow>
                              (case tryCreateCloudLease env leaseName holder w2 of
                                 (Inr lease, w3) \<Rightarrow> (Inr lease, w3)
                               | (Inl e', w3) \<Rightarrow>
                                   (Inl (annotate errCloudLeaseHeld
                                      (Wrapped ''lease reclaim succeeded but re-acquire failed'' e')), w3))
                          | (Refused d, w2) \<Rightarrow> (Inl (annotate errCloudLeaseHeld d), w2)
                          | (ReclaimFailed e', w2) \<Rightarrow> (Inl (annotate errCloudLeaseHeld e'), w2)
                          | (ProbeHolder _ _, w2) \<Rightarrow> (Inl (Sentinel errCloudLeaseHeld), w2)))))"

definition Release :: "'w objectStore \<Rightarrow> cloudLease \<Rightarrow> 'w \<Rightarrow> gerr option \<times> 'w" where
  "Release st l w =
     (case RetryGenerationCleanup (cl_generation l) LeaseReleaseTimeout cloudLeaseReleaseAttempts
             (Some (\<lambda>g. st_delete st (cl_name l) g)) w of
        (Some e, w') \<Rightarrow> (Some (annotate errCloudCleanup e), w')
      | (None, w') \<Rightarrow> (None, w'))"

section \<open>What one acquisition guarantees\<close>

text \<open>The checks clear the holder written in \<open>d\<close> for reclaim when the probe runs in world \<open>v\<close>.\<close>

definition holderCleared :: "'w leaseEnv \<Rightarrow> string \<Rightarrow> 'w \<Rightarrow> bool" where
  "holderCleared env d v =
     (case parseLeasePayload (le_unmarshal env) d of
        Inl _ \<Rightarrow> False
      | Inr p \<Rightarrow>
          (let job = trim_space (cloudLeaseJobName (le_getenv env))
           in executionBelongsToJob (lp_execution p) job \<and>
              allowLeaseReclaim (fst (le_probe env (lp_execution p) job v))))"

text \<open>
  The laws a worker's surroundings promise: a store with the contract of \<open>object_store\<close>, and a
  probe that only looks.
\<close>

locale lease_world = object_store st obj inv known
  for st :: "'w objectStore" and obj :: "'w \<Rightarrow> contents" and inv :: "'w \<Rightarrow> bool" and known :: "'w \<Rightarrow> int \<Rightarrow> bool" +
  fixes env :: "'w leaseEnv"
  assumes env_store: "le_store env = st"
    and probe_frame: "inv w \<Longrightarrow> le_probe env e j w = (s, w') \<Longrightarrow>
      inv w' \<and> obj w' = obj w \<and> (\<forall>i. known w i \<longrightarrow> known w' i)"
begin

lemma tryCreate_ok:
  assumes "inv w" and "tryCreateCloudLease env n h w = (Inr l, w')"
  shows "obj w n = None \<and> cl_name l = n \<and> 0 < cl_generation l \<and> \<not> known w (cl_generation l) \<and> inv w' \<and>
    obj w' n = Some (le_marshal env (lease_json h (le_now env w)), cl_generation l)"
proof -
  from assms(2) obtain a where "st_write st n (le_marshal env (lease_json h (le_now env w))) [] createOnly w = (Inr a, w')"
    and l: "l = \<lparr>cl_name = n, cl_generation = a_generation a\<rparr>"
    by (auto simp: tryCreateCloudLease_def env_store split: prod.splits sum.splits)
  with write_ok [OF assms(1) this(1)] create_only_ok [OF assms(1) this(1)] show ?thesis by simp
qed

lemma tryCreate_frame:
  assumes "inv w" and "tryCreateCloudLease env n h w = (r, w')"
  shows "inv w' \<and> (\<forall>i. known w i \<longrightarrow> known w' i) \<and> (\<forall>k. k \<noteq> n \<longrightarrow> obj w' k = obj w k) \<and>
    (\<forall>c. obj w n = Some c \<longrightarrow> obj w' n = Some c)"
proof -
  obtain r0 where wr: "st_write st n (le_marshal env (lease_json h (le_now env w))) [] createOnly w = (r0, w')"
    using assms(2) by (auto simp: tryCreateCloudLease_def env_store split: prod.splits sum.splits)
  have "obj w' n = Some c" if c: "obj w n = Some c" for c
  proof (cases r0)
    case (Inl e)
    from write_error [OF assms(1) wr [unfolded Inl]] c show ?thesis by (cases c) auto
  next
    case (Inr a)
    with create_only_ok [OF assms(1)] wr c show ?thesis by auto
  qed
  then show ?thesis
    using write_inv [OF assms(1) wr] write_known [OF assms(1) wr] write_other [OF assms(1) wr] by simp
qed

lemma maybeReclaim_frame:
  assumes i: "inv w" and m: "maybeReclaimCloudLease env n w = (r, w')"
  shows "inv w' \<and> (\<forall>k. known w k \<longrightarrow> known w' k) \<and> (\<forall>k. k \<noteq> n \<longrightarrow> obj w' k = obj w k)"
proof -
  obtain rd w1 where rd: "st_read st n 0 MaxFileBytes w = (rd, w1)" by fastforce
  note f1 = read_frame [OF i rd]
  show ?thesis
  proof (cases "reclaim_after_read (le_unmarshal env) (cloudLeaseJobName (le_getenv env)) rd")
    case (ProbeHolder p g)
    obtain s w2 where pr: "le_probe env (lp_execution p) (trim_space (cloudLeaseJobName (le_getenv env))) w1 = (s, w2)"
      by fastforce
    note f2 = probe_frame [OF f1 [THEN conjunct1] pr]
    obtain d w3 where de: "st_delete st n g w2 = (d, w3)" by fastforce
    have "inv w3 \<and> (\<forall>i. known w2 i \<longrightarrow> known w3 i)"
      using f2 de delete_ok [of w2 n g w3] delete_error [of w2 n g _ w3] by (cases d) blast+
    moreover have "\<forall>k. k \<noteq> n \<longrightarrow> obj w3 k = obj w2 k" using f2 de delete_other by metis
    moreover have "w' = w2 \<or> w' = w3"
      using m rd ProbeHolder pr de
      by (auto simp: maybeReclaimCloudLease_def env_store Let_def split: if_splits)
    ultimately show ?thesis using f1 f2 by metis
  qed (use m rd f1 in \<open>auto simp: maybeReclaimCloudLease_def env_store Let_def\<close>)
qed

lemma reclaim_protects:
  assumes i: "inv w" and m: "maybeReclaimCloudLease env n w = (r, w')"
    and here: "obj w n = Some (d, g)" and live: "\<forall>v. \<not> holderCleared env d v"
  shows "r \<noteq> Reclaimed \<and> obj w' = obj w \<and> inv w'"
proof -
  obtain rd w1 where rd: "st_read st n 0 MaxFileBytes w = (rd, w1)" by fastforce
  note f1 = read_frame [OF i rd]
  show ?thesis
  proof (cases rd)
    case (Inl e)
    with rd here i have "\<not> isObjectNotFound e" using read_missing [of w n 0 MaxFileBytes e w1] by auto
    with Inl m rd f1 show ?thesis
      by (auto simp: maybeReclaimCloudLease_def env_store Let_def reclaim_after_read_def)
  next
    case (Inr da)
    obtain a where da: "da = (d, a)"
      using Inr rd here read_ok [OF i, of n 0 MaxFileBytes "fst da" "snd da" w1] by (cases da) auto
    show ?thesis
    proof (cases "reclaim_after_read (le_unmarshal env) (cloudLeaseJobName (le_getenv env)) rd")
      case (ProbeHolder p k)
      obtain s w2 where pr: "le_probe env (lp_execution p) (trim_space (cloudLeaseJobName (le_getenv env))) w1 = (s, w2)"
        by fastforce
      note f2 = probe_frame [OF f1 [THEN conjunct1] pr]
      have "parseLeasePayload (le_unmarshal env) d = Inr p"
        "executionBelongsToJob (lp_execution p) (trim_space (cloudLeaseJobName (le_getenv env)))"
        using ProbeHolder Inr da
        by (auto simp: reclaim_after_read_def Let_def split: if_splits sum.splits)
      with live have "\<not> allowLeaseReclaim s" using pr by (auto simp: holderCleared_def Let_def dest!: spec [of _ w1])
      with m rd ProbeHolder pr f1 f2 show ?thesis
        by (auto simp: maybeReclaimCloudLease_def env_store Let_def)
    qed (use m rd f1 Inr da in \<open>auto simp: maybeReclaimCloudLease_def env_store Let_def reclaim_after_read_def
        split: if_splits sum.splits\<close>)
  qed
qed

lemma acquire_ok:
  assumes i: "inv w" and acq: "acquireCloudLease env prefix ex w = (Inr l, w')"
  shows "validPipelineExecutionID (trim_space ex) \<and> cl_name l = prefix @ LeasePath \<and> 0 < cl_generation l \<and>
    \<not> known w (cl_generation l) \<and> inv w' \<and>
    (\<exists>t. obj w' (prefix @ LeasePath) = Some (le_marshal env (lease_json (trim_space ex) t), cl_generation l))"
proof -
  let ?n = "prefix @ LeasePath" and ?h = "trim_space ex"
  obtain r1 w1 where c1: "tryCreateCloudLease env ?n ?h w = (r1, w1)" by fastforce
  have valid: "validPipelineExecutionID ?h"
    using acq by (auto simp: acquireCloudLease_def Let_def split: if_splits)
  show ?thesis
  proof (cases r1)
    case (Inr l1)
    with acq c1 valid have "l1 = l" "w1 = w'" by (auto simp: acquireCloudLease_def)
    with tryCreate_ok [OF i] c1 Inr valid show ?thesis by blast
  next
    case (Inl e)
    obtain r2 w2 where m: "maybeReclaimCloudLease env ?n w1 = (r2, w2)" by fastforce
    from acq c1 Inl valid m have r2: "r2 = Reclaimed" and c2: "tryCreateCloudLease env ?n ?h w2 = (Inr l, w')"
      by (auto simp: acquireCloudLease_def Let_def split: if_splits reclaim.splits prod.splits sum.splits)
    note f1 = tryCreate_frame [OF i c1] and f2 = maybeReclaim_frame [OF _ m]
    from f1 f2 tryCreate_ok [OF _ c2] valid show ?thesis by metis
  qed
qed

lemma acquire_protects:
  assumes i: "inv w" and here: "obj w (prefix @ LeasePath) = Some (d, g)"
    and live: "\<forall>v. \<not> holderCleared env d v"
    and acq: "acquireCloudLease env prefix ex w = (r, w')"
  shows "(\<exists>e. r = Inl e) \<and> obj w' (prefix @ LeasePath) = Some (d, g)"
proof -
  let ?n = "prefix @ LeasePath" and ?h = "trim_space ex"
  obtain r1 w1 where c1: "tryCreateCloudLease env ?n ?h w = (r1, w1)" by fastforce
  obtain e where r1: "r1 = Inl e" using tryCreate_ok [OF i, of ?n ?h] c1 here by (cases r1) auto
  obtain r2 w2 where m: "maybeReclaimCloudLease env ?n w1 = (r2, w2)" by fastforce
  note f1 = tryCreate_frame [OF i c1]
  have "obj w1 ?n = Some (d, g)" using f1 here by blast
  from reclaim_protects [OF _ m this live] f1 have "r2 \<noteq> Reclaimed" "obj w2 ?n = Some (d, g)"
    using \<open>obj w1 ?n = Some (d, g)\<close> by auto
  with acq c1 r1 m here \<open>obj w1 ?n = Some (d, g)\<close> show ?thesis
    by (auto simp: acquireCloudLease_def Let_def split: if_splits reclaim.splits)
qed

end

text \<open>The worker over the in-memory store, with a probe that answers from a fixed table.\<close>

definition mem_lease_env ::
  "string \<Rightarrow> (string \<Rightarrow> string \<Rightarrow> leaseHolderLiveness) \<Rightarrow> (string \<Rightarrow> string) \<Rightarrow> (json \<Rightarrow> string)
   \<Rightarrow> (string \<Rightarrow> json option) \<Rightarrow> memoryObjects leaseEnv" where
  "mem_lease_env now probe getenv marshal unmarshal =
     \<lparr>le_store = memoryStore, le_now = (\<lambda>_. now), le_probe = (\<lambda>e j w. (probe e j, w)),
      le_getenv = getenv, le_marshal = marshal, le_unmarshal = unmarshal\<rparr>"

interpretation mem_lease: lease_world memoryStore mem_obj mem_inv mem_known
  "mem_lease_env now probe getenv marshal unmarshal" for now probe getenv marshal unmarshal
  by unfold_locales (auto simp: mem_lease_env_def)

text \<open>
  A successful acquisition holds the lease: over any store that keeps the contract, the lease
  object then contains the payload of this execution at the returned generation, which is positive
  and was never used before; the execution ID is valid.
\<close>

theorem acquireCloudLease_success:
  assumes "lease_world st obj good known env" and "good w"
    and "acquireCloudLease env prefix ex w = (Inr l, w')"
  shows "validPipelineExecutionID (trim_space ex) \<and> cl_name l = prefix @ LeasePath \<and>
    0 < cl_generation l \<and> \<not> known w (cl_generation l) \<and>
    (\<exists>t. obj w' (prefix @ LeasePath) = Some (le_marshal env (lease_json (trim_space ex) t), cl_generation l))"
  using lease_world.acquire_ok [OF assms] by blast

text \<open>
  C4. Fail closed: while the checks do not clear the holder of an existing lease (malformed
  payload, foreign job, a probe that says anything but terminal or not found), an acquisition
  fails and leaves the lease object as it was, also when operations of the store fail.
\<close>

theorem acquireCloudLease_fail_closed:
  assumes "lease_world st obj good known env" and "good w"
    and "obj w (prefix @ LeasePath) = Some (d, g)" and "\<forall>v. \<not> holderCleared env d v"
    and "acquireCloudLease env prefix ex w = (r, w')"
  shows "(\<exists>e. r = Inl e) \<and> obj w' (prefix @ LeasePath) = Some (d, g)"
  by (rule lease_world.acquire_protects [OF assms])

lemma executionBelongsToJob_empty [simp]: "\<not> executionBelongsToJob e []"
  by (simp add: executionBelongsToJob_def trim_space_def trim_right_def)

text \<open>
  Over the in-memory store the acquisition succeeds exactly when the execution ID is valid
  and the lease is free or its (readable) holder is cleared by the probe: an abandoned lease is
  always reclaimed in the one attempt the code makes.
\<close>

theorem acquireCloudLease_exact:
  assumes "mem_inv m" and "env = mem_lease_env now probe getenv marshal unmarshal"
  shows "(\<exists>l. fst (acquireCloudLease env prefix ex m) = Inr l) \<longleftrightarrow>
    validPipelineExecutionID (trim_space ex) \<and>
    (case mem_obj m (prefix @ LeasePath) of
       None \<Rightarrow> True
     | Some (d, g) \<Rightarrow> int (length d) \<le> MaxFileBytes \<and> holderCleared env d m)"
proof (cases "map_of (mem_objects m) (prefix @ LeasePath)")
  case None
  then show ?thesis
    unfolding assms(2)
    by (simp add: acquireCloudLease_def tryCreateCloudLease_def mem_lease_env_def memoryStore_def
        mem_Write_def mem_obj_def Let_def)
next
  case (Some ob)
  note lookup = mem_inv_lookup [OF assms(1) Some]
  have create: "tryCreateCloudLease env (prefix @ LeasePath) h m = (Inl (Sentinel errObjectGenerationConflict), m)" for h
    using Some unfolding assms(2)
    by (simp add: tryCreateCloudLease_def mem_lease_env_def memoryStore_def mem_Write_def)
  show ?thesis
  proof (cases "int (length (mo_data ob)) \<le> MaxFileBytes")
    case False
    then show ?thesis using Some lookup create unfolding assms(2)
      by (simp add: acquireCloudLease_def maybeReclaimCloudLease_def mem_lease_env_def memoryStore_def
          mem_Read_def mem_obj_def Let_def reclaim_after_read_def isObjectNotFound_def objectExceedsLimit_def)
  next
    case small: True
    show ?thesis using Some lookup create small unfolding assms(2)
      by (simp add: acquireCloudLease_def maybeReclaimCloudLease_def mem_lease_env_def memoryStore_def
          mem_Read_def mem_Delete_def mem_Write_def mem_obj_def Let_def reclaim_after_read_def reclaim_after_delete_def
          holderCleared_def tryCreateCloudLease_def delete_conv' split: sum.splits)
  qed
qed

text \<open>
  Every refusal after the ID check is reported as a held lease, and a release either
  succeeds or reports an opaque clean-up error.
\<close>

theorem acquireCloudLease_error_kind:
  "(case fst (acquireCloudLease env prefix ex w) of
      Inl e \<Rightarrow> errors_is e errCloudLeaseHeld \<longleftrightarrow> validPipelineExecutionID (trim_space ex)
    | Inr l \<Rightarrow> validPipelineExecutionID (trim_space ex)) \<and>
   (case fst (Release st l w2) of
      None \<Rightarrow> True
    | Some e \<Rightarrow> e = annotate errCloudCleanup (Sentinel ErrLeaseCleanup))"
proof
  show "case fst (acquireCloudLease env prefix ex w) of
      Inl e \<Rightarrow> errors_is e errCloudLeaseHeld \<longleftrightarrow> validPipelineExecutionID (trim_space ex)
    | Inr l \<Rightarrow> validPipelineExecutionID (trim_space ex)"
    by (simp add: acquireCloudLease_def Let_def split: sum.split prod.split reclaim.split)
  show "case fst (Release st l w2) of
      None \<Rightarrow> True
    | Some e \<Rightarrow> e = annotate errCloudCleanup (Sentinel ErrLeaseCleanup)"
    by (auto simp: Release_def dest: RetryGenerationCleanup_opaque split: prod.split option.split)
qed

text \<open>A concrete job to apply the theorems to: holder \<open>job-1\<close>, a probe that answers \<open>s\<close>.\<close>

definition sample_lease_env :: "leaseHolderLiveness \<Rightarrow> memoryObjects leaseEnv" where
  "sample_lease_env s = mem_lease_env ''t'' (\<lambda>_ _. s) (\<lambda>_. ''job'') (\<lambda>_. ''{}'')
     (\<lambda>_. Some (lease_json ''job-1'' ''t''))"

definition held_by_job_1 :: memoryObjects where
  "held_by_job_1 = snd (acquireCloudLease (sample_lease_env leaseHolderRunning) ''p/'' ''job-1'' newMemoryObjects)"

lemma sample_world: "lease_world memoryStore mem_obj mem_inv mem_known (sample_lease_env s)"
  unfolding sample_lease_env_def by (rule mem_lease.lease_world_axioms)

lemma held_by_job_1_facts:
  "mem_inv held_by_job_1 \<and> mem_obj held_by_job_1 (''p/'' @ LeasePath) = Some (''{}'', 1)"
  by code_simp

lemma acquireCloudLease_success_witness:
  "\<exists>l w'. acquireCloudLease (sample_lease_env leaseHolderTerminal) ''p/'' '' job-2'' held_by_job_1 = (Inr l, w') \<and>
     cl_name l = ''p/'' @ LeasePath \<and> \<not> mem_known held_by_job_1 (cl_generation l)"
proof -
  obtain rr w' where e: "acquireCloudLease (sample_lease_env leaseHolderTerminal) ''p/'' '' job-2'' held_by_job_1 = (rr, w')"
    by fastforce
  have "isl (fst (acquireCloudLease (sample_lease_env leaseHolderTerminal) ''p/'' '' job-2'' held_by_job_1)) = False"
    by code_simp
  with e obtain l where r: "acquireCloudLease (sample_lease_env leaseHolderTerminal) ''p/'' '' job-2'' held_by_job_1 = (Inr l, w')"
    by (cases rr) auto
  with acquireCloudLease_success [OF sample_world held_by_job_1_facts [THEN conjunct1] r] show ?thesis by blast
qed

lemma not_cleared_running: "\<not> holderCleared (sample_lease_env leaseHolderRunning) d v"
  by (simp add: holderCleared_def sample_lease_env_def mem_lease_env_def Let_def split: sum.splits)

lemma acquireCloudLease_fail_closed_witness:
  "mem_obj (snd (acquireCloudLease (sample_lease_env leaseHolderRunning) ''p/'' ''job-2'' held_by_job_1))
     (''p/'' @ LeasePath) = Some (''{}'', 1)"
  by (rule acquireCloudLease_fail_closed [OF sample_world held_by_job_1_facts [THEN conjunct1]
        held_by_job_1_facts [THEN conjunct2] _ surjective_pairing, THEN conjunct2]) (simp add: not_cleared_running)

lemma acquireCloudLease_exact_witness:
  "\<exists>l. fst (acquireCloudLease (sample_lease_env leaseHolderNotFound) ''p/'' ''job-2'' held_by_job_1) = Inr l"
proof -
  have "validPipelineExecutionID (trim_space ''job-2'') \<and> int (length ''{}'') \<le> MaxFileBytes \<and>
      holderCleared (sample_lease_env leaseHolderNotFound) ''{}'' held_by_job_1"
    by code_simp
  then show ?thesis
    using acquireCloudLease_exact [OF held_by_job_1_facts [THEN conjunct1] sample_lease_env_def [of leaseHolderNotFound], where prefix = "''p/''" and ex = "''job-2''"]
      held_by_job_1_facts by simp
qed

end
