(* ===== verification/GcsClient.thy ===== *)
theory GcsClient
  imports Publish Lease
begin

text \<open>
  How the BFF reads and writes a project (\<open>internal/gcs/client.go\<close>, \<open>internal/gcs/backend.go\<close>,
  \<open>internal/storage/paths.go\<close>). A read of generated output goes through a view: the manifest that was
  current when the operation began, or none for a project without a generation. Bytes are delivered
  only when they are what the manifest of the view declares. A write of generated output is allowed
  only before the first generation, under the lease object the worker uses.
\<close>

section \<open>The backend\<close>

record writeCondition =
  wc_DoesNotExist :: bool
  wc_GenerationMatch :: "int option"

definition createOrGenerationCondition :: "int \<Rightarrow> writeCondition" where
  "createOrGenerationCondition expected =
     (if expected = 0 then \<lparr>wc_DoesNotExist = True, wc_GenerationMatch = None\<rparr>
      else \<lparr>wc_DoesNotExist = False, wc_GenerationMatch = Some expected\<rparr>)"

abbreviation anyWrite :: writeCondition where
  "anyWrite \<equiv> \<lparr>wc_DoesNotExist = False, wc_GenerationMatch = None\<rparr>"

definition gcsConditions :: "writeCondition \<Rightarrow> sdk_precondition" where
  "gcsConditions condition =
     (if wc_DoesNotExist condition then IfDoesNotExist
      else (case wc_GenerationMatch condition of Some g \<Rightarrow> IfGenerationMatch g | None \<Rightarrow> NoPrecondition))"

record backendObject =
  bo_name :: string
  bo_data :: string
  bo_generation :: int
  bo_size :: int
  bo_metadata :: "(string, string) gomap"
  bo_updated :: int

text \<open>
  The interface \<open>clientBackend\<close>. A listing delivers the objects in the order of the visit and the
  error that ends it, if any.
\<close>

record 'w clientBackend =
  cb_read :: "string \<Rightarrow> int \<Rightarrow> int \<Rightarrow> 'w \<Rightarrow> (gerr + backendObject) \<times> 'w"
  cb_attrs :: "string \<Rightarrow> int \<Rightarrow> 'w \<Rightarrow> (gerr + backendObject) \<times> 'w"
  cb_list :: "string \<Rightarrow> bool \<Rightarrow> 'w \<Rightarrow> (backendObject list \<times> gerr option) \<times> 'w"
  cb_write :: "string \<Rightarrow> string \<Rightarrow> string \<Rightarrow> (string, string) gomap \<Rightarrow> writeCondition \<Rightarrow> 'w \<Rightarrow> (gerr + backendObject) \<times> 'w"
  cb_delete :: "string \<Rightarrow> int \<Rightarrow> 'w \<Rightarrow> gerr option \<times> 'w"

text \<open>
  The calls of the storage SDK on a bucket: a reader, attributes, the iterator of a listing, an upload
  with the errors of writing and closing and the attributes it leaves, a copy, and a delete.
\<close>

record 'w bucket =
  bk_reader :: "string \<Rightarrow> int option \<Rightarrow> 'w \<Rightarrow> (gerr + sdk_reader) \<times> 'w"
  bk_attrs :: "string \<Rightarrow> int option \<Rightarrow> 'w \<Rightarrow> (gerr + backendObject) \<times> 'w"
  bk_objects :: "string \<Rightarrow> bool \<Rightarrow> 'w \<Rightarrow> (gerr + backendObject) list \<times> 'w"
  bk_upload :: "string \<Rightarrow> sdk_precondition \<Rightarrow> string \<Rightarrow> (string, string) gomap \<Rightarrow> string \<Rightarrow> 'w
    \<Rightarrow> (gerr option \<times> gerr option \<times> backendObject option) \<times> 'w"
  bk_copy :: "string \<Rightarrow> int option \<Rightarrow> string \<Rightarrow> sdk_precondition \<Rightarrow> 'w \<Rightarrow> gerr option \<times> 'w"
  bk_remove :: "string \<Rightarrow> sdk_precondition \<Rightarrow> 'w \<Rightarrow> gerr option \<times> 'w"

datatype statusCode = codesNotFound | codesFailedPrecondition | codesOther

text \<open>What the client takes from outside: digests, the JSON lexer (as a stream, and for \<open>json.Unmarshal\<close>),
  \<open>status.Code\<close>, and the YAML front matter of a page.\<close>

record annotationMeta =
  am_sha256 :: string
  am_raw_path :: string
  am_body :: string

record gcsEnv =
  gs_codec :: codec
  gs_parse :: "string \<Rightarrow> json_stream"
  gs_status :: "gerr \<Rightarrow> statusCode"
  gs_unmarshal :: "string \<Rightarrow> json option"
  gs_page :: "string \<Rightarrow> gerr + (string \<times> string \<times> string)"

record generationView =
  gv_manifest :: "manifest option"
  gv_token :: string

definition zero_view :: generationView where "zero_view = \<lparr>gv_manifest = None, gv_token = ''''\<rparr>"

record 'w client =
  gc_bucket :: "'w bucket option"
  gc_user :: string
  gc_project :: string
  gc_backend :: "'w clientBackend option"
  gc_view :: "generationView option"
  gc_lease :: "int option"

text \<open>A method of the zero client would dereference a nil bucket.\<close>

abbreviation nil_bucket :: gerr where "nil_bucket \<equiv> Msg ''nil bucket''"

abbreviation at_generation :: "int \<Rightarrow> int option" where
  "at_generation g \<equiv> (if g > 0 then Some g else None)"

definition sizeMismatch :: gerr where "sizeMismatch = Msg ''object size does not match attributes''"

definition readObject :: "'w client \<Rightarrow> string \<Rightarrow> int \<Rightarrow> int \<Rightarrow> 'w \<Rightarrow> (gerr + backendObject) \<times> 'w" where
  "readObject c name g limit w =
     (if limit < 0 then (Inl objectExceedsLimit, w)
      else (case gc_backend c of
         Some b \<Rightarrow>
           (case cb_read b name g limit w of
              (Inl e, w') \<Rightarrow> (Inl e, w')
            | (Inr ob, w') \<Rightarrow>
                (if bo_size ob < 0 \<or> bo_size ob > limit \<or> int (length (bo_data ob)) \<noteq> bo_size ob \<or> int (length (bo_data ob)) > limit
                 then (Inl sizeMismatch, w') else (Inr ob, w')))
       | None \<Rightarrow>
           (case gc_bucket c of
              None \<Rightarrow> (Inl nil_bucket, w)
            | Some bk \<Rightarrow>
                (case bk_reader bk name (at_generation g) w of
                   (Inl e, w') \<Rightarrow> (Inl e, w')
                 | (Inr r, w') \<Rightarrow>
                     (if r_size r < 0 \<or> r_size r > limit then (Inl sizeMismatch, w')
                      else (case r_body r of
                              Inl e \<Rightarrow> (Inl e, w')
                            | Inr body \<Rightarrow>
                                (let data = take (nat (limit + 1)) body
                                 in if int (length data) \<noteq> r_size r \<or> int (length data) > limit then (Inl objectExceedsLimit, w')
                                    else (Inr \<lparr>bo_name = name, bo_data = data, bo_generation = r_generation r, bo_size = r_size r,
                                               bo_metadata = [], bo_updated = 0\<rparr>, w'))))))))"

definition client_objectAttrs :: "'w client \<Rightarrow> string \<Rightarrow> int \<Rightarrow> 'w \<Rightarrow> (gerr + backendObject) \<times> 'w" where
  "client_objectAttrs c name g w =
     (case gc_backend c of
        Some b \<Rightarrow> cb_attrs b name g w
      | None \<Rightarrow> (case gc_bucket c of None \<Rightarrow> (Inl nil_bucket, w) | Some bk \<Rightarrow> bk_attrs bk name (at_generation g) w))"

text \<open>\<open>conditionalWriteError\<close> on an error; a nil error stays nil.\<close>

definition conditionalWriteError :: "gcsEnv \<Rightarrow> gerr \<Rightarrow> gerr" where
  "conditionalWriteError env e =
     (if gs_status env e = codesFailedPrecondition then Sentinel ErrGenerationMismatch
      else if errors_as_api e = Some 412 then Sentinel ErrGenerationMismatch else e)"

definition writeObject ::
  "gcsEnv \<Rightarrow> 'w client \<Rightarrow> string \<Rightarrow> string \<Rightarrow> string \<Rightarrow> (string, string) gomap \<Rightarrow> writeCondition \<Rightarrow> 'w
   \<Rightarrow> (gerr + backendObject) \<times> 'w" where
  "writeObject env c name data contentType metadata condition w =
     (case gc_backend c of
        Some b \<Rightarrow> cb_write b name data contentType metadata condition w
      | None \<Rightarrow>
          (case gc_bucket c of
             None \<Rightarrow> (Inl nil_bucket, w)
           | Some bk \<Rightarrow>
               (case bk_upload bk name (gcsConditions condition) contentType metadata data w of
                  ((Some e, closed, _), w') \<Rightarrow>
                    (if errors_is (conditionalWriteError env e) ErrGenerationMismatch \<or>
                        (case closed of None \<Rightarrow> False | Some ce \<Rightarrow> errors_is (conditionalWriteError env ce) ErrGenerationMismatch)
                     then (Inl (Sentinel ErrGenerationMismatch), w') else (Inl e, w'))
                | ((None, Some ce, _), w') \<Rightarrow> (Inl (conditionalWriteError env ce), w')
                | ((None, None, None), w') \<Rightarrow> (Inl (Msg ''missing object attributes''), w')
                | ((None, None, Some a), w') \<Rightarrow> (Inr a, w'))))"

definition deleteObject :: "gcsEnv \<Rightarrow> 'w client \<Rightarrow> string \<Rightarrow> int \<Rightarrow> 'w \<Rightarrow> gerr option \<times> 'w" where
  "deleteObject env c name g w =
     (case gc_backend c of
        Some b \<Rightarrow> cb_delete b name g w
      | None \<Rightarrow>
          (case gc_bucket c of
             None \<Rightarrow> (Some nil_bucket, w)
           | Some bk \<Rightarrow>
               (case bk_remove bk name (if g > 0 then IfGenerationMatch g else NoPrecondition) w of
                  (r, w') \<Rightarrow> (map_option (conditionalWriteError env) r, w'))))"

definition objectNotFound :: "gcsEnv \<Rightarrow> gerr \<Rightarrow> bool" where
  "objectNotFound env e \<longleftrightarrow> errors_is e storageErrObjectNotExist \<or> gs_status env e = codesNotFound"

text \<open>Listings: the iterator skips objects without a name, and the visit keeps a count and a byte budget.\<close>

fun iterate :: "(gerr + backendObject) list \<Rightarrow> backendObject list \<times> gerr option" where
  "iterate [] = ([], None)"
| "iterate (Inl e # it) = ([], Some e)"
| "iterate (Inr a # it) =
     (case iterate it of (objects, e) \<Rightarrow> (if bo_name a = '''' then objects else a # objects, e))"

definition visitObjectsRaw :: "'w client \<Rightarrow> string \<Rightarrow> bool \<Rightarrow> 'w \<Rightarrow> (backendObject list \<times> gerr option) \<times> 'w" where
  "visitObjectsRaw c prefix directOnly w =
     (case gc_backend c of
        Some b \<Rightarrow> cb_list b prefix directOnly w
      | None \<Rightarrow>
          (case gc_bucket c of
             None \<Rightarrow> (([], Some nil_bucket), w)
           | Some bk \<Rightarrow> (case bk_objects bk prefix directOnly w of (it, w') \<Rightarrow> (iterate it, w'))))"

fun budget_visit :: "int \<Rightarrow> int \<Rightarrow> gerr \<Rightarrow> gerr \<Rightarrow> int \<Rightarrow> int \<Rightarrow> backendObject list \<Rightarrow> gerr option \<Rightarrow> gerr + backendObject list" where
  "budget_visit maxObjects maxBytes countErr bytesErr n bytes [] e =
     (case e of None \<Rightarrow> Inr [] | Some err \<Rightarrow> Inl err)"
| "budget_visit maxObjects maxBytes countErr bytesErr n bytes (ob # obs) e =
     (if bo_size ob < 0 \<or> bo_size ob > maxBytes \<or> bytes > maxBytes - bo_size ob then Inl bytesErr
      else if n \<ge> maxObjects then Inl countErr
      else map_sum id (\<lambda>rest. ob # rest)
             (budget_visit maxObjects maxBytes countErr bytesErr (n + 1) (bytes + bo_size ob) obs e))"

definition listObjects :: "'w client \<Rightarrow> string \<Rightarrow> 'w \<Rightarrow> (gerr + backendObject list) \<times> 'w" where
  "listObjects c prefix w =
     (case visitObjectsRaw c prefix False w of
        ((objects, e), w') \<Rightarrow>
          (budget_visit (int MaxFiles) MaxTotalSize listExceedsLimit listExceedsLimit 0 0 objects e, w'))"

section \<open>Paths of a project\<close>

definition path_join :: "string list \<Rightarrow> string" where
  "path_join parts =
     (case filter (\<lambda>p. p \<noteq> '''') parts of [] \<Rightarrow> '''' | ps \<Rightarrow> path_clean (join_with ''/'' ps))"

definition ProjectPrefix :: "string \<Rightarrow> string \<Rightarrow> string" where
  "ProjectPrefix userID projectID = path_join [''users'', userID, ''projects'', projectID]"

abbreviation client_prefix :: "'w client \<Rightarrow> string" where
  "client_prefix c \<equiv> ProjectPrefix (gc_user c) (gc_project c)"

definition object_at :: "'w client \<Rightarrow> string \<Rightarrow> string" where
  "object_at c rel = client_prefix c @ ''/'' @ rel"

definition generationNamespacePath :: "string \<Rightarrow> bool" where
  "generationNamespacePath rel \<longleftrightarrow>
     rel = ''wiki'' \<or> has_prefix rel ''wiki/'' \<or> rel = ''cache'' \<or> has_prefix rel ''cache/'' \<or>
     rel = ''.olw'' \<or> has_prefix rel ''.olw/'' \<or> rel = ''wiki.toml'' \<or> has_prefix rel ''wiki.toml/''"

definition safe_execution_object :: "string \<Rightarrow> string \<Rightarrow> bool" where
  "safe_execution_object rel executionID \<longleftrightarrow>
     executionID \<noteq> '''' \<and> executionID \<noteq> ''.'' \<and> executionID \<noteq> ''..'' \<and> path_clean rel = rel \<and>
     \<not> contains_any executionID [CHR ''/'', CHR 0x5C] \<and> \<not> contains executionID ''..''"

definition canonicalReadPath :: "string \<Rightarrow> bool" where
  "canonicalReadPath rel \<longleftrightarrow>
     (if SafeRawPath rel \<or> rel = ''cache/source_status.json'' then True
      else if has_prefix rel ''cache/annotations/'' \<and> has_suffix rel ''.json''
      then ValidSourceID (trim_suffix (trim_prefix rel ''cache/annotations/'') ''.json'')
      else if has_prefix rel ''cache/pipeline-'' \<and> has_suffix rel ''.log''
      then safe_execution_object rel (trim_suffix (trim_prefix rel ''cache/pipeline-'') ''.log'')
      else if has_prefix rel ''cache/pipeline-'' \<and> has_suffix rel ''.failure.json''
      then safe_execution_object rel (trim_suffix (trim_prefix rel ''cache/pipeline-'') ''.failure.json'')
      else False)"

section \<open>The view of an operation\<close>

definition HasCurrentManifest :: "gcsEnv \<Rightarrow> 'w client \<Rightarrow> 'w \<Rightarrow> (gerr + bool) \<times> 'w" where
  "HasCurrentManifest env c w =
     (case client_objectAttrs c (object_at c ManifestPath) 0 w of
        (Inl e, w') \<Rightarrow> (if objectNotFound env e then Inr False else Inl e, w')
      | (Inr _, w') \<Rightarrow> (Inr True, w'))"

definition decode_manifest :: "gcsEnv \<Rightarrow> string \<Rightarrow> gerr + manifest" where
  "decode_manifest env data =
     (case Decode (rfc3339 (gs_codec env)) (gs_parse env) data of
        Inl _ \<Rightarrow> Inl (Msg ''invalid generation manifest'') | Inr m \<Rightarrow> Inr m)"

definition currentManifest :: "gcsEnv \<Rightarrow> 'w client \<Rightarrow> 'w \<Rightarrow> (gerr + (manifest \<times> int) option) \<times> 'w" where
  "currentManifest env c w =
     (case readObject c (object_at c ManifestPath) 0 (int MaxManifestBytes) w of
        (Inl e, w') \<Rightarrow> (if objectNotFound env e then Inr None else Inl (Wrapped ''read generation manifest'' e), w')
      | (Inr ob, w') \<Rightarrow> (map_sum id (\<lambda>m. Some (m, bo_generation ob)) (decode_manifest env (bo_data ob)), w'))"

definition captureGenerationView :: "gcsEnv \<Rightarrow> 'w client \<Rightarrow> 'w \<Rightarrow> (gerr + generationView) \<times> 'w" where
  "captureGenerationView env c w =
     (case currentManifest env c w of
        (Inl e, w') \<Rightarrow> (Inl e, w')
      | (Inr None, w') \<Rightarrow> (Inr \<lparr>gv_manifest = None, gv_token = ''legacy''\<rparr>, w')
      | (Inr (Some (m, g)), w') \<Rightarrow> (Inr \<lparr>gv_manifest = Some m, gv_token = ''manifest-'' @ itoa g\<rparr>, w'))"

definition operationView :: "gcsEnv \<Rightarrow> 'w client \<Rightarrow> 'w \<Rightarrow> (gerr + generationView) \<times> 'w" where
  "operationView env c w = (case gc_view c of Some v \<Rightarrow> (Inr v, w) | None \<Rightarrow> captureGenerationView env c w)"

definition Pin :: "gcsEnv \<Rightarrow> 'w client \<Rightarrow> 'w \<Rightarrow> (gerr + 'w client) \<times> 'w" where
  "Pin env c w =
     (if gc_view c \<noteq> None then (Inr c, w)
      else if gc_bucket c = None \<and> gc_backend c = None then (Inr c, w)
      else (case operationView env c w of
              (Inl e, w') \<Rightarrow> (Inl e, w') | (Inr v, w') \<Rightarrow> (Inr (c\<lparr>gc_view := Some v\<rparr>), w')))"

definition PinCurrentGeneration :: "gcsEnv \<Rightarrow> 'w client \<Rightarrow> 'w \<Rightarrow> (gerr + ('w client \<times> manifest \<times> int \<times> string)) \<times> 'w" where
  "PinCurrentGeneration env c w =
     (case readObject c (object_at c ManifestPath) 0 (int MaxManifestBytes) w of
        (Inl e, w') \<Rightarrow> (Inl (Wrapped ''read generation manifest'' e), w')
      | (Inr ob, w') \<Rightarrow>
          (case decode_manifest env (bo_data ob) of
             Inl e \<Rightarrow> (Inl e, w')
           | Inr m \<Rightarrow>
               (Inr (c\<lparr>gc_view := Some \<lparr>gv_manifest = Some m, gv_token = ''manifest-'' @ itoa (bo_generation ob)\<rparr>\<rparr>, m,
                     bo_generation ob, sha256 (gs_codec env) (bo_data ob)), w')))"

section \<open>Reading\<close>

definition resolveReadPath :: "'w client \<Rightarrow> string \<Rightarrow> generationView \<Rightarrow> gerr + (string \<times> int)" where
  "resolveReadPath c rel view =
     (if \<not> GenerationOwned rel
      then (if generationNamespacePath rel \<and> \<not> canonicalReadPath rel then Inl (Sentinel ErrDeclaredObjectUnavailable)
            else Inr (object_at c rel, 0))
      else (case gv_manifest view of
              None \<Rightarrow> Inr (object_at c rel, 0)
            | Some m \<Rightarrow>
                (case manifest_file m rel of
                   None \<Rightarrow> Inl (Sentinel storageErrObjectNotExist)
                 | Some f \<Rightarrow> Inr (object_at c (ObjectPath m f), f_generation f))))"

definition readLimitForView :: "string \<Rightarrow> generationView \<Rightarrow> int" where
  "readLimitForView rel view =
     (case gv_manifest view of
        None \<Rightarrow> MaxFileBytes
      | Some m \<Rightarrow> (case manifest_file m rel of Some f \<Rightarrow> (if f_size f < MaxFileBytes then f_size f else MaxFileBytes) | None \<Rightarrow> MaxFileBytes))"

definition verifyGenerationRead :: "gcsEnv \<Rightarrow> string \<Rightarrow> generationView \<Rightarrow> backendObject \<Rightarrow> gerr option" where
  "verifyGenerationRead env rel view ob =
     (case gv_manifest view of
        None \<Rightarrow> None
      | Some m \<Rightarrow>
          (case manifest_file m rel of
             None \<Rightarrow> Some (Sentinel ErrDeclaredObjectUnavailable)
           | Some f \<Rightarrow>
               (if f_generation f \<noteq> bo_generation ob \<or> f_size f \<noteq> int (length (bo_data ob)) \<or>
                   sha256 (gs_codec env) (bo_data ob) \<noteq> f_sha256 f
                then Some (Sentinel ErrDeclaredObjectUnavailable) else None)))"

text \<open>The read shared by \<open>readFileWithView\<close>, \<open>ReadFileWithGeneration\<close> and \<open>ReadFileLimited\<close>; \<open>missing\<close> is their error for an absent object.\<close>

definition read_in_view ::
  "gcsEnv \<Rightarrow> 'w client \<Rightarrow> sentinel \<Rightarrow> string \<Rightarrow> generationView \<Rightarrow> int \<Rightarrow> 'w \<Rightarrow> (gerr + backendObject) \<times> 'w" where
  "read_in_view env c missing rel view limit w =
     (case resolveReadPath c rel view of
        Inl e \<Rightarrow> (Inl e, w)
      | Inr (path, expected) \<Rightarrow>
          (case readObject c path expected limit w of
             (Inl e, w') \<Rightarrow>
               (Inl (if gv_manifest view \<noteq> None then Sentinel ErrDeclaredObjectUnavailable
                     else if objectNotFound env e then Sentinel missing else Wrapped ''read'' e), w')
           | (Inr ob, w') \<Rightarrow>
               (case verifyGenerationRead env rel view ob of Some e \<Rightarrow> (Inl e, w') | None \<Rightarrow> (Inr ob, w'))))"

definition readFileWithView :: "gcsEnv \<Rightarrow> 'w client \<Rightarrow> string \<Rightarrow> generationView \<Rightarrow> 'w \<Rightarrow> (gerr + string) \<times> 'w" where
  "readFileWithView env c rel view w =
     apfst (map_sum id bo_data) (read_in_view env c storageErrObjectNotExist rel view (readLimitForView rel view) w)"

definition ReadFile :: "gcsEnv \<Rightarrow> 'w client \<Rightarrow> string \<Rightarrow> 'w \<Rightarrow> (gerr + string) \<times> 'w" where
  "ReadFile env c rel w =
     (if \<not> GenerationOwned rel then readFileWithView env c rel zero_view w
      else (case operationView env c w of
              (Inl e, w') \<Rightarrow> (Inl e, w') | (Inr view, w') \<Rightarrow> readFileWithView env c rel view w'))"

text \<open>The view of a path: that of the operation for generated output, none otherwise.\<close>

definition view_for :: "gcsEnv \<Rightarrow> 'w client \<Rightarrow> string \<Rightarrow> 'w \<Rightarrow> (gerr + generationView) \<times> 'w" where
  "view_for env c rel w = (if GenerationOwned rel then operationView env c w else (Inr zero_view, w))"

definition ReadFileWithGeneration :: "gcsEnv \<Rightarrow> 'w client \<Rightarrow> string \<Rightarrow> 'w \<Rightarrow> (gerr + (string \<times> int)) \<times> 'w" where
  "ReadFileWithGeneration env c rel w =
     (case view_for env c rel w of
        (Inl e, w') \<Rightarrow> (Inl e, w')
      | (Inr view, w') \<Rightarrow>
          apfst (map_sum id (\<lambda>ob. (bo_data ob, bo_generation ob)))
            (read_in_view env c storageErrObjectNotExist rel view (readLimitForView rel view) w'))"

definition ReadFileLimited :: "gcsEnv \<Rightarrow> 'w client \<Rightarrow> string \<Rightarrow> int \<Rightarrow> 'w \<Rightarrow> (gerr + string) \<times> 'w" where
  "ReadFileLimited env c rel limit w =
     (if limit < 0 then (Inl (Msg ''invalid read limit''), w)
      else (case view_for env c rel w of
         (Inl e, w1) \<Rightarrow> (Inl e, w1)
       | (Inr view, w1) \<Rightarrow>
           (case resolveReadPath c rel view of
              Inl e \<Rightarrow> (Inl e, w1)
            | Inr (path, expected) \<Rightarrow>
                (if gc_backend c = None \<and> gv_manifest view = None
                 then (case gc_bucket c of
                         None \<Rightarrow> (Inl nil_bucket, w1)
                       | Some bk \<Rightarrow>
                           (case bk_reader bk path (at_generation expected) w1 of
                              (Inl e, w2) \<Rightarrow>
                                (Inl (if objectNotFound env e then Sentinel storeErrObjectNotExist else Wrapped ''read'' e), w2)
                            | (Inr r, w2) \<Rightarrow>
                                (case r_body r of
                                   Inl e \<Rightarrow> (Inl e, w2)
                                 | Inr body \<Rightarrow>
                                     (case r_close r of Some e \<Rightarrow> (Inl e, w2) | None \<Rightarrow> (Inr (take (nat limit) body), w2)))))
                 else apfst (map_sum id bo_data) (read_in_view env c storeErrObjectNotExist rel view limit w1)))))"

definition StatFile :: "gcsEnv \<Rightarrow> 'w client \<Rightarrow> string \<Rightarrow> 'w \<Rightarrow> (gerr + int) \<times> 'w" where
  "StatFile env c rel w =
     (case view_for env c rel w of
        (Inl e, w1) \<Rightarrow> (Inl e, w1)
      | (Inr view, w1) \<Rightarrow>
          (case resolveReadPath c rel view of
             Inl e \<Rightarrow> (Inl e, w1)
           | Inr (path, expected) \<Rightarrow>
               (case client_objectAttrs c path expected w1 of
                  (Inl e, w2) \<Rightarrow> (Inl (if objectNotFound env e then Sentinel storeErrObjectNotExist else Wrapped ''attrs'' e), w2)
                | (Inr a, w2) \<Rightarrow> (if bo_size a < 0 then Inl (Msg ''object has invalid size'') else Inr (bo_size a), w2))))"

definition GetMetaSHA256 :: "gcsEnv \<Rightarrow> 'w client \<Rightarrow> string \<Rightarrow> 'w \<Rightarrow> (gerr + string) \<times> 'w" where
  "GetMetaSHA256 env c rel w =
     (case view_for env c rel w of
        (Inl e, w1) \<Rightarrow> (Inl e, w1)
      | (Inr view, w1) \<Rightarrow>
          (case resolveReadPath c rel view of
             Inl e \<Rightarrow> (Inl e, w1)
           | Inr (path, expected) \<Rightarrow>
               (case client_objectAttrs c path expected w1 of
                  (Inl e, w2) \<Rightarrow>
                    (if gv_manifest view \<noteq> None then Inl (Sentinel ErrDeclaredObjectUnavailable)
                     else if errors_is e storageErrObjectNotExist then Inr '''' else Inl (Wrapped ''attrs'' e), w2)
                | (Inr a, w2) \<Rightarrow>
                    (let digest = map_get_or '''' (bo_metadata a) ''sha256''
                     in if (case gv_manifest view of
                              None \<Rightarrow> False
                            | Some m \<Rightarrow>
                                (case manifest_file m rel of
                                   None \<Rightarrow> True
                                 | Some f \<Rightarrow> f_generation f \<noteq> bo_generation a \<or> f_size f \<noteq> bo_size a \<or> digest \<noteq> f_sha256 f))
                        then (Inl (Sentinel ErrDeclaredObjectUnavailable), w2) else (Inr digest, w2)))))"

section \<open>Listing pages\<close>

text \<open>The fields of \<open>WikiPage\<close> a listing sets.\<close>

record pageEntry =
  pg_slug :: string
  pg_title :: string
  pg_id :: string
  pg_path :: string
  pg_status :: string
  pg_raw_path :: string

definition new_page :: "string \<Rightarrow> string \<Rightarrow> string \<Rightarrow> pageEntry" where
  "new_page slug path status =
     \<lparr>pg_slug = slug, pg_title = slug, pg_id = '''', pg_path = path, pg_status = status, pg_raw_path = ''''\<rparr>"

text \<open>The front matter of a page is \<open>id\<close>, \<open>title\<close> and \<open>source_file\<close>, as \<open>gs_page\<close> reads them.\<close>

definition applyWikiPageFrontmatter :: "gcsEnv \<Rightarrow> pageEntry \<Rightarrow> string \<Rightarrow> gerr + pageEntry" where
  "applyWikiPageFrontmatter env page data =
     (if \<not> has_prefix data ''---'' then Inr page
      else (case gs_page env data of
              Inl e \<Rightarrow> Inl e
            | Inr (i, title, source) \<Rightarrow>
                (let p1 = (if trim_space i \<noteq> '''' then page\<lparr>pg_id := trim_space i\<rparr> else page);
                     p2 = (if trim_space title \<noteq> '''' then p1\<lparr>pg_title := trim_space title\<rparr> else p1)
                 in Inr (if trim_space source \<noteq> '''' then p2\<lparr>pg_raw_path := trim_space source\<rparr> else p2))))"

definition currentGenerationFiles :: "generationView \<Rightarrow> string \<Rightarrow> gfile list option" where
  "currentGenerationFiles view relPrefix =
     map_option (\<lambda>m. filter (\<lambda>f. has_prefix (f_path f) relPrefix) (m_files m)) (gv_manifest view)"

text \<open>The pages of a list of entries, each read in the view; the first error ends the listing.\<close>

fun read_pages :: "gcsEnv \<Rightarrow> 'w client \<Rightarrow> generationView \<Rightarrow> pageEntry list \<Rightarrow> 'w \<Rightarrow> (gerr + pageEntry list) \<times> 'w" where
  "read_pages env c view [] w = (Inr [], w)"
| "read_pages env c view (page # pages) w =
     (case readFileWithView env c (pg_path page) view w of
        (Inl e, w1) \<Rightarrow> (Inl e, w1)
      | (Inr data, w1) \<Rightarrow>
          (case applyWikiPageFrontmatter env page data of
             Inl e \<Rightarrow> (Inl (Wrapped ''parse'' e), w1)
           | Inr p \<Rightarrow>
               (case read_pages env c view pages w1 of
                  (Inl e, w2) \<Rightarrow> (Inl e, w2) | (Inr ps, w2) \<Rightarrow> (Inr (p # ps), w2))))"

text \<open>
  The entries of a directory, by the rule \<open>entry\<close> on the name below it: from the manifest of the view,
  or from the objects of the project. \<open>entry\<close> tells whether a path is listed and under which slug, given
  whether it comes from a manifest and whether the prefix was found on it.
\<close>

definition list_entries ::
  "'w client \<Rightarrow> generationView \<Rightarrow> string \<Rightarrow> (bool \<Rightarrow> bool \<Rightarrow> string \<Rightarrow> string option) \<Rightarrow> string \<Rightarrow> 'w \<Rightarrow> (gerr + pageEntry list) \<times> 'w" where
  "list_entries c view dir entry status w =
     (case currentGenerationFiles view dir of
        Some files \<Rightarrow>
          (Inr (List.map_filter (\<lambda>f. if \<not> has_suffix (f_path f) ''.md'' then None
                  else map_option (\<lambda>slug. new_page slug (f_path f) status) (entry True True (trim_prefix (f_path f) dir))) files), w)
      | None \<Rightarrow>
          (let prefix = object_at c dir
           in case listObjects c prefix w of
                (Inl e, w1) \<Rightarrow> (Inl e, w1)
              | (Inr objects, w1) \<Rightarrow>
                  (Inr (List.map_filter (\<lambda>ob. if \<not> has_suffix (bo_name ob) ''.md'' then None
                          else map_option (\<lambda>slug. new_page slug (dir @ slug @ ''.md'') status)
                                 (entry False (has_prefix (bo_name ob) prefix) (trim_prefix (bo_name ob) prefix))) objects), w1)))"

definition source_entry :: "bool \<Rightarrow> bool \<Rightarrow> string \<Rightarrow> string option" where
  "source_entry declared found rel =
     (let slug = trim_suffix rel ''.md''
      in if declared \<and> (slug = '''' \<or> contains slug ''/'') then None else Some slug)"

definition listDir :: "gcsEnv \<Rightarrow> 'w client \<Rightarrow> generationView \<Rightarrow> string \<Rightarrow> 'w \<Rightarrow> (gerr + pageEntry list) \<times> 'w" where
  "listDir env c view dir w =
     (case list_entries c view dir source_entry '''' w of
        (Inl e, w1) \<Rightarrow> (Inl e, w1) | (Inr pages, w1) \<Rightarrow> read_pages env c view pages w1)"

definition concept_entry :: "string \<Rightarrow> bool \<Rightarrow> bool \<Rightarrow> bool \<Rightarrow> string \<Rightarrow> string option" where
  "concept_entry dir directOnly declared found rel =
     (if \<not> declared \<and> \<not> found \<or> rel = '''' \<or> dir = ''wiki/'' \<and> contains rel ''sources/'' \<or> directOnly \<and> contains rel ''/'' then None
      else (let slug = trim_suffix rel ''.md'' in if slug = ''index'' \<or> slug = ''log'' then None else Some slug))"

definition listConceptDir ::
  "gcsEnv \<Rightarrow> 'w client \<Rightarrow> generationView \<Rightarrow> string \<Rightarrow> string \<Rightarrow> bool \<Rightarrow> 'w \<Rightarrow> (gerr + pageEntry list) \<times> 'w" where
  "listConceptDir env c view dir status directOnly w =
     (case list_entries c view dir (concept_entry dir directOnly) status w of
        (Inl e, w1) \<Rightarrow> (Inl e, w1) | (Inr pages, w1) \<Rightarrow> read_pages env c view pages w1)"

definition ListSources :: "gcsEnv \<Rightarrow> 'w client \<Rightarrow> 'w \<Rightarrow> (gerr + pageEntry list) \<times> 'w" where
  "ListSources env c w =
     (case operationView env c w of
        (Inl e, w1) \<Rightarrow> (Inl e, w1) | (Inr view, w1) \<Rightarrow> listDir env c view ''wiki/sources/'' w1)"

definition ListConcepts :: "gcsEnv \<Rightarrow> 'w client \<Rightarrow> bool \<Rightarrow> 'w \<Rightarrow> (gerr + pageEntry list) \<times> 'w" where
  "ListConcepts env c includeDrafts w =
     (case operationView env c w of
        (Inl e, w1) \<Rightarrow> (Inl e, w1)
      | (Inr view, w1) \<Rightarrow>
          (case listConceptDir env c view ''wiki/'' ''published'' False w1 of
             (Inl e, w2) \<Rightarrow> (Inl e, w2)
           | (Inr published, w2) \<Rightarrow>
               (case listConceptDir env c view ''wiki/.drafts/'' ''draft'' False w2 of
                  (Inl e, w3) \<Rightarrow> (Inl e, w3)
                | (Inr drafts, w3) \<Rightarrow>
                    (let all = fold (\<lambda>page pages. if pg_slug page \<in> set (map pg_slug pages) then pages else pages @ [page]) drafts published
                     in (Inr (if includeDrafts then all else filter (\<lambda>p. pg_status p = ''published'') all), w3)))))"

definition getPageFromDir ::
  "gcsEnv \<Rightarrow> 'w client \<Rightarrow> generationView \<Rightarrow> string \<Rightarrow> string \<Rightarrow> string \<Rightarrow> 'w \<Rightarrow> (gerr + (pageEntry \<times> string)) \<times> 'w" where
  "getPageFromDir env c view slug dir status w =
     (let rel = dir @ slug @ ''.md''
      in apfst (map_sum id (\<lambda>data. (new_page slug rel status, data))) (readFileWithView env c rel view w))"

definition GetPage :: "gcsEnv \<Rightarrow> 'w client \<Rightarrow> string \<Rightarrow> string \<Rightarrow> 'w \<Rightarrow> (gerr + (pageEntry \<times> string)) \<times> 'w" where
  "GetPage env c slug category w =
     (case operationView env c w of
        (Inl e, w1) \<Rightarrow> (Inl e, w1)
      | (Inr view, w1) \<Rightarrow>
          (if category = ''sources'' then getPageFromDir env c view slug ''wiki/sources/'' '''' w1
           else if category = ''concepts''
           then (case getPageFromDir env c view slug ''wiki/'' ''published'' w1 of
                   (Inr r, w2) \<Rightarrow> (Inr r, w2)
                 | (Inl e, w2) \<Rightarrow>
                     (if \<not> errors_is e storageErrObjectNotExist then (Inl e, w2)
                      else getPageFromDir env c view slug ''wiki/.drafts/'' ''draft'' w2))
           else (Inl (Msg ''unknown category''), w1)))"

definition ReadRaw :: "'w client \<Rightarrow> string \<Rightarrow> 'w \<Rightarrow> (gerr + string) \<times> 'w" where
  "ReadRaw c name w =
     (case readObject c (object_at c (''raw/'' @ name)) 0 MaxFileBytes w of
        (Inl e, w1) \<Rightarrow> (Inl (Wrapped ''read raw'' e), w1) | (Inr ob, w1) \<Rightarrow> (Inr (bo_data ob), w1))"

section \<open>Writing\<close>

definition legacyLeaseReleaseAttempts :: int where "legacyLeaseReleaseAttempts = 3"

text \<open>\<open>{"started_at":"redacted"}\<close>.\<close>

definition legacy_lease_payload :: string where
  "legacy_lease_payload =
     ''{'' @ [CHR 0x22] @ ''started_at'' @ [CHR 0x22] @ '':'' @ [CHR 0x22] @ ''redacted'' @ [CHR 0x22] @ ''}''"

definition release_lease :: "gcsEnv \<Rightarrow> 'w client \<Rightarrow> string \<Rightarrow> int \<Rightarrow> 'w \<Rightarrow> gerr option \<times> 'w" where
  "release_lease env c leaseName g w =
     RetryGenerationCleanup g LeaseReleaseTimeout legacyLeaseReleaseAttempts (Some (\<lambda>k. deleteObject env c leaseName k)) w"

fun opt_list :: "'a option \<Rightarrow> 'a list" where
  "opt_list None = []"
| "opt_list (Some x) = [x]"

definition errors_join :: "gerr option list \<Rightarrow> gerr option" where
  "errors_join es = (case concat (map opt_list es) of [] \<Rightarrow> None | errs \<Rightarrow> Some (Joined errs))"

text \<open>
  \<open>BeginLegacyGenerationWrite\<close>: the scope that may write, with the generation of its lease. The function
  that releases the lease is \<open>release_lease\<close> at that generation.
\<close>

definition BeginLegacyGenerationWrite :: "gcsEnv \<Rightarrow> 'w client \<Rightarrow> 'w \<Rightarrow> (gerr + ('w client \<times> int)) \<times> 'w" where
  "BeginLegacyGenerationWrite env c w =
     (let leaseName = object_at c LeasePath
      in case writeObject env c leaseName legacy_lease_payload ''application/json'' []
                \<lparr>wc_DoesNotExist = True, wc_GenerationMatch = None\<rparr> w of
           (Inl _, w1) \<Rightarrow> (Inl (Sentinel ErrGenerationManaged), w1)
         | (Inr attrs, w1) \<Rightarrow>
             (let g = bo_generation attrs
              in case HasCurrentManifest env c w1 of
                   (Inr False, w2) \<Rightarrow> (Inr (c\<lparr>gc_lease := Some g\<rparr>, g), w2)
                 | (r, w2) \<Rightarrow>
                     (case release_lease env c leaseName g w2 of
                        (rel, w3) \<Rightarrow>
                          (Inl (the (errors_join [Some (Sentinel (if r = Inr True then ErrGenerationManaged else ErrGenerationStateUnavailable)), rel])),
                           w3))))"

text \<open>
  The write may leave a result in a variable of the caller: \<open>r0\<close> is what the variable holds before.
\<close>

definition withGenerationWriteLease ::
  "gcsEnv \<Rightarrow> 'w client \<Rightarrow> string list \<Rightarrow> 'r \<Rightarrow> ('w client \<Rightarrow> 'w \<Rightarrow> ('r \<times> gerr option) \<times> 'w) \<Rightarrow> 'w
   \<Rightarrow> ('r \<times> gerr option) \<times> 'w" where
  "withGenerationWriteLease env c paths r0 write w =
     (if \<not> list_ex GenerationOwnedWritePath paths then write c w
      else if gc_lease c \<noteq> None
      then (case HasCurrentManifest env c w of
              (Inl e, w1) \<Rightarrow> ((r0, Some e), w1)
            | (Inr exists, w1) \<Rightarrow> (if exists then ((r0, Some (Sentinel ErrGenerationManaged)), w1) else write c w1))
      else (case BeginLegacyGenerationWrite env c w of
              (Inl e, w1) \<Rightarrow> ((r0, Some e), w1)
            | (Inr (locked, g), w1) \<Rightarrow>
                (case write locked w1 of
                   ((r, writeErr), w2) \<Rightarrow>
                     (case release_lease env c (object_at c LeasePath) g w2 of
                        (releaseErr, w3) \<Rightarrow> ((r, errors_join [writeErr, releaseErr]), w3)))))"

definition contentTypeForPath :: "string \<Rightarrow> string" where
  "contentTypeForPath rel =
     (if has_suffix rel ''.md'' then ''text/markdown; charset=utf-8''
      else if has_suffix rel ''.json'' then ''application/json; charset=utf-8'' else ''application/octet-stream'')"

definition uploadBytesWithDigest :: "gcsEnv \<Rightarrow> 'w client \<Rightarrow> string \<Rightarrow> string \<Rightarrow> string \<Rightarrow> 'w \<Rightarrow> gerr option \<times> 'w" where
  "uploadBytesWithDigest env c data rel digest w =
     apfst snd (withGenerationWriteLease env c [rel] ()
       (\<lambda>writer w. case writeObject env writer (object_at writer rel) data (contentTypeForPath rel) [(''sha256'', digest)] anyWrite w of
                     (Inl e, w1) \<Rightarrow> (((), Some (Wrapped ''write'' e)), w1) | (Inr _, w1) \<Rightarrow> (((), None), w1)) w)"

definition WriteBytes :: "gcsEnv \<Rightarrow> 'w client \<Rightarrow> string \<Rightarrow> string \<Rightarrow> 'w \<Rightarrow> (string \<times> gerr option) \<times> 'w" where
  "WriteBytes env c data rel w =
     (let digest = sha256 (gs_codec env) data
      in apfst (\<lambda>e. (digest, e)) (uploadBytesWithDigest env c data rel digest w))"

text \<open>
  The metadata of an annotation object. The error of \<open>json.Unmarshal\<close> is ignored: nothing is decoded of
  a text that is not JSON, and a member of the wrong kind is skipped.
\<close>

definition annotation_meta_fields :: "annotationMeta json_fields" where
  "annotation_meta_fields =
     [(''ann_sha256'', \<lambda>m v. map_sum id (\<lambda>s. m\<lparr>am_sha256 := s\<rparr>) (decode_string (am_sha256 m) v)),
      (''raw_path'', \<lambda>m v. map_sum id (\<lambda>s. m\<lparr>am_raw_path := s\<rparr>) (decode_string (am_raw_path m) v)),
      (''body'', \<lambda>m v. map_sum id (\<lambda>s. m\<lparr>am_body := s\<rparr>) (decode_string (am_body m) v))]"

fun lenient_members :: "'s json_fields \<Rightarrow> 's \<Rightarrow> (string \<times> json) list \<Rightarrow> 's" where
  "lenient_members fs s [] = s"
| "lenient_members fs s ((name, v) # kvs) =
     lenient_members fs
       (case field_of fs name of None \<Rightarrow> s | Some d \<Rightarrow> (case d s v of Inl _ \<Rightarrow> s | Inr s' \<Rightarrow> s')) kvs"

definition annotation_meta :: "gcsEnv \<Rightarrow> string \<Rightarrow> annotationMeta" where
  "annotation_meta env data =
     (let zero = \<lparr>am_sha256 = [], am_raw_path = [], am_body = []\<rparr>
      in case gs_unmarshal env data of
           Some (JObj kvs) \<Rightarrow> lenient_members annotation_meta_fields zero kvs
         | _ \<Rightarrow> zero)"

definition annotation_metadata :: "annotationMeta \<Rightarrow> (string, string) gomap" where
  "annotation_metadata meta =
     (if am_sha256 meta \<noteq> ''''
      then [(''ann_sha256'', am_sha256 meta), (''raw_path'', am_raw_path meta),
            (''has_annotation'', if am_body meta \<noteq> '''' then ''true'' else ''false'')]
      else [])"

definition conditional_write ::
  "gcsEnv \<Rightarrow> string \<Rightarrow> string \<Rightarrow> int \<Rightarrow> 'w client \<Rightarrow> 'w \<Rightarrow> (int \<times> gerr option) \<times> 'w" where
  "conditional_write env data rel expected writer w =
     (case writeObject env writer (object_at writer rel) data (contentTypeForPath rel)
             (annotation_metadata (annotation_meta env data)) (createOrGenerationCondition expected) w of
        (Inl e, w1) \<Rightarrow> ((0, Some (conditionalWriteError env e)), w1)
      | (Inr attrs, w1) \<Rightarrow> ((bo_generation attrs, None), w1))"

definition WriteFileIfGeneration :: "gcsEnv \<Rightarrow> 'w client \<Rightarrow> string \<Rightarrow> string \<Rightarrow> int \<Rightarrow> 'w \<Rightarrow> (int \<times> gerr option) \<times> 'w" where
  "WriteFileIfGeneration env c data rel expected w =
     withGenerationWriteLease env c [rel] 0 (conditional_write env data rel expected) w"

definition bestEffortTemporaryCleanup :: "int \<Rightarrow> ('w \<Rightarrow> gerr option \<times> 'w) \<Rightarrow> 'w \<Rightarrow> 'w" where
  "bestEffortTemporaryCleanup g remove w = snd (RetryGenerationCleanup g LeaseReleaseTimeout 1 (Some (\<lambda>_. remove)) w)"

text \<open>The two ways of an atomic write: through a backend, and through the SDK with a copy.\<close>

definition replace_condition :: "gcsEnv \<Rightarrow> gerr + backendObject \<Rightarrow> gerr + writeCondition" where
  "replace_condition env r =
     (case r of
        Inr a \<Rightarrow> Inr (createOrGenerationCondition (bo_generation a))
      | Inl e \<Rightarrow> (if \<not> objectNotFound env e then Inl e else Inr \<lparr>wc_DoesNotExist = True, wc_GenerationMatch = None\<rparr>))"

definition atomic_backend :: "gcsEnv \<Rightarrow> string \<Rightarrow> string \<Rightarrow> string \<Rightarrow> 'w client \<Rightarrow> 'w \<Rightarrow> gerr option \<times> 'w" where
  "atomic_backend env data tmpPath finalPath writer w =
     (let meta = [(''sha256'', sha256 (gs_codec env) data)]; tmp = object_at writer tmpPath; final = object_at writer finalPath
      in case writeObject env writer tmp data (contentTypeForPath finalPath) meta anyWrite w of
           (Inl e, w1) \<Rightarrow> (Some e, w1)
         | (Inr tmpAttrs, w1) \<Rightarrow>
             (case client_objectAttrs writer final 0 w1 of
                (r, w2) \<Rightarrow>
                  (case (case replace_condition env r of
                           Inl e \<Rightarrow> (Some e, w2)
                         | Inr condition \<Rightarrow>
                             (case writeObject env writer final data (contentTypeForPath finalPath) meta condition w2 of
                                (Inl e, w3) \<Rightarrow> (Some e, w3) | (Inr _, w3) \<Rightarrow> (None, w3))) of
                     (out, w4) \<Rightarrow>
                       (out, bestEffortTemporaryCleanup (bo_generation tmpAttrs)
                               (deleteObject env writer tmp (bo_generation tmpAttrs)) w4))))"

definition atomic_sdk :: "gcsEnv \<Rightarrow> 'w bucket \<Rightarrow> string \<Rightarrow> string \<Rightarrow> string \<Rightarrow> 'w client \<Rightarrow> 'w \<Rightarrow> gerr option \<times> 'w" where
  "atomic_sdk env bk data tmpPath finalPath writer w =
     (let tmp = object_at writer tmpPath; final = object_at writer finalPath
      in case bk_upload bk tmp NoPrecondition (contentTypeForPath finalPath) [(''sha256'', sha256 (gs_codec env) data)] data w of
           ((Some e, _, _), w1) \<Rightarrow> (Some (conditionalWriteError env (Wrapped ''write'' e)), w1)
         | ((None, Some e, _), w1) \<Rightarrow> (Some (conditionalWriteError env (Wrapped ''close'' e)), w1)
         | ((None, None, attrs), w1) \<Rightarrow>
             (let g = (case attrs of Some a \<Rightarrow> bo_generation a | None \<Rightarrow> 0);
                  clean = (\<lambda>w. if g > 0 then bestEffortTemporaryCleanup g (bk_remove bk tmp (IfGenerationMatch g)) w else w)
              in case bk_attrs bk final None w1 of
                   (r, w2) \<Rightarrow>
                     (case (case r of
                              Inl e \<Rightarrow> (if \<not> errors_is e storageErrObjectNotExist then Inl (conditionalWriteError env (Wrapped ''attrs'' e))
                                        else Inr IfDoesNotExist)
                            | Inr a \<Rightarrow> Inr (IfGenerationMatch (bo_generation a))) of
                        Inl e \<Rightarrow> (Some e, clean w2)
                      | Inr condition \<Rightarrow>
                          (case bk_copy bk tmp (at_generation g) final condition w2 of
                             (copied, w3) \<Rightarrow> (map_option (\<lambda>e. conditionalWriteError env (Wrapped ''copy'' e)) copied, clean w3)))))"

definition atomic_write :: "gcsEnv \<Rightarrow> string \<Rightarrow> string \<Rightarrow> string \<Rightarrow> 'w client \<Rightarrow> 'w \<Rightarrow> gerr option \<times> 'w" where
  "atomic_write env data tmpPath finalPath writer w =
     (if gc_backend writer \<noteq> None then atomic_backend env data tmpPath finalPath writer w
      else (case gc_bucket writer of
              None \<Rightarrow> (Some nil_bucket, w) | Some bk \<Rightarrow> atomic_sdk env bk data tmpPath finalPath writer w))"

definition WriteBytesAtomic :: "gcsEnv \<Rightarrow> 'w client \<Rightarrow> string \<Rightarrow> string \<Rightarrow> string \<Rightarrow> 'w \<Rightarrow> (gerr + string) \<times> 'w" where
  "WriteBytesAtomic env c data tmpPath finalPath w =
     (case withGenerationWriteLease env c [tmpPath, finalPath] ()
             (\<lambda>writer w. apfst (Pair ()) (atomic_write env data tmpPath finalPath writer w)) w of
        ((_, Some e), w1) \<Rightarrow> (Inl e, w1)
      | ((_, None), w1) \<Rightarrow> (Inr (sha256 (gs_codec env) data), w1))"

section \<open>Deleting a project\<close>

definition safeProjectPrefixSegment :: "string \<Rightarrow> bool" where
  "safeProjectPrefixSegment v \<longleftrightarrow> v \<noteq> '''' \<and> v \<noteq> ''.'' \<and> v \<noteq> ''..'' \<and> \<not> contains_any v [CHR ''/'', CHR 0x5C, CHR 0x00]"

text \<open>
  The visitor deletes each object at the generation it was listed with; an object that is gone is no
  error. The listing is the one at the start of the visit.
\<close>

fun delete_objects :: "gcsEnv \<Rightarrow> 'w client \<Rightarrow> backendObject list \<Rightarrow> gerr option \<Rightarrow> int \<Rightarrow> 'w \<Rightarrow> (int \<times> gerr option) \<times> 'w" where
  "delete_objects env c [] e n w = ((n, e), w)"
| "delete_objects env c (ob # obs) e n w =
     (case deleteObject env c (bo_name ob) (bo_generation ob) w of
        (None, w1) \<Rightarrow> delete_objects env c obs e (n + 1) w1
      | (Some err, w1) \<Rightarrow> (if objectNotFound env err then delete_objects env c obs e n w1 else ((n, Some err), w1)))"

definition DeleteProjectPrefix :: "gcsEnv \<Rightarrow> 'w client \<Rightarrow> string \<Rightarrow> string \<Rightarrow> 'w \<Rightarrow> (int \<times> gerr option) \<times> 'w" where
  "DeleteProjectPrefix env c userID projectID w =
     (if \<not> safeProjectPrefixSegment userID \<or> \<not> safeProjectPrefixSegment projectID
      then ((0, Some (Msg ''invalid project prefix'')), w)
      else (case visitObjectsRaw c (''users/'' @ userID @ ''/projects/'' @ projectID @ ''/'') False w of
              ((objects, e), w1) \<Rightarrow> delete_objects env c objects e 0 w1))"

section \<open>The in-memory backend\<close>

text \<open>
  \<open>memoryBackend\<close> of the tests, over the objects of the worker's in-memory store, so that both sides
  can share one store. It keeps no update times and no record of the calls, and has none of the switches by
  which a test makes it interfere.
\<close>

definition object_of :: "string \<Rightarrow> memoryObject \<Rightarrow> backendObject" where
  "object_of name ob =
     \<lparr>bo_name = name, bo_data = mo_data ob, bo_generation = a_generation (mo_attrs ob), bo_size = a_size (mo_attrs ob),
      bo_metadata = a_metadata (mo_attrs ob), bo_updated = 0\<rparr>"

definition mb_find :: "string \<Rightarrow> int \<Rightarrow> memoryObjects \<Rightarrow> gerr + backendObject" where
  "mb_find name g m =
     (case map_of (mem_objects m) name of
        None \<Rightarrow> Inl (Sentinel storageErrObjectNotExist)
      | Some ob \<Rightarrow>
          (if g > 0 \<and> a_generation (mo_attrs ob) \<noteq> g then Inl (Sentinel storageErrObjectNotExist) else Inr (object_of name ob)))"

definition mb_Read :: "string \<Rightarrow> int \<Rightarrow> int \<Rightarrow> memoryObjects \<Rightarrow> (gerr + backendObject) \<times> memoryObjects" where
  "mb_Read name g limit m =
     (case mb_find name g m of
        Inl e \<Rightarrow> (Inl e, m)
      | Inr ob \<Rightarrow> (if bo_size ob > limit then Inl objectExceedsLimit else Inr ob, m))"

definition mb_Attrs :: "string \<Rightarrow> int \<Rightarrow> memoryObjects \<Rightarrow> (gerr + backendObject) \<times> memoryObjects" where
  "mb_Attrs name g m = (map_sum id (\<lambda>ob. ob\<lparr>bo_data := ''''\<rparr>) (mb_find name g m), m)"

definition mb_List :: "string \<Rightarrow> bool \<Rightarrow> memoryObjects \<Rightarrow> (backendObject list \<times> gerr option) \<times> memoryObjects" where
  "mb_List prefix directOnly m =
     ((sort_by (\<lambda>a b. bo_name a < bo_name b)
         (map (\<lambda>(name, ob). (object_of name ob)\<lparr>bo_data := ''''\<rparr>)
            (filter (\<lambda>(name, _). has_prefix name prefix \<and> \<not> (directOnly \<and> contains (trim_prefix name prefix) ''/''))
               (mem_objects m))), None), m)"

definition mb_Write ::
  "string \<Rightarrow> string \<Rightarrow> string \<Rightarrow> (string, string) gomap \<Rightarrow> writeCondition \<Rightarrow> memoryObjects \<Rightarrow> (gerr + backendObject) \<times> memoryObjects" where
  "mb_Write name data contentType metadata c m =
     (let old = map_of (mem_objects m) name
      in if wc_DoesNotExist c \<and> old \<noteq> None then (Inl (Sentinel ErrGenerationMismatch), m)
         else if (case wc_GenerationMatch c of
                    None \<Rightarrow> False
                  | Some g \<Rightarrow> (case old of None \<Rightarrow> True | Some ob \<Rightarrow> a_generation (mo_attrs ob) \<noteq> g))
         then (Inl (Sentinel ErrGenerationMismatch), m)
         else (let n = mem_next m + 1;
                   ob = \<lparr>mo_data = data, mo_attrs = \<lparr>a_name = name, a_generation = n, a_size = int (length data), a_metadata = metadata\<rparr>\<rparr>
               in (Inr (object_of name ob), m\<lparr>mem_next := n, mem_objects := map_set name ob (mem_objects m)\<rparr>)))"

definition mb_Delete :: "string \<Rightarrow> int \<Rightarrow> memoryObjects \<Rightarrow> gerr option \<times> memoryObjects" where
  "mb_Delete name g m =
     (case mb_find name g m of
        Inl _ \<Rightarrow> (Some (Sentinel ErrGenerationMismatch), m)
      | Inr _ \<Rightarrow> (None, m\<lparr>mem_objects := map_del name (mem_objects m)\<rparr>))"

definition memoryBackend :: "memoryObjects clientBackend" where
  "memoryBackend = \<lparr>cb_read = mb_Read, cb_attrs = mb_Attrs, cb_list = mb_List, cb_write = mb_Write, cb_delete = mb_Delete\<rparr>"

definition newMemoryClient :: "string \<Rightarrow> string \<Rightarrow> memoryObjects client" where
  "newMemoryClient user project =
     \<lparr>gc_bucket = None, gc_user = user, gc_project = project, gc_backend = Some memoryBackend, gc_view = None, gc_lease = None\<rparr>"

lemma mb_find_obj:
  "mem_inv m \<Longrightarrow> mem_obj m n = Some (d, g) \<Longrightarrow>
     \<exists>md. mb_find n k m = (if k > 0 \<and> g \<noteq> k then Inl (Sentinel storageErrObjectNotExist)
       else Inr \<lparr>bo_name = n, bo_data = d, bo_generation = g, bo_size = int (length d), bo_metadata = md, bo_updated = 0\<rparr>)"
  using mem_inv_lookup [of m n] by (auto simp: mb_find_def mem_obj_def object_of_def)

lemma mb_find_none: "mem_obj m n = None \<Longrightarrow> mb_find n k m = Inl (Sentinel storageErrObjectNotExist)"
  by (simp add: mb_find_def mem_obj_def)

lemma mb_Read_stored:
  "mem_inv m \<Longrightarrow> mem_obj m n = Some (d, g) \<Longrightarrow> (0 < k \<longrightarrow> g = k) \<Longrightarrow> int (length d) \<le> limit \<Longrightarrow>
     \<exists>ob. mb_Read n k limit m = (Inr ob, m) \<and> bo_data ob = d \<and> bo_generation ob = g \<and> bo_size ob = int (length d)"
  using mb_find_obj [of m n d g k] by (auto simp: mb_Read_def)

lemma mb_Write_fails:
  assumes "wc_DoesNotExist k \<and> mem_obj w n \<noteq> None \<or>
    (\<exists>g. wc_GenerationMatch k = Some g \<and> (\<forall>d. mem_obj w n \<noteq> Some (d, g)))"
  shows "mb_Write n d t md k w = (Inl (Sentinel ErrGenerationMismatch), w)"
  using assms by (auto simp: mb_Write_def mem_obj_def Let_def split: option.splits)

lemma mb_Write_ok:
  assumes "mem_inv w" "wc_DoesNotExist k \<longrightarrow> mem_obj w n = None"
    "\<forall>g. wc_GenerationMatch k = Some g \<longrightarrow> (\<exists>d. mem_obj w n = Some (d, g))"
  shows "\<exists>a w'. mb_Write n d t md k w = (Inr a, w') \<and> mem_inv w' \<and> mem_obj w' = (mem_obj w)(n \<mapsto> (d, bo_generation a)) \<and>
    0 < bo_generation a"
proof -
  let ?ob = "\<lparr>mo_data = d, mo_attrs = \<lparr>a_name = n, a_generation = mem_next w + 1, a_size = int (length d), a_metadata = md\<rparr>\<rparr>"
  let ?w = "w\<lparr>mem_next := mem_next w + 1, mem_objects := map_set n ?ob (mem_objects w)\<rparr>"
  have "mb_Write n d t md k w = (Inr (object_of n ?ob), ?w)"
    using assms(2,3) by (auto simp: mb_Write_def mem_obj_def Let_def split: option.splits)
  moreover have "mem_obj ?w = (mem_obj w)(n \<mapsto> (d, mem_next w + 1))" unfolding mem_obj_write by simp
  moreover have "0 < mem_next w + 1" using assms(1) by (simp add: mem_inv_def)
  ultimately show ?thesis using mem_inv_write [OF assms(1)] by (simp add: object_of_def)
qed

lemma mb_Delete_ok:
  assumes "mem_inv w" "mem_obj w n = Some (d, g)" "0 < g"
  shows "\<exists>w'. mb_Delete n g w = (None, w') \<and> mem_inv w' \<and> mem_obj w' = (mem_obj w)(n := None)"
  using mb_find_obj [OF assms(1,2), of g] mem_inv_delete [OF assms(1)] by (auto simp: mb_Delete_def mem_obj_delete)

lemma listed_objects:
  assumes inv: "mem_inv w" and l: "mb_List prefix False w = ((objects, e), w')"
  shows "w' = w" "e = None" "distinct (map bo_name objects)"
    "list_all (\<lambda>ob. 0 < bo_generation ob \<and> (\<exists>d. mem_obj w (bo_name ob) = Some (d, bo_generation ob))) objects"
    "bo_name ` set objects = {n. has_prefix n prefix \<and> mem_obj w n \<noteq> None}"
proof -
  let ?found = "filter (\<lambda>(name, _). has_prefix name prefix) (mem_objects w)"
  have wf: "distinct (map fst (mem_objects w))" using inv by (simp add: mem_inv_def map_wf_def)
  show "w' = w" "e = None" using l by (auto simp: mb_List_def)
  have objects: "objects = sort_by (\<lambda>a b. bo_name a < bo_name b) (map (\<lambda>(name, ob). (object_of name ob)\<lparr>bo_data := ''''\<rparr>) ?found)"
    using l by (auto simp: mb_List_def)
  have names: "map bo_name (map (\<lambda>(name, ob). (object_of name ob)\<lparr>bo_data := ''''\<rparr>) xs) = map fst xs" for xs
    by (auto simp: object_of_def)
  show "distinct (map bo_name objects)" unfolding objects distinct_map_sort_by names using wf by (rule distinct_map_filter)
  show "list_all (\<lambda>ob. 0 < bo_generation ob \<and> (\<exists>d. mem_obj w (bo_name ob) = Some (d, bo_generation ob))) objects"
    using inv wf by (auto simp: objects list_all_iff object_of_def mem_inv_def mem_obj_def)
  show "bo_name ` set objects = {n. has_prefix n prefix \<and> mem_obj w n \<noteq> None}"
    by (auto simp: objects object_of_def mem_obj_def image_iff map_of_eq_None_iff dest!: map_of_SomeD)
       (metis fst_conv weak_map_of_SomeI option.distinct(1))
qed

section \<open>What the client relies on\<close>

text \<open>
  The laws of a backend that does not fail: an object is read whole at its generation, attributes tell
  whether an object exists, the condition of a write is evaluated with the write, a delete at the generation of
  an object removes it, and a listing has every object under the prefix once.
\<close>

locale client_backend =
  fixes be :: "'w clientBackend" and obj :: "'w \<Rightarrow> contents" and inv :: "'w \<Rightarrow> bool"
  assumes read_stored: "inv w \<Longrightarrow> obj w n = Some (d, g) \<Longrightarrow> (0 < i \<longrightarrow> g = i) \<Longrightarrow> int (length d) \<le> limit \<Longrightarrow>
      \<exists>ob. cb_read be n i limit w = (Inr ob, w) \<and> bo_data ob = d \<and> bo_generation ob = g \<and> bo_size ob = int (length d)"
    and attrs_present: "inv w \<Longrightarrow> obj w n \<noteq> None \<Longrightarrow> \<exists>a. cb_attrs be n 0 w = (Inr a, w)"
    and attrs_absent: "inv w \<Longrightarrow> obj w n = None \<Longrightarrow> cb_attrs be n 0 w = (Inl (Sentinel storageErrObjectNotExist), w)"
    and write_refused: "inv w \<Longrightarrow> wc_DoesNotExist k \<and> obj w n \<noteq> None \<or>
        (\<exists>g. wc_GenerationMatch k = Some g \<and> (\<forall>d. obj w n \<noteq> Some (d, g))) \<Longrightarrow>
      cb_write be n b t md k w = (Inl (Sentinel ErrGenerationMismatch), w)"
    and write_done: "inv w \<Longrightarrow> wc_DoesNotExist k \<longrightarrow> obj w n = None \<Longrightarrow>
        \<forall>g. wc_GenerationMatch k = Some g \<longrightarrow> (\<exists>d. obj w n = Some (d, g)) \<Longrightarrow>
      \<exists>a w'. cb_write be n b t md k w = (Inr a, w') \<and> inv w' \<and> obj w' = (obj w)(n \<mapsto> (b, bo_generation a)) \<and> 0 < bo_generation a"
    and delete_done: "inv w \<Longrightarrow> obj w n = Some (d, g) \<Longrightarrow> 0 < g \<Longrightarrow>
      \<exists>w'. cb_delete be n g w = (None, w') \<and> inv w' \<and> obj w' = (obj w)(n := None)"
    and listed: "inv w \<Longrightarrow> cb_list be prefix False w = ((objects, e), w') \<Longrightarrow>
      w' = w \<and> e = None \<and> distinct (map bo_name objects) \<and>
      list_all (\<lambda>ob. 0 < bo_generation ob \<and> (\<exists>d. obj w (bo_name ob) = Some (d, bo_generation ob))) objects \<and>
      bo_name ` set objects = {n. has_prefix n prefix \<and> obj w n \<noteq> None}"

interpretation mb: client_backend memoryBackend mem_obj mem_inv
proof
  fix w n d g k limit assume "mem_inv w" "mem_obj w n = Some (d, g)" "0 < k \<longrightarrow> g = k" "int (length d) \<le> limit"
  then show "\<exists>ob. cb_read memoryBackend n k limit w = (Inr ob, w) \<and> bo_data ob = d \<and> bo_generation ob = g \<and> bo_size ob = int (length d)"
    using mb_Read_stored by (simp add: memoryBackend_def)
next
  fix w n assume w: "mem_inv w" "mem_obj w n \<noteq> None"
  then obtain ob where "mb_find n 0 w = Inr ob" using mb_find_obj [OF w(1), of n _ _ 0] by force
  then show "\<exists>a. cb_attrs memoryBackend n 0 w = (Inr a, w)" by (simp add: memoryBackend_def mb_Attrs_def)
next
  fix w n assume "mem_obj w n = None"
  then show "cb_attrs memoryBackend n 0 w = (Inl (Sentinel storageErrObjectNotExist), w)"
    by (simp add: memoryBackend_def mb_Attrs_def mb_find_none)
next
  fix w n b t md and k :: writeCondition
  assume "wc_DoesNotExist k \<and> mem_obj w n \<noteq> None \<or> (\<exists>g. wc_GenerationMatch k = Some g \<and> (\<forall>d. mem_obj w n \<noteq> Some (d, g)))"
  then show "cb_write memoryBackend n b t md k w = (Inl (Sentinel ErrGenerationMismatch), w)"
    using mb_Write_fails by (simp add: memoryBackend_def)
next
  fix w n b t md and k :: writeCondition
  assume "mem_inv w" "wc_DoesNotExist k \<longrightarrow> mem_obj w n = None" "\<forall>g. wc_GenerationMatch k = Some g \<longrightarrow> (\<exists>d. mem_obj w n = Some (d, g))"
  then show "\<exists>a w'. cb_write memoryBackend n b t md k w = (Inr a, w') \<and> mem_inv w' \<and>
      mem_obj w' = (mem_obj w)(n \<mapsto> (b, bo_generation a)) \<and> 0 < bo_generation a"
    using mb_Write_ok by (simp add: memoryBackend_def)
next
  fix w n d g assume "mem_inv w" "mem_obj w n = Some (d, g)" "0 < g"
  then show "\<exists>w'. cb_delete memoryBackend n g w = (None, w') \<and> mem_inv w' \<and> mem_obj w' = (mem_obj w)(n := None)"
    using mb_Delete_ok by (simp add: memoryBackend_def)
next
  fix w prefix objects e w' assume "mem_inv w" "cb_list memoryBackend prefix False w = ((objects, e), w')"
  then show "w' = w \<and> e = None \<and> distinct (map bo_name objects) \<and>
      list_all (\<lambda>ob. 0 < bo_generation ob \<and> (\<exists>d. mem_obj w (bo_name ob) = Some (d, bo_generation ob))) objects \<and>
      bo_name ` set objects = {n. has_prefix n prefix \<and> mem_obj w n \<noteq> None}"
    using listed_objects by (simp add: memoryBackend_def)
qed

end
