(* ===== verification/GenerationView.thy ===== *)
theory GenerationView
  imports GcsClient
begin

text \<open>
  What the BFF's access to a project guarantees (\<open>internal/gcs\<close>): a view lets through only what its
  manifest declares, a pinned client keeps its generation, writes of generated output are fenced
  off by the lease and the manifest, projects are apart, and what the worker publishes is what the
  BFF serves. The lemmas of the client over a backend stand in the context of its contract.
\<close>

section \<open>What a view lets through\<close>

text \<open>Bytes are declared by a manifest when its file of that path has their length and digest.\<close>

definition declared_bytes :: "gcsEnv \<Rightarrow> manifest \<Rightarrow> string \<Rightarrow> string \<Rightarrow> bool" where
  "declared_bytes env m rel data \<longleftrightarrow>
     list_ex (\<lambda>f. f_path f = rel \<and> f_size f = int (length data) \<and> f_sha256 f = sha256 (gs_codec env) data) (m_files m)"

lemma manifest_file_mem: "manifest_file m p = Some f \<Longrightarrow> f \<in> set (m_files m) \<and> f_path f = p"
  unfolding manifest_file_def Let_def by (metis nth_mem option.distinct(1) option.inject)

lemma verified_file:
  assumes "verifyGenerationRead env rel view ob = None" and "gv_manifest view = Some m"
  obtains f where "manifest_file m rel = Some f" "f_generation f = bo_generation ob"
    "f_size f = int (length (bo_data ob))" "f_sha256 f = sha256 (gs_codec env) (bo_data ob)"
  using assms by (auto simp: verifyGenerationRead_def split: option.splits if_splits)

lemma read_in_view_declared:
  assumes "read_in_view env c missing rel view limit w = (Inr ob, w')" and "gv_manifest view = Some m"
  obtains f where "manifest_file m rel = Some f" "f_generation f = bo_generation ob"
    "f_size f = int (length (bo_data ob))" "f_sha256 f = sha256 (gs_codec env) (bo_data ob)"
proof -
  have "verifyGenerationRead env rel view ob = None"
    using assms(1) by (auto simp: read_in_view_def split: sum.splits prod.splits option.splits)
  from verified_file [OF this assms(2)] that show thesis by blast
qed

text \<open>The pinned readers of a path, whatever they are called for.\<close>

definition pinned_to :: "'w client \<Rightarrow> manifest \<Rightarrow> bool" where
  "pinned_to c m \<longleftrightarrow> (\<exists>v. gc_view c = Some v \<and> gv_manifest v = Some m)"

lemma ReadFile_pinned:
  "pinned_to c m \<Longrightarrow> GenerationOwned rel \<Longrightarrow>
     \<exists>view. gv_manifest view = Some m \<and> operationView env c w = (Inr view, w)"
  by (auto simp: pinned_to_def operationView_def)

lemma view_declares:
  assumes "read_in_view env c missing rel view limit w = (Inr ob, w')" and "gv_manifest view = Some m"
  shows "declared_bytes env m rel (bo_data ob)"
  using read_in_view_declared [OF assms] manifest_file_mem unfolding declared_bytes_def list_ex_iff by metis

lemma map_sum_Inr: "map_sum f g s = Inr y \<longleftrightarrow> (\<exists>x. s = Inr x \<and> y = g x)"
  by (cases s) auto

lemma pinned_reads_declared:
  assumes p: "pinned_to c m" and rel: "GenerationOwned rel"
  shows "ReadFile env c rel w = (Inr data, w') \<Longrightarrow> declared_bytes env m rel data"
    "ReadFileLimited env c rel limit w = (Inr data, w') \<Longrightarrow> declared_bytes env m rel data"
    "ReadFileWithGeneration env c rel w = (Inr (data, g), w') \<Longrightarrow> declared_bytes env m rel data"
proof -
  obtain view where v: "gv_manifest view = Some m" "operationView env c w = (Inr view, w)"
    using ReadFile_pinned [OF p rel] by blast
  note D = view_declares [OF _ v(1)]
  show "declared_bytes env m rel data" if "ReadFile env c rel w = (Inr data, w')"
    using that rel v(2)
    by (auto simp: ReadFile_def readFileWithView_def apfst_def map_prod_def map_sum_Inr split: prod.splits dest!: D)
  show "declared_bytes env m rel data" if "ReadFileLimited env c rel limit w = (Inr data, w')"
    using that rel v D
    by (auto simp: ReadFileLimited_def view_for_def apfst_def map_prod_def map_sum_Inr split: prod.splits sum.splits if_splits)
  show "declared_bytes env m rel data" if "ReadFileWithGeneration env c rel w = (Inr (data, g), w')"
    using that rel v D
    by (auto simp: ReadFileWithGeneration_def view_for_def apfst_def map_prod_def map_sum_Inr split: prod.splits sum.splits)
qed

lemma declared_unique:
  assumes "Validate rfc m = Inr ()" "declared_bytes env m rel a" "declared_bytes env m rel b"
  shows "length a = length b \<and> sha256 (gs_codec env) a = sha256 (gs_codec env) b"
proof -
  have "distinct (map f_path (m_files m))"
    using assms(1) strict_sorted_iff [of "map f_path (m_files m)"] by (simp add: Validate_ok_iff)
  with assms(2,3) show ?thesis
    unfolding declared_bytes_def list_ex_iff by (metis (no_types, lifting) distinct_map inj_onD of_nat_eq_iff)
qed

section \<open>Reading a stored generation\<close>

text \<open>
  A generation is complete in a store when its manifest validates and every file of it is stored with
  the contents of a workspace, as \<open>publishCloudGenerationFromStart\<close> leaves it.
\<close>

definition complete_generation :: "codec \<Rightarrow> workspace \<Rightarrow> string \<Rightarrow> manifest \<Rightarrow> contents \<Rightarrow> bool" where
  "complete_generation cd ws prefix m ob \<longleftrightarrow>
     Validate (rfc3339 cd) m = Inr () \<and> list_all (stored_file cd ws prefix (m_generation_id m) ob) (m_files m)"

definition declared_contents :: "workspace \<Rightarrow> manifest \<Rightarrow> string \<Rightarrow> gerr + string" where
  "declared_contents ws m rel =
     (if rel \<in> f_path ` set (m_files m) then Inr (map_get_or '''' ws rel) else Inl (Sentinel storageErrObjectNotExist))"

context client_backend
begin

lemma readObject_stored:
  assumes "gc_backend c = Some be" "inv w" "obj w n = Some (d, g)" "k > 0 \<longrightarrow> g = k" "int (length d) \<le> limit"
  shows "\<exists>ob. readObject c n k limit w = (Inr ob, w) \<and> bo_data ob = d \<and> bo_generation ob = g"
  using read_stored [OF assms(2-5)] assms(1,5) by (auto simp: readObject_def)

lemma read_view_complete:
  assumes c: "gc_backend c = Some be" and inv: "inv v"
    and gen: "complete_generation (gs_codec env) ws (client_prefix c @ ''/'') m (obj v)"
    and view: "gv_manifest view = Some m" and rel: "GenerationOwned rel"
  shows "readFileWithView env c rel view v = (declared_contents ws m rel, v)"
proof -
  have sorted: "sorted_wrt (<) (map f_path (m_files m))" using gen by (simp add: complete_generation_def Validate_ok_iff)
  show ?thesis
  proof (cases "manifest_file m rel")
    case None
    then have "rel \<notin> f_path ` set (m_files m)" using manifest_file_correct [OF sorted, of rel] by auto
    then show ?thesis using None view rel
      by (simp add: readFileWithView_def read_in_view_def resolveReadPath_def declared_contents_def)
  next
    case (Some f)
    then have f: "f \<in> set (m_files m)" "f_path f = rel" using manifest_file_mem by blast+
    with gen obtain b where b: "map_of ws rel = Some b"
      "obj v (generation_dir (client_prefix c @ ''/'') (m_generation_id m) @ rel) = Some (b, f_generation f)"
      "int (length b) = f_size f" "sha256 (gs_codec env) b = f_sha256 f" "0 < f_generation f"
      by (auto simp: complete_generation_def list_all_iff stored_file_def)
    have path: "object_at c (ObjectPath m f) = generation_dir (client_prefix c @ ''/'') (m_generation_id m) @ rel"
      by (simp add: object_at_def ObjectPath_def generation_dir_def f(2))
    have "f_size f \<le> MaxFileBytes"
      using gen f(1) by (auto simp: complete_generation_def Validate_ok_iff list_all_iff file_ok_def)
    then have lim: "int (length b) \<le> readLimitForView rel view" using view Some b(3) by (simp add: readLimitForView_def)
    have "obj v (object_at c (ObjectPath m f)) = Some (b, f_generation f)" using b(2) path by simp
    from readObject_stored [OF c inv this _ lim, of "f_generation f"] obtain ob
      where ob: "readObject c (object_at c (ObjectPath m f)) (f_generation f) (readLimitForView rel view) v = (Inr ob, v)"
        "bo_data ob = b" "bo_generation ob = f_generation f" by auto
    have "rel \<in> f_path ` set (m_files m)" using f by blast
    then show ?thesis using Some view rel ob b
      by (simp add: readFileWithView_def read_in_view_def resolveReadPath_def verifyGenerationRead_def declared_contents_def map_get_or_def)
  qed
qed

lemma capture_current:
  assumes c: "gc_backend c = Some be" and inv: "inv w"
    and d: "obj w (object_at c ManifestPath) = Some (d, g)" "decode_manifest env d = Inr m"
  shows "\<exists>view. captureGenerationView env c w = (Inr view, w) \<and> gv_manifest view = Some m"
proof -
  have "length d \<le> MaxManifestBytes" using d(2) by (auto simp: decode_manifest_def Decode_def split: if_splits sum.splits)
  then have "int (length d) \<le> int MaxManifestBytes" by simp
  from readObject_stored [OF c inv d(1) _ this, of 0] obtain ob
    where "readObject c (object_at c ManifestPath) 0 (int MaxManifestBytes) w = (Inr ob, w)" "bo_data ob = d" by auto
  then show ?thesis using d(2) by (simp add: captureGenerationView_def currentManifest_def)
qed

lemma Pin_current:
  assumes c: "gc_backend c = Some be" "gc_view c = None" and inv: "inv w"
    and d: "obj w (object_at c ManifestPath) = Some (d, g)" "decode_manifest env d = Inr m"
  shows "\<exists>p. Pin env c w = (Inr p, w) \<and> gc_backend p = Some be \<and> client_prefix p = client_prefix c \<and> pinned_to p m"
  using capture_current [OF c(1) inv d] c by (auto simp: Pin_def operationView_def pinned_to_def)

end

text \<open>What a publication leaves is a complete generation whose manifest the reader decodes.\<close>

lemma published_complete:
  assumes store: "ce_store env = memoryStore" "mem_inv w"
    and pub: "publishCloudGenerationFromStart env prefix entries ws snapshots oldData oldAttrs oldExists w = (Inr (m, g), w')"
    and reader: "gs_codec genv = se_codec (ce_sources env)" "gs_parse genv = se_parse (ce_sources env)"
    and lexer: "se_parse (ce_sources env) (pe_marshal env (manifest_to_json m)) = [Some (manifest_to_json m)]"
    and bounds: "length (pe_marshal env (manifest_to_json m)) \<le> MaxManifestBytes" "mem_next w' < 2 ^ 63"
  obtains files d where "preflightGenerationOutputs (ce_sources env) (pe_quick env) entries ws = Inr files" "mem_inv w'"
    "mem_obj w' (prefix @ ManifestPath) = Some (d, g)" "decode_manifest genv d = Inr m"
    "complete_generation (gs_codec genv) ws prefix m (mem_obj w')" "f_path ` set (m_files m) = go_path ` set files"
proof -
  obtain files where files: "preflightGenerationOutputs (ce_sources env) (pe_quick env) entries ws = Inr files"
    and run: "publishCloudGenerationWithFiles env prefix ws snapshots files oldData oldAttrs oldExists w = (Inr (m, g), w')"
    using pub by (auto simp: publishCloudGenerationFromStart_def split: sum.splits)
  have st: "object_store (ce_store env) mem_obj mem_inv mem_known" using store(1) mem.object_store_axioms by simp
  from object_store.publish_ok [OF st run store(2) refl] have inv: "mem_inv w'"
    and done': "committed env prefix m g (mem_obj w')" "Validate (rfc3339 (se_codec (ce_sources env))) m = Inr ()"
      "mset (map output_of (m_files m)) = mset files"
      "list_all (stored_file (se_codec (ce_sources env)) ws prefix (m_generation_id m) (mem_obj w')) (m_files m)"
    by (auto simp: publish_outcome_def)
  obtain d where d: "mem_obj w' (prefix @ ManifestPath) = Some (d, g)"
    "d = pe_marshal env (manifest_to_json m) \<or> Decode (rfc3339 (se_codec (ce_sources env))) (se_parse (ce_sources env)) d = Inr m"
    using done'(1) by (auto simp: committed_def)
  have outputs: "output_of ` set (m_files m) = set files" using mset_eq_setD [OF done'(3)] by simp
  have paths: "f_path ` set (m_files m) = go_path ` set files"
    by (simp add: outputs [symmetric] image_image output_of_def)
  have "files \<noteq> []" using preflight_ok [OF files [unfolded preflightGenerationOutputs_def]] by (auto simp: required_outputs_def)
  then have ne: "m_files m \<noteq> []" using done'(3) by auto
  have "in_int64 (f_generation f)" if "f \<in> set (m_files m)" for f
  proof -
    from that done'(4) obtain n b where "mem_obj w' n = Some (b, f_generation f)" "0 < f_generation f"
      by (auto simp: list_all_iff stored_file_def)
    with mem.known_objects [OF inv] have "f_generation f \<le> mem_next w'" by (simp add: mem_known_def)
    then show ?thesis using bounds(2) \<open>0 < f_generation f\<close> by (simp add: in_int64_def)
  qed
  then have gens: "\<forall>f \<in> set (m_files m). in_int64 (f_generation f)" by blast
  have "Decode (rfc3339 (se_codec (ce_sources env))) (se_parse (ce_sources env)) d = Inr m"
    using d(2) marshal_decodes [where marshal = "pe_marshal env" and parse = "se_parse (ce_sources env)" and m = m, OF done'(2) ne gens bounds(1) lexer] by auto
  then have "decode_manifest genv d = Inr m" by (simp add: decode_manifest_def reader)
  moreover have "complete_generation (gs_codec genv) ws prefix m (mem_obj w')"
    using done'(2,4) by (simp add: complete_generation_def reader)
  ultimately show thesis using that files inv d(1) paths by blast
qed

section \<open>Writing beside the worker\<close>

text \<open>\<open>status.Code\<close> of an error that is no gRPC status.\<close>

definition plain_status :: "gcsEnv \<Rightarrow> bool" where
  "plain_status env \<longleftrightarrow> (\<forall>s. gs_status env (Sentinel s) = codesOther)"

lemma backend_calls:
  assumes "gc_backend c = Some be"
  shows "client_objectAttrs c n g w = cb_attrs be n g w" "writeObject env c n d t md k w = cb_write be n d t md k w"
    "deleteObject env c n g w = cb_delete be n g w"
  using assms by (simp_all add: client_objectAttrs_def writeObject_def deleteObject_def)

lemma lease_not_manifest: "object_at c LeasePath \<noteq> object_at c ManifestPath"
  by (simp add: object_at_def LeasePath_def ManifestPath_def)

context client_backend
begin

lemma HasCurrentManifest_stored:
  assumes "gc_backend c = Some be" "plain_status env" "inv w"
  shows "HasCurrentManifest env c w = (Inr (obj w (object_at c ManifestPath) \<noteq> None), w)"
proof (cases "obj w (object_at c ManifestPath) = None")
  case True
  then show ?thesis using assms(1) attrs_absent [OF assms(3)]
    by (simp add: HasCurrentManifest_def backend_calls objectNotFound_def)
next
  case False
  then show ?thesis using assms(1) attrs_present [OF assms(3) False] by (auto simp: HasCurrentManifest_def backend_calls)
qed

lemma release_stored:
  assumes "gc_backend c = Some be" "inv w" "obj w n = Some (d, g)" "0 < g"
  shows "\<exists>w'. release_lease env c n g w = (None, w') \<and> inv w' \<and> obj w' = (obj w)(n := None)"
  using delete_done [OF assms(2-4)] assms(1,4)
  by (auto simp: release_lease_def RetryGenerationCleanup_def LeaseReleaseTimeout_def legacyLeaseReleaseAttempts_def
      numeral_3_eq_3 backend_calls)

lemma begin_held:
  assumes "gc_backend c = Some be" "inv w" "obj w (object_at c LeasePath) \<noteq> None"
  shows "BeginLegacyGenerationWrite env c w = (Inl (Sentinel ErrGenerationManaged), w)"
  using assms by (simp add: BeginLegacyGenerationWrite_def Let_def backend_calls write_refused)

lemma begin_free:
  assumes c: "gc_backend c = Some be" and status: "plain_status env" and inv: "inv w"
    and free: "obj w (object_at c LeasePath) = None"
  shows "\<exists>g w1. 0 < g \<and> inv w1 \<and>
    (if obj w (object_at c ManifestPath) = None
     then BeginLegacyGenerationWrite env c w = (Inr (c\<lparr>gc_lease := Some g\<rparr>, g), w1) \<and>
       obj w1 = (obj w)(object_at c LeasePath \<mapsto> (legacy_lease_payload, g))
     else BeginLegacyGenerationWrite env c w = (Inl (Joined [Sentinel ErrGenerationManaged]), w1) \<and> obj w1 = obj w)"
proof -
  let ?n = "object_at c LeasePath" and ?k = "\<lparr>wc_DoesNotExist = True, wc_GenerationMatch = None\<rparr>"
  obtain a w1 where a: "cb_write be ?n legacy_lease_payload ''application/json'' [] ?k w = (Inr a, w1)" "inv w1"
    "obj w1 = (obj w)(?n \<mapsto> (legacy_lease_payload, bo_generation a))" "0 < bo_generation a"
    using write_done [OF inv, of ?k ?n legacy_lease_payload "''application/json''" "[]"] free by auto
  have has: "HasCurrentManifest env c w1 = (Inr (obj w (object_at c ManifestPath) \<noteq> None), w1)"
    using HasCurrentManifest_stored [OF c status a(2)] lease_not_manifest [of c] by (simp add: a(3))
  show ?thesis
  proof (cases "obj w (object_at c ManifestPath) = None")
    case True
    then have "BeginLegacyGenerationWrite env c w = (Inr (c\<lparr>gc_lease := Some (bo_generation a)\<rparr>, bo_generation a), w1)"
      using has by (simp add: BeginLegacyGenerationWrite_def Let_def backend_calls [OF c] a(1))
    then show ?thesis using True a by auto
  next
    case False
    obtain w2 where w2: "release_lease env c ?n (bo_generation a) w1 = (None, w2)" "inv w2" "obj w2 = (obj w1)(?n := None)"
      using release_stored [OF c a(2) _ a(4), of ?n legacy_lease_payload] a(3) by auto
    have "obj w2 = obj w" using w2(3) a(3) free by (simp add: fun_upd_idem)
    moreover have "BeginLegacyGenerationWrite env c w = (Inl (Joined [Sentinel ErrGenerationManaged]), w2)"
      using has False by (simp add: BeginLegacyGenerationWrite_def Let_def backend_calls [OF c] a(1) w2(1) errors_join_def)
    ultimately show ?thesis using False w2(2) a(4) by auto
  qed
qed

text \<open>
  A write through the lease: it is refused while a lease or a manifest
  exists; otherwise it runs with the lease taken, and the lease is gone afterwards.
\<close>

lemma fenced_refused:
  assumes "gc_backend c = Some be" "gc_lease c = None" "plain_status env" "inv w" "list_ex GenerationOwnedWritePath paths"
    and "obj w (object_at c LeasePath) \<noteq> None \<or> obj w (object_at c ManifestPath) \<noteq> None"
  shows "\<exists>e w'. withGenerationWriteLease env c paths old body w = ((old, Some e), w') \<and> errors_is e ErrGenerationManaged \<and>
    obj w' = obj w"
proof (cases "obj w (object_at c LeasePath)")
  case None
  then have "obj w (object_at c ManifestPath) \<noteq> None" using assms(6) by simp
  with begin_free [OF assms(1,3,4) None] show ?thesis using assms(2,5)
    by (auto simp: withGenerationWriteLease_def split: if_splits)
next
  case (Some p)
  then show ?thesis using begin_held [OF assms(1,4), of env] assms(2,5) by (simp add: withGenerationWriteLease_def)
qed

lemma fenced_runs:
  assumes c: "gc_backend c = Some be" "gc_lease c = None" and status: "plain_status env" and inv: "inv w"
    and managed: "list_ex GenerationOwnedWritePath paths"
    and free: "obj w (object_at c LeasePath) = None" "obj w (object_at c ManifestPath) = None"
    and runs: "\<And>g w1. inv w1 \<Longrightarrow> obj w1 = (obj w)(object_at c LeasePath \<mapsto> (legacy_lease_payload, g)) \<Longrightarrow>
      \<exists>r e w2. body (c\<lparr>gc_lease := Some g\<rparr>) w1 = ((r, e), w2) \<and> inv w2 \<and> P r e \<and>
        obj w2 = (change r (obj w))(object_at c LeasePath \<mapsto> (legacy_lease_payload, g))"
    and keeps: "\<And>r. change r (obj w) (object_at c LeasePath) = None"
  shows "\<exists>r e w'. withGenerationWriteLease env c paths old body w = ((r, errors_join [e]), w') \<and> inv w' \<and> P r e \<and>
    obj w' = change r (obj w)"
proof -
  let ?n = "object_at c LeasePath"
  obtain g w1 where b: "0 < g" "inv w1" "BeginLegacyGenerationWrite env c w = (Inr (c\<lparr>gc_lease := Some g\<rparr>, g), w1)"
    "obj w1 = (obj w)(?n \<mapsto> (legacy_lease_payload, g))"
    using begin_free [OF c(1) status inv free(1)] free(2) by auto
  obtain r e w2 where r: "body (c\<lparr>gc_lease := Some g\<rparr>) w1 = ((r, e), w2)" "inv w2" "P r e"
    "obj w2 = (change r (obj w))(?n \<mapsto> (legacy_lease_payload, g))"
    using runs [OF b(2,4)] by auto
  obtain w3 where w3: "release_lease env c ?n g w2 = (None, w3)" "inv w3" "obj w3 = (obj w2)(?n := None)"
    using release_stored [OF c(1) r(2) _ b(1), of ?n legacy_lease_payload] r(4) by auto
  have "obj w3 = change r (obj w)" using w3(3) r(4) keeps by (simp add: fun_upd_idem)
  moreover have "errors_join [e, None] = errors_join [e]" by (simp add: errors_join_def)
  ultimately show ?thesis using c(2) managed b(3) r w3 by (auto simp: withGenerationWriteLease_def)
qed

end

section \<open>Projects are apart\<close>

lemma clean_parts_safe: "list_all safeProjectPrefixSegment ws \<Longrightarrow> clean_parts False out ws = rev out @ ws"
  by (induction ws arbitrary: out) (auto simp: safeProjectPrefixSegment_def)

lemma ProjectPrefix_safe:
  assumes "safeProjectPrefixSegment u" "safeProjectPrefixSegment p"
  shows "ProjectPrefix u p = ''users/'' @ u @ ''/projects/'' @ p"
proof -
  let ?ws = "[''users'', u, ''projects'', p]"
  have no: "CHR ''/'' \<notin> set u" "CHR ''/'' \<notin> set p" and ne: "u \<noteq> ''''" "p \<noteq> ''''"
    using assms by (auto simp: safeProjectPrefixSegment_def contains_any_def list_ex_iff)
  have "split_on (CHR ''/'') (join_with ''/'' ?ws) = ?ws" using no by (intro split_join) auto
  moreover have "list_all safeProjectPrefixSegment ?ws"
    using assms by (simp add: safeProjectPrefixSegment_def contains_any_def)
  then have "clean_parts False [] ?ws = ?ws" using clean_parts_safe by (metis append_Nil rev.simps(1))
  moreover have "\<not> has_prefix (join_with ''/'' ?ws) ''/''" "join_with ''/'' ?ws \<noteq> ''''" by (simp_all add: has_prefix_def)
  ultimately have "path_clean (join_with ''/'' ?ws) = join_with ''/'' ?ws"
    unfolding path_clean_def Let_def by (simp only: if_False)
  then show ?thesis using ne by (simp add: ProjectPrefix_def path_join_def)
qed

lemma segment_unique: "a @ d # x = b @ d # y \<Longrightarrow> d \<notin> set a \<Longrightarrow> d \<notin> set b \<Longrightarrow> a = b \<and> x = y"
  by (induction a arbitrary: b) (case_tac b; auto)+

lemma project_prefix_unique:
  assumes "safeProjectPrefixSegment u" "safeProjectPrefixSegment p" "safeProjectPrefixSegment u'" "safeProjectPrefixSegment p'"
    and "has_prefix (''users/'' @ u' @ ''/projects/'' @ p' @ ''/'' @ rel) (''users/'' @ u @ ''/projects/'' @ p @ ''/'')"
  shows "u' = u \<and> p' = p"
proof -
  have no: "CHR ''/'' \<notin> set x" if "safeProjectPrefixSegment x" for x
    using that by (auto simp: safeProjectPrefixSegment_def contains_any_def list_ex_iff)
  obtain z where "u' @ CHR ''/'' # (''projects/'' @ p' @ ''/'' @ rel) = u @ CHR ''/'' # (''projects/'' @ p @ ''/'' @ z)"
    using assms(5) by (auto simp: has_prefix_iff)
  from segment_unique [OF this] no assms have u: "u' = u" and "p' @ CHR ''/'' # rel = p @ CHR ''/'' # z" by auto
  from segment_unique [OF this(2)] no assms u show ?thesis by auto
qed

context client_backend
begin

lemma delete_objects_stored:
  assumes c: "gc_backend c = Some be"
  shows "inv w \<Longrightarrow> distinct (map bo_name obs) \<Longrightarrow>
    list_all (\<lambda>ob. 0 < bo_generation ob \<and> (\<exists>d. obj w (bo_name ob) = Some (d, bo_generation ob))) obs \<Longrightarrow>
    \<exists>w'. delete_objects env c obs e n w = ((n + int (length obs), e), w') \<and>
      obj w' = (\<lambda>k. if k \<in> bo_name ` set obs then None else obj w k)"
proof (induction obs arbitrary: n w)
  case (Cons ob obs)
  then obtain d where "obj w (bo_name ob) = Some (d, bo_generation ob)" "0 < bo_generation ob" by auto
  from delete_done [OF Cons.prems(1) this] obtain w1 where w1: "cb_delete be (bo_name ob) (bo_generation ob) w = (None, w1)" "inv w1"
    "obj w1 = (obj w)(bo_name ob := None)" by blast
  have "list_all (\<lambda>x. 0 < bo_generation x \<and> (\<exists>d. obj w1 (bo_name x) = Some (d, bo_generation x))) obs"
    using Cons.prems(2,3) unfolding list_all_iff by (auto simp: w1(3) image_iff)
  from Cons.IH [OF w1(2) _ this, of "n + 1"] Cons.prems(2) obtain w2
    where "delete_objects env c obs e (n + 1) w1 = ((n + 1 + int (length obs), e), w2)"
      "obj w2 = (\<lambda>k. if k \<in> bo_name ` set obs then None else obj w1 k)" by auto
  then show ?case using w1 by (auto simp: backend_calls [OF c] fun_eq_iff)
qed simp

end

section \<open>Properties\<close>

text \<open>
  C5. What the worker publishes is what the BFF serves. After a successful publication every read of a
  generated path through a fresh client of the project returns the contents of the worker's workspace for
  the outputs of the preflight, and an error for every other generated path, so nothing of an
  earlier generation or of a legacy layout shows through.
\<close>

theorem published_generation_readable:
  assumes store: "ce_store env = memoryStore" "mem_inv w"
    and pub: "publishCloudGenerationFromStart env (client_prefix c @ ''/'') entries ws snapshots oldData oldAttrs oldExists w =
      (Inr (m, g), w')"
    and client: "gc_backend c = Some memoryBackend" "gc_view c = None"
      "gs_codec genv = se_codec (ce_sources env)" "gs_parse genv = se_parse (ce_sources env)"
    and lexer: "se_parse (ce_sources env) (pe_marshal env (manifest_to_json m)) = [Some (manifest_to_json m)]"
    and bounds: "length (pe_marshal env (manifest_to_json m)) \<le> MaxManifestBytes" "mem_next w' < 2 ^ 63"
    and rel: "GenerationOwned rel"
  shows "\<exists>files. preflightGenerationOutputs (ce_sources env) (pe_quick env) entries ws = Inr files \<and>
    ReadFile genv c rel w' =
      (if rel \<in> go_path ` set files then Inr (map_get_or '''' ws rel) else Inl (Sentinel storageErrObjectNotExist), w')"
proof -
  obtain files d where P: "preflightGenerationOutputs (ce_sources env) (pe_quick env) entries ws = Inr files" "mem_inv w'"
    "mem_obj w' (client_prefix c @ ''/'' @ ManifestPath) = Some (d, g)" "decode_manifest genv d = Inr m"
    "complete_generation (gs_codec genv) ws (client_prefix c @ ''/'') m (mem_obj w')" "f_path ` set (m_files m) = go_path ` set files"
    using published_complete [OF store pub client(3,4) lexer bounds] by auto
  have "mem_obj w' (object_at c ManifestPath) = Some (d, g)" using P(3) by (simp add: object_at_def)
  from mb.capture_current [OF client(1) P(2) this P(4)] obtain view
    where "captureGenerationView genv c w' = (Inr view, w')" "gv_manifest view = Some m" by blast
  with mb.read_view_complete [OF client(1) P(2,5) _ rel] rel client(2)
  have "ReadFile genv c rel w' = (declared_contents ws m rel, w')" by (simp add: ReadFile_def operationView_def)
  then show ?thesis using P(1,6) by (auto simp: declared_contents_def)
qed

text \<open>
  C40. A pinned reader delivers only what its generation declares. Through any backend and in any
  state of it, also a faulty one, bytes that one of the reads returns for a generated path have the length
  and the digest the pinned manifest lists for that path; two reads under the same manifest, at different times
  and through different clients, return bytes of one length and one digest.
\<close>

theorem pinned_read_stable:
  assumes "pinned_to c m" and "pinned_to d m" and "Validate rfc m = Inr ()" and "GenerationOwned rel"
    and "ReadFile env c rel w = (Inr a, w') \<or> (\<exists>limit. ReadFileLimited env c rel limit w = (Inr a, w')) \<or>
      (\<exists>g. ReadFileWithGeneration env c rel w = (Inr (a, g), w'))"
    and "ReadFile env d rel v = (Inr b, v')"
  shows "declared_bytes env m rel a \<and> length a = length b \<and> sha256 (gs_codec env) a = sha256 (gs_codec env) b"
proof -
  have a: "declared_bytes env m rel a" using assms(5) pinned_reads_declared [OF assms(1,4)] by blast
  have "declared_bytes env m rel b" using assms(6) pinned_reads_declared(1) [OF assms(2,4)] by blast
  with a declared_unique [OF assms(3)] show ?thesis by blast
qed

text \<open>
  C6. Snapshot isolation. When a complete generation is committed, a client that pins itself reads
  exactly that generation from then on: every generated path the manifest lists has the contents the worker
  published, every other generated path does not exist, whatever happened in between to the manifest
  object and to everything else in the store, as long as the objects of the generation itself are there. The
  backend is any one that obeys the contract of the client.
\<close>

theorem snapshot_isolation:
  assumes backend: "client_backend be obj good" and c: "gc_backend c = Some be" "gc_view c = None" and inv: "good w" "good v"
    and commit: "obj w (object_at c ManifestPath) = Some (d, g)" "decode_manifest env d = Inr m"
    and gen: "complete_generation (gs_codec env) ws (client_prefix c @ ''/'') m (obj w)"
    and kept: "\<And>n. has_prefix n (generation_dir (client_prefix c @ ''/'') (m_generation_id m)) \<Longrightarrow> obj v n = obj w n"
  shows "\<exists>p. Pin env c w = (Inr p, w) \<and>
    (\<forall>rel. GenerationOwned rel \<longrightarrow> ReadFile env p rel v = (declared_contents ws m rel, v))"
proof -
  obtain p where p: "Pin env c w = (Inr p, w)" "gc_backend p = Some be" "client_prefix p = client_prefix c" "pinned_to p m"
    using client_backend.Pin_current [OF backend c inv(1) commit] by blast
  have "stored_file (gs_codec env) ws (client_prefix c @ ''/'') (m_generation_id m) (obj v) f"
    if "stored_file (gs_codec env) ws (client_prefix c @ ''/'') (m_generation_id m) (obj w) f" for f
    using that kept unfolding stored_file_def by (metis has_prefix_append)
  with gen have gen': "complete_generation (gs_codec env) ws (client_prefix p @ ''/'') m (obj v)"
    by (auto simp: complete_generation_def list_all_iff p(3))
  have "ReadFile env p rel v = (declared_contents ws m rel, v)" if rel: "GenerationOwned rel" for rel
  proof -
    obtain view where "gv_manifest view = Some m" "operationView env p v = (Inr view, v)"
      using ReadFile_pinned [OF p(4) rel] by blast
    with client_backend.read_view_complete [OF backend p(2) inv(2) gen' _ rel] rel show ?thesis by (simp add: ReadFile_def)
  qed
  with p(1) show ?thesis by blast
qed


text \<open>
  The lease of the BFF keeps the worker out. While the lease object is the one a write of the BFF
  created, no execution acquires the lease, whatever the probe says, and the object stays.
\<close>

theorem legacy_lease_excludes_worker:
  assumes "lease_world st obj good known env" and "good w"
    and payload: "le_unmarshal env legacy_lease_payload = Some (JObj [(''started_at'', JStr ''redacted'')])"
    and "obj w (prefix @ LeasePath) = Some (legacy_lease_payload, g)"
    and "acquireCloudLease env prefix ex w = (r, w')"
  shows "(\<exists>e. r = Inl e) \<and> obj w' (prefix @ LeasePath) = Some (legacy_lease_payload, g)"
proof -
  have "trim_space '''' = ''''" by code_simp
  then have "\<exists>e. parseLeasePayload (le_unmarshal env) legacy_lease_payload = Inl e"
    by (simp add: parseLeasePayload_def payload lease_fields_def field_of_def)
  then have "\<forall>v. \<not> holderCleared env legacy_lease_payload v" by (auto simp: holderCleared_def)
  from lease_world.acquire_protects [OF assms(1,2,4) this assms(5)] show ?thesis .
qed

text \<open>
  C8. Projects are apart. Deleting a project removes every object of it and no object of any other
  project of any user, whose identifiers are safe path segments; an unsafe identifier deletes nothing.
\<close>

theorem project_deletion_confined:
  assumes backend: "client_backend be obj good" and c: "gc_backend c = Some be" and inv: "good w"
    and other: "safeProjectPrefixSegment u'" "safeProjectPrefixSegment p'" "(u', p') \<noteq> (u, p)"
  shows "case DeleteProjectPrefix env c u p w of
     ((n, e), w') \<Rightarrow>
       (e = None \<longleftrightarrow> safeProjectPrefixSegment u \<and> safeProjectPrefixSegment p) \<and>
       (e = None \<longrightarrow> obj w' (ProjectPrefix u p @ ''/'' @ rel) = None) \<and>
       obj w' (ProjectPrefix u' p' @ ''/'' @ rel') = obj w (ProjectPrefix u' p' @ ''/'' @ rel')"
proof (cases "safeProjectPrefixSegment u \<and> safeProjectPrefixSegment p")
  case False
  then show ?thesis by (simp add: DeleteProjectPrefix_def)
next
  case True
  let ?dir = "''users/'' @ u @ ''/projects/'' @ p @ ''/''"
  obtain objects e w1 where l: "cb_list be ?dir False w = ((objects, e), w1)" by (metis surj_pair)
  have L: "w1 = w" "e = None" "distinct (map bo_name objects)"
    "list_all (\<lambda>ob. 0 < bo_generation ob \<and> (\<exists>d. obj w (bo_name ob) = Some (d, bo_generation ob))) objects"
    "bo_name ` set objects = {n. has_prefix n ?dir \<and> obj w n \<noteq> None}" using client_backend.listed [OF backend inv l] by auto
  from client_backend.delete_objects_stored [OF backend c inv L(3,4), of env None 0] obtain w' where
    d: "delete_objects env c objects None 0 w = ((int (length objects), None), w')"
      "obj w' = (\<lambda>k. if k \<in> bo_name ` set objects then None else obj w k)" by auto
  have run: "DeleteProjectPrefix env c u p w = ((int (length objects), None), w')"
    using True l L(1,2) d(1) c by (simp add: DeleteProjectPrefix_def visitObjectsRaw_def)
  have "has_prefix (ProjectPrefix u p @ ''/'' @ rel) ?dir"
    using has_prefix_append [of ?dir rel] True by (simp add: ProjectPrefix_safe)
  then have "obj w' (ProjectPrefix u p @ ''/'' @ rel) = None"
    by (cases "obj w (ProjectPrefix u p @ ''/'' @ rel)") (simp_all add: d(2) L(5))
  moreover have "\<not> has_prefix (ProjectPrefix u' p' @ ''/'' @ rel') ?dir"
    using project_prefix_unique [of u p u' p' rel'] True other by (auto simp: ProjectPrefix_safe)
  then have "obj w' (ProjectPrefix u' p' @ ''/'' @ rel') = obj w (ProjectPrefix u' p' @ ''/'' @ rel')"
    unfolding d(2) L(5) by simp
  ultimately show ?thesis using True run by simp
qed

section \<open>A concrete project\<close>

definition sample_gcs_env :: gcsEnv where
  "sample_gcs_env = \<lparr>gs_codec = \<lparr>rfc3339 = \<lambda>_. Some 0, format_utc = \<lambda>_. ''t'', sha256 = \<lambda>_. sample_digest\<rparr>,
     gs_parse = \<lambda>_. [Some (manifest_to_json sample_manifest)], gs_status = \<lambda>_. codesOther,
     gs_unmarshal = \<lambda>_. None, gs_page = \<lambda>_. Inr ('''', '''', '''')\<rparr>"

definition sample_client :: "memoryObjects client" where "sample_client = newMemoryClient ''u'' ''p''"

definition sample_object :: "string \<Rightarrow> string \<Rightarrow> int \<Rightarrow> string \<times> memoryObject" where
  "sample_object name data g =
     (name, \<lparr>mo_data = data, mo_attrs = \<lparr>a_name = name, a_generation = g, a_size = int (length data), a_metadata = []\<rparr>\<rparr>)"

definition sample_project :: memoryObjects where
  "sample_project = \<lparr>mem_next = 5, mem_objects =
     [sample_object ''users/u/projects/p/.lwc/publish/current.json'' ''{}'' 5,
      sample_object ''users/u/projects/p/.lwc/publish/generations/g_012345/cache/id_map.json'' ''content'' 3,
      sample_object ''users/u/projects/p/.lwc/publish/generations/g_012345/wiki/a.md'' '''' 4]\<rparr>"

definition sample_contents :: workspace where
  "sample_contents = [(''cache/id_map.json'', ''content''), (''wiki/a.md'', '''')]"

lemma sample_at: "client_prefix sample_client = ''users/u/projects/p''"
  by code_simp

lemma sample_project_inv: "mem_inv sample_project"
  by code_simp

lemma sample_decodes: "decode_manifest sample_gcs_env ''{}'' = Inr sample_manifest"
proof -
  have "decodeManifestStrict [Some (manifest_to_json sample_manifest)] = Inr sample_manifest" by code_simp
  then show ?thesis
    using sample_manifest_valid by (simp add: decode_manifest_def sample_gcs_env_def Decode_def MaxManifestBytes_def)
qed

lemma sample_complete:
  "complete_generation (gs_codec sample_gcs_env) sample_contents (client_prefix sample_client @ ''/'') sample_manifest (mem_obj sample_project)"
proof -
  have "rfc3339 (gs_codec sample_gcs_env) = (\<lambda>_. Some 0)" "sha256 (gs_codec sample_gcs_env) = (\<lambda>_. sample_digest)"
    by (simp_all add: sample_gcs_env_def)
  moreover have "mem_obj sample_project (''users/u/projects/p/.lwc/publish/generations/g_012345/cache/id_map.json'') = Some (''content'', 3)"
    "mem_obj sample_project (''users/u/projects/p/.lwc/publish/generations/g_012345/wiki/a.md'') = Some ('''', 4)"
    by code_simp+
  ultimately show ?thesis using sample_manifest_valid
    by (simp add: complete_generation_def stored_file_def sample_at generation_dir_def GenPrefix_def sample_manifest_def sample_contents_def)
qed

definition pinned_sample :: "memoryObjects client" where
  "pinned_sample = sample_client\<lparr>gc_view := Some \<lparr>gv_manifest = Some sample_manifest, gv_token = ''manifest-5''\<rparr>\<rparr>"

lemma sample_read: "ReadFile sample_gcs_env pinned_sample ''cache/id_map.json'' sample_project = (Inr ''content'', sample_project)"
  by code_simp

lemma pinned_read_stable_witness: "declared_bytes sample_gcs_env sample_manifest ''cache/id_map.json'' ''content''"
proof -
  have p: "pinned_to pinned_sample sample_manifest" by (simp add: pinned_to_def pinned_sample_def)
  have "GenerationOwned ''cache/id_map.json''" by code_simp
  from pinned_read_stable [OF p p sample_manifest_valid this disjI1 [OF sample_read] sample_read] show ?thesis by blast
qed

lemma sample_current: "mem_obj sample_project (object_at sample_client ManifestPath) = Some (''{}'', 5)"
  by code_simp

lemma snapshot_isolation_witness:
  "\<exists>p. Pin sample_gcs_env sample_client sample_project = (Inr p, sample_project) \<and>
     ReadFile sample_gcs_env p ''cache/id_map.json'' (snd (mem_Delete ''users/u/projects/p/.lwc/publish/current.json'' 5 sample_project)) =
       (Inr ''content'', snd (mem_Delete ''users/u/projects/p/.lwc/publish/current.json'' 5 sample_project))"
proof -
  let ?mp = "''users/u/projects/p/.lwc/publish/current.json''"
  let ?v = "snd (mem_Delete ?mp 5 sample_project)"
  have c: "gc_backend sample_client = Some memoryBackend" "gc_view sample_client = None"
    by (simp_all add: sample_client_def newMemoryClient_def)
  have v: "mem_inv ?v" by code_simp
  have "mem_obj ?v = (mem_obj sample_project)(?mp := None)"
    by (simp add: mem_Delete_def sample_project_def sample_object_def mem_obj_delete [symmetric])
  moreover have "\<not> has_prefix ?mp (generation_dir (client_prefix sample_client @ ''/'') (m_generation_id sample_manifest))" by code_simp
  ultimately have "mem_obj ?v n = mem_obj sample_project n"
    if "has_prefix n (generation_dir (client_prefix sample_client @ ''/'') (m_generation_id sample_manifest))" for n
    using that by auto
  from snapshot_isolation [OF mb.client_backend_axioms c sample_project_inv v sample_current sample_decodes sample_complete this]
  obtain p where p: "Pin sample_gcs_env sample_client sample_project = (Inr p, sample_project)"
    "\<And>rel. GenerationOwned rel \<Longrightarrow> ReadFile sample_gcs_env p rel ?v = (declared_contents sample_contents sample_manifest rel, ?v)"
    by blast
  have "GenerationOwned ''cache/id_map.json''" "declared_contents sample_contents sample_manifest ''cache/id_map.json'' = Inr ''content''"
    by code_simp+
  with p show ?thesis by auto
qed


lemma legacy_lease_excludes_worker_witness:
  "\<exists>e. fst (acquireCloudLease (sample_lease_env leaseHolderTerminal\<lparr>le_unmarshal := \<lambda>_. Some (JObj [(''started_at'', JStr ''redacted'')])\<rparr>)
      ''p/'' ''job-2'' \<lparr>mem_next = 1, mem_objects = [sample_object (''p/'' @ LeasePath) legacy_lease_payload 1]\<rparr>) = Inl e"
proof -
  let ?env = "sample_lease_env leaseHolderTerminal\<lparr>le_unmarshal := \<lambda>_. Some (JObj [(''started_at'', JStr ''redacted'')])\<rparr>"
  let ?w = "\<lparr>mem_next = 1, mem_objects = [sample_object (''p/'' @ LeasePath) legacy_lease_payload 1]\<rparr>"
  have "?env = mem_lease_env ''t'' (\<lambda>_ _. leaseHolderTerminal) (\<lambda>_. ''job'') (\<lambda>_. ''{}'') (\<lambda>_. Some (JObj [(''started_at'', JStr ''redacted'')]))"
    by (simp add: sample_lease_env_def mem_lease_env_def)
  then have e: "lease_world memoryStore mem_obj mem_inv mem_known ?env" by (simp add: mem_lease.lease_world_axioms)
  have w: "mem_inv ?w" "mem_obj ?w (''p/'' @ LeasePath) = Some (legacy_lease_payload, 1)" by code_simp+
  have u: "le_unmarshal ?env legacy_lease_payload = Some (JObj [(''started_at'', JStr ''redacted'')])" by simp
  from legacy_lease_excludes_worker [OF e w(1) u w(2) surjective_pairing] show ?thesis by blast
qed

lemma project_deletion_confined_witness:
  "mem_obj (snd (DeleteProjectPrefix sample_gcs_env sample_client ''u'' ''q'' sample_project)) (object_at sample_client ManifestPath) =
     Some (''{}'', 5)"
proof -
  have c: "gc_backend sample_client = Some memoryBackend" by (simp add: sample_client_def newMemoryClient_def)
  have s: "safeProjectPrefixSegment ''u''" "safeProjectPrefixSegment ''p''" by code_simp+
  have at: "object_at sample_client rel = ProjectPrefix ''u'' ''p'' @ ''/'' @ rel" for rel
    by (simp add: object_at_def sample_client_def newMemoryClient_def)
  show ?thesis
    using project_deletion_confined [OF mb.client_backend_axioms c sample_project_inv s, where u = "''u''" and p = "''q''" and env = sample_gcs_env
        and rel = "''''" and rel' = ManifestPath] sample_current
    by (auto simp: at split: prod.splits)
qed

text \<open>A publication of the complete sample workspace, with a lexer that reads the manifest back.\<close>

definition sample_table :: "(string \<times> int) list" where
  "sample_table = map (\<lambda>(p, b). (p, int (length b))) sample_outputs"

definition published_manifest :: manifest where
  "published_manifest =
     \<lparr>m_version = 1, m_generation_id = ''g_'' @ hex_encode (replicate 16 (CHR 0x5A)), m_previous = '''', m_created_at = ''t'',
      m_input_fingerprint = sample_digest,
      m_files = map (\<lambda>((p, sz), g). \<lparr>f_path = p, f_size = sz, f_sha256 = sample_digest, f_generation = g\<rparr>)
        (zip sample_table [1, 2, 3, 4, 5, 6, 7, 8, 9])\<rparr>"

definition reading_env :: "memoryObjects publishEnv" where
  "reading_env = sample_publish_env\<lparr>pe_marshal := \<lambda>_. ''m'',
     ce_sources := (ce_sources sample_publish_env)\<lparr>se_parse :=
       \<lambda>s. if s = ''m'' then [Some (manifest_to_json published_manifest)] else [Some empty_index]\<rparr>\<rparr>"

definition sample_files :: "generationOutput list" where
  "sample_files = map (\<lambda>(p, sz). \<lparr>go_path = p, go_size = sz, go_sha256 = sample_digest\<rparr>) sample_table"

lemma reading_walk:
  "\<exists>s. walk_generation (se_codec (ce_sources reading_env)) defaultGenerationTraversalLimits sample_walk start_walk = Inr s \<and>
     wk_files s = sample_files"
  using sample_paths
  by (simp add: reading_env_def sample_publish_env_def sample_files_def sample_table_def sample_walk_def sample_outputs_def
    walk_entry_def regular_file_def digestGenerationFile_def start_walk_def defaultGenerationTraversalLimits_def
    MaxFiles_def MaxTotalSize_def MaxFileBytes_def sample_db_def sqliteHeader_def Let_def)

lemma reading_preflight:
  "preflightGenerationOutputs (ce_sources reading_env) (pe_quick reading_env) sample_walk sample_outputs = Inr sample_files"
proof -
  obtain s where s: "walk_generation (se_codec (ce_sources reading_env)) defaultGenerationTraversalLimits sample_walk start_walk = Inr s"
    "wk_files s = sample_files"
    using reading_walk by blast
  have paths: "map go_path sample_files = map fst sample_outputs" "sort_by (\<lambda>a b. go_path a < go_path b) sample_files = sample_files"
    by code_simp+
  have "list_all (\<lambda>r. r \<in> set (map fst sample_outputs)) required_outputs" "''wiki.toml'' \<notin> set (map fst sample_outputs)"
    "''.olw/state.db'' \<notin> set (map fst sample_outputs)" "''.synto/state.db'' \<in> set (map fst sample_outputs)"
    by code_simp+
  moreover have "pe_quick reading_env = (\<lambda>_. Inr ''ok'')" by (simp add: reading_env_def sample_publish_env_def)
  moreover have "readBoundedRegularFileWithin sample_outputs syntoIndexPath = FileContents ''{}''" by code_simp
  then have "\<exists>t. readSyntoIndexTruth (ce_sources reading_env) sample_outputs = Inr t"
    by (simp add: readSyntoIndexTruth_def reading_env_def empty_index_decodes)
  ultimately show ?thesis using sample_db_valid paths
    by (auto simp: preflightGenerationOutputs_def preflightGenerationOutputsWithLimits_def s Let_def simp del: set_map)
qed

lemma reading_publish:
  "fst (publishCloudGenerationWithFiles reading_env ''users/u/projects/p/'' sample_outputs [] sample_files '''' no_attrs False newMemoryObjects) =
     Inr (published_manifest, 10)"
  by code_simp

lemma reading_generations:
  "mem_next (snd (publishCloudGenerationWithFiles reading_env ''users/u/projects/p/'' sample_outputs [] sample_files '''' no_attrs False
     newMemoryObjects)) = 10"
  by code_simp

definition reading_gcs :: gcsEnv where
  "reading_gcs = sample_gcs_env\<lparr>gs_codec := se_codec (ce_sources reading_env), gs_parse := se_parse (ce_sources reading_env)\<rparr>"

lemma published_generation_readable_witness:
  "\<exists>w'. snd (publishCloudGenerationFromStart reading_env (client_prefix sample_client @ ''/'') sample_walk sample_outputs [] '''' no_attrs False
       newMemoryObjects) = w' \<and>
     ReadFile reading_gcs sample_client ''wiki/a.md'' w' = (Inr ''page'', w')"
proof -
  let ?run = "publishCloudGenerationFromStart reading_env (client_prefix sample_client @ ''/'') sample_walk sample_outputs [] '''' no_attrs
      False newMemoryObjects"
  have run: "?run = publishCloudGenerationWithFiles reading_env ''users/u/projects/p/'' sample_outputs [] sample_files '''' no_attrs False
      newMemoryObjects"
    by (simp add: publishCloudGenerationFromStart_def reading_preflight sample_at)
  then have "?run = (Inr (published_manifest, 10), snd ?run)" using reading_publish by (simp add: prod_eq_iff)
  moreover have "ce_store reading_env = memoryStore" "pe_marshal reading_env = (\<lambda>_. ''m'')"
    "se_parse (ce_sources reading_env) ''m'' = [Some (manifest_to_json published_manifest)]"
    by (simp_all add: reading_env_def sample_publish_env_def)
  moreover have "mem_inv newMemoryObjects" by code_simp
  moreover have "mem_next (snd ?run) < 2 ^ 63" using reading_generations run by simp
  moreover have "GenerationOwned ''wiki/a.md''" by code_simp
  ultimately obtain files where
    "preflightGenerationOutputs (ce_sources reading_env) (pe_quick reading_env) sample_walk sample_outputs = Inr files"
    "ReadFile reading_gcs sample_client ''wiki/a.md'' (snd ?run) =
       (if ''wiki/a.md'' \<in> go_path ` set files then Inr (map_get_or '''' sample_outputs ''wiki/a.md'') else Inl (Sentinel storageErrObjectNotExist),
        snd ?run)"
    using published_generation_readable [of reading_env newMemoryObjects sample_client sample_walk sample_outputs "[]" "''''" no_attrs False
        published_manifest 10 "snd ?run" reading_gcs "''wiki/a.md''"]
    by (auto simp: reading_gcs_def sample_client_def newMemoryClient_def MaxManifestBytes_def)
  moreover have "''wiki/a.md'' \<in> go_path ` set sample_files" "map_get_or '''' sample_outputs ''wiki/a.md'' = ''page''" by code_simp+
  ultimately show ?thesis using reading_preflight by auto
qed

text \<open>
  The published listing walks all of \<open>wiki/\<close>, the drafts included: a draft is listed as a published concept
  even when drafts are not asked for, under a slug that names the draft directory.
\<close>

definition draft_view :: generationView where
  "draft_view = \<lparr>gv_manifest = Some (sample_manifest\<lparr>m_files :=
     [\<lparr>f_path = ''wiki/.drafts/x.md'', f_size = 0, f_sha256 = sample_digest, f_generation = 4\<rparr>]\<rparr>), gv_token = ''''\<rparr>"

lemma draft_listed_as_published:
  "map_sum id (map (\<lambda>p. (pg_slug p, pg_status p)))
     (fst (ListConcepts sample_gcs_env (sample_client\<lparr>gc_view := Some draft_view\<rparr>) False
        \<lparr>mem_next = 5, mem_objects = [sample_object ''users/u/projects/p/.lwc/publish/generations/g_012345/wiki/.drafts/x.md'' '''' 4]\<rparr>)) =
   Inr [(''.drafts/x'', ''published'')]"
  by code_simp

end
