(* ===== verification/Citations.thy ===== *)
theory Citations
  imports GoBase
begin

text \<open>
  Citations of a synthesized answer (\<open>internal/search/citation_authority.go\<close>). Each synthesis has a
  \<open>CitationAuthority\<close>: it hands out one reference per context page, neutralizes everything in the
  contexts that looks like a reference, and resolves the brackets of the model's answer. A
  citation is shown only for a page whose reference, or unambiguous title, the answer names.
\<close>

section \<open>Results and safe routes\<close>

record result =
  rs_result_slug :: string
  rs_result_title :: string
  rs_result_type :: string
  rs_snippet :: string

record citation =
  ci_text :: string
  ci_slug :: string
  ci_type :: string
  ci_path :: string

definition citationReferencePrefix :: string where "citationReferencePrefix = ''CITATION_REF_''"

definition neutralPrefix :: string where "neutralPrefix = ''CITATION-REF_''"

definition NeutralizeCitationReferences :: "string \<Rightarrow> string" where
  "NeutralizeCitationReferences t = replace_all citationReferencePrefix neutralPrefix t"

definition writeNeutralized :: "string \<Rightarrow> string" where
  "writeNeutralized t = (if contains t citationReferencePrefix then NeutralizeCitationReferences t else t)"

text \<open>\<open>url.PathEscape\<close> and \<open>url.PathUnescape\<close> of the standard library.\<close>

definition path_plain :: "char \<Rightarrow> bool" where
  "path_plain c \<longleftrightarrow> byte_in c 48 57 \<or> byte_in c 65 90 \<or> byte_in c 97 122 \<or> c \<in> set ''-_.~$&+:=@''"

definition upper_hex :: "nat \<Rightarrow> char" where
  "upper_hex n = (if n < 10 then char_of (48 + n) else char_of (55 + n))"

definition PathEscape :: "string \<Rightarrow> string" where
  "PathEscape s = concat (map (\<lambda>c. if path_plain c then [c]
     else [CHR ''%'', upper_hex (of_char c div 16), upper_hex (of_char c mod 16)]) s)"

definition unhex :: "char \<Rightarrow> nat" where
  "unhex c = (if byte_in c 48 57 then of_char c - 48 else if byte_in c 97 102 then of_char c - 87 else of_char c - 55)"

fun PathUnescape :: "string \<Rightarrow> string option" where
  "PathUnescape [] = Some []"
| "PathUnescape (c # s) =
     (if c \<noteq> CHR ''%'' then map_option (\<lambda>r. c # r) (PathUnescape s)
      else (case s of
              a # b # s' \<Rightarrow>
                (if hex_digit a \<and> hex_digit b then map_option (\<lambda>r. char_of (16 * unhex a + unhex b) # r) (PathUnescape s')
                 else None)
            | _ \<Rightarrow> None))"

text \<open>
  A control character or a Unicode space somewhere in the text. The encodings of the spaces start
  with bytes that never continue a rune, so a scan over bytes finds exactly the runes.
\<close>

fun has_control_or_space :: "string \<Rightarrow> bool" where
  "has_control_or_space [] = False"
| "has_control_or_space (a # s) =
     (byte_in a 0 32 \<or> a = CHR 0x7F \<or>
      (case s of
         b # c # _ \<Rightarrow> space2 a b \<or> space3 a b c
       | [b] \<Rightarrow> space2 a b
       | [] \<Rightarrow> False) \<or>
      has_control_or_space s)"

text \<open>
  \<open>url.Parse\<close> on a text without slash, question mark, hash sign, percent sign and control
  characters: a colon is either the end of a scheme or an error (a missing scheme, or a colon in
  the first segment), and without a colon the text is a relative path with neither scheme nor host.
\<close>

definition parses_as_relative :: "string \<Rightarrow> bool" where
  "parses_as_relative slug \<longleftrightarrow> CHR '':'' \<notin> set slug"

definition safeCitationResult :: "result \<Rightarrow> bool" where
  "safeCitationResult r \<longleftrightarrow>
     (let slug = rs_result_slug r; escaped = PathEscape slug
      in (rs_result_type r = ''source'' \<or> rs_result_type r = ''concept'') \<and>
         \<not> (slug = '''' \<or> trim_space slug \<noteq> slug \<or> slug = ''.'' \<or> slug = ''..'') \<and>
         \<not> (contains_any slug [CHR ''/'', CHR 0x5C, CHR ''%'', CHR ''?'', CHR ''#''] \<or> has_prefix slug ''//'') \<and>
         \<not> has_control_or_space slug \<and> parses_as_relative slug \<and>
         escaped \<noteq> '''' \<and> escaped \<noteq> ''.'' \<and> escaped \<noteq> ''..'' \<and> PathUnescape escaped = Some slug \<and> \<not> contains escaped ''/'')"

section \<open>The authority\<close>

record citationTarget =
  ct_result :: result
  ct_rank :: int

record citationAuthority =
  au_namespace :: string
  au_tokens :: "(string, citationTarget) gomap"
  au_titles :: "(string, citationTarget) gomap"
  au_ambiguous :: "string list"
  au_issued :: "citationTarget list"
  au_ranked :: "result list"

text \<open>\<open>newCitationAuthority\<close> with the 16 bytes the reader delivers; \<open>ranked\<close> may be missing.\<close>

definition NewCitationAuthority :: "string \<Rightarrow> result list \<Rightarrow> citationAuthority" where
  "NewCitationAuthority nonce ranked = \<lparr>au_namespace = hex_encode nonce, au_tokens = [], au_titles = [], au_ambiguous = [],
     au_issued = [], au_ranked = ranked\<rparr>"

definition citation_reference :: "citationAuthority \<Rightarrow> int \<Rightarrow> string" where
  "citation_reference a rank = ''['' @ citationReferencePrefix @ au_namespace a @ ''_'' @ itoa rank @ '']''"

definition issue :: "citationAuthority \<Rightarrow> int \<Rightarrow> result \<Rightarrow> citationAuthority" where
  "issue a rank r =
     (let title = NeutralizeCitationReferences (rs_result_title r); target = \<lparr>ct_result = r, ct_rank = rank\<rparr>;
          a1 = a\<lparr>au_tokens := map_set (citation_reference a rank) target (au_tokens a), au_issued := au_issued a @ [target]\<rparr>
      in if title \<in> set (au_ambiguous a) then a1
         else if map_has (au_titles a) title
         then a1\<lparr>au_titles := map_del title (au_titles a), au_ambiguous := au_ambiguous a @ [title]\<rparr>
         else a1\<lparr>au_titles := map_set title target (au_titles a)\<rparr>)"

definition AddContext :: "citationAuthority \<Rightarrow> int \<Rightarrow> result \<Rightarrow> string \<Rightarrow> string \<times> citationAuthority" where
  "AddContext a rank r body =
     (let title = NeutralizeCitationReferences (rs_result_title r);
          slug = NeutralizeCitationReferences (rs_result_slug r);
          safe = safeCitationResult r;
          reference = (if safe then citation_reference a rank else '''')
      in (''['' @ title @ '']'' @ (if reference \<noteq> '''' then '' '' @ reference else '''') @
          (if slug \<noteq> '''' then '' '' @ slug else '''') @ [CHR 0x0A, CHR 0x0A] @ NeutralizeCitationReferences body,
          if safe then issue a rank r else a))"

text \<open>The contexts of one synthesis, in order.\<close>

fun add_contexts :: "citationAuthority \<Rightarrow> (int \<times> result \<times> string) list \<Rightarrow> string list \<times> citationAuthority" where
  "add_contexts a [] = ([], a)"
| "add_contexts a ((rank, r, body) # cs) =
     (case AddContext a rank r body of
        (context', a1) \<Rightarrow> (case add_contexts a1 cs of (contexts, a2) \<Rightarrow> (context' # contexts, a2)))"

section \<open>Resolving an answer\<close>

definition identity :: "result \<Rightarrow> string" where
  "identity r = rs_result_type r @ [CHR 0x00] @ rs_result_slug r"

definition citationForResult :: "result \<Rightarrow> citation" where
  "citationForResult r = \<lparr>ci_text = NeutralizeCitationReferences (rs_result_title r), ci_slug = rs_result_slug r,
     ci_type = rs_result_type r,
     ci_path = ''/'' @ (if rs_result_type r = ''source'' then ''sources'' else ''concepts'') @ ''/'' @ PathEscape (rs_result_slug r)\<rparr>"

record resolveState =
  rv_text :: string
  rv_citations :: "citation list"
  rv_cited :: "string list"

definition write_text :: "string \<Rightarrow> resolveState \<Rightarrow> resolveState" where
  "write_text t st = st\<lparr>rv_text := rv_text st @ writeNeutralized t\<rparr>"

definition appendCitation :: "citationTarget \<Rightarrow> resolveState \<Rightarrow> resolveState" where
  "appendCitation target st =
     (let r = ct_result target;
          st1 = (if identity r \<in> set (rv_cited st) then st
                 else st\<lparr>rv_citations := rv_citations st @ [citationForResult r], rv_cited := rv_cited st @ [identity r]\<rparr>)
      in st1\<lparr>rv_text := rv_text st1 @ ''['' @ NeutralizeCitationReferences (rs_result_title r) @ '']''\<rparr>)"

definition resolve_bracket :: "citationAuthority \<Rightarrow> string \<Rightarrow> resolveState \<Rightarrow> resolveState" where
  "resolve_bracket a inside st =
     (let bracketed = ''['' @ inside @ '']''
      in case map_of (au_tokens a) bracketed of
           Some target \<Rightarrow> appendCitation target st
         | None \<Rightarrow>
             (case map_of (au_titles a) inside of
                Some target \<Rightarrow> appendCitation target st
              | None \<Rightarrow> write_text bracketed st))"

text \<open>The text up to the first occurrence of a byte, and what follows it.\<close>

fun cut_byte :: "char \<Rightarrow> string \<Rightarrow> (string \<times> string) option" where
  "cut_byte d [] = None"
| "cut_byte d (c # s) = (if c = d then Some ([], s) else map_option (\<lambda>(a, b). (c # a, b)) (cut_byte d s))"

lemma cut_byte_Some: "cut_byte d s = Some (a, b) \<Longrightarrow> s = a @ d # b \<and> d \<notin> set a"
  by (induction s arbitrary: a b) (auto split: if_splits)

lemma cut_byte_None: "cut_byte d s = None \<longleftrightarrow> d \<notin> set s"
  by (induction s) auto

function resolve_loop :: "citationAuthority \<Rightarrow> string \<Rightarrow> resolveState \<Rightarrow> resolveState" where
  "resolve_loop a rest st =
     (if rest = '''' then st
      else (case cut_byte (CHR ''['') rest of
              None \<Rightarrow> write_text rest st
            | Some (pre, after) \<Rightarrow>
                (case cut_byte (CHR '']'') after of
                   None \<Rightarrow> write_text (''['' @ after) (write_text pre st)
                 | Some (inside, tail) \<Rightarrow> resolve_loop a tail (resolve_bracket a inside (write_text pre st)))))"
  by pat_completeness auto
termination
  by (relation "measure (\<lambda>(_, rest, _). length rest)") (auto dest!: cut_byte_Some)

declare resolve_loop.simps [simp del]

fun first_of_identity :: "string list \<Rightarrow> citationTarget list \<Rightarrow> citationTarget list" where
  "first_of_identity seen [] = []"
| "first_of_identity seen (t # ts) =
     (if identity (ct_result t) \<in> set seen then first_of_identity seen ts
      else t # first_of_identity (identity (ct_result t) # seen) ts)"

definition by_rank :: "citationTarget list \<Rightarrow> citationTarget list" where
  "by_rank ts = sort_by (\<lambda>s t. ct_rank s < ct_rank t) ts"

definition authorizedResults :: "citationAuthority \<Rightarrow> string list option \<Rightarrow> result list" where
  "authorizedResults a cited =
     (case cited of
        None \<Rightarrow> au_ranked a
      | Some ids \<Rightarrow>
          (if au_tokens a = [] then []
           else map ct_result (by_rank (first_of_identity []
                  (filter (\<lambda>t. identity (ct_result t) \<in> set ids) (au_issued a))))))"

definition Resolve :: "citationAuthority \<Rightarrow> string \<Rightarrow> string \<times> citation list \<times> result list" where
  "Resolve a answer =
     (if answer = '''' then (answer, [], authorizedResults a None)
      else (let st = resolve_loop a answer \<lparr>rv_text = '''', rv_citations = [], rv_cited = []\<rparr>
            in if rv_citations st = [] then (rv_text st, [], authorizedResults a None)
               else (rv_text st, rv_citations st, authorizedResults a (Some (rv_cited st)))))"

definition IssuedCitations :: "citationAuthority \<Rightarrow> citation list" where
  "IssuedCitations a = map (\<lambda>t. citationForResult (ct_result t)) (first_of_identity [] (by_rank (au_issued a)))"

section \<open>No reserved text survives\<close>

lemma contains_skip: "p \<notin> set xs \<Longrightarrow> contains (xs @ s) (p # ps) \<longleftrightarrow> contains s (p # ps)"
  by (induction xs) (auto simp: has_prefix_def)

lemma replaced_prefix:
  assumes "pat = p # ps" "new = p # ns" "p \<notin> set q"
  shows "has_prefix (replace_all pat new s) q \<Longrightarrow> has_prefix s q"
  using assms(3)
proof (induction q arbitrary: s)
  case (Cons d q)
  show ?case
  proof (cases s)
    case (Cons c t)
    show ?thesis
    proof (cases "has_prefix s pat")
      case True
      then show ?thesis using Cons.prems assms Cons by (simp add: replace_all_Cons has_prefix_def)
    next
      case False
      then have "d = c \<and> has_prefix (replace_all pat new t) q"
        using Cons.prems Cons assms by (auto simp: replace_all_Cons has_prefix_def)
      then show ?thesis using Cons.IH [of t] Cons.prems(2) Cons by (simp add: has_prefix_def)
    qed
  qed (use Cons.prems in \<open>simp add: has_prefix_def\<close>)
qed (simp add: has_prefix_def)

text \<open>Replacing a pattern whose first byte occurs nowhere else in it leaves no occurrence.\<close>

lemma replace_all_gone:
  assumes pat: "pat = p # ps" "p \<notin> set ps" and new: "new = p # ns" "p \<notin> set ns" "length new = length pat" "new \<noteq> pat"
  shows "\<not> contains (replace_all pat new s) pat"
proof (induction "length s" arbitrary: s rule: less_induct)
  case less
  show ?case
  proof (cases s)
    case (Cons c t)
    show ?thesis
    proof (cases "has_prefix s pat")
      case True
      let ?rest = "replace_all pat new (drop (length pat) s)"
      have out: "replace_all pat new s = new @ ?rest" using True Cons pat by (simp add: replace_all_Cons)
      have "\<not> has_prefix (new @ ?rest) pat" using new(4) by (simp add: has_prefix_def new(3) [symmetric])
      moreover have "\<not> contains ?rest pat" using less [of "drop (length pat) s"] Cons pat by simp
      then have "\<not> contains (ns @ ?rest) pat" using contains_skip [OF new(2), of ?rest ps] pat by simp
      ultimately show ?thesis unfolding out by (simp add: new(1))
    next
      case False
      then have out: "replace_all pat new s = c # replace_all pat new t" using Cons by (simp add: replace_all_Cons)
      have "\<not> contains (replace_all pat new t) pat" using less [of t] Cons by simp
      moreover have "\<not> has_prefix (c # replace_all pat new t) pat"
      proof
        assume "has_prefix (c # replace_all pat new t) pat"
        then have "c = p" "has_prefix (replace_all pat new t) ps" by (auto simp: pat has_prefix_def)
        with replaced_prefix [OF pat(1) new(1) pat(2)] have "has_prefix s pat" using Cons by (simp add: pat has_prefix_def)
        with False show False by simp
      qed
      ultimately show ?thesis unfolding out by simp
    qed
  qed (simp add: pat)
qed

definition no_reference :: "string \<Rightarrow> bool" where
  "no_reference t \<longleftrightarrow> \<not> contains t citationReferencePrefix"

lemma neutralized [simp]: "no_reference (NeutralizeCitationReferences t)"
  unfolding NeutralizeCitationReferences_def no_reference_def
  by (rule replace_all_gone [where p = "CHR ''C''" and ps = "''ITATION_REF_''" and ns = "''ITATION-REF_''"])
    (simp_all add: citationReferencePrefix_def neutralPrefix_def)

lemma written [simp]: "no_reference (writeNeutralized t)"
  by (cases "contains t citationReferencePrefix") (simp_all add: writeNeutralized_def, simp add: no_reference_def)

lemma contains_append:
  assumes "contains (a @ b) sub" and "sub \<noteq> []"
  shows "contains a sub \<or> contains b sub \<or> (a \<noteq> [] \<and> b \<noteq> [] \<and> List.last a \<in> set sub \<and> hd b \<in> set sub)"
proof -
  from assms(1) obtain u v where "a @ b = u @ sub @ v" by (auto simp: contains_iff)
  then consider (left) w where "a = u @ w" "w @ b = sub @ v" | (right) w where "u = a @ w" "b = w @ sub @ v"
    by (auto simp: append_eq_append_conv2)
  then show ?thesis
  proof cases
    case left
    from left(2) consider (inl) x where "w = sub @ x" | (across) x where "sub = w @ x" "b = x @ v"
      by (auto simp: append_eq_append_conv2)
    then show ?thesis
    proof cases
      case inl
      with left have "a = u @ sub @ x" by simp
      then show ?thesis by (auto simp: contains_iff)
    next
      case across
      show ?thesis
      proof (cases "w = [] \<or> x = []")
        case True
        then show ?thesis
        proof
          assume "w = []" then have "b = [] @ sub @ v" using across by simp
          then show ?thesis unfolding contains_iff by blast
        next
          assume "x = []" then have "a = u @ sub @ []" using across left by simp
          then show ?thesis unfolding contains_iff by blast
        qed
      next
        case False
        then show ?thesis using left across by auto
      qed
    qed
  next
    case right
    then show ?thesis by (auto simp: contains_iff)
  qed
qed

lemma seam:
  assumes "no_reference a" "no_reference b"
    "a = '''' \<or> b = '''' \<or> List.last a \<in> set ''[]'' \<or> hd b \<in> set ''[]''"
  shows "no_reference (a @ b)"
  unfolding no_reference_def
proof
  assume c: "contains (a @ b) citationReferencePrefix"
  have ne: "citationReferencePrefix \<noteq> []" by (simp add: citationReferencePrefix_def)
  have no: "CHR '']'' \<notin> set citationReferencePrefix" "CHR ''['' \<notin> set citationReferencePrefix"
    by (simp_all add: citationReferencePrefix_def)
  from contains_append [OF c ne] assms(1,2) [unfolded no_reference_def] have "a \<noteq> ''''" "b \<noteq> ''''" "List.last a \<in> set citationReferencePrefix"
    "hd b \<in> set citationReferencePrefix"
    by auto
  with assms(3) no show False by auto
qed

lemma replace_all_apart:
  "d \<notin> set pat \<Longrightarrow> replace_all pat new (s @ d # t) = replace_all pat new s @ d # replace_all pat new t"
proof (induction "length s" arbitrary: s rule: less_induct)
  case less
  show ?case
  proof (cases s)
    case Nil
    have "\<not> (pat \<noteq> [] \<and> has_prefix (d # t) pat)" using less.prems by (cases pat) (auto simp: has_prefix_def)
    then show ?thesis using Nil by (auto simp: replace_all_Cons)
  next
    case (Cons c s')
    have pre: "has_prefix (s @ d # t) pat \<longleftrightarrow> has_prefix s pat"
    proof
      assume "has_prefix (s @ d # t) pat"
      then obtain v where "s @ d # t = pat @ v" by (auto simp: has_prefix_iff)
      then consider w where "s = pat @ w" | w where "pat = s @ d # w" by (auto simp: append_eq_append_conv2 Cons_eq_append_conv)
      then show "has_prefix s pat" using less.prems by cases (auto simp: has_prefix_iff)
    qed (auto simp: has_prefix_iff)
    show ?thesis
    proof (cases "pat \<noteq> [] \<and> has_prefix s pat")
      case True
      then obtain w where w: "s = pat @ w" by (auto simp: has_prefix_iff)
      have "length w < length s" using True w by simp
      note IH = less.hyps [OF this less.prems]
      have step: "replace_all pat new x = new @ replace_all pat new (drop (length pat) x)" if "has_prefix x pat" for x
        using that True by (cases x) (simp_all add: has_prefix_def replace_all_Cons)
      have "replace_all pat new (s @ d # t) = new @ replace_all pat new (w @ d # t)"
        using step [of "s @ d # t"] pre True w by simp
      moreover have "replace_all pat new s = new @ replace_all pat new w" using step [of s] True w by simp
      ultimately show ?thesis using IH by simp
    next
      case False
      have "length s' < length s" using Cons by simp
      from less.hyps [OF this less.prems] False pre show ?thesis
        by (auto simp: replace_all_Cons Cons)
    qed
  qed
qed

lemma bracket_ends: "List.last (writeNeutralized (''['' @ x @ '']'')) = CHR '']''" "hd (writeNeutralized (''['' @ x)) = CHR ''[''"
  "writeNeutralized (''['' @ x) \<noteq> ''''"
  using replace_all_apart [of "CHR '']''" citationReferencePrefix neutralPrefix "''['' @ x" "''''"]
    replace_all_apart [of "CHR ''[''" citationReferencePrefix neutralPrefix "''''" x]
  by (simp_all add: writeNeutralized_def NeutralizeCitationReferences_def citationReferencePrefix_def)

definition clean_state :: "resolveState \<Rightarrow> bool" where
  "clean_state st \<longleftrightarrow> no_reference (rv_text st) \<and> (rv_text st = '''' \<or> List.last (rv_text st) = CHR '']'')"

lemma no_reference_shown: "no_reference (''['' @ NeutralizeCitationReferences t @ '']'')"
proof -
  have one: "no_reference ''[''" "no_reference '']''" by code_simp+
  have "no_reference (''['' @ NeutralizeCitationReferences t)" by (rule seam) (simp_all add: one)
  then have "no_reference ((''['' @ NeutralizeCitationReferences t) @ '']'')" by (rule seam) (simp_all add: one)
  then show ?thesis by simp
qed

lemma append_shown:
  assumes "no_reference (rv_text st)"
  shows "clean_state (appendCitation target st)"
proof -
  have "no_reference (rv_text st @ ''['' @ NeutralizeCitationReferences t @ '']'')" for t
    by (rule seam [OF assms no_reference_shown]) simp
  then show ?thesis by (simp add: clean_state_def appendCitation_def Let_def)
qed

lemma resolve_bracket_clean:
  assumes "no_reference (rv_text st)"
  shows "clean_state (resolve_bracket a inside st)"
proof -
  have "clean_state (write_text (''['' @ inside @ '']'') st)"
    unfolding clean_state_def write_text_def
    using assms bracket_ends(1) [of inside] bracket_ends(2,3) [of "inside @ '']''"]
    by (auto intro!: seam)
  then show ?thesis using append_shown [OF assms] by (auto simp: resolve_bracket_def Let_def split: option.splits)
qed

lemma write_clean: "clean_state st \<Longrightarrow> no_reference (rv_text (write_text t st))"
  unfolding clean_state_def write_text_def by (auto intro!: seam)

lemma resolve_loop_clean: "clean_state st \<Longrightarrow> no_reference (rv_text (resolve_loop a rest st))"
proof (induction a rest st rule: resolve_loop.induct)
  case (1 a rest st)
  show ?case
  proof (cases "cut_byte (CHR ''['') rest")
    case None
    then show ?thesis using 1 write_clean by (simp add: resolve_loop.simps [of a rest] clean_state_def)
  next
    case (Some p)
    obtain pre after where p: "p = (pre, after)" by (cases p)
    have w: "no_reference (rv_text (write_text pre st))" using 1 write_clean by simp
    show ?thesis
    proof (cases "cut_byte (CHR '']'') after")
      case None
      have "no_reference (rv_text (write_text (''['' @ after) (write_text pre st)))"
        using seam [OF w written [of "''['' @ after"]] bracket_ends(2) [of after] by (simp add: write_text_def)
      then show ?thesis using Some p None 1 by (simp add: resolve_loop.simps [of a rest] clean_state_def)
    next
      case (Some q)
      moreover have "rest \<noteq> ''''" using \<open>cut_byte (CHR ''['') rest = Some p\<close> by auto
      ultimately show ?thesis using \<open>cut_byte (CHR ''['') rest = Some p\<close> p 1 resolve_bracket_clean [OF w]
        by (cases q) (simp add: resolve_loop.simps [of a rest])
    qed
  qed
qed

section \<open>Who has authority\<close>

abbreviation shown_title :: "citationTarget \<Rightarrow> string" where
  "shown_title t \<equiv> NeutralizeCitationReferences (rs_result_title (ct_result t))"

definition titled :: "citationTarget list \<Rightarrow> string \<Rightarrow> citationTarget list" where
  "titled issued title = filter (\<lambda>t. shown_title t = title) issued"

text \<open>
  The tables of an authority describe what it has issued: a reference leads to an issued target of
  its rank, a title leads to a target exactly when it is the title of only that one.
\<close>

definition authority_ok :: "citationAuthority \<Rightarrow> bool" where
  "authority_ok a \<longleftrightarrow>
     list_all (\<lambda>t. safeCitationResult (ct_result t)) (au_issued a) \<and>
     (\<forall>k t. map_of (au_tokens a) k = Some t \<longrightarrow> t \<in> set (au_issued a) \<and> k = citation_reference a (ct_rank t)) \<and>
     (\<forall>t \<in> set (au_issued a). map_has (au_tokens a) (citation_reference a (ct_rank t))) \<and>
     map_wf (au_titles a) \<and>
     (\<forall>s t. map_of (au_titles a) s = Some t \<longleftrightarrow> titled (au_issued a) s = [t]) \<and>
     (\<forall>s. s \<in> set (au_ambiguous a) \<longleftrightarrow> length (titled (au_issued a) s) \<ge> 2)"

lemma new_authority_ok: "authority_ok (NewCitationAuthority nonce ranked)"
  by (simp add: authority_ok_def NewCitationAuthority_def titled_def)

lemma titled_snoc: "titled (ts @ [t]) s = titled ts s @ (if shown_title t = s then [t] else [])"
  by (simp add: titled_def)

lemma issue_parts:
  "au_issued (issue a rank r) = au_issued a @ [\<lparr>ct_result = r, ct_rank = rank\<rparr>]"
  "au_tokens (issue a rank r) = map_set (citation_reference a rank) \<lparr>ct_result = r, ct_rank = rank\<rparr> (au_tokens a)"
  "au_namespace (issue a rank r) = au_namespace a" "au_ranked (issue a rank r) = au_ranked a"
  by (simp_all add: issue_def Let_def)

lemma issue_ok:
  assumes ok: "authority_ok a" and safe: "safeCitationResult r"
  shows "authority_ok (issue a rank r)"
proof -
  define t where "t = \<lparr>ct_result = r, ct_rank = rank\<rparr>"
  define title where "title = NeutralizeCitationReferences (rs_result_title r)"
  let ?a = "issue a rank r"
  have tt: "shown_title t = title" by (simp add: t_def title_def)
  have ref: "citation_reference ?a k = citation_reference a k" for k by (simp add: citation_reference_def issue_parts)
  have T: "titled (au_issued ?a) s = titled (au_issued a) s @ (if s = title then [t] else [])" for s
    by (simp add: issue_parts t_def [symmetric] titled_snoc tt eq_commute)
  note F = ok [unfolded authority_ok_def]
  have F5: "map_of (au_titles a) s = Some u \<longleftrightarrow> titled (au_issued a) s = [u]" for s u using F by blast
  have F6: "s \<in> set (au_ambiguous a) \<longleftrightarrow> length (titled (au_issued a) s) \<ge> 2" for s using F by blast
  have "map_of (au_titles ?a) s = Some u \<longleftrightarrow> titled (au_issued ?a) s = [u]" for s u
  proof (cases "s = title")
    case False
    then have "map_of (au_titles ?a) s = map_of (au_titles a) s"
      by (simp add: issue_def Let_def title_def [symmetric])
    then show ?thesis using F5 T False by simp
  next
    case True
    consider (none) "titled (au_issued a) title = []" | (one) v where "titled (au_issued a) title = [v]"
      | (many) "length (titled (au_issued a) title) \<ge> 2"
      by (cases "titled (au_issued a) title"; cases "tl (titled (au_issued a) title)") auto
    then show ?thesis
    proof cases
      case none
      then have "title \<notin> set (au_ambiguous a)" "map_of (au_titles a) title = None"
        using F5 [of title] F6 [of title] by (auto simp: not_Some_eq [symmetric] simp del: not_Some_eq)
      then show ?thesis using True none T by (auto simp: issue_def Let_def title_def [symmetric] t_def [symmetric] map_of_eq_None_iff)
    next
      case one
      then have "title \<notin> set (au_ambiguous a)" "map_of (au_titles a) title = Some v"
        using F5 [of title] F6 [of title] by auto
      then have "map_of (au_titles ?a) title = None"
        by (auto simp: issue_def Let_def title_def [symmetric] map_has_def delete_conv simp del: map_has_iff)
      then show ?thesis using True one T by simp
    next
      case many
      then have "title \<in> set (au_ambiguous a)" "map_of (au_titles a) title = None"
        using F5 [of title] F6 [of title] by (auto simp: not_Some_eq [symmetric] simp del: not_Some_eq)
      then show ?thesis using True many T by (auto simp: issue_def Let_def title_def [symmetric])
    qed
  qed
  moreover have "s \<in> set (au_ambiguous ?a) \<longleftrightarrow> length (titled (au_issued ?a) s) \<ge> 2" for s
  proof -
    have "map_has (au_titles a) title \<longleftrightarrow> length (titled (au_issued a) title) = 1"
      using F5 [of title] by (auto simp: map_has_def length_Suc_conv simp del: map_has_iff)
    then show ?thesis using F6 T by (cases "s = title") (auto simp: issue_def Let_def title_def [symmetric] simp del: map_has_iff)
  qed
  moreover have "map_wf (au_titles ?a)" using F by (auto simp: issue_def Let_def)
  moreover have "list_all (\<lambda>t. safeCitationResult (ct_result t)) (au_issued ?a)" using F safe by (simp add: issue_parts)
  moreover have "u \<in> set (au_issued ?a) \<and> k = citation_reference ?a (ct_rank u)" if "map_of (au_tokens ?a) k = Some u" for k u
  proof (cases "k = citation_reference a rank")
    case True
    with that show ?thesis by (auto simp: issue_parts ref)
  next
    case False
    with that have "map_of (au_tokens a) k = Some u" by (simp add: issue_parts)
    then show ?thesis using F by (simp add: issue_parts(1) ref)
  qed
  moreover have "map_has (au_tokens ?a) (citation_reference ?a (ct_rank u))" if "u \<in> set (au_issued ?a)" for u
    using that F by (auto simp: issue_parts ref)
  ultimately show ?thesis unfolding authority_ok_def by blast
qed

lemma add_contexts_ok: "authority_ok a \<Longrightarrow> authority_ok (snd (add_contexts a cs))"
  by (induction a cs rule: add_contexts.induct) (auto simp: AddContext_def Let_def issue_ok split: prod.splits)

section \<open>What an answer cites\<close>

text \<open>
  Reference reading of an answer: the texts its brackets enclose, from the left, and the issued
  target each of them names: the last one issued with that reference, or else the only one shown
  under that title.
\<close>

function brackets :: "string \<Rightarrow> string list" where
  "brackets s =
     (case cut_byte (CHR ''['') s of
        None \<Rightarrow> []
      | Some (_, after) \<Rightarrow>
          (case cut_byte (CHR '']'') after of None \<Rightarrow> [] | Some (inside, tail) \<Rightarrow> inside # brackets tail))"
  by pat_completeness auto
termination
  by (relation "measure length") (auto dest!: cut_byte_Some)

declare brackets.simps [simp del]

definition issued_with :: "string \<Rightarrow> citationTarget list \<Rightarrow> string \<Rightarrow> citationTarget list" where
  "issued_with namespace issued reference =
     filter (\<lambda>t. ''['' @ citationReferencePrefix @ namespace @ ''_'' @ itoa (ct_rank t) @ '']'' = reference) issued"

definition named_by :: "string \<Rightarrow> citationTarget list \<Rightarrow> string \<Rightarrow> citationTarget option" where
  "named_by namespace issued inside =
     (let ts = issued_with namespace issued (''['' @ inside @ '']'')
      in if ts \<noteq> [] then Some (List.last ts)
         else (case titled issued inside of [t] \<Rightarrow> Some t | _ \<Rightarrow> None))"

definition contexts_issued :: "(int \<times> result \<times> string) list \<Rightarrow> citationTarget list" where
  "contexts_issued cs =
     map (\<lambda>(rank, r, _). \<lparr>ct_result = r, ct_rank = rank\<rparr>) (filter (\<lambda>(_, r, _). safeCitationResult r) cs)"

definition named_in :: "string \<Rightarrow> citationTarget list \<Rightarrow> string \<Rightarrow> citationTarget list" where
  "named_in namespace issued answer = first_of_identity [] (List.map_filter (named_by namespace issued) (brackets answer))"

text \<open>The table of references holds the last target issued with each.\<close>

definition tokens_ok :: "citationAuthority \<Rightarrow> bool" where
  "tokens_ok a \<longleftrightarrow>
     (\<forall>k. map_of (au_tokens a) k =
        (let ts = issued_with (au_namespace a) (au_issued a) k in if ts = [] then None else Some (List.last ts)))"

lemma new_tokens_ok: "tokens_ok (NewCitationAuthority nonce ranked)"
  by (simp add: tokens_ok_def NewCitationAuthority_def issued_with_def)

lemma issue_tokens_ok: "tokens_ok a \<Longrightarrow> tokens_ok (issue a rank r)"
  unfolding tokens_ok_def issue_parts
  by (auto simp: issued_with_def citation_reference_def Let_def)

lemma add_contexts_parts:
  "tokens_ok a \<Longrightarrow> tokens_ok (snd (add_contexts a cs))"
  "au_issued (snd (add_contexts a cs)) = au_issued a @ contexts_issued cs"
  "au_namespace (snd (add_contexts a cs)) = au_namespace a"
  "au_ranked (snd (add_contexts a cs)) = au_ranked a"
  by (induction a cs rule: add_contexts.induct)
    (auto simp: AddContext_def Let_def issue_tokens_ok issue_parts contexts_issued_def split: prod.splits)

lemma named_by_authority:
  assumes "authority_ok a" "tokens_ok a"
  shows "named_by (au_namespace a) (au_issued a) inside =
    (case map_of (au_tokens a) (''['' @ inside @ '']'') of Some t \<Rightarrow> Some t | None \<Rightarrow> map_of (au_titles a) inside)"
proof -
  have titles: "map_of (au_titles a) inside = (case titled (au_issued a) inside of [t] \<Rightarrow> Some t | _ \<Rightarrow> None)"
  proof (cases "map_of (au_titles a) inside")
    case None
    then have "titled (au_issued a) inside \<noteq> [t]" for t using assms(1) unfolding authority_ok_def by (metis option.distinct(1))
    then show ?thesis using None by (simp split: list.splits)
  next
    case (Some t)
    then have "titled (au_issued a) inside = [t]" using assms(1) unfolding authority_ok_def by blast
    then show ?thesis using Some by simp
  qed
  show ?thesis using assms(2) by (auto simp: named_by_def tokens_ok_def Let_def titles)
qed

text \<open>The loop collects the targets the brackets name, one per identity.\<close>

lemma resolve_bracket_named:
  assumes "authority_ok a" "tokens_ok a"
  shows "rv_citations (resolve_bracket a inside st) = rv_citations st @
           map (\<lambda>t. citationForResult (ct_result t)) (first_of_identity (rv_cited st)
             (List.map_filter (named_by (au_namespace a) (au_issued a)) [inside]))"
    "rv_cited (resolve_bracket a inside st) = rv_cited st @
           map (\<lambda>t. identity (ct_result t)) (first_of_identity (rv_cited st)
             (List.map_filter (named_by (au_namespace a) (au_issued a)) [inside]))"
  using named_by_authority [OF assms, of inside]
  by (auto simp: resolve_bracket_def appendCitation_def write_text_def Let_def List.map_filter_def split: option.splits)

lemma first_of_identity_seen:
  "set seen = set seen' \<Longrightarrow> first_of_identity seen ts = first_of_identity seen' ts"
proof (induction ts arbitrary: seen seen')
  case (Cons t ts)
  have "set (identity (ct_result t) # seen) = set (identity (ct_result t) # seen')" using Cons.prems by simp
  from Cons.IH [OF this] Cons.IH [OF Cons.prems] Cons.prems show ?case by simp
qed simp

lemma first_of_identity_append:
  "first_of_identity seen (ss @ ts) = first_of_identity seen ss @
     first_of_identity (seen @ map (\<lambda>t. identity (ct_result t)) (first_of_identity seen ss)) ts"
proof (induction seen ss rule: first_of_identity.induct)
  case (2 seen t ss)
  then show ?case by (auto intro: first_of_identity_seen)
qed simp

lemma first_of_identity_props:
  "set (first_of_identity seen ts) \<subseteq> set ts"
  "distinct (map (\<lambda>t. identity (ct_result t)) (first_of_identity seen ts))"
  "(\<lambda>t. identity (ct_result t)) ` set (first_of_identity seen ts) = (\<lambda>t. identity (ct_result t)) ` set ts - set seen"
  by (induction seen ts rule: first_of_identity.induct) auto

lemma resolve_loop_named:
  assumes "authority_ok a" "tokens_ok a"
  defines "named rest \<equiv> List.map_filter (named_by (au_namespace a) (au_issued a)) (brackets rest)"
  shows "rv_citations (resolve_loop a rest st) = rv_citations st @
           map (\<lambda>t. citationForResult (ct_result t)) (first_of_identity (rv_cited st) (named rest)) \<and>
         rv_cited (resolve_loop a rest st) = rv_cited st @
           map (\<lambda>t. identity (ct_result t)) (first_of_identity (rv_cited st) (named rest))"
proof (induction "length rest" arbitrary: rest st rule: less_induct)
  case less
  show ?case
  proof (cases "cut_byte (CHR ''['') rest")
    case None
    then show ?thesis
      by (simp add: resolve_loop.simps [of a rest] named_def brackets.simps [of rest] write_text_def List.map_filter_def)
  next
    case (Some p)
    obtain pre after where p: "p = (pre, after)" by (cases p)
    show ?thesis
    proof (cases "cut_byte (CHR '']'') after")
      case None
      then show ?thesis using Some p
        by (auto simp: resolve_loop.simps [of a rest] named_def brackets.simps [of rest] write_text_def List.map_filter_def)
    next
      case (Some q)
      obtain inside tail where q: "q = (inside, tail)" by (cases q)
      note cuts = \<open>cut_byte (CHR ''['') rest = Some p\<close> [unfolded p] Some [unfolded q]
      let ?st = "write_text pre st"
      have here: "rv_citations ?st = rv_citations st" "rv_cited ?st = rv_cited st" by (simp_all add: write_text_def)
      have "rest \<noteq> ''''" using cuts(1) by auto
      then have loop: "resolve_loop a rest st = resolve_loop a tail (resolve_bracket a inside ?st)"
        using cuts by (simp add: resolve_loop.simps [of a rest])
      have split: "named rest = List.map_filter (named_by (au_namespace a) (au_issued a)) [inside] @ named tail"
        using cuts by (simp add: named_def brackets.simps [of rest] List.map_filter_def)
      have "length tail < length rest" using cuts by (auto dest!: cut_byte_Some)
      note IH = less [OF this, of "resolve_bracket a inside ?st"]
      then show ?thesis
        unfolding loop split first_of_identity_append by (simp add: resolve_bracket_named [OF assms(1,2)] here)
    qed
  qed
qed

lemma named_in_empty [simp]: "named_in namespace issued '''' = []"
  by (simp add: named_in_def brackets.simps List.map_filter_def)

lemma Resolve_citations:
  assumes "authority_ok a" "tokens_ok a"
  defines "named \<equiv> named_in (au_namespace a) (au_issued a)"
  shows "snd (Resolve a answer) = (map (\<lambda>t. citationForResult (ct_result t)) (named answer),
    authorizedResults a (if named answer = [] then None else Some (map (\<lambda>t. identity (ct_result t)) (named answer))))"
proof (cases "answer = ''''")
  case True
  then show ?thesis by (simp add: Resolve_def named_def)
next
  case False
  define st where "st = resolve_loop a answer \<lparr>rv_text = '''', rv_citations = [], rv_cited = []\<rparr>"
  have "rv_citations st = map (\<lambda>t. citationForResult (ct_result t)) (named answer)"
    "rv_cited st = map (\<lambda>t. identity (ct_result t)) (named answer)"
    using resolve_loop_named [OF assms(1,2)] by (simp_all add: st_def named_def named_in_def)
  then show ?thesis using False by (simp add: Resolve_def Let_def st_def [symmetric])
qed

lemma by_rank_props:
  "set (by_rank ts) = set ts" "distinct (map f (by_rank ts)) = distinct (map f ts)"
  "sorted (map ct_rank (by_rank ts))"
  using key_less.sorted_sort_by [of ct_rank ts]
  by (simp_all add: by_rank_def sorted_map not_less)

lemma named_in_issued: "set (named_in namespace issued answer) \<subseteq> set issued"
proof
  fix t assume "t \<in> set (named_in namespace issued answer)"
  then obtain inside where "named_by namespace issued inside = Some t"
    using first_of_identity_props(1) by (fastforce simp: named_in_def List.map_filter_def)
  moreover have "titled issued s = [u] \<Longrightarrow> u \<in> set issued" for s u
    unfolding titled_def by (metis filter_eq_ConsD in_set_conv_decomp)
  moreover have "issued_with namespace issued s \<noteq> [] \<Longrightarrow> List.last (issued_with namespace issued s) \<in> set issued" for s
    unfolding issued_with_def using last_in_set by fastforce
  ultimately show "t \<in> set issued" by (auto simp: named_by_def Let_def split: if_splits list.splits)
qed

lemma contexts_issued_safe: "list_all (\<lambda>t. safeCitationResult (ct_result t)) (contexts_issued cs)"
  by (auto simp: list_all_iff contexts_issued_def)

abbreviation authority_for :: "string \<Rightarrow> result list \<Rightarrow> (int \<times> result \<times> string) list \<Rightarrow> citationAuthority" where
  "authority_for nonce ranked cs \<equiv> snd (add_contexts (NewCitationAuthority nonce ranked) cs)"

lemma authority_for_ok [simp]:
  "authority_ok (authority_for nonce ranked cs)" "tokens_ok (authority_for nonce ranked cs)"
  "au_issued (authority_for nonce ranked cs) = contexts_issued cs"
  "au_namespace (authority_for nonce ranked cs) = hex_encode nonce"
  "au_ranked (authority_for nonce ranked cs) = ranked"
  using add_contexts_ok [OF new_authority_ok] add_contexts_parts(1) [OF new_tokens_ok]
  by (simp_all add: add_contexts_parts(2,3,4), simp_all add: NewCitationAuthority_def)

lemma authorized_cited:
  assumes "authority_ok a" "ids = map (\<lambda>t. identity (ct_result t)) ts" "set ts \<subseteq> set (au_issued a)" "ts \<noteq> []"
  obtains us where "authorizedResults a (Some ids) = map ct_result us" "set us \<subseteq> set (au_issued a)" "sorted (map ct_rank us)"
    "distinct (map (\<lambda>t. identity (ct_result t)) us)" "(\<lambda>t. identity (ct_result t)) ` set us = set ids"
proof -
  let ?us = "first_of_identity [] (filter (\<lambda>t. identity (ct_result t) \<in> set ids) (au_issued a))"
  have "au_issued a \<noteq> []" using assms by auto
  then have ne: "au_tokens a \<noteq> []" using assms(1) by (cases "au_issued a") (auto simp: authority_ok_def)
  have "authorizedResults a (Some ids) = map ct_result (by_rank ?us)" using ne by (simp add: authorizedResults_def)
  moreover have "set ?us \<subseteq> set (au_issued a)" by (rule order_trans [OF first_of_identity_props(1)]) simp
  moreover have "(\<lambda>t. identity (ct_result t)) ` set ?us = set ids"
    using assms(2,3) by (auto simp: first_of_identity_props(3))
  ultimately show thesis using that [of "by_rank ?us"] by (simp add: by_rank_props first_of_identity_props(2))
qed

text \<open>Two contexts; the answer names one by its reference and forges another.\<close>

lemma citations_sample:
  "(case Resolve (authority_for ''ab'' []
       [(1, \<lparr>rs_result_slug = ''alpha'', rs_result_title = ''Alpha'', rs_result_type = ''source'', rs_snippet = ''''\<rparr>, ''body''),
        (2, \<lparr>rs_result_slug = ''beta'', rs_result_title = ''Beta'', rs_result_type = ''concept'', rs_snippet = ''''\<rparr>, ''body'')])
     ''see [CITATION_REF_6162_2] and [CITATION_REF_00_1]'' of
     (t, cites, rs) \<Rightarrow> (t, map ci_path cites, map rs_result_slug rs)) =
   (''see [Beta] and [CITATION-REF_00_1]'', [''/concepts/beta''], [''beta''])"
  by code_simp

section \<open>Properties\<close>

text \<open>
  C17. Whatever text the model answers, the text the caller shows contains no citation reference: the
  reserved prefix never reaches a reader, nor does it arise at the seams of what \<open>Resolve\<close> joins.
\<close>

theorem citation_answer_neutral: "\<not> contains (fst (Resolve a answer)) citationReferencePrefix"
proof (cases "answer = ''''")
  case True
  then show ?thesis by (simp add: Resolve_def citationReferencePrefix_def)
next
  case False
  have "clean_state \<lparr>rv_text = '''', rv_citations = [], rv_cited = []\<rparr>"
    by (simp add: clean_state_def no_reference_def citationReferencePrefix_def)
  from resolve_loop_clean [OF this] show ?thesis using False by (simp add: Resolve_def Let_def no_reference_def)
qed

text \<open>
  C16. The citations of an answer are exactly the pages its brackets name, each page once and in the order of
  first mention. A page is named by the reference issued for it in this synthesis, or by the title under
  which it alone was shown; only contexts with a safe route are issued, so no other bracket
  of the answer, and nothing in a context's text, produces a citation. When pages are cited, the results
  are the cited pages, once each and in rank order; otherwise they are the ranked results.
\<close>

theorem citations_authorized:
  "let issued = contexts_issued cs; named = named_in (hex_encode nonce) issued answer;
       page = (\<lambda>t. identity (ct_result t)); resolved = snd (Resolve (authority_for nonce ranked cs) answer)
   in fst resolved = map (\<lambda>t. citationForResult (ct_result t)) named \<and>
      set named \<subseteq> set issued \<and> distinct (map page named) \<and>
      list_all (\<lambda>t. safeCitationResult (ct_result t)) named \<and>
      (if named = [] then snd resolved = ranked
       else \<exists>us. snd resolved = map ct_result us \<and> set us \<subseteq> set issued \<and> sorted (map ct_rank us) \<and>
         distinct (map page us) \<and> page ` set us = page ` set named)"
proof -
  let ?a = "authority_for nonce ranked cs"
  let ?named = "named_in (hex_encode nonce) (contexts_issued cs) answer"
  let ?ids = "map (\<lambda>t. identity (ct_result t)) ?named"
  note R = Resolve_citations [of ?a answer, simplified]
  have sub: "set ?named \<subseteq> set (contexts_issued cs)" by (rule named_in_issued)
  have safe: "list_all (\<lambda>t. safeCitationResult (ct_result t)) ?named"
    using contexts_issued_safe [of cs] sub by (auto simp: list_all_iff)
  have dist: "distinct ?ids" by (simp add: named_in_def first_of_identity_props)
  show ?thesis
  proof (cases "?named = []")
    case True
    then show ?thesis by (simp add: R authorizedResults_def)
  next
    case False
    have "set ?named \<subseteq> set (au_issued ?a)" using sub by simp
    from authorized_cited [OF authority_for_ok(1) refl this False]
    have "\<exists>us. authorizedResults ?a (Some ?ids) = map ct_result us \<and> set us \<subseteq> set (contexts_issued cs) \<and>
        sorted (map ct_rank us) \<and> distinct (map (\<lambda>t. identity (ct_result t)) us) \<and>
        (\<lambda>t. identity (ct_result t)) ` set us = (\<lambda>t. identity (ct_result t)) ` set ?named"
      unfolding authority_for_ok(3) list.set_map by metis
    then show ?thesis using False sub safe dist unfolding Let_def R by simp
  qed
qed

end
