(* ===== verification/PipelineLog.thy ===== *)
theory PipelineLog
  imports Lease
begin

text \<open>
  The durable pipeline log of the cloud worker (\<open>cmd/olw_worker/cloud_publish.go\<close>): a log object
  of at most \<open>maxPipelineLog\<close> bytes to which a failed run appends one record, once. The redacted
  start and failure records are arguments (one line of JSON and a newline).
\<close>

definition maxPipelineLog :: nat where "maxPipelineLog = 4 * 2 ^ 20"

abbreviation newline :: char where "newline \<equiv> CHR 0x0A"

definition pipelineLogTruncationMarker :: string where
  "pipelineLogTruncationMarker = [newline] @ ''[output truncated at 4194304 bytes]'' @ [newline]"

definition boundedPipelineLogData :: "string \<Rightarrow> string" where
  "boundedPipelineLogData data =
     (if length data \<le> maxPipelineLog then data
      else take (maxPipelineLog - length pipelineLogTruncationMarker) data @ pipelineLogTruncationMarker)"

text \<open>The child output cut to \<open>available\<close> bytes and brought to the end of a line within them.\<close>

definition log_prefix :: "nat \<Rightarrow> string \<Rightarrow> string" where
  "log_prefix available child =
     (let keep = (if length child > available then available else length child);
          prefix = take keep child
      in if length prefix > 0 \<and> \<not> has_suffix prefix [newline]
         then (if length prefix = available then take (length prefix - 1) prefix else prefix) @ [newline]
         else prefix)"

definition log_separator :: "string \<Rightarrow> string" where
  "log_separator child = (if length child > 0 \<and> \<not> has_suffix child [newline] then [newline] else [])"

definition composeWorkerFailurePipelineLog :: "string \<Rightarrow> string \<Rightarrow> bool \<Rightarrow> gerr + string" where
  "composeWorkerFailurePipelineLog child event_line confirmedOverflow =
     (let marker = pipelineLogTruncationMarker
      in if length event_line + length marker > maxPipelineLog
         then Inl (Msg ''worker failure record cannot fit in pipeline log'')
         else if \<not> confirmedOverflow \<and> length child + length (log_separator child) + length event_line \<le> maxPipelineLog
         then Inr (child @ log_separator child @ event_line)
         else (let available = maxPipelineLog - length event_line - length marker;
                   data = log_prefix available child @ event_line @ marker
               in if length data > maxPipelineLog
                  then Inl (Msg ''worker failure record cannot fit in pipeline log'') else Inr data))"

text \<open>The loop that removes truncation markers from the end, with the overflow flag.\<close>

function strip_markers :: "string \<Rightarrow> bool \<Rightarrow> string \<times> bool" where
  "strip_markers data overflow =
     (if has_suffix data pipelineLogTruncationMarker
      then strip_markers (take (length data - length pipelineLogTruncationMarker) data) True
      else (data, overflow))"
  by pat_completeness auto
termination
  by (relation "measure (\<lambda>(data, _). length data)")
    (auto simp: has_suffix_def pipelineLogTruncationMarker_def)

declare strip_markers.simps [simp del]

definition workerFailurePipelineLogData :: "string \<Rightarrow> bool \<Rightarrow> string \<Rightarrow> string \<Rightarrow> gerr + string" where
  "workerFailurePipelineLogData data exists startup event_line =
     (let data1 = (if \<not> exists then startup else data);
          overflow = length data1 > maxPipelineLog;
          data2 = (if overflow then take maxPipelineLog data1 else data1);
          (data3, overflow') = strip_markers data2 overflow
      in composeWorkerFailurePipelineLog data3 event_line overflow')"

definition event_fields :: "string json_fields" where
  "event_fields = [(''event'', \<lambda>s v. decode_string s v)]"

definition hasWorkerFailureEvent :: "(string \<Rightarrow> json option) \<Rightarrow> string \<Rightarrow> bool" where
  "hasWorkerFailureEvent unmarshal data =
     list_ex (\<lambda>line. case unmarshal line of
                 None \<Rightarrow> False
               | Some v \<Rightarrow> unmarshal_struct event_fields '''' v = Inr ''worker_failure'') (split_on newline data)"

definition pipelineLogName :: "string \<Rightarrow> string \<Rightarrow> string" where
  "pipelineLogName prefix executionID = prefix @ ''cache/pipeline-'' @ executionID @ ''.log''"

text \<open>
  Recording a failure without a local workspace: read the log object, stop when a failure is
  already recorded, else write the extended log unconditionally.
\<close>

definition recordCloudFailurePipelineLog ::
  "'w objectStore \<Rightarrow> (string \<Rightarrow> json option) \<Rightarrow> string \<Rightarrow> string \<Rightarrow> string \<Rightarrow> string \<Rightarrow> 'w \<Rightarrow> gerr option \<times> 'w" where
  "recordCloudFailurePipelineLog st unmarshal prefix executionID startup event_line w =
     (let path = pipelineLogName prefix executionID
      in case st_read st path 0 (int maxPipelineLog + 1) w of
           (r, w1) \<Rightarrow>
             (case r of
                Inl e \<Rightarrow>
                  (if \<not> isObjectNotFound e then (Some e, w1)
                   else (case workerFailurePipelineLogData '''' False startup event_line of
                           Inl e' \<Rightarrow> (Some e', w1)
                         | Inr data \<Rightarrow>
                             (case st_write st path data [] unconditional w1 of
                                (Inl e', w2) \<Rightarrow> (Some e', w2)
                              | (Inr _, w2) \<Rightarrow> (None, w2))))
              | Inr (data0, _) \<Rightarrow>
                  (if hasWorkerFailureEvent unmarshal data0 then (None, w1)
                   else (case workerFailurePipelineLogData data0 True startup event_line of
                           Inl e' \<Rightarrow> (Some e', w1)
                         | Inr data \<Rightarrow>
                             (case st_write st path data [] unconditional w1 of
                                (Inl e', w2) \<Rightarrow> (Some e', w2)
                              | (Inr _, w2) \<Rightarrow> (None, w2))))))"

text \<open>Uploading the local log at the end of a run; \<open>local_log\<close> is the file, if there is one.\<close>

definition writeCloudPipelineLog ::
  "'w objectStore \<Rightarrow> string \<Rightarrow> string \<Rightarrow> gerr + string option \<Rightarrow> 'w \<Rightarrow> gerr option \<times> 'w" where
  "writeCloudPipelineLog st prefix executionID local_log w =
     (if \<not> validPipelineExecutionID executionID then (None, w)
      else (case local_log of
              Inl e \<Rightarrow> (Some e, w)
            | Inr l \<Rightarrow>
                (let data = (case l of None \<Rightarrow> '''' | Some d \<Rightarrow> boundedPipelineLogData (take (maxPipelineLog + 1) d))
                 in case st_write st (pipelineLogName prefix executionID) data [] unconditional w of
                      (Inl e, w') \<Rightarrow> (Some e, w')
                    | (Inr _, w') \<Rightarrow> (None, w'))))"

section \<open>The log stays bounded and keeps the record\<close>

lemma marker_length [simp]: "length pipelineLogTruncationMarker = 37"
  by (simp add: pipelineLogTruncationMarker_def)

lemma marker_small: "37 < maxPipelineLog"
  by (simp add: maxPipelineLog_def)

lemma has_suffix_newline: "has_suffix s [c] \<longleftrightarrow> s \<noteq> [] \<and> last s = c"
proof
  assume "has_suffix s [c]"
  then obtain t where "s = t @ [c]" by (auto simp: has_suffix_iff)
  then show "s \<noteq> [] \<and> last s = c" by simp
next
  assume "s \<noteq> [] \<and> last s = c"
  then have "s = butlast s @ [c]" by (metis append_butlast_last_id)
  then show "has_suffix s [c]" by (auto simp: has_suffix_iff)
qed

lemma log_prefix_shape:
  "length (log_prefix available child) \<le> available \<and> (log_prefix available child = [] \<or> last (log_prefix available child) = newline) \<and>
   (\<exists>k. butlast (log_prefix available child) = take k child)"
proof -
  define prefix where "prefix = take (if length child > available then available else length child) child"
  have len: "length prefix \<le> available" by (simp add: prefix_def)
  have cut: "\<exists>k. take j prefix = take k child" for j
    unfolding prefix_def by (metis take_take)
  show ?thesis
  proof (cases "length prefix > 0 \<and> \<not> has_suffix prefix [newline]")
    case False
    then have p: "log_prefix available child = prefix"
      by (simp only: log_prefix_def Let_def prefix_def [symmetric] if_False)
    have "prefix = [] \<or> last prefix = newline" using False by (auto simp: has_suffix_newline)
    then show ?thesis unfolding p using len cut [of "length prefix - 1"] by (simp add: butlast_conv_take)
  next
    case True
    show ?thesis
    proof (cases "length prefix = available")
      case full: True
      have p: "log_prefix available child = take (length prefix - 1) prefix @ [newline]"
        unfolding log_prefix_def Let_def prefix_def [symmetric] if_P [OF True] if_P [OF full] ..
      show ?thesis unfolding p using True full cut [of "length prefix - 1"] by simp
    next
      case False
      have p: "log_prefix available child = prefix @ [newline]"
        unfolding log_prefix_def Let_def prefix_def [symmetric] if_P [OF True] if_not_P [OF False] ..
      show ?thesis unfolding p using len False cut [of "length prefix"] by simp
    qed
  qed
qed

lemma log_separator_shape: "child @ log_separator child = [] \<or> last (child @ log_separator child) = newline"
  by (auto simp: log_separator_def has_suffix_newline)

text \<open>
  Whatever the branch, a composed log is a beginning that is empty or ends a line, the record, and
  possibly the marker, and is within the bound; and the log can always be composed when the record
  fits beside the marker.
\<close>

lemma compose_cases:
  assumes "length r + 37 \<le> maxPipelineLog"
  obtains (whole) "composeWorkerFailurePipelineLog child r ov = Inr (child @ log_separator child @ r)"
      "length (child @ log_separator child @ r) \<le> maxPipelineLog"
    | (cut) "composeWorkerFailurePipelineLog child r ov =
        Inr (log_prefix (maxPipelineLog - length r - 37) child @ r @ pipelineLogTruncationMarker)"
      "length (log_prefix (maxPipelineLog - length r - 37) child @ r @ pipelineLogTruncationMarker) \<le> maxPipelineLog"
proof (cases "\<not> ov \<and> length child + length (log_separator child) + length r \<le> maxPipelineLog")
  case True
  then show thesis using whole assms by (simp add: composeWorkerFailurePipelineLog_def Let_def)
next
  case False
  have small: "length (log_prefix (maxPipelineLog - length r - 37) child @ r @ pipelineLogTruncationMarker) \<le> maxPipelineLog"
    using log_prefix_shape [of "maxPipelineLog - length r - 37" child] assms
    unfolding length_append marker_length by linarith
  have "\<not> length r + length pipelineLogTruncationMarker > maxPipelineLog" using assms by simp
  then have "composeWorkerFailurePipelineLog child r ov =
      Inr (log_prefix (maxPipelineLog - length r - 37) child @ r @ pipelineLogTruncationMarker)"
    unfolding composeWorkerFailurePipelineLog_def Let_def if_not_P [OF False]
    using small assms by (simp only: marker_length not_less [symmetric] if_False)
  then show thesis using cut small by blast
qed

lemma compose_shape:
  assumes "composeWorkerFailurePipelineLog child r ov = Inr data"
  shows "\<exists>p q. data = p @ r @ q \<and> (p = [] \<or> last p = newline) \<and> length data \<le> maxPipelineLog"
proof -
  have "length r + 37 \<le> maxPipelineLog"
    using assms by (auto simp: composeWorkerFailurePipelineLog_def Let_def split: if_splits)
  then show ?thesis
  proof (cases rule: compose_cases [of r child ov])
    case whole
    then have "data = (child @ log_separator child) @ r @ []" using assms by simp
    with whole(2) log_separator_shape [of child] assms show ?thesis by (metis append.assoc append_Nil2)
  next
    case cut
    with assms log_prefix_shape [of "maxPipelineLog - length r - 37" child] show ?thesis
      by (metis sum.inject(2))
  qed
qed

lemma compose_has_event:
  assumes c: "composeWorkerFailurePipelineLog child (r @ [newline]) ov = Inr data"
    and r: "newline \<notin> set r" and ev: "unmarshal r = Some v" "unmarshal_struct event_fields '''' v = Inr ''worker_failure''"
  shows "hasWorkerFailureEvent unmarshal data"
proof -
  obtain p q where pq: "data = p @ (r @ [newline]) @ q" "p = [] \<or> last p = newline"
    using compose_shape [OF c] by blast
  have "r \<in> set (split_on newline (p @ r @ newline # q))"
  proof (cases "p = []")
    case True
    then show ?thesis using r by (simp add: split_on_append_sep split_on_no_sep)
  next
    case False
    then have "p = butlast p @ [newline]" using pq(2) by (metis append_butlast_last_id)
    then have "split_on newline (p @ r @ newline # q) =
        split_on newline (butlast p) @ split_on newline (r @ newline # q)"
      by (metis append.assoc append_Cons append_Nil split_on_append_sep)
    then show ?thesis using r by (simp add: split_on_append_sep split_on_no_sep)
  qed
  then have "r \<in> set (split_on newline data)" using pq by simp
  then show ?thesis using ev by (auto simp: hasWorkerFailureEvent_def list_ex_iff intro!: bexI [of _ r])
qed

lemma workerFailurePipelineLogData_compose:
  "workerFailurePipelineLogData data exists startup r = Inr out \<Longrightarrow>
     \<exists>child ov. composeWorkerFailurePipelineLog child r ov = Inr out"
  by (auto simp: workerFailurePipelineLogData_def Let_def split: prod.splits)

lemma compose_fits:
  "length r + 37 \<le> maxPipelineLog \<Longrightarrow> \<exists>data. composeWorkerFailurePipelineLog child r ov = Inr data"
  by (rule compose_cases [of r child ov]) auto

lemma failure_log_data:
  assumes "newline \<notin> set r" and "unmarshal r = Some v"
    and "unmarshal_struct event_fields [] v = Inr ''worker_failure''" and "length r + 38 \<le> maxPipelineLog"
  shows "\<exists>out. workerFailurePipelineLogData data exists startup (r @ [newline]) = Inr out \<and>
    length out \<le> maxPipelineLog \<and> hasWorkerFailureEvent unmarshal out \<and> (\<exists>p q. out = p @ r @ [newline] @ q)"
proof -
  obtain child ov where "workerFailurePipelineLogData data exists startup (r @ [newline]) =
      composeWorkerFailurePipelineLog child (r @ [newline]) ov"
    unfolding workerFailurePipelineLogData_def Let_def by (metis (no_types, lifting) case_prod_conv prod.collapse)
  moreover obtain out where out: "composeWorkerFailurePipelineLog child (r @ [newline]) ov = Inr out"
    using compose_fits [of "r @ [newline]" child ov] assms(4) by auto
  moreover have "hasWorkerFailureEvent unmarshal out" using compose_has_event [of child r ov out unmarshal v] out assms(1-3) by blast
  ultimately show ?thesis using compose_shape [OF out] by auto
qed

text \<open>What a store holds after a failure has been recorded in it: the old log, or the old log with the record.\<close>

definition failure_recorded :: "(string \<Rightarrow> json option) \<Rightarrow> string \<Rightarrow> string \<Rightarrow> string \<Rightarrow> contents \<Rightarrow> contents \<Rightarrow> bool" where
  "failure_recorded unmarshal path startup r before after \<longleftrightarrow>
     (case before path of
        Some (d, _) \<Rightarrow>
          if hasWorkerFailureEvent unmarshal d then after = before
          else (\<exists>out g. workerFailurePipelineLogData d True startup (r @ [newline]) = Inr out \<and> after = before(path \<mapsto> (out, g)))
      | None \<Rightarrow> \<exists>out g. workerFailurePipelineLogData [] False startup (r @ [newline]) = Inr out \<and> after = before(path \<mapsto> (out, g)))"

context object_store
begin

text \<open>A log with a failure event is never written again, whatever is to be recorded.\<close>

lemma record_again:
  assumes "inv w" and "obj w (pipelineLogName prefix ex) = Some (d, g)" and "hasWorkerFailureEvent unmarshal d"
    and "recordCloudFailurePipelineLog st unmarshal prefix ex startup line w = (e, w')"
  shows "obj w' = obj w"
proof -
  obtain rd w1 where rd: "st_read st (pipelineLogName prefix ex) 0 (int maxPipelineLog + 1) w = (rd, w1)" by fastforce
  note f = read_frame [OF assms(1) rd]
  show ?thesis
  proof (cases rd)
    case (Inl err)
    then have "\<not> isObjectNotFound err" using read_missing [OF assms(1) rd [unfolded Inl]] assms(2) by auto
    then show ?thesis using assms(4) rd Inl f by (simp add: recordCloudFailurePipelineLog_def Let_def)
  next
    case (Inr da)
    then have "fst da = d" using read_ok [OF assms(1), of "pipelineLogName prefix ex" 0 "int maxPipelineLog + 1" "fst da" "snd da" w1] rd assms(2)
      by simp
    then show ?thesis using assms(3,4) rd Inr f by (auto simp: recordCloudFailurePipelineLog_def Let_def split: prod.splits)
  qed
qed

lemma record_first:
  assumes "inv w" and "recordCloudFailurePipelineLog st unmarshal prefix ex startup (r @ [newline]) w = (None, w')"
  shows "inv w' \<and> failure_recorded unmarshal (pipelineLogName prefix ex) startup r (obj w) (obj w')"
proof -
  let ?n = "pipelineLogName prefix ex"
  obtain rd w1 where rd: "st_read st ?n 0 (int maxPipelineLog + 1) w = (rd, w1)" by fastforce
  note f = read_frame [OF assms(1) rd]
  have wrote: "inv w' \<and> (\<exists>g. obj w' = (obj w)(?n \<mapsto> (out, g)))"
    if "(case st_write st ?n out [] unconditional w1 of (Inl e', w2) \<Rightarrow> (Some e', w2) | (Inr _, w2) \<Rightarrow> (None, w2)) = (None, w')" for out
  proof -
    note h = that
    obtain a where "st_write st ?n out [] unconditional w1 = (Inr a, w')" using h
      by (cases "st_write st ?n out [] unconditional w1"; cases "fst (st_write st ?n out [] unconditional w1)") auto
    from write_ok [OF f [THEN conjunct1] this] f show ?thesis by auto
  qed
  show ?thesis
  proof (cases rd)
    case (Inl err)
    then have nf: "isObjectNotFound err" using assms(2) rd by (auto simp: recordCloudFailurePipelineLog_def Let_def split: if_splits)
    then have "obj w ?n = None" using read_missing [OF assms(1) rd [unfolded Inl]] by simp
    moreover obtain out where "workerFailurePipelineLogData [] False startup (r @ [newline]) = Inr out"
      "(case st_write st ?n out [] unconditional w1 of (Inl e', w2) \<Rightarrow> (Some e', w2) | (Inr _, w2) \<Rightarrow> (None, w2)) = (None, w')"
      using assms(2) rd Inl nf by (auto simp: recordCloudFailurePipelineLog_def Let_def split: sum.splits)
    ultimately show ?thesis using wrote by (auto simp: failure_recorded_def)
  next
    case (Inr da)
    obtain d at where da: "da = (d, at)" by (cases da)
    then have d: "obj w ?n = Some (d, a_generation at)" using read_ok [OF assms(1)] rd Inr by blast
    show ?thesis
    proof (cases "hasWorkerFailureEvent unmarshal d")
      case True
      then show ?thesis using assms(2) rd Inr da d f by (simp add: recordCloudFailurePipelineLog_def Let_def failure_recorded_def)
    next
      case False
      then obtain out where "workerFailurePipelineLogData d True startup (r @ [newline]) = Inr out"
        "(case st_write st ?n out [] unconditional w1 of (Inl e', w2) \<Rightarrow> (Some e', w2) | (Inr _, w2) \<Rightarrow> (None, w2)) = (None, w')"
        using assms(2) rd Inr da by (auto simp: recordCloudFailurePipelineLog_def Let_def split: sum.splits)
      then show ?thesis using wrote d False by (auto simp: failure_recorded_def)
    qed
  qed
qed

end

lemma failure_recorded_event:
  assumes "failure_recorded unmarshal path startup r before after" and "newline \<notin> set r" and "unmarshal r = Some v"
    and "unmarshal_struct event_fields [] v = Inr ''worker_failure''" and "length r + 38 \<le> maxPipelineLog"
  shows "\<exists>d g. after path = Some (d, g) \<and> hasWorkerFailureEvent unmarshal d"
proof -
  have "hasWorkerFailureEvent unmarshal out" if "workerFailurePipelineLogData data exists startup (r @ [newline]) = Inr out" for data exists out
    using failure_log_data [where unmarshal = unmarshal and r = r and v = v, OF assms(2-5), of data exists startup] that by auto
  then show ?thesis using assms(1) by (auto simp: failure_recorded_def split: option.splits if_splits)
qed

text \<open>
  C29. A failure is recorded once and for all. For a record of one line that fits beside the marker
  the extended log can always be composed, whatever is already there, within the bound and with
  the record as a line of its own. When recording it has succeeded, the log object holds a
  failure event: the one that was there, in which case nothing was written, or the record,
  appended to the log that was there. Recording any failure of the execution again then leaves every
  object as it is, generations included, even when the store fails.
\<close>

theorem failure_recorded_once:
  assumes "object_store st obj good known" and "good w"
    and "newline \<notin> set r" and "unmarshal r = Some v"
    and "unmarshal_struct event_fields [] v = Inr ''worker_failure''" and "length r + 38 \<le> maxPipelineLog"
    and "recordCloudFailurePipelineLog st unmarshal prefix ex startup (r @ [newline]) w = (None, w1)"
    and "recordCloudFailurePipelineLog st unmarshal prefix ex startup' line w1 = (e, w2)"
  shows "(\<forall>data exists. \<exists>out. workerFailurePipelineLogData data exists startup (r @ [newline]) = Inr out \<and>
       length out \<le> maxPipelineLog \<and> (\<exists>p q. out = p @ r @ [newline] @ q)) \<and>
    failure_recorded unmarshal (pipelineLogName prefix ex) startup r (obj w) (obj w1) \<and>
    (\<exists>d g. obj w1 (pipelineLogName prefix ex) = Some (d, g) \<and> hasWorkerFailureEvent unmarshal d) \<and>
    obj w2 = obj w1"
proof -
  note first = object_store.record_first [OF assms(1,2,7)]
  obtain d g where "obj w1 (pipelineLogName prefix ex) = Some (d, g)" "hasWorkerFailureEvent unmarshal d"
    using failure_recorded_event [where unmarshal = unmarshal and r = r and v = v, OF first [THEN conjunct2] assms(3-6)] by blast
  with object_store.record_again [OF assms(1) first [THEN conjunct1] this assms(8)] first failure_log_data [where unmarshal = unmarshal and r = r and v = v, OF assms(3-6)]
  show ?thesis by blast
qed

text \<open>
  No log object the worker uploads exceeds the bound: neither the local log it copies nor a
  log it extends by a failure record, whatever they contain.
\<close>

theorem pipeline_log_bounded:
  "length (boundedPipelineLogData data) \<le> maxPipelineLog \<and>
   (case workerFailurePipelineLogData data exists startup r of Inl e \<Rightarrow> True | Inr out \<Rightarrow> length out \<le> maxPipelineLog)"
  using workerFailurePipelineLogData_compose [of data exists startup r] compose_shape marker_small
  by (auto simp: boundedPipelineLogData_def split: sum.split) blast

lemma failure_recorded_once_witness:
  "let un = (\<lambda>_. Some (JObj [(''event'', JStr ''worker_failure'')]));
       run = recordCloudFailurePipelineLog memoryStore un ''p/'' ''job-1'' [] (''{}'' @ [newline]);
       once = snd (run newMemoryObjects)
   in fst (run newMemoryObjects) = None \<and> mem_obj (snd (run once)) = mem_obj once \<and>
      (\<exists>d g. mem_obj once (pipelineLogName ''p/'' ''job-1'') = Some (d, g) \<and> hasWorkerFailureEvent un d)"
proof -
  let ?un = "\<lambda>_ :: string. Some (JObj [(''event'', JStr ''worker_failure'')])"
  let ?run = "recordCloudFailurePipelineLog memoryStore ?un ''p/'' ''job-1'' [] (''{}'' @ [newline])"
  have w: "mem_inv newMemoryObjects" by code_simp
  have missing: "mem_Read (pipelineLogName ''p/'' ''job-1'') 0 (int maxPipelineLog + 1) newMemoryObjects =
      (Inl (Sentinel storageErrObjectNotExist), newMemoryObjects)"
    by (simp add: mem_Read_def newMemoryObjects_def)
  have nf: "isObjectNotFound (Sentinel storageErrObjectNotExist)" by code_simp
  have r: "newline \<notin> set ''{}''" "?un ''{}'' = Some (JObj [(''event'', JStr ''worker_failure'')])"
    "unmarshal_struct event_fields [] (JObj [(''event'', JStr ''worker_failure'')]) = Inr ''worker_failure''"
    "length ''{}'' + 38 \<le> maxPipelineLog"
    by (simp_all add: event_fields_def field_of_def maxPipelineLog_def)
  obtain out where "workerFailurePipelineLogData [] False [] (''{}'' @ [newline]) = Inr out"
    using failure_log_data [where unmarshal = ?un and r = "''{}''", OF r] by blast
  then have "fst (?run newMemoryObjects) = None"
    by (simp add: recordCloudFailurePipelineLog_def Let_def memoryStore_def missing [unfolded newMemoryObjects_def] nf mem_Write_def newMemoryObjects_def)
  then have "?run newMemoryObjects = (None, snd (?run newMemoryObjects))" by (simp add: prod_eq_iff)
  from failure_recorded_once [where unmarshal = ?un and r = "''{}''", OF mem.object_store_axioms w r this surjective_pairing]
  show ?thesis using \<open>fst (?run newMemoryObjects) = None\<close> by (simp add: Let_def)
qed

end
