(* ===== verification/FailureDiagnostic.thy ===== *)
theory FailureDiagnostic
  imports PipelineLog
begin

text \<open>
  The typed failure diagnostic of a pipeline run: its wire schema
  (\<open>internal/pipelinediagnostic/schema.go\<close>), how the worker derives, writes and reads it
  (\<open>cmd/olw_worker/failure_diagnostic.go\<close> and the recorder of \<open>cloud_publish.go\<close>), and how the
  BFF reads it for the owner of the run (\<open>readPipelineFailureDiagnostic\<close> of
  \<open>internal/handler/v1/endpoints.go\<close>). The last section compares the two decoders on what the
  worker writes. The text of an error (\<open>err.Error()\<close>) is an argument.
\<close>

section \<open>The wire schema\<close>

definition StageConceptReconciliation :: string where "StageConceptReconciliation = ''concept_reconciliation''"
definition StageUnknown :: string where "StageUnknown = ''unknown''"

definition ValidStages :: "string list" where
  "ValidStages = [''input_materialization'', ''synto_migration'', ''synto_config_normalization'',
     ''synto_config_validation'', ''synto_run'', ''synto_index_export'', ''source_reconciliation'',
     StageConceptReconciliation, ''postprocess'', ''generation_publish'', ''receipt_recording'',
     ''lease_cleanup'', StageUnknown]"

definition ErrorClassTimeout :: string where "ErrorClassTimeout = ''timeout''"
definition ErrorClassCancellation :: string where "ErrorClassCancellation = ''cancelled''"
definition ErrorClassChildExit :: string where "ErrorClassChildExit = ''child_exit''"
definition ErrorClassUnknown :: string where "ErrorClassUnknown = ''unknown''"

definition ValidErrorClasses :: "string list" where
  "ValidErrorClasses = [''validation'', ErrorClassChildExit, ErrorClassTimeout, ErrorClassCancellation, ''io'',
     ''state_invalid'', ''publish_conflict'', ''recording_failure'', ErrorClassUnknown]"

definition ValidChildCommands :: "string list" where
  "ValidChildCommands = [''migrate-olw'', ''run'', ''pack-export'']"

definition ValidDetailCodes :: "string list" where
  "ValidDetailCodes = [''generated_map_read_decode'', ''synto_index_truth'', ''entity_mapping'',
     ''entity_mapping_index_truth'', ''entity_mapping_source_concept_identity'', ''entity_mapping_article_identity'',
     ''entity_mapping_article_path'', ''entity_mapping_article_source_ambiguity'',
     ''entity_mapping_article_source_missing'', ''entity_mapping_article_source_disagreement'',
     ''entity_mapping_duplicate_article_id'', ''entity_mapping_duplicate_article_path'',
     ''entity_mapping_duplicate_entity_id'', ''entity_mapping_active_entity_unknown'',
     ''entity_mapping_concept_slug_case'', ''entity_mapping_concept_id_path_disagreement'',
     ''entity_mapping_concept_missing_mapping'', ''entity_mapping_concept_entity_collision'',
     ''entity_merge'', ''identity_reconciliation'', ''lifecycle_planning'', ''concept_page_rewrite'',
     ''link_rewrite'', ''cache_rewrite'', ''artifact_write'', ''artifact_remove'']"

section \<open>Typed failures\<close>

text \<open>\<open>errors.As\<close> for the three error types, the first of its type in the tree, depth first.\<close>

fun errors_as_worker :: "gerr \<Rightarrow> (string \<times> string \<times> string \<times> int option) option"
  and errors_as_worker_list :: "gerr list \<Rightarrow> (string \<times> string \<times> string \<times> int option) option" where
  "errors_as_worker (WorkerFailure stage cls child exit cause) = Some (stage, cls, child, exit)"
| "errors_as_worker (ConceptFailure detail cause) = errors_as_worker cause"
| "errors_as_worker (Annotated public cause) = errors_as_worker cause"
| "errors_as_worker (Wrapped m e) = errors_as_worker e"
| "errors_as_worker (Joined es) = errors_as_worker_list es"
| "errors_as_worker (Sentinel s) = None"
| "errors_as_worker (Msg m) = None"
| "errors_as_worker (APIError c) = None"
| "errors_as_worker (RecordingError a b c) = None"
| "errors_as_worker (ExitError code) = None"
| "errors_as_worker_list [] = None"
| "errors_as_worker_list (e # es) =
     (case errors_as_worker e of Some f \<Rightarrow> Some f | None \<Rightarrow> errors_as_worker_list es)"

fun errors_as_detail :: "gerr \<Rightarrow> string option" and errors_as_detail_list :: "gerr list \<Rightarrow> string option" where
  "errors_as_detail (ConceptFailure detail cause) = Some detail"
| "errors_as_detail (WorkerFailure stage cls child exit cause) = errors_as_detail cause"
| "errors_as_detail (Annotated public cause) = errors_as_detail cause"
| "errors_as_detail (Wrapped m e) = errors_as_detail e"
| "errors_as_detail (Joined es) = errors_as_detail_list es"
| "errors_as_detail (Sentinel s) = None"
| "errors_as_detail (Msg m) = None"
| "errors_as_detail (APIError c) = None"
| "errors_as_detail (RecordingError a b c) = None"
| "errors_as_detail (ExitError code) = None"
| "errors_as_detail_list [] = None"
| "errors_as_detail_list (e # es) =
     (case errors_as_detail e of Some d \<Rightarrow> Some d | None \<Rightarrow> errors_as_detail_list es)"

fun errors_as_exit :: "gerr \<Rightarrow> int option" and errors_as_exit_list :: "gerr list \<Rightarrow> int option" where
  "errors_as_exit (ExitError code) = Some code"
| "errors_as_exit (ConceptFailure detail cause) = errors_as_exit cause"
| "errors_as_exit (WorkerFailure stage cls child exit cause) = errors_as_exit cause"
| "errors_as_exit (Annotated public cause) = errors_as_exit cause"
| "errors_as_exit (Wrapped m e) = errors_as_exit e"
| "errors_as_exit (Joined es) = errors_as_exit_list es"
| "errors_as_exit (Sentinel s) = None"
| "errors_as_exit (Msg m) = None"
| "errors_as_exit (APIError c) = None"
| "errors_as_exit (RecordingError a b c) = None"
| "errors_as_exit_list [] = None"
| "errors_as_exit_list (e # es) =
     (case errors_as_exit e of Some d \<Rightarrow> Some d | None \<Rightarrow> errors_as_exit_list es)"

definition wrapConceptReconciliationError :: "string \<Rightarrow> gerr option \<Rightarrow> gerr option" where
  "wrapConceptReconciliationError detail err =
     (case err of
        None \<Rightarrow> None
      | Some e \<Rightarrow>
          (case errors_as_detail e of
             Some code \<Rightarrow>
               (if code \<noteq> '''' \<and> code \<in> set ValidDetailCodes then Some (ConceptFailure code e)
                else Some (ConceptFailure detail e))
           | None \<Rightarrow> Some (ConceptFailure detail e)))"

definition maxWorkerExitCode :: int where "maxWorkerExitCode = 255"

text \<open>\<open>ctx\<close> is \<open>ctx.Err()\<close>, \<open>None\<close> also for a nil context.\<close>

definition newWorkerFailure :: "sentinel option \<Rightarrow> string \<Rightarrow> string \<Rightarrow> string \<Rightarrow> gerr option \<Rightarrow> gerr option" where
  "newWorkerFailure ctx stage class0 child err =
     (case err of
        None \<Rightarrow> None
      | Some e \<Rightarrow>
          (let exitErr = (if child \<noteq> '''' then errors_as_exit e else None);
               contextClass =
                 (if ctx = Some contextDeadlineExceeded then ErrorClassTimeout
                  else if ctx = Some contextCanceled then ErrorClassCancellation else '''');
               causeContextClass =
                 (if contextClass \<noteq> '''' then ''''
                  else if errors_is e contextDeadlineExceeded then ErrorClassTimeout
                  else if errors_is e contextCanceled then ErrorClassCancellation else '''');
               class1 =
                 (if contextClass \<noteq> '''' then contextClass
                  else if causeContextClass \<noteq> '''' then causeContextClass else class0)
           in if child = '''' then Some (WorkerFailure stage class1 child None e)
              else (case exitErr of
                      None \<Rightarrow>
                        Some (WorkerFailure stage
                          (if contextClass = '''' \<and> causeContextClass = '''' then ErrorClassUnknown else class1) child None e)
                    | Some code \<Rightarrow>
                        Some (WorkerFailure stage
                          (if class1 \<noteq> ErrorClassTimeout \<and> class1 \<noteq> ErrorClassCancellation then ErrorClassChildExit else class1)
                          child (if 0 \<le> code \<and> code \<le> maxWorkerExitCode then Some code else None) e))))"

definition preserveWorkerFailure :: "gerr option \<Rightarrow> string \<Rightarrow> string \<Rightarrow> gerr option" where
  "preserveWorkerFailure err stage class0 =
     (case err of
        None \<Rightarrow> None
      | Some e \<Rightarrow> if errors_as_worker e \<noteq> None then Some e else newWorkerFailure None stage class0 '''' (Some e))"

section \<open>The diagnostic record\<close>

record failureDiagnostic =
  fd_version :: int
  fd_status :: string
  fd_stage :: string
  fd_class :: string
  fd_detail :: string
  fd_child :: string
  fd_exit :: "int option"
  fd_execution :: string
  fd_message :: string

definition zero_diagnostic :: failureDiagnostic where
  "zero_diagnostic = \<lparr>fd_version = 0, fd_status = '''', fd_stage = '''', fd_class = '''', fd_detail = '''',
     fd_child = '''', fd_exit = None, fd_execution = '''', fd_message = ''''\<rparr>"

definition diagnosticForError :: "gerr option \<Rightarrow> failureDiagnostic" where
  "diagnosticForError err =
     (let base = zero_diagnostic\<lparr>fd_version := 1, fd_status := ''failed'', fd_stage := StageUnknown,
                   fd_class := ErrorClassUnknown\<rparr>
      in case Option.bind err errors_as_worker of
           None \<Rightarrow> base
         | Some (stage, cls, child, exit) \<Rightarrow>
             (let d1 = (if stage \<in> set ValidStages then base\<lparr>fd_stage := stage\<rparr> else base);
                  d2 = (if cls \<in> set ValidErrorClasses then d1\<lparr>fd_class := cls\<rparr> else d1);
                  d3 = (if stage = StageConceptReconciliation
                        then (case Option.bind err errors_as_detail of
                                Some code \<Rightarrow> if code \<in> set ValidDetailCodes then d2\<lparr>fd_detail := code\<rparr> else d2
                              | None \<Rightarrow> d2)
                        else d2)
              in if child \<in> set ValidChildCommands
                 then d3\<lparr>fd_child := child,
                         fd_exit := (case exit of
                                       Some code \<Rightarrow> if 0 \<le> code \<and> code \<le> maxWorkerExitCode then Some code else None
                                     | None \<Rightarrow> None)\<rparr>
                 else d3))"

text \<open>\<open>redactDiagnosticBytes\<close>: longer secrets first.\<close>

definition redacted :: string where "redacted = ''[REDACTED]''"

definition redactDiagnosticBytes :: "string \<Rightarrow> string list \<Rightarrow> string" where
  "redactDiagnosticBytes data secrets =
     fold (\<lambda>secret text. if secret \<noteq> '''' then replace_all secret redacted text else text)
       (sort_by (\<lambda>a b. length a > length b) secrets) data"

definition maxFailureDiagnosticMessage :: nat where "maxFailureDiagnosticMessage = 512"

definition diagnosticMessage :: "(gerr \<Rightarrow> string) \<Rightarrow> gerr option \<Rightarrow> string list \<Rightarrow> string" where
  "diagnosticMessage error_text err secrets =
     (case err of
        None \<Rightarrow> ''''
      | Some e \<Rightarrow>
          (let msg = error_text e
           in if msg = '''' then ''''
              else (let msg' = redactDiagnosticBytes msg secrets
                    in if length msg' > maxFailureDiagnosticMessage then take maxFailureDiagnosticMessage msg' else msg')))"

text \<open>What \<open>marshalFailureDiagnosticMeta\<close> hands to \<open>json.Marshal\<close>.\<close>

definition diagnostic_meta :: "(gerr \<Rightarrow> string) \<Rightarrow> gerr option \<Rightarrow> string \<Rightarrow> string list \<Rightarrow> failureDiagnostic" where
  "diagnostic_meta error_text err execution secrets =
     (let d = diagnosticForError err; e = trim_space execution;
          d1 = (if validPipelineExecutionID e then d\<lparr>fd_execution := e\<rparr> else d);
          message = diagnosticMessage error_text err secrets
      in if message \<noteq> '''' then d1\<lparr>fd_message := message\<rparr> else d1)"

section \<open>The bytes of a string in JSON\<close>

text \<open>
  \<open>json.Marshal\<close> writes the replacement character for every byte that does not belong to a
  well-formed sequence: \<open>rune_len\<close> is the length of the sequence at the start, 0 if there is none.
\<close>

definition rune_len :: "string \<Rightarrow> nat" where
  "rune_len s =
     (case s of
        [] \<Rightarrow> 0
      | a # t \<Rightarrow>
          (if byte_in a 0 0x7F then 1
           else if byte_in a 0xC2 0xDF then (case t of [] \<Rightarrow> 0 | b # _ \<Rightarrow> if cont b then 2 else 0)
           else if byte_in a 0xE0 0xEF then
             (case t of
                b # c # _ \<Rightarrow>
                  (if (a = CHR 0xE0 \<and> byte_in b 0xA0 0xBF \<or> (byte_in a 0xE1 0xEC \<or> byte_in a 0xEE 0xEF) \<and> cont b
                       \<or> a = CHR 0xED \<and> byte_in b 0x80 0x9F) \<and> cont c then 3 else 0)
              | _ \<Rightarrow> 0)
           else
             (case t of
                b # c # d # _ \<Rightarrow>
                  (if (a = CHR 0xF0 \<and> byte_in b 0x90 0xBF \<or> byte_in a 0xF1 0xF3 \<and> cont b
                       \<or> a = CHR 0xF4 \<and> byte_in b 0x80 0x8F) \<and> cont c \<and> cont d then 4 else 0)
              | _ \<Rightarrow> 0)))"

definition replacement_char :: string where "replacement_char = [CHR 0xEF, CHR 0xBF, CHR 0xBD]"

function coerce_utf8 :: "string \<Rightarrow> string" where
  "coerce_utf8 s =
     (if s = [] then []
      else if rune_len s = 0 then replacement_char @ coerce_utf8 (tl s)
      else take (rune_len s) s @ coerce_utf8 (drop (rune_len s) s))"
  by pat_completeness auto
termination
  by (relation "measure length") auto

declare coerce_utf8.simps [simp del]

definition json_text :: "string \<Rightarrow> json" where
  "json_text s = JStr (coerce_utf8 s)"

definition omit_text :: "string \<Rightarrow> string \<Rightarrow> (string \<times> json) list" where
  "omit_text name s = (if s = '''' then [] else [(name, json_text s)])"

definition diagnostic_to_json :: "failureDiagnostic \<Rightarrow> json" where
  "diagnostic_to_json d =
     JObj ([(''version'', JInt (fd_version d)), (''status'', json_text (fd_status d)),
            (''stage'', json_text (fd_stage d)), (''error_class'', json_text (fd_class d))] @
           omit_text ''detail_code'' (fd_detail d) @ omit_text ''child_command'' (fd_child d) @
           (case fd_exit d of None \<Rightarrow> [] | Some code \<Rightarrow> [(''exit_code'', JInt code)]) @
           omit_text ''execution'' (fd_execution d) @ omit_text ''message'' (fd_message d))"

definition maxDiagnosticBytes :: nat where "maxDiagnosticBytes = 4 * 2 ^ 10"

definition marshalFailureDiagnosticMeta ::
  "(json \<Rightarrow> string) \<Rightarrow> (gerr \<Rightarrow> string) \<Rightarrow> gerr option \<Rightarrow> string \<Rightarrow> string list \<Rightarrow> gerr + string" where
  "marshalFailureDiagnosticMeta marshal error_text err execution secrets =
     (let data = marshal (diagnostic_to_json (diagnostic_meta error_text err execution secrets))
      in if length data > maxDiagnosticBytes then Inl (Msg ''failure diagnostic exceeds size limit'') else Inr data)"

section \<open>Decoding with \<open>DisallowUnknownFields\<close>\<close>

fun unmarshal_known :: "'s json_fields \<Rightarrow> 's \<Rightarrow> (string \<times> json) list \<Rightarrow> gerr + 's" where
  "unmarshal_known fds s [] = Inr s"
| "unmarshal_known fds s ((name, v) # kvs) =
     (case field_of fds name of
        None \<Rightarrow> Inl (Msg ''json: unknown field'')
      | Some d \<Rightarrow>
          (case d s v of
             Inl e \<Rightarrow> Inl (Msg ''json: cannot unmarshal'')
           | Inr s' \<Rightarrow> unmarshal_known fds s' kvs))"

fun decode_known :: "'s json_fields \<Rightarrow> 's \<Rightarrow> json \<Rightarrow> gerr + 's" where
  "decode_known fds s (JObj kvs) = unmarshal_known fds s kvs"
| "decode_known fds s JNull = Inr s"
| "decode_known fds s _ = Inl (Msg ''json: cannot unmarshal'')"

text \<open>A \<open>*int\<close> field: \<open>null\<close> makes it nil, a number allocates.\<close>

fun decode_int_pointer :: "json \<Rightarrow> json_error + int option" where
  "decode_int_pointer JNull = Inr None"
| "decode_int_pointer v = map_sum id Some (decode_int64 0 v)"

definition public_fields :: "failureDiagnostic json_fields" where
  "public_fields =
     [(''version'', \<lambda>d v. map_sum id (\<lambda>x. d\<lparr>fd_version := x\<rparr>) (decode_int64 (fd_version d) v)),
      (''status'', \<lambda>d v. map_sum id (\<lambda>x. d\<lparr>fd_status := x\<rparr>) (decode_string (fd_status d) v)),
      (''stage'', \<lambda>d v. map_sum id (\<lambda>x. d\<lparr>fd_stage := x\<rparr>) (decode_string (fd_stage d) v)),
      (''error_class'', \<lambda>d v. map_sum id (\<lambda>x. d\<lparr>fd_class := x\<rparr>) (decode_string (fd_class d) v)),
      (''detail_code'', \<lambda>d v. map_sum id (\<lambda>x. d\<lparr>fd_detail := x\<rparr>) (decode_string (fd_detail d) v)),
      (''child_command'', \<lambda>d v. map_sum id (\<lambda>x. d\<lparr>fd_child := x\<rparr>) (decode_string (fd_child d) v)),
      (''exit_code'', \<lambda>d v. map_sum id (\<lambda>x. d\<lparr>fd_exit := x\<rparr>) (decode_int_pointer v))]"

definition diagnostic_fields :: "failureDiagnostic json_fields" where
  "diagnostic_fields = public_fields @
     [(''execution'', \<lambda>d v. map_sum id (\<lambda>x. d\<lparr>fd_execution := x\<rparr>) (decode_string (fd_execution d) v)),
      (''message'', \<lambda>d v. map_sum id (\<lambda>x. d\<lparr>fd_message := x\<rparr>) (decode_string (fd_message d) v))]"

text \<open>The raw member a second \<open>json.Unmarshal\<close> into a map sees: the last one of exactly this name.\<close>

definition raw_member :: "json \<Rightarrow> string \<Rightarrow> json option" where
  "raw_member v name = (case v of JObj kvs \<Rightarrow> map_of (rev kvs) name | _ \<Rightarrow> None)"

definition decodeFailureDiagnostic :: "json_stream \<Rightarrow> gerr + failureDiagnostic" where
  "decodeFailureDiagnostic stream =
     (case stream_value stream of
        Inl e \<Rightarrow> Inl (Msg ''invalid JSON'')
      | Inr (v, rest) \<Rightarrow>
          (case decode_known diagnostic_fields zero_diagnostic v of
             Inl e \<Rightarrow> Inl e
           | Inr d \<Rightarrow>
               (if rest \<noteq> [] then Inl (Msg ''failure diagnostic has trailing data'')
                else if fd_version d \<noteq> 1 \<or> fd_status d \<noteq> ''failed''
                then Inl (Msg ''invalid failure diagnostic version or status'')
                else if fd_stage d \<notin> set ValidStages then Inl (Msg ''invalid failure diagnostic stage'')
                else if fd_class d \<notin> set ValidErrorClasses then Inl (Msg ''invalid failure diagnostic error class'')
                else if raw_member v ''detail_code'' = Some JNull then Inl (Msg ''invalid failure diagnostic detail code'')
                else if raw_member v ''detail_code'' \<noteq> None \<and>
                    (fd_detail d = '''' \<or> fd_stage d \<noteq> StageConceptReconciliation \<or> fd_detail d \<notin> set ValidDetailCodes)
                then Inl (Msg ''invalid failure diagnostic detail code'')
                else if fd_child d \<noteq> '''' \<and> fd_child d \<notin> set ValidChildCommands
                then Inl (Msg ''invalid failure diagnostic child command'')
                else if fd_child d = '''' \<and> fd_exit d \<noteq> None
                then Inl (Msg ''failure diagnostic exit code has no child command'')
                else if (case fd_exit d of None \<Rightarrow> False | Some code \<Rightarrow> code < 0 \<or> code > maxWorkerExitCode)
                then Inl (Msg ''invalid failure diagnostic exit code'')
                else if raw_member v ''execution'' \<noteq> None \<and>
                    (raw_member v ''execution'' = Some JNull \<or> fd_execution d = '''' \<or>
                     \<not> validPipelineExecutionID (fd_execution d))
                then Inl (Msg ''invalid failure diagnostic execution'')
                else if raw_member v ''message'' \<noteq> None \<and>
                    (raw_member v ''message'' = Some JNull \<or> fd_message d = '''' \<or>
                     length (fd_message d) > maxFailureDiagnosticMessage)
                then Inl (Msg ''invalid failure diagnostic message'')
                else Inr d)))"

section \<open>Recording it in the store\<close>

text \<open>
  \<open>writeCloudFailureDiagnosticWithContext\<close>: created once; a conflict is no error when the stored
  diagnostic is valid and the same.
\<close>

record diagnosticCodec =
  dc_marshal :: "json \<Rightarrow> string"
  dc_parse :: "string \<Rightarrow> json_stream"
  dc_error_text :: "gerr \<Rightarrow> string"

definition diagnosticName :: "string \<Rightarrow> string \<Rightarrow> string" where
  "diagnosticName prefix executionID = prefix @ ''cache/pipeline-'' @ executionID @ ''.failure.json''"

definition writeCloudFailureDiagnosticWithContext ::
  "diagnosticCodec \<Rightarrow> 'w objectStore \<Rightarrow> string \<Rightarrow> string \<Rightarrow> string list \<Rightarrow> gerr option \<Rightarrow> 'w \<Rightarrow> gerr option \<times> 'w" where
  "writeCloudFailureDiagnosticWithContext dc st prefix executionID secrets failure w =
     (if \<not> validPipelineExecutionID executionID then (None, w)
      else (case marshalFailureDiagnosticMeta (dc_marshal dc) (dc_error_text dc) failure executionID secrets of
              Inl e \<Rightarrow> (Some e, w)
            | Inr data \<Rightarrow>
                (case st_write st (diagnosticName prefix executionID) data [] createOnly w of
                   (Inr _, w1) \<Rightarrow> (None, w1)
                 | (Inl e, w1) \<Rightarrow>
                     (if \<not> isObjectGenerationConflict e then (Some e, w1)
                      else (case st_read st (diagnosticName prefix executionID) 0 (int maxDiagnosticBytes) w1 of
                              (Inl _, w2) \<Rightarrow> (Some e, w2)
                            | (Inr (existing, _), w2) \<Rightarrow>
                                (case decodeFailureDiagnostic (dc_parse dc existing) of
                                   Inl _ \<Rightarrow> (Some e, w2)
                                 | Inr _ \<Rightarrow> if existing \<noteq> data then (Some e, w2) else (None, w2)))))))"

section \<open>The BFF's reader\<close>

fun after_last :: "string \<Rightarrow> string \<Rightarrow> string option" where
  "after_last marker [] = None"
| "after_last marker (c # s) =
     (case after_last marker s of
        Some r \<Rightarrow> Some r
      | None \<Rightarrow> if has_prefix (c # s) marker then Some (drop (length marker) (c # s)) else None)"

definition shortCloudRunExecutionName :: "string \<Rightarrow> bool \<Rightarrow> string" where
  "shortCloudRunExecutionName name0 allowBare =
     (let name = trim_space name0
      in if name = '''' then ''''
         else (case after_last ''/executions/'' name of
                 Some executionID \<Rightarrow> trim_space (takeWhile (\<lambda>c. c \<noteq> CHR ''/'') executionID)
               | None \<Rightarrow> if allowBare \<and> CHR ''/'' \<notin> set name then name else ''''))"

text \<open>
  \<open>handler.PipelineFailureDiagnostic\<close> has the fields of \<open>public_fields\<close>. \<open>read_limited\<close> is the
  bounded reader of the project store, absent when the store has none.
\<close>

definition decode_public :: "json_stream \<Rightarrow> gerr + failureDiagnostic" where
  "decode_public stream =
     (case stream_value stream of
        Inl e \<Rightarrow> Inl (Msg ''invalid JSON'')
      | Inr (v, rest) \<Rightarrow>
          (case decode_known public_fields zero_diagnostic v of
             Inl e \<Rightarrow> Inl e
           | Inr d \<Rightarrow>
               (if rest \<noteq> [] then Inl (Msg ''diagnostic has trailing data'')
                else if fd_version d \<noteq> 1 \<or> fd_status d \<noteq> ''failed'' then Inl (Msg ''unsupported diagnostic'')
                else if fd_stage d \<notin> set ValidStages then Inl (Msg ''invalid diagnostic stage'')
                else if fd_class d \<notin> set ValidErrorClasses then Inl (Msg ''invalid diagnostic class'')
                else if fd_detail d \<noteq> '''' \<and>
                    (fd_stage d \<noteq> StageConceptReconciliation \<or> fd_detail d \<notin> set ValidDetailCodes)
                then Inl (Msg ''invalid diagnostic detail'')
                else if fd_child d \<noteq> '''' \<and> fd_child d \<notin> set ValidChildCommands
                then Inl (Msg ''invalid diagnostic child'')
                else if fd_child d = '''' \<and> fd_exit d \<noteq> None then Inl (Msg ''diagnostic exit code without child'')
                else if (case fd_exit d of None \<Rightarrow> False | Some code \<Rightarrow> code < 0 \<or> code > 255)
                then Inl (Msg ''invalid diagnostic exit code'')
                else Inr d)))"

definition readPipelineFailureDiagnostic ::
  "(string \<Rightarrow> json_stream) \<Rightarrow> (string \<Rightarrow> nat \<Rightarrow> gerr + string) option \<Rightarrow> string \<Rightarrow> gerr + failureDiagnostic" where
  "readPipelineFailureDiagnostic parse read_limited executionName =
     (let executionID = shortCloudRunExecutionName executionName True
      in if executionID = '''' then Inl (Msg ''invalid execution name'')
         else (case read_limited of
                 None \<Rightarrow> Inl (Msg ''bounded pipeline diagnostic reader unavailable'')
               | Some rd \<Rightarrow>
                   (case rd (diagnosticName '''' executionID) (maxDiagnosticBytes + 1) of
                      Inl e \<Rightarrow> Inl e
                    | Inr data \<Rightarrow>
                        (if length data > maxDiagnosticBytes then Inl (Msg ''diagnostic too large'')
                         else decode_public (parse data)))))"

section \<open>Well-formed text is written as it is\<close>

lemma three_byte_lead:
  "(a = CHR 0xE0 \<and> P \<or> (byte_in a 0xE1 0xEC \<or> byte_in a 0xEE 0xEF) \<and> Q \<or> a = CHR 0xED \<and> R) \<and> S
   \<Longrightarrow> byte_in a 0xE0 0xEF"
  unfolding byte_in_def by fastforce

lemma utf8_valid_step:
  assumes v: "utf8_valid s" and ne: "s \<noteq> []"
  shows "0 < rune_len s \<and> rune_len s \<le> length s \<and> utf8_valid (drop (rune_len s) s)"
proof -
  from ne obtain a t where s: "s = a # t" by (cases s) auto
  consider (one) "byte_in a 0 0x7F"
    | (two) "\<not> byte_in a 0 0x7F" "byte_in a 0xC2 0xDF"
    | (more) "\<not> byte_in a 0 0x7F" "\<not> byte_in a 0xC2 0xDF" by blast
  then show ?thesis
  proof cases
    case one
    then have "utf8_valid t" using v s by (cases s rule: utf8_valid.cases) auto
    then show ?thesis using one s by (simp add: rune_len_def)
  next
    case two
    then obtain b u where "t = b # u" "cont b" "utf8_valid u"
      using v s by (cases s rule: utf8_valid.cases) auto
    then show ?thesis using two s by (simp add: rune_len_def)
  next
    case more
    show ?thesis
    proof (cases s rule: utf8_valid.cases)
      case (4 x b c)
      then have "x = a" using s by simp
      with 4 v more have k: "(a = CHR 0xE0 \<and> byte_in b 0xA0 0xBF \<or> (byte_in a 0xE1 0xEC \<or> byte_in a 0xEE 0xEF) \<and> cont b
            \<or> a = CHR 0xED \<and> byte_in b 0x80 0x9F) \<and> cont c" by simp
      then have "byte_in a 0xE0 0xEF" by (rule three_byte_lead)
      with k more 4 \<open>x = a\<close> show ?thesis by (simp add: rune_len_def)
    next
      case (5 x b c d u)
      then have x: "x = a" using s by simp
      show ?thesis
      proof (cases "byte_in a 0xE0 0xEF")
        case True
        with 5 v more x show ?thesis by (simp add: rune_len_def)
      next
        case False
        with 5 v more x show ?thesis by (simp add: rune_len_def)
      qed
    qed (use s v more in auto)
  qed
qed

lemma coerce_utf8_valid: "utf8_valid s \<Longrightarrow> coerce_utf8 s = s"
proof (induction s rule: coerce_utf8.induct)
  case (1 s)
  show ?case
  proof (cases "s = []")
    case True
    then show ?thesis by (simp add: coerce_utf8.simps)
  next
    case False
    from utf8_valid_step [OF 1(3) False] have st: "0 < rune_len s" "utf8_valid (drop (rune_len s) s)" by auto
    then show ?thesis using 1(2) [OF False] False by (simp add: coerce_utf8.simps [of s])
  qed
qed

lemma coerce_utf8_Nil [simp]: "coerce_utf8 [] = []"
  by (simp add: coerce_utf8.simps)

lemma coerce_utf8_eq_Nil [simp]: "coerce_utf8 s = [] \<longleftrightarrow> s = []"
proof (cases "s = []")
  case False
  then show ?thesis by (simp add: coerce_utf8.simps [of s] replacement_char_def)
qed simp

lemma schema_text:
  "list_all utf8_valid ValidStages \<and> list_all utf8_valid ValidErrorClasses \<and> list_all utf8_valid ValidChildCommands \<and>
   list_all utf8_valid ValidDetailCodes"
  by code_simp

lemma schema_nonempty:
  "'''' \<notin> set ValidStages \<and> '''' \<notin> set ValidErrorClasses \<and> '''' \<notin> set ValidChildCommands \<and> '''' \<notin> set ValidDetailCodes"
  by code_simp

lemma schema_coerce:
  "s \<in> set ValidStages \<Longrightarrow> coerce_utf8 s = s"
  "s \<in> set ValidErrorClasses \<Longrightarrow> coerce_utf8 s = s"
  "s \<in> set ValidChildCommands \<Longrightarrow> coerce_utf8 s = s"
  "s \<in> set ValidDetailCodes \<Longrightarrow> coerce_utf8 s = s"
  using schema_text by (auto simp: list_all_iff intro: coerce_utf8_valid)

section \<open>What the worker writes\<close>

definition diagnostic_ok :: "failureDiagnostic \<Rightarrow> bool" where
  "diagnostic_ok d \<longleftrightarrow>
     fd_version d = 1 \<and> fd_status d = ''failed'' \<and> fd_stage d \<in> set ValidStages \<and> fd_class d \<in> set ValidErrorClasses \<and>
     (fd_detail d = '''' \<or> fd_stage d = StageConceptReconciliation \<and> fd_detail d \<in> set ValidDetailCodes) \<and>
     (fd_child d = '''' \<or> fd_child d \<in> set ValidChildCommands) \<and>
     (case fd_exit d of None \<Rightarrow> True | Some code \<Rightarrow> fd_child d \<noteq> '''' \<and> 0 \<le> code \<and> code \<le> maxWorkerExitCode) \<and>
     (fd_execution d = '''' \<or> validPipelineExecutionID (fd_execution d)) \<and>
     length (fd_message d) \<le> maxFailureDiagnosticMessage"

lemma diagnosticForError_ok:
  "diagnostic_ok (diagnosticForError err) \<and> fd_execution (diagnosticForError err) = '''' \<and>
   fd_message (diagnosticForError err) = ''''"
proof -
  have u: "StageUnknown \<in> set ValidStages" "ErrorClassUnknown \<in> set ValidErrorClasses"
    by (simp_all add: ValidStages_def ValidErrorClasses_def)
  show ?thesis
  proof (cases "Option.bind err errors_as_worker")
    case None
    then show ?thesis using u by (simp add: diagnosticForError_def diagnostic_ok_def zero_diagnostic_def)
  next
    case (Some f)
    obtain stage cls child exit where f: "f = (stage, cls, child, exit)" by (cases f)
    have c: "StageConceptReconciliation \<in> set ValidStages" by (simp add: ValidStages_def)
    show ?thesis using Some f u c schema_nonempty
      by (cases exit; cases "Option.bind err errors_as_detail")
        (auto simp: diagnosticForError_def diagnostic_ok_def zero_diagnostic_def Let_def)
  qed
qed

lemma diagnosticMessage_length: "length (diagnosticMessage t err secrets) \<le> maxFailureDiagnosticMessage"
  by (cases err) (simp_all add: diagnosticMessage_def Let_def)

lemma diagnostic_meta_parts:
  "diagnostic_meta t err execution secrets =
     (diagnosticForError err)\<lparr>fd_execution := (if validPipelineExecutionID (trim_space execution) then trim_space execution else ''''),
        fd_message := diagnosticMessage t err secrets\<rparr>"
  using diagnosticForError_ok [of err] by (simp add: diagnostic_meta_def Let_def)

lemma diagnostic_meta_ok: "diagnostic_ok (diagnostic_meta t err execution secrets)"
  using diagnosticForError_ok [of err] diagnosticMessage_length [of t err secrets]
  by (cases "fd_exit (diagnosticForError err)") (auto simp: diagnostic_meta_parts diagnostic_ok_def)

section \<open>What the two decoders make of it\<close>

lemma unmarshal_known_append:
  "unmarshal_known fds s (kvs @ kvs') =
     (case unmarshal_known fds s kvs of Inl e \<Rightarrow> Inl e | Inr s' \<Rightarrow> unmarshal_known fds s' kvs')"
  by (induction kvs arbitrary: s) (auto split: option.splits sum.splits)

text \<open>
  The text a decoder finds in the JSON of a string is its coerced form; everything else the
  schema allows is decoded as it was.
\<close>

definition coerced :: "failureDiagnostic \<Rightarrow> failureDiagnostic" where
  "coerced d = d\<lparr>fd_execution := coerce_utf8 (fd_execution d), fd_message := coerce_utf8 (fd_message d)\<rparr>"

lemma json_text_simps [simp]: "decode_string old (json_text s) = Inr (coerce_utf8 s)"
  by (simp add: json_text_def)

definition public_members :: "failureDiagnostic \<Rightarrow> (string \<times> json) list" where
  "public_members d =
     [(''version'', JInt (fd_version d)), (''status'', json_text (fd_status d)),
      (''stage'', json_text (fd_stage d)), (''error_class'', json_text (fd_class d))] @
     omit_text ''detail_code'' (fd_detail d) @ omit_text ''child_command'' (fd_child d) @
     (case fd_exit d of None \<Rightarrow> [] | Some code \<Rightarrow> [(''exit_code'', JInt code)])"

lemma diagnostic_to_json_members:
  "diagnostic_to_json d =
     JObj (public_members d @ omit_text ''execution'' (fd_execution d) @ omit_text ''message'' (fd_message d))"
  by (simp add: diagnostic_to_json_def public_members_def)

lemma coerce_failed [simp]: "coerce_utf8 ''failed'' = ''failed''"
  by (rule coerce_utf8_valid) code_simp

lemma public_members_decoded:
  assumes ok: "diagnostic_ok d" and fds: "fds = public_fields \<or> fds = diagnostic_fields"
  shows "unmarshal_known fds zero_diagnostic (public_members d) = Inr (d\<lparr>fd_execution := '''', fd_message := ''''\<rparr>)"
proof -
  have parts: "fd_version d = 1" "fd_status d = ''failed''" "coerce_utf8 (fd_stage d) = fd_stage d"
      "coerce_utf8 (fd_class d) = fd_class d" "coerce_utf8 (fd_detail d) = fd_detail d"
      "coerce_utf8 (fd_child d) = fd_child d" "in_int64 1"
    using ok schema_coerce by (auto simp: diagnostic_ok_def in_int64_def)
  have exit: "in_int64 code" if "fd_exit d = Some code" for code
    using ok that by (auto simp: diagnostic_ok_def in_int64_def maxWorkerExitCode_def)
  have d: "zero_diagnostic\<lparr>fd_version := 1, fd_status := ''failed'', fd_stage := fd_stage d, fd_class := fd_class d,
      fd_detail := fd_detail d, fd_child := fd_child d, fd_exit := fd_exit d\<rparr> = d\<lparr>fd_execution := '''', fd_message := ''''\<rparr>"
    using parts by (simp add: zero_diagnostic_def)
  show ?thesis
    using fds
    by (rule disjE; cases "fd_detail d = ''''"; cases "fd_child d = ''''"; cases "fd_exit d")
      (simp_all add: public_members_def parts exit d [symmetric] omit_text_def field_of_def public_fields_def
         diagnostic_fields_def zero_diagnostic_def)
qed
lemma raw_member_omitted:
  "raw_member (diagnostic_to_json d) ''execution'' = (if fd_execution d = '''' then None else Some (json_text (fd_execution d)))"
  "raw_member (diagnostic_to_json d) ''message'' = (if fd_message d = '''' then None else Some (json_text (fd_message d)))"
  "raw_member (diagnostic_to_json d) ''detail_code'' = (if fd_detail d = '''' then None else Some (json_text (fd_detail d)))"
  by (cases "fd_exit d"; simp add: raw_member_def diagnostic_to_json_def omit_text_def)+

lemma private_field_names:
  "field_of diagnostic_fields ''execution'' =
     Some (\<lambda>d v. map_sum id (\<lambda>x. d\<lparr>fd_execution := x\<rparr>) (decode_string (fd_execution d) v))"
  "field_of diagnostic_fields ''message'' =
     Some (\<lambda>d v. map_sum id (\<lambda>x. d\<lparr>fd_message := x\<rparr>) (decode_string (fd_message d) v))"
  by (simp_all add: field_of_def diagnostic_fields_def public_fields_def)

lemma private_fields_unknown:
  "field_of public_fields ''execution'' = None \<and> field_of public_fields ''message'' = None"
proof -
  have "map_of public_fields ''execution'' = None" "map_of public_fields ''message'' = None"
    by (simp_all add: public_fields_def)
  moreover have "fold_name ''execution'' \<notin> fst ` set (map (\<lambda>(n, d). (fold_name n, d)) public_fields)"
    "fold_name ''message'' \<notin> fst ` set (map (\<lambda>(n, d). (fold_name n, d)) public_fields)"
    by (simp_all add: public_fields_def upper_byte_def byte_in_def char_of_def of_char_def)
  then have "map_of (map (\<lambda>(n, d). (fold_name n, d)) public_fields) (fold_name ''execution'') = None"
    "map_of (map (\<lambda>(n, d). (fold_name n, d)) public_fields) (fold_name ''message'') = None"
    by (simp_all only: map_of_eq_None_iff not_False_eq_True)
  ultimately show ?thesis by (simp add: field_of_def del: fold_name.simps)
qed

lemma worker_decodes:
  assumes "diagnostic_ok d"
  shows "decode_known diagnostic_fields zero_diagnostic (diagnostic_to_json d) = Inr (coerced d)"
  using public_members_decoded [OF assms, of diagnostic_fields]
  by (cases "fd_execution d = ''''"; cases "fd_message d = ''''")
    (simp_all add: diagnostic_to_json_members unmarshal_known_append omit_text_def private_field_names coerced_def)

lemma bff_decodes:
  assumes "diagnostic_ok d"
  shows "decode_known public_fields zero_diagnostic (diagnostic_to_json d) =
     (if fd_execution d = '''' \<and> fd_message d = '''' then Inr d else Inl (Msg ''json: unknown field''))"
  using public_members_decoded [OF assms, of public_fields] private_fields_unknown
  by (cases "fd_execution d = ''''"; cases "fd_message d = ''''")
    (simp_all add: diagnostic_to_json_members unmarshal_known_append omit_text_def)

text \<open>
  The worker reads back its own diagnostic. What \<open>marshalFailureDiagnosticMeta\<close> encodes is
  decoded to the same record, stage, class, detail, child command and exit code included, with
  malformed bytes of the execution and the message replaced; it is refused only when the
  replacement makes the message longer than the limit or the execution ID invalid.
\<close>

theorem worker_diagnostic_roundtrip:
  "decodeFailureDiagnostic [Some (diagnostic_to_json (diagnostic_meta t err execution secrets))] =
     (let d = coerced (diagnostic_meta t err execution secrets)
      in if fd_execution d \<noteq> '''' \<and> \<not> validPipelineExecutionID (fd_execution d)
         then Inl (Msg ''invalid failure diagnostic execution'')
         else if length (fd_message d) > maxFailureDiagnosticMessage
         then Inl (Msg ''invalid failure diagnostic message'') else Inr d)"
proof -
  define d where "d = diagnostic_meta t err execution secrets"
  have ok: "diagnostic_ok d" unfolding d_def by (rule diagnostic_meta_ok)
  then have parts: "fd_version (coerced d) = 1" "fd_status (coerced d) = ''failed''"
    "fd_stage (coerced d) \<in> set ValidStages" "fd_class (coerced d) \<in> set ValidErrorClasses"
    "fd_detail d \<noteq> '''' \<Longrightarrow> fd_stage (coerced d) = StageConceptReconciliation \<and> fd_detail (coerced d) \<in> set ValidDetailCodes"
    "fd_child (coerced d) = '''' \<or> fd_child (coerced d) \<in> set ValidChildCommands"
    "case fd_exit (coerced d) of None \<Rightarrow> True | Some code \<Rightarrow> fd_child (coerced d) \<noteq> '''' \<and> 0 \<le> code \<and> code \<le> maxWorkerExitCode"
    by (auto simp: diagnostic_ok_def coerced_def split: option.splits)
  have sel: "fd_detail (coerced d) = fd_detail d" "fd_execution (coerced d) = coerce_utf8 (fd_execution d)"
    "fd_message (coerced d) = coerce_utf8 (fd_message d)" by (simp_all add: coerced_def)
  show ?thesis unfolding d_def [symmetric]
    using parts sel schema_nonempty
    by (cases "fd_exit (coerced d)")
      (auto simp: decodeFailureDiagnostic_def worker_decodes [OF ok] raw_member_omitted json_text_def Let_def)
qed

lemma coerced_valid:
  "utf8_valid (fd_execution d) \<Longrightarrow> utf8_valid (fd_message d) \<Longrightarrow> coerced d = d"
  by (simp add: coerced_def coerce_utf8_valid)

text \<open>
  The BFF drops the diagnostics the worker records. Its decoder, which has no field for the
  execution and the message and disallows unknown ones, accepts a worker diagnostic exactly when
  both are absent; every diagnostic the worker uploads names its execution, so none is accepted.
\<close>

theorem bff_reads_worker_diagnostic:
  "decode_public [Some (diagnostic_to_json (diagnostic_meta t err execution secrets))] =
     (if fd_execution (diagnostic_meta t err execution secrets) = '''' \<and>
         fd_message (diagnostic_meta t err execution secrets) = ''''
      then Inr (diagnosticForError err) else Inl (Msg ''json: unknown field'')) \<and>
   (fd_execution (diagnostic_meta t err execution secrets) = '''' \<longleftrightarrow> \<not> validPipelineExecutionID execution)"
proof -
  define d where "d = diagnostic_meta t err execution secrets"
  have ok: "diagnostic_ok d" unfolding d_def by (rule diagnostic_meta_ok)
  have idem: "validPipelineExecutionID (trim_space execution) = validPipelineExecutionID execution"
    by (simp add: validPipelineExecutionID_def)
  have "fd_execution d = '''' \<longleftrightarrow> \<not> validPipelineExecutionID execution"
    by (auto simp: d_def diagnostic_meta_parts idem validPipelineExecutionID_def)
  moreover have "d = diagnosticForError err" if "fd_execution d = ''''" "fd_message d = ''''"
    using that diagnosticForError_ok [of err] by (simp add: d_def diagnostic_meta_parts)
  moreover have "decode_public [Some (diagnostic_to_json d)] =
      (if fd_execution d = '''' \<and> fd_message d = '''' then Inr d else Inl (Msg ''json: unknown field''))"
    using ok schema_nonempty
    by (cases "fd_exit d")
      (auto simp: decode_public_def bff_decodes [OF ok] diagnostic_ok_def maxWorkerExitCode_def)
  ultimately show ?thesis unfolding d_def [symmetric] by auto
qed
section \<open>The first diagnostic of an execution stays\<close>

text \<open>The bytes recorded for a failure, when they fit.\<close>

definition diagnostic_bytes :: "diagnosticCodec \<Rightarrow> gerr option \<Rightarrow> string \<Rightarrow> string list \<Rightarrow> string" where
  "diagnostic_bytes dc failure executionID secrets =
     dc_marshal dc (diagnostic_to_json (diagnostic_meta (dc_error_text dc) failure executionID secrets))"

definition first_recorded :: "contents \<Rightarrow> string \<Rightarrow> string \<Rightarrow> contents \<Rightarrow> bool" where
  "first_recorded before n data after \<longleftrightarrow>
     (case before n of
        Some x \<Rightarrow> after = before
      | None \<Rightarrow> after = before \<or> (\<exists>g. after = before(n \<mapsto> (data, g))))"

context object_store
begin

lemma diagnostic_write:
  assumes "inv w" and "writeCloudFailureDiagnosticWithContext dc st prefix ex secrets failure w = (r, w')"
  shows "inv w' \<and> (\<forall>i. known w i \<longrightarrow> known w' i) \<and>
    first_recorded (obj w) (diagnosticName prefix ex) (diagnostic_bytes dc failure ex secrets) (obj w') \<and>
    (r = None \<and> validPipelineExecutionID ex \<longrightarrow>
       (\<exists>g. obj w' (diagnosticName prefix ex) = Some (diagnostic_bytes dc failure ex secrets, g)))"
proof (cases "validPipelineExecutionID ex")
  case False
  then show ?thesis using assms
    by (auto simp: writeCloudFailureDiagnosticWithContext_def first_recorded_def split: option.splits)
next
  case valid: True
  define n where "n = diagnosticName prefix ex"
  define data where "data = diagnostic_bytes dc failure ex secrets"
  have m: "marshalFailureDiagnosticMeta (dc_marshal dc) (dc_error_text dc) failure ex secrets =
      (if length data > maxDiagnosticBytes then Inl (Msg ''failure diagnostic exceeds size limit'') else Inr data)"
    by (simp add: marshalFailureDiagnosticMeta_def data_def diagnostic_bytes_def Let_def)
  show ?thesis
  proof (cases "length data > maxDiagnosticBytes")
    case True
    then show ?thesis using assms valid m
      by (auto simp: writeCloudFailureDiagnosticWithContext_def first_recorded_def split: option.splits)
  next
    case fits: False
    obtain q w1 where q: "st_write st n data [] createOnly w = (q, w1)" by fastforce
    show ?thesis
    proof (cases q)
      case (Inr a)
      have "r = None \<and> w' = w1" using assms(2) valid m fits q Inr
        by (simp add: writeCloudFailureDiagnosticWithContext_def n_def)
      then show ?thesis using write_ok [OF assms(1)] create_only_ok [OF assms(1)] q Inr
        by (fastforce simp: first_recorded_def n_def data_def)
    next
      case (Inl e)
      have w1: "inv w1 \<and> (\<forall>i. known w i \<longrightarrow> known w1 i) \<and> first_recorded (obj w) n data (obj w1)"
        using write_error [OF assms(1)] q Inl by (fastforce simp: first_recorded_def split: option.splits)
      obtain rd w2 where rd: "st_read st n 0 (int maxDiagnosticBytes) w1 = (rd, w2)" by fastforce
      have f: "inv w2 \<and> obj w2 = obj w1 \<and> (\<forall>i. known w1 i \<longrightarrow> known w2 i)"
        using read_frame [of w1] w1 rd by blast
      have "w' = w1 \<and> r \<noteq> None \<or> w' = w2 \<and> (r = None \<longrightarrow> (\<exists>at. rd = Inr (data, at)))"
        using assms(2) valid m fits q Inl rd
        by (auto simp: writeCloudFailureDiagnosticWithContext_def n_def split: if_splits sum.splits)
      then show ?thesis using w1 f read_ok [of w1] rd unfolding n_def [symmetric] data_def [symmetric] by fastforce
    qed
  qed
qed

end

text \<open>
  The first diagnostic of an execution stays. Recording a failure changes no object but the
  diagnostic of the execution, and that only when there was none; when it reports success the
  stored bytes are those of this failure, so a second, different failure is reported as a
  conflict and never replaces the first.
\<close>

theorem diagnostic_recorded_once:
  assumes "object_store st obj good known" and "good w"
    and "writeCloudFailureDiagnosticWithContext dc st prefix ex secrets failure w = (r, w')"
  shows "first_recorded (obj w) (diagnosticName prefix ex) (diagnostic_bytes dc failure ex secrets) (obj w') \<and>
    (r = None \<and> validPipelineExecutionID ex \<longrightarrow>
       (\<exists>g. obj w' (diagnosticName prefix ex) = Some (diagnostic_bytes dc failure ex secrets, g)))"
  using object_store.diagnostic_write [OF assms] by blast

definition sample_diagnosticCodec :: diagnosticCodec where
  "sample_diagnosticCodec = \<lparr>dc_marshal = (\<lambda>v. ''{}''), dc_parse = (\<lambda>s. []), dc_error_text = (\<lambda>e. ''failed'')\<rparr>"

theorem diagnostic_recorded_once_witness:
  "\<exists>g. mem_obj (snd (writeCloudFailureDiagnosticWithContext sample_diagnosticCodec memoryStore ''p/'' ''job-1'' []
       (Some (Msg ''m'')) newMemoryObjects)) (diagnosticName ''p/'' ''job-1'') = Some (''{}'', g)"
proof -
  obtain r w' where run: "writeCloudFailureDiagnosticWithContext sample_diagnosticCodec memoryStore ''p/'' ''job-1'' []
       (Some (Msg ''m'')) newMemoryObjects = (r, w')" by fastforce
  have v: "validPipelineExecutionID ''job-1''" by code_simp
  have good: "mem_inv newMemoryObjects" by (simp add: mem_inv_def newMemoryObjects_def)
  have "r = None" using run v
    by (simp add: writeCloudFailureDiagnosticWithContext_def marshalFailureDiagnosticMeta_def sample_diagnosticCodec_def
        maxDiagnosticBytes_def mem_store_simps newMemoryObjects_def)
  then have "\<exists>g. mem_obj w' (diagnosticName ''p/'' ''job-1'') =
      Some (diagnostic_bytes sample_diagnosticCodec (Some (Msg ''m'')) ''job-1'' [], g)"
    using diagnostic_recorded_once [OF mem.object_store_axioms good run] v by blast
  then show ?thesis using run by (simp add: diagnostic_bytes_def sample_diagnosticCodec_def)
qed

end
