(* ===== verification/CloudRun.thy ===== *)
theory CloudRun
  imports Publish FailureDiagnostic
begin

text \<open>
  A run of the cloud worker from the lease to its release (\<open>runCloudWorkerBatch\<close> and
  \<open>runCloudSuggestedQueries\<close> of \<open>cmd/olw_worker/cloud_publish.go\<close>, the input checks of \<open>main.go\<close>): it
  composes the lease, the materialization, the publication, the receipts, the pipeline log and
  the failure diagnostic. The child process and the two reconciliations, which the code itself
  keeps behind variables, are functions on the workspace. Theory \<open>RunFrame\<close> states what a run
  leaves in the store for every way it can end.
\<close>

section \<open>Input checks\<close>

record workerConfig =
  wc_vault :: string
  wc_bucket :: string
  wc_data_dir :: string
  wc_user :: string
  wc_project :: string
  wc_execution :: string
  wc_api_key :: string
  wc_api_key_set :: bool
  wc_postprocess :: bool
  wc_workspace_dir :: string
  wc_clean_rebuild :: bool
  wc_cloud :: bool

definition maxWorkerKeyBytes :: nat where "maxWorkerKeyBytes = 4096"
definition maxWorkerPathBytes :: nat where "maxWorkerPathBytes = 4096"
definition maxWorkerCommands :: nat where "maxWorkerCommands = 64"
definition maxWorkerArgs :: nat where "maxWorkerArgs = 64"
definition maxWorkerArgBytes :: nat where "maxWorkerArgBytes = 4096"
definition maxWorkerCommandCumulativeBytes :: nat where "maxWorkerCommandCumulativeBytes = 256 * 2 ^ 10"

definition validateWorkerConfigBounds :: "(string \<Rightarrow> string) \<Rightarrow> workerConfig \<Rightarrow> gerr option" where
  "validateWorkerConfigBounds getenv cfg =
     (let keyValues = wc_api_key cfg #
            (if wc_api_key_set cfg then [] else [getenv ''LLM_API_KEY'', getenv ''DEEPSEEK_API_KEY''])
      in if list_ex (\<lambda>v. length v > maxWorkerKeyBytes) keyValues then Some (Msg ''oversize key'')
         else if list_ex (\<lambda>v. length v > maxWorkerIDBytes) [wc_user cfg, wc_project cfg, wc_execution cfg, wc_bucket cfg]
         then Some (Msg ''oversize id'')
         else if wc_cloud cfg \<and> \<not> validPipelineExecutionID (wc_execution cfg) then Some (Msg ''invalid execution id'')
         else if list_ex (\<lambda>v. length v > maxWorkerPathBytes) [wc_vault cfg, wc_workspace_dir cfg, wc_data_dir cfg]
         then Some (Msg ''oversize path'') else None)"

definition validateSyntoCommandBatch :: "string list list \<Rightarrow> gerr option" where
  "validateSyntoCommandBatch commands =
     (case commands of
        [c] \<Rightarrow>
          (if length c < 1 \<or> c ! 0 \<noteq> ''run'' then Some (Msg ''only one Synto run command is allowed'')
           else if length c = 1 then None
           else if length c = 2 \<and> c ! 1 = ''--auto-approve'' then None
           else Some (Msg ''unsafe Synto command or flag''))
      | _ \<Rightarrow> Some (Msg ''only one Synto run command is allowed''))"

definition check_command :: "string list \<Rightarrow> gerr option" where
  "check_command c =
     (if length c = 0 \<or> length c > maxWorkerArgs then Some (Msg ''oversize command'')
      else if list_ex (\<lambda>a. length a = 0 \<or> length a > maxWorkerArgBytes) c then Some (Msg ''oversize command argument'')
      else None)"

fun cumulative_bytes :: "int \<Rightarrow> string list \<Rightarrow> gerr option" where
  "cumulative_bytes sum_so_far [] = None"
| "cumulative_bytes sum_so_far (a # as) =
     (if sum_so_far > int maxWorkerCommandCumulativeBytes - int (length a) then Some (Msg ''oversize command batch'')
      else cumulative_bytes (sum_so_far + int (length a)) as)"

definition validateWorkerInput :: "(string \<Rightarrow> string) \<Rightarrow> workerConfig \<Rightarrow> string list list \<Rightarrow> gerr option" where
  "validateWorkerInput getenv cfg commands =
     (case validateWorkerConfigBounds getenv cfg of
        Some e \<Rightarrow> Some e
      | None \<Rightarrow>
          (if length commands = 0 \<or> length commands > maxWorkerCommands then Some (Msg ''oversize command batch'')
           else (case validateSyntoCommandBatch commands of
                   Some e \<Rightarrow> Some e
                 | None \<Rightarrow>
                     (case find (\<lambda>c. check_command c \<noteq> None) commands of
                        Some c \<Rightarrow> check_command c
                      | None \<Rightarrow> cumulative_bytes 0 (concat commands)))))"

definition startsWithFullOLWRun :: "string list list \<Rightarrow> bool" where
  "startsWithFullOLWRun commands \<longleftrightarrow> (case commands of [c] \<Rightarrow> length c \<ge> 1 \<and> c ! 0 = ''run'' | _ \<Rightarrow> False)"

section \<open>The surroundings of a run\<close>

text \<open>
  \<open>rn_ctx\<close> is the error of the context, \<open>rn_mkdir\<close> that of creating the private directory. The
  functions on the workspace return their error and the workspace they leave: \<open>rn_pipeline\<close> runs
  the child process. \<open>rn_event\<close> is the redacted log record of a failure.
\<close>

record 'w runEnv =
  rn_lease :: "'w leaseEnv"
  rn_publish :: "'w publishEnv"
  rn_receipts :: "'w receiptEnv"
  rn_diagnostic :: diagnosticCodec
  rn_unmarshal :: "string \<Rightarrow> json option"
  rn_ctx :: "sentinel option"
  rn_mkdir :: "gerr option"
  rn_startup :: string
  rn_event :: "gerr \<Rightarrow> string"
  rn_secrets :: "string list"
  rn_prior :: "workspace \<Rightarrow> sourceSnapshot list \<Rightarrow> gerr + conceptSnapshot list"
  rn_pipeline :: "workspace \<Rightarrow> gerr option \<times> workspace"
  rn_sources :: "sourceSnapshot list \<Rightarrow> workspace \<Rightarrow> gerr option \<times> workspace"
  rn_concepts :: "conceptSnapshot list \<Rightarrow> sourceSnapshot list \<Rightarrow> workspace \<Rightarrow> gerr option \<times> workspace"
  rn_suggest :: "workspace \<Rightarrow> gerr option \<times> workspace"
  rn_walk :: "workspace \<Rightarrow> walkEntry list"

abbreviation rn_store :: "'w runEnv \<Rightarrow> 'w objectStore" where
  "rn_store env \<equiv> ce_store (rn_publish env)"

definition worker_failure :: "sentinel option \<Rightarrow> string \<Rightarrow> string \<Rightarrow> gerr \<Rightarrow> gerr" where
  "worker_failure ctx stage cls e = (case newWorkerFailure ctx stage cls '''' (Some e) of Some f \<Rightarrow> f | None \<Rightarrow> e)"

definition preserved_failure :: "string \<Rightarrow> string \<Rightarrow> gerr \<Rightarrow> gerr" where
  "preserved_failure stage cls e = (case preserveWorkerFailure (Some e) stage cls of Some f \<Rightarrow> f | None \<Rightarrow> e)"

section \<open>Recording a failure\<close>

definition localLogPath :: "string \<Rightarrow> string" where
  "localLogPath ex = ''cache/pipeline-'' @ trim_space ex @ ''.log''"

text \<open>\<open>appendWorkerFailurePipelineLogLocked\<close>: the record is appended to the log in the workspace, once.\<close>

definition appendWorkerFailurePipelineLog ::
  "'w runEnv \<Rightarrow> string \<Rightarrow> workspace \<Rightarrow> gerr \<Rightarrow> gerr + workspace" where
  "appendWorkerFailurePipelineLog env ex ws failure =
     (if \<not> validPipelineExecutionID ex then Inl (Msg ''unsafe execution id'')
      else (case readRegularFileWithin ws (localLogPath ex) of
              FileError e \<Rightarrow> Inl e
            | found \<Rightarrow>
                (let data = (case found of FileContents d \<Rightarrow> take (maxPipelineLog + 1) d | _ \<Rightarrow> '''')
                 in if hasWorkerFailureEvent (rn_unmarshal env) data then Inr ws
                    else (case workerFailurePipelineLogData data (found \<noteq> FileMissing) (rn_startup env) (rn_event env failure) of
                            Inl e \<Rightarrow> Inl e
                          | Inr data' \<Rightarrow> writeCloudFile (ce_osf (rn_publish env)) ws (localLogPath ex) data'))))"

definition local_log :: "workspace \<Rightarrow> string \<Rightarrow> gerr + string option" where
  "local_log ws ex =
     (case readRegularFileWithin ws (localLogPath ex) of
        FileMissing \<Rightarrow> Inr None
      | FileError e \<Rightarrow> Inl e
      | FileContents d \<Rightarrow> Inr (Some d))"

text \<open>\<open>recordCloudFailurePipelineLog\<close>; its error is only warned about. There is no workspace for \<open>None\<close>.\<close>

definition record_failure_log :: "'w runEnv \<Rightarrow> string \<Rightarrow> string \<Rightarrow> workspace option \<Rightarrow> gerr \<Rightarrow> 'w \<Rightarrow> 'w" where
  "record_failure_log env prefix ex wso failure w =
     (case wso of
        None \<Rightarrow>
          snd (recordCloudFailurePipelineLog (rn_store env) (rn_unmarshal env) prefix ex (rn_startup env) (rn_event env failure) w)
      | Some ws \<Rightarrow>
          (case appendWorkerFailurePipelineLog env ex ws failure of
             Inl e \<Rightarrow> w
           | Inr ws' \<Rightarrow> snd (writeCloudPipelineLog (rn_store env) prefix ex (local_log ws' ex) w)))"

definition write_diagnostic :: "'w runEnv \<Rightarrow> string \<Rightarrow> string \<Rightarrow> gerr \<Rightarrow> 'w \<Rightarrow> gerr option \<times> 'w" where
  "write_diagnostic env prefix ex failure w =
     writeCloudFailureDiagnosticWithContext (rn_diagnostic env) (rn_store env) prefix ex (rn_secrets env) (Some failure) w"

definition writeCloudFailureReceipts ::
  "'w runEnv \<Rightarrow> string \<Rightarrow> string \<Rightarrow> workspace option \<Rightarrow> sourceSnapshot list \<Rightarrow> gerr \<Rightarrow> 'w \<Rightarrow> gerr option \<times> 'w" where
  "writeCloudFailureReceipts env prefix ex wso ss failure w =
     (case mergeCloudFailure (rn_receipts env) prefix ss (record_failure_log env prefix ex wso failure w) of
        (statusErr, w2) \<Rightarrow>
          (case write_diagnostic env prefix ex failure w2 of
             (diagnosticErr, w3) \<Rightarrow>
               (if statusErr = None \<and> diagnosticErr = None then (None, w3)
                else (Some (RecordingError False (statusErr \<noteq> None) (diagnosticErr \<noteq> None)), w3))))"

definition writeCloudFailureLogAndDiagnostic ::
  "'w runEnv \<Rightarrow> string \<Rightarrow> string \<Rightarrow> workspace option \<Rightarrow> gerr \<Rightarrow> 'w \<Rightarrow> gerr option \<times> 'w" where
  "writeCloudFailureLogAndDiagnostic env prefix ex wso failure w =
     (case write_diagnostic env prefix ex failure (record_failure_log env prefix ex wso failure w) of
        (None, w') \<Rightarrow> (None, w')
      | (Some e, w') \<Rightarrow> (Some (RecordingError False False True), w'))"

definition recordCloudAmbiguousManifestFailure ::
  "'w runEnv \<Rightarrow> string \<Rightarrow> string \<Rightarrow> workspace \<Rightarrow> 'w \<Rightarrow> gerr option \<times> 'w" where
  "recordCloudAmbiguousManifestFailure env prefix ex ws w =
     writeCloudFailureLogAndDiagnostic env prefix ex (Some ws)
       (worker_failure None ''generation_publish'' ''io'' (Sentinel errManifestCommitOutcomeUnknown)) w"

text \<open>The shape every failure before the commit has: record it, and join what could not be recorded.\<close>

definition fail_run ::
  "'w runEnv \<Rightarrow> string \<Rightarrow> string \<Rightarrow> workspace option \<Rightarrow> sourceSnapshot list \<Rightarrow> gerr \<Rightarrow> gerr \<Rightarrow> 'w \<Rightarrow> (gerr option \<times> bool) \<times> 'w" where
  "fail_run env prefix ex wso ss primary failure w =
     (case writeCloudFailureReceipts env prefix ex wso ss failure w of
        (None, w') \<Rightarrow> ((Some primary, False), w')
      | (Some recordErr, w') \<Rightarrow> ((Some (Joined [primary, recordErr]), False), w'))"

section \<open>Publishing and recording the success\<close>

definition writeCloudReceipts ::
  "'w runEnv \<Rightarrow> string \<Rightarrow> string \<Rightarrow> workspace \<Rightarrow> sourceSnapshot list \<Rightarrow> 'w \<Rightarrow> gerr option \<times> 'w" where
  "writeCloudReceipts env prefix ex ws ss w =
     mergeCloudSuccess (rn_receipts env) prefix ss
       (snd (writeCloudPipelineLog (rn_store env) prefix ex (local_log ws ex) w))"

definition record_success ::
  "'w runEnv \<Rightarrow> string \<Rightarrow> string \<Rightarrow> workspace \<Rightarrow> sourceSnapshot list \<Rightarrow> 'w \<Rightarrow> gerr option \<times> 'w" where
  "record_success env prefix ex ws ss w =
     (case writeCloudReceipts env prefix ex ws ss w of
        (None, w1) \<Rightarrow> (None, w1)
      | (Some e, w1) \<Rightarrow>
          (let failure = preserved_failure ''receipt_recording'' ''recording_failure'' e
           in case writeCloudFailureLogAndDiagnostic env prefix ex (Some ws) failure w1 of
                (None, w2) \<Rightarrow> (Some (annotate errCloudCommittedReceipt failure), w2)
              | (Some _, w2) \<Rightarrow>
                  (Some (Joined [annotate errCloudCommittedReceipt failure, RecordingError False False True]), w2)))"

text \<open>The result with the \<open>committed\<close> flag of the deferred clean-up.\<close>

definition publish_run ::
  "'w runEnv \<Rightarrow> string \<Rightarrow> string \<Rightarrow> workspace \<Rightarrow> sourceSnapshot list \<Rightarrow> string \<Rightarrow> objectAttrs \<Rightarrow> bool \<Rightarrow> 'w
   \<Rightarrow> (gerr option \<times> bool) \<times> 'w" where
  "publish_run env prefix ex ws ss manifestData manifestAttrs oldExists w =
     (case publishCloudGenerationFromStart (rn_publish env) prefix (rn_walk env ws) ws ss manifestData manifestAttrs oldExists w of
        (Inl e, w1) \<Rightarrow>
          (if errors_is e errManifestCommitOutcomeUnknown
           then (case recordCloudAmbiguousManifestFailure env prefix ex ws w1 of
                   (None, w2) \<Rightarrow> ((Some (Sentinel errManifestCommitOutcomeUnknown), False), w2)
                 | (Some recordErr, w2) \<Rightarrow>
                     ((Some (Joined [Sentinel errManifestCommitOutcomeUnknown, recordErr]), False), w2))
           else (let failure = preserved_failure ''generation_publish''
                       (if errors_is e errObjectGenerationConflict then ''publish_conflict'' else ''io'') e
                 in fail_run env prefix ex (Some ws) ss (annotate errCloudPipelinePublish failure) failure w1))
      | (Inr _, w1) \<Rightarrow>
          (case record_success env prefix ex ws ss w1 of (r, w2) \<Rightarrow> ((r, True), w2)))"

section \<open>The two kinds of run\<close>

text \<open>
  \<open>materializeSnapshots\<close>: the raw files with their annotations, for the child process. The file is
  written under another name and renamed, so it is there as a whole or not at all; the result is the
  error and the workspace it leaves.
\<close>

definition writeFileAtomicWithin :: "(string \<Rightarrow> gerr option) \<Rightarrow> workspace \<Rightarrow> string \<Rightarrow> string \<Rightarrow> gerr option \<times> workspace" where
  "writeFileAtomicWithin osf ws rel data =
     (case writeCloudFile osf ws rel data of Inl e \<Rightarrow> (Some e, ws) | Inr ws' \<Rightarrow> (None, ws'))"

fun materializeSnapshots :: "(string \<Rightarrow> gerr option) \<Rightarrow> workspace \<Rightarrow> sourceSnapshot list \<Rightarrow> gerr option \<times> workspace" where
  "materializeSnapshots osf ws [] = (None, ws)"
| "materializeSnapshots osf ws (s # ss) =
     (if ss_tombstone s then materializeSnapshots osf ws ss
      else (case writeFileAtomicWithin osf ws (ss_raw_path s) (materializedSourceBytes s) of
              (Some e, ws') \<Rightarrow> (Some (Wrapped ''materialize'' e), ws')
            | (None, ws') \<Rightarrow> materializeSnapshots osf ws' ss))"

text \<open>A failure of a stage after the materialization, preserved under the public error.\<close>

definition fail_stage ::
  "'w runEnv \<Rightarrow> string \<Rightarrow> string \<Rightarrow> workspace \<Rightarrow> sourceSnapshot list \<Rightarrow> sentinel \<Rightarrow> string \<Rightarrow> gerr \<Rightarrow> 'w
   \<Rightarrow> (gerr option \<times> bool) \<times> 'w" where
  "fail_stage env prefix ex ws ss public stage e w =
     (let failure = preserved_failure stage ''unknown'' e
      in fail_run env prefix ex (Some ws) ss (annotate public failure) failure w)"

definition no_workspace ::
  "'w runEnv \<Rightarrow> string \<Rightarrow> string \<Rightarrow> gerr \<Rightarrow> 'w \<Rightarrow> (gerr option \<times> bool) \<times> 'w" where
  "no_workspace env prefix ex e w =
     fail_run env prefix ex None [] (annotate errCloudWorkspaceUnavailable e)
       (worker_failure (rn_ctx env) ''input_materialization'' ''io'' e) w"

definition worker_stages ::
  "'w runEnv \<Rightarrow> string \<Rightarrow> string \<Rightarrow> materialized \<Rightarrow> workspace \<Rightarrow> 'w \<Rightarrow> (gerr option \<times> bool) \<times> 'w" where
  "worker_stages env prefix ex mt ws w =
     (let ss = mt_snapshots mt in
      case rn_prior env ws ss of
        Inl e \<Rightarrow> fail_stage env prefix ex ws ss errCloudMaterialization ''input_materialization'' e w
      | Inr prior \<Rightarrow>
          (case materializeSnapshots (ce_osf (rn_publish env)) ws ss of
             (Some e, ws1) \<Rightarrow> fail_stage env prefix ex ws1 ss errCloudMaterialization ''input_materialization'' e w
           | (None, ws1) \<Rightarrow>
               (case rn_pipeline env ws1 of
                  (Some e, ws2) \<Rightarrow> fail_stage env prefix ex ws2 ss errCloudPipelineExecution ''synto_run'' e w
                | (None, ws2) \<Rightarrow>
                    (case rn_sources env ss ws2 of
                       (Some e, ws3) \<Rightarrow> fail_stage env prefix ex ws3 ss errCloudPipelinePublish ''source_reconciliation'' e w
                     | (None, ws3) \<Rightarrow>
                         (case rn_concepts env prior ss ws3 of
                            (Some e, ws4) \<Rightarrow>
                              fail_stage env prefix ex ws4 ss errCloudPipelinePublish ''concept_reconciliation'' e w
                          | (None, ws4) \<Rightarrow>
                              publish_run env prefix ex ws4 ss (mt_manifest mt) (mt_attrs mt)
                                (a_generation (mt_attrs mt) > 0) w)))))"

definition suggest_stages ::
  "'w runEnv \<Rightarrow> string \<Rightarrow> string \<Rightarrow> materialized \<Rightarrow> workspace \<Rightarrow> 'w \<Rightarrow> (gerr option \<times> bool) \<times> 'w" where
  "suggest_stages env prefix ex mt ws w =
     (let ss = mt_snapshots mt in
      if a_generation (mt_attrs mt) \<le> 0 \<or> length (mt_manifest mt) = 0
      then (let failure = worker_failure (rn_ctx env) ''input_materialization'' ''state_invalid''
                  (Msg ''suggested-queries requires a committed generation'')
            in fail_run env prefix ex (Some ws) ss (annotate errCloudMaterialization failure) failure w)
      else (case rn_suggest env ws of
              (Some e, ws1) \<Rightarrow> fail_stage env prefix ex ws1 ss errCloudPipelineExecution ''postprocess'' e w
            | (None, ws1) \<Rightarrow> publish_run env prefix ex ws1 ss (mt_manifest mt) (mt_attrs mt) True w))"

text \<open>What happens under the lease: an empty private workspace, its materialization, the stages.\<close>

definition leased_run ::
  "'w runEnv \<Rightarrow> string \<Rightarrow> string \<Rightarrow> bool
   \<Rightarrow> (materialized \<Rightarrow> workspace \<Rightarrow> 'w \<Rightarrow> (gerr option \<times> bool) \<times> 'w) \<Rightarrow> 'w \<Rightarrow> (gerr option \<times> bool) \<times> 'w" where
  "leased_run env prefix ex cleanRebuild stages w =
     (case rn_mkdir env of
        Some e \<Rightarrow> no_workspace env prefix ex e w
      | None \<Rightarrow>
          (case materializeCloudWorkspace (cloudEnv.truncate (rn_publish env)) prefix cleanRebuild [] w of
             (mt, ws, b, w1) \<Rightarrow>
               (case mt_error mt of
                  Some e \<Rightarrow>
                    fail_stage env prefix ex ws (mt_snapshots mt) errCloudMaterialization ''input_materialization'' e w1
                | None \<Rightarrow> stages mt ws w1)))"

text \<open>The lease around a run; a failed release is reported only when nothing else is.\<close>

definition with_lease ::
  "'w runEnv \<Rightarrow> string \<Rightarrow> string \<Rightarrow> ('w \<Rightarrow> (gerr option \<times> bool) \<times> 'w) \<Rightarrow> 'w \<Rightarrow> gerr option \<times> 'w" where
  "with_lease env prefix ex body w =
     (case acquireCloudLease (rn_lease env) prefix ex w of
        (Inl e, w1) \<Rightarrow> (Some (annotate errCloudLeaseUnavailable e), w1)
      | (Inr lease, w1) \<Rightarrow>
          (case body w1 of
             ((res, committed'), w2) \<Rightarrow>
               (case Release (rn_store env) lease w2 of
                  (None, w3) \<Rightarrow> (res, w3)
                | (Some cleanupErr, w3) \<Rightarrow>
                    (if res \<noteq> None then (res, w3)
                     else if \<not> committed' then (Some cleanupErr, w3)
                     else (let failure = worker_failure None ''lease_cleanup'' ''io'' cleanupErr
                           in case writeCloudFailureLogAndDiagnostic env prefix ex None failure w3 of
                                (None, w4) \<Rightarrow> (Some (annotate errCloudCommittedCleanup cleanupErr), w4)
                              | (Some _, w4) \<Rightarrow>
                                  (Some (Joined [annotate errCloudCommittedCleanup cleanupErr, RecordingError False False True]), w4))))))"

definition project_prefix :: "workerConfig \<Rightarrow> string" where
  "project_prefix cfg = ''users/'' @ wc_user cfg @ ''/projects/'' @ wc_project cfg @ ''/''"

definition runCloudWorkerBatch :: "'w runEnv \<Rightarrow> workerConfig \<Rightarrow> string list list \<Rightarrow> 'w \<Rightarrow> gerr option \<times> 'w" where
  "runCloudWorkerBatch env cfg0 commands w =
     (let cfg = cfg0\<lparr>wc_cloud := True\<rparr> in
      case validateWorkerInput (le_getenv (rn_lease env)) cfg commands of
        Some e \<Rightarrow> (Some (annotate errCloudWorkerInputInvalid e), w)
      | None \<Rightarrow>
          (if wc_bucket cfg = '''' \<or> wc_user cfg = '''' \<or> wc_project cfg = '''' \<or> \<not> wc_postprocess cfg \<or>
              \<not> startsWithFullOLWRun commands
           then (Some (Sentinel errCloudWorkerConfigInvalid), w)
           else with_lease env (project_prefix cfg) (wc_execution cfg)
                  (leased_run env (project_prefix cfg) (wc_execution cfg) (wc_clean_rebuild cfg)
                     (worker_stages env (project_prefix cfg) (wc_execution cfg))) w))"

definition runCloudSuggestedQueries :: "'w runEnv \<Rightarrow> workerConfig \<Rightarrow> 'w \<Rightarrow> gerr option \<times> 'w" where
  "runCloudSuggestedQueries env cfg0 w =
     (let cfg = cfg0\<lparr>wc_cloud := True\<rparr> in
      if wc_bucket cfg = '''' \<or> wc_user cfg = '''' \<or> wc_project cfg = ''''
      then (Some (Sentinel errCloudWorkerConfigInvalid), w)
      else (case validateWorkerConfigBounds (le_getenv (rn_lease env)) cfg of
              Some e \<Rightarrow> (Some (annotate errCloudWorkerInputInvalid e), w)
            | None \<Rightarrow>
                with_lease env (project_prefix cfg) (wc_execution cfg)
                  (leased_run env (project_prefix cfg) (wc_execution cfg) False
                     (suggest_stages env (project_prefix cfg) (wc_execution cfg))) w))"

end
