(* ===== verification/RunFrame.thy ===== *)
theory RunFrame
  imports CloudRun
begin

text \<open>
  What a run of the cloud worker does to the object store: which objects each of its steps can
  touch, and what the result of the run says about the committed generation and the lease. The
  laws of the store are those of \<open>object_store\<close>, with a frame law for listings.
\<close>

section \<open>Which objects a step touches\<close>

definition touches :: "('w \<Rightarrow> bool) \<Rightarrow> ('w \<Rightarrow> contents) \<Rightarrow> string set \<Rightarrow> 'w \<Rightarrow> 'w \<Rightarrow> bool" where
  "touches good obj N w w' \<longleftrightarrow> (good w \<longrightarrow> good w' \<and> (\<forall>n. n \<notin> N \<longrightarrow> obj w' n = obj w n))"

lemma touches_refl [simp]: "touches good obj N w w"
  by (simp add: touches_def)

lemma touches_trans [trans]: "touches good obj N a b \<Longrightarrow> touches good obj N b c \<Longrightarrow> touches good obj N a c"
  by (simp add: touches_def)

lemma touches_mono: "touches good obj {} w w' \<Longrightarrow> touches good obj N w w'"
  by (simp add: touches_def)

lemma touches_inv: "touches good obj N w w' \<Longrightarrow> good w \<Longrightarrow> good w'"
  by (simp add: touches_def)

lemma touches_other: "touches good obj N w w' \<Longrightarrow> good w \<Longrightarrow> n \<notin> N \<Longrightarrow> obj w' n = obj w n"
  by (simp add: touches_def)

text \<open>The objects a run writes beside the generation: lease, receipts, log and diagnostic.\<close>

definition run_names :: "string \<Rightarrow> string \<Rightarrow> string set" where
  "run_names prefix ex =
     {prefix @ LeasePath, prefix @ sourcestatus_Path, pipelineLogName prefix ex, diagnosticName prefix ex}"

lemmas run_paths = run_names_def LeasePath_def ManifestPath_def GenPrefix_def sourcestatus_Path_def
  pipelineLogName_def diagnosticName_def

lemma manifest_not_run_name: "prefix @ ManifestPath \<notin> run_names prefix ex"
  by (simp add: run_paths)

lemma generation_not_run_name: "generation_dir prefix i @ p \<notin> run_names prefix ex"
  by (simp add: run_paths generation_dir_def)

section \<open>The run over a lawful store\<close>

locale run_world = object_store st obj inv known
  for st :: "'w objectStore" and obj :: "'w \<Rightarrow> contents" and inv :: "'w \<Rightarrow> bool" and known :: "'w \<Rightarrow> int \<Rightarrow> bool" +
  fixes env :: "'w runEnv"
  assumes run_stores: "rn_store env = st \<and> le_store (rn_lease env) = st \<and> re_store (rn_receipts env) = st"
    and list_frame: "inv w \<Longrightarrow> st_list st p k w = (attrs, w') \<Longrightarrow> inv w' \<and> obj w' = obj w"
    and run_probe_frame: "inv w \<Longrightarrow> le_probe (rn_lease env) e j w = (s, w') \<Longrightarrow>
      inv w' \<and> obj w' = obj w \<and> (\<forall>i. known w i \<longrightarrow> known w' i)"

sublocale run_world \<subseteq> leases: lease_world st obj inv known "rn_lease env"
  using run_stores run_probe_frame by unfold_locales auto

sublocale run_world \<subseteq> merges: receipt_world st obj inv known "rn_receipts env"
  using run_stores by unfold_locales simp

context run_world
begin

lemma read_touches: "st_read st n g k w = (r, w') \<Longrightarrow> touches inv obj N w w'"
  using read_frame by (fastforce simp: touches_def)

lemma list_touches: "st_list st n k w = (r, w') \<Longrightarrow> touches inv obj N w w'"
  using list_frame by (fastforce simp: touches_def)

lemma write_touches: "st_write st n d md c w = (r, w') \<Longrightarrow> n \<in> N \<Longrightarrow> touches inv obj N w w'"
  unfolding touches_def using write_inv write_other by metis

lemma delete_touches: "st_delete st n g w = (r, w') \<Longrightarrow> n \<in> N \<Longrightarrow> touches inv obj N w w'"
  unfolding touches_def using delete_inv delete_other by metis

section \<open>The materialization only reads\<close>

lemma read_object_touches:
  "readCloudMaterializedObject st n g sz b w = (r, b', w') \<Longrightarrow> touches inv obj N w w'"
  by (auto simp: readCloudMaterializedObject_def Let_def split: sum.splits prod.splits if_splits intro: read_touches)

lemma copy_objects_touches:
  "copy_objects st osf prefix op keep as s = (e, s') \<Longrightarrow> touches inv obj N (snd (snd s)) (snd (snd s'))"
proof (induction as arbitrary: s)
  case (Cons a as)
  obtain ws b w where s: "s = (ws, b, w)" by (cases s)
  obtain r b1 w1 where rd: "readCloudMaterializedObject st (a_name a) 0 (a_size a) b w = (r, b1, w1)"
    by (metis prod_cases3)
  note t = read_object_touches [OF rd, of N]
  have rest: "touches inv obj N w (snd (snd s'))" if "copy_objects st osf prefix op keep as (ws', b1, w1) = (e, s')" for ws'
    using touches_trans [OF t] Cons.IH [OF that] by simp
  have skip: "touches inv obj N w (snd (snd s'))" if "copy_objects st osf prefix op keep as (ws, b, w) = (e, s')"
    using Cons.IH [OF that] by simp
  show ?case
    using Cons.prems rd s t by (auto simp: Let_def split: if_splits sum.splits dest: rest skip)
qed simp

lemma objects_touches:
  assumes "materializeCloudObjects st osf prefix op keep s = (e, s')"
  shows "touches inv obj N (snd (snd s)) (snd (snd s'))"
proof -
  obtain ws b w where s: "s = (ws, b, w)" by (cases s)
  obtain r w1 where ls: "st_list st (prefix @ op) (int MaxFiles - int (bd_objects b)) w = (r, w1)" by fastforce
  show ?thesis
    using assms s ls list_touches [OF ls] copy_objects_touches [of osf prefix op keep _ "(ws, b, w1)" e s' N]
    by (auto simp: materializeCloudObjects_def split: sum.splits intro: touches_trans)
qed

lemma legacy_objects_touches:
  "ce_store cenv = st \<Longrightarrow> legacy_objects cenv prefix gs s = (e, s') \<Longrightarrow>
     touches inv obj N (snd (snd s)) (snd (snd s'))"
proof (induction gs arbitrary: s)
  case (Cons g gs)
  obtain p keep where g: "g = (p, keep)" by (cases g)
  obtain e1 s1 where m: "materializeCloudObjects st (ce_osf cenv) prefix p keep s = (e1, s1)"
    by (metis surj_pair)
  show ?case
    using Cons.prems Cons.IH [of s1] g m objects_touches [OF m, of N]
    by (auto split: option.splits intro: touches_trans)
qed simp

lemma legacy_configs_touches:
  "ce_store cenv = st \<Longrightarrow> legacy_configs cenv prefix cs s = (e, s') \<Longrightarrow>
     touches inv obj N (snd (snd s)) (snd (snd s'))"
proof (induction cs arbitrary: s)
  case (Cons c cs)
  obtain ws b w where s: "s = (ws, b, w)" by (cases s)
  obtain r w1 where rd: "st_read st (prefix @ c) 0 MaxFileBytes w = (r, w1)" by fastforce
  have rest: "touches inv obj N w (snd (snd s'))" if "legacy_configs cenv prefix cs (ws', b', w1) = (e, s')" for ws' b'
    using touches_trans [OF read_touches [OF rd]] Cons.IH [OF Cons.prems(1) that] by simp
  show ?case
    using Cons.prems s rd read_touches [OF rd, of N] by (auto split: sum.splits if_splits prod.splits dest: rest)
qed simp

lemma legacy_touches:
  assumes store: "ce_store cenv = st" and m: "materializeLegacyCloudOutputs cenv prefix s = (e, s')"
  shows "touches inv obj N (snd (snd s)) (snd (snd s'))"
proof -
  obtain e1 s1 where o1: "legacy_objects cenv prefix legacy_groups s = (e1, s1)" by (metis surj_pair)
  obtain e2 s2 where o2: "legacy_configs cenv prefix [''wiki.toml'', ''synto.toml''] s1 = (e2, s2)" by (metis surj_pair)
  have "s' = s1 \<or> s' = s2"
    using m o1 o2 by (auto simp: materializeLegacyCloudOutputs_def simp del: legacy_configs.simps split: option.splits)
  then show ?thesis
    using legacy_objects_touches [OF store o1, of N] legacy_configs_touches [OF store o2, of N]
    by (auto intro: touches_trans)
qed

lemma copy_generation_touches:
  "ce_store cenv = st \<Longrightarrow> copy_generation cenv prefix m fs s = (e, s') \<Longrightarrow>
     touches inv obj N (snd (snd s)) (snd (snd s'))"
proof (induction fs arbitrary: s)
  case (Cons f fs)
  obtain ws b w where s: "s = (ws, b, w)" by (cases s)
  obtain r b1 w1 where rd: "readCloudMaterializedObject st (prefix @ ObjectPath m f) (f_generation f) (f_size f) b w = (r, b1, w1)"
    by (metis prod_cases3)
  have rest: "touches inv obj N w (snd (snd s'))" if "copy_generation cenv prefix m fs (ws', b1, w1) = (e, s')" for ws'
    using touches_trans [OF read_object_touches [OF rd]] Cons.IH [OF Cons.prems(1) that] by simp
  show ?case
    using Cons.prems s rd read_object_touches [OF rd, of N]
    by (auto split: sum.splits if_splits prod.splits dest: rest)
qed simp

lemma canonical_touches:
  assumes "ce_store cenv = st" and "materializeCanonicalCloudInputs cenv prefix s = (e, s')"
  shows "touches inv obj N (snd (snd s)) (snd (snd s'))"
proof -
  obtain e1 s1 where m1: "materializeCloudObjects st (ce_osf cenv) prefix ''raw/'' SafeRawPath s = (e1, s1)"
    by (metis surj_pair)
  obtain e2 ws b w where m2: "materializeCloudObjects st (ce_osf cenv) prefix ''cache/annotations/'' annotation_object s1 = (e2, ws, b, w)"
    by (metis prod_cases4)
  obtain r w1 where rd: "st_read st (prefix @ sourcestatus_Path) 0 MaxFileBytes w = (r, w1)" by fastforce
  note t1 = objects_touches [OF m1, of N] and t2 = objects_touches [OF m2, of N] and t3 = read_touches [OF rd, of N]
  have "snd (snd s') \<in> {snd (snd s1), w, w1}"
    using assms m1 m2 rd
    by (auto simp: materializeCanonicalCloudInputs_def split: option.splits sum.splits if_splits)
  then show ?thesis using t1 t2 t3 by (auto intro: touches_trans)
qed

lemma materialize_touches:
  assumes store: "ce_store cenv = st" and m: "materializeCloudWorkspace cenv prefix clean ws w = (mt, ws', b, w')"
  shows "touches inv obj N w w'"
proof -
  obtain r0 ws0 b0 w0 where c: "materializeCanonicalCloudInputs cenv prefix (ws, empty_budget, w) = (r0, ws0, b0, w0)"
    by (metis prod_cases4)
  obtain r1 w1 where rd: "st_read st (prefix @ ManifestPath) 0 (int MaxManifestBytes) w0 = (r1, w1)" by fastforce
  have t: "touches inv obj N w w0" "touches inv obj N w0 w1"
    using canonical_touches [OF store c, of N] read_touches [OF rd] by simp_all
  have "w' = w0 \<or> w' = w1 \<or> (\<exists>e s. materializeLegacyCloudOutputs cenv prefix (ws0, b0, w1) = (e, s) \<and> w' = snd (snd s))
     \<or> (\<exists>m' e s. copy_generation cenv prefix m' (m_files m') (ws0, b0, w1) = (e, s) \<and> w' = snd (snd s))"
    using m c rd store
    by (auto simp: materializeCloudWorkspace_def Let_def split: sum.splits prod.splits if_splits option.splits)
  then show ?thesis
    using t legacy_touches [OF store, where N = N] copy_generation_touches [OF store, where N = N]
    by (fastforce intro: touches_trans)
qed

section \<open>Lease, receipts, log and diagnostic\<close>

lemma acquire_touches:
  assumes "acquireCloudLease (rn_lease env) prefix ex w = (r, w')" and N: "prefix @ LeasePath \<in> N"
  shows "touches inv obj N w w'"
proof -
  let ?n = "prefix @ LeasePath" and ?h = "trim_space ex"
  have tc: "touches inv obj N v v'" if "tryCreateCloudLease (rn_lease env) ?n ?h v = (q, v')" for v q v'
    unfolding touches_def using leases.tryCreate_frame [OF _ that] N by metis
  have mr: "touches inv obj N v v'" if "maybeReclaimCloudLease (rn_lease env) ?n v = (q, v')" for v q v'
    unfolding touches_def using leases.maybeReclaim_frame [OF _ that] N by metis
  obtain r1 w1 where c1: "tryCreateCloudLease (rn_lease env) ?n ?h w = (r1, w1)" by fastforce
  obtain r2 w2 where c2: "maybeReclaimCloudLease (rn_lease env) ?n w1 = (r2, w2)" by fastforce
  obtain r3 w3 where c3: "tryCreateCloudLease (rn_lease env) ?n ?h w2 = (r3, w3)" by fastforce
  have "w' \<in> {w, w1, w2, w3}"
    using assms(1) c1 c2 c3
    by (auto simp: acquireCloudLease_def Let_def split: if_splits sum.splits reclaim.splits)
  then show ?thesis using tc [OF c1] mr [OF c2] tc [OF c3] by (auto intro: touches_trans)
qed

lemma release_touches:
  assumes "Release st l w = (r, w')" and "cl_name l \<in> N"
  shows "touches inv obj N w w'"
proof -
  have del: "touches inv obj N w v'" if "st_delete st (cl_name l) g v = (q, v')" "touches inv obj N w v" for v q v' g
    using touches_trans [OF that(2) delete_touches [OF that(1) assms(2)]] .
  have loop: "touches inv obj N w v'" if "cleanup_loop k g (\<lambda>g. st_delete st (cl_name l) g) w = (q, v')" for k g q v'
    using cleanup_loop_induct [where P = "touches inv obj N w", OF del _ that] by simp
  show ?thesis
    using assms(1) loop
    by (auto simp: Release_def RetryGenerationCleanup_def split: prod.splits option.splits if_splits)
qed

lemma release_frees:
  assumes "inv w" and "Release st l w = (None, w')"
  shows "obj w' (cl_name l) = None"
proof -
  have loop: "obj v' (cl_name l) = None"
    if "cleanup_loop k g (\<lambda>g. st_delete st (cl_name l) g) v = (None, v')" "inv v" for k g v v'
    using that
  proof (induction k arbitrary: v)
    case (Suc k)
    obtain r v1 where d: "st_delete st (cl_name l) g v = (r, v1)" by fastforce
    show ?case
      using Suc d delete_ok [OF Suc.prems(2)] delete_inv [OF Suc.prems(2) d] by (cases r) auto
  qed simp
  show ?thesis
    using assms loop
    by (auto simp: Release_def RetryGenerationCleanup_def split: prod.splits option.splits if_splits)
qed

lemma merge_touches:
  assumes merge: "\<And>a v a' v'. inv v \<Longrightarrow> merge a v = (a', v') \<Longrightarrow> inv v' \<and> obj v' = obj v"
    and N: "prefix @ sourcestatus_Path \<in> N"
  shows "mergeCloudReceipts n (rn_receipts env) prefix merge w = (r, w') \<Longrightarrow> touches inv obj N w w'"
proof (induction n arbitrary: w)
  case (Suc n)
  obtain r1 w1 where rd: "read_receipts (rn_receipts env) prefix w = (r1, w1)" by fastforce
  obtain q w0 where "st_read st (prefix @ sourcestatus_Path) 0 MaxFileBytes w = (q, w0)" by fastforce
  with rd have t1: "touches inv obj N w w1"
    using read_touches by (auto simp: read_receipts_def merges.env_store split: sum.splits option.splits if_splits)
  show ?case
  proof (cases r1)
    case (Inr ac)
    obtain a c where ac: "ac = (a, c)" by (cases ac)
    obtain a' w2 where m: "merge a w1 = (a', w2)" by fastforce
    have t2: "touches inv obj N w1 w2" using merge [OF _ m] by (simp add: touches_def)
    obtain q w3 where wr: "st_write st (prefix @ sourcestatus_Path) (re_marshal (rn_receipts env) (artifact_to_json a')) [] c w2 = (q, w3)"
      by fastforce
    note t = touches_trans [OF t1 touches_trans [OF t2 write_touches [OF wr N]]]
    have again: "touches inv obj N w w'" if "mergeCloudReceipts n (rn_receipts env) prefix merge w3 = (r, w')"
      using touches_trans [OF t Suc.IH [OF that]] .
    show ?thesis
      using Suc.prems rd Inr ac m wr t by (auto simp: merges.env_store split: sum.splits if_splits dest: again)
  qed (use Suc.prems rd t1 in auto)
qed simp

lemma success_touches:
  "mergeCloudSuccess (rn_receipts env) prefix ss w = (r, w') \<Longrightarrow> prefix @ sourcestatus_Path \<in> N \<Longrightarrow> touches inv obj N w w'"
  unfolding mergeCloudSuccess_def by (rule merge_touches [OF merges.merge_success_frame])

lemma failure_touches:
  "mergeCloudFailure (rn_receipts env) prefix ss w = (r, w') \<Longrightarrow> prefix @ sourcestatus_Path \<in> N \<Longrightarrow> touches inv obj N w w'"
  unfolding mergeCloudFailure_def by (rule merge_touches [OF merges.merge_failure_frame])

lemma write_log_touches:
  "writeCloudPipelineLog st prefix ex l w = (r, w') \<Longrightarrow> pipelineLogName prefix ex \<in> N \<Longrightarrow> touches inv obj N w w'"
  unfolding writeCloudPipelineLog_def
  by (auto simp: Let_def split: if_splits sum.splits prod.splits dest: write_touches)

lemma record_log_touches:
  assumes "recordCloudFailurePipelineLog st un prefix ex su ev w = (r, w')" and N: "pipelineLogName prefix ex \<in> N"
  shows "touches inv obj N w w'"
proof -
  obtain q w1 where rd: "st_read st (pipelineLogName prefix ex) 0 (int maxPipelineLog + 1) w = (q, w1)" by fastforce
  note t = read_touches [OF rd, of N]
  have wr: "touches inv obj N w w2" if "st_write st (pipelineLogName prefix ex) d [] c w1 = (q', w2)" for d c q' w2
    using touches_trans [OF t write_touches [OF that N]] .
  show ?thesis
    using assms(1) rd t
    by (auto simp: recordCloudFailurePipelineLog_def Let_def split: if_splits sum.splits prod.splits dest: wr)
qed

lemma diagnostic_touches:
  assumes "writeCloudFailureDiagnosticWithContext dc st prefix ex secrets failure w = (r, w')"
    and N: "diagnosticName prefix ex \<in> N"
  shows "touches inv obj N w w'"
proof (cases "w' = w")
  case False
  obtain data where data: "marshalFailureDiagnosticMeta (dc_marshal dc) (dc_error_text dc) failure ex secrets = Inr data"
    using assms(1) False by (auto simp: writeCloudFailureDiagnosticWithContext_def split: if_splits sum.splits)
  obtain q w1 where wr: "st_write st (diagnosticName prefix ex) data [] createOnly w = (q, w1)" by fastforce
  obtain q2 w2 where rd: "st_read st (diagnosticName prefix ex) 0 (int maxDiagnosticBytes) w1 = (q2, w2)" by fastforce
  have "w' = w1 \<or> w' = w2"
    using assms(1) False data wr rd
    by (auto simp: writeCloudFailureDiagnosticWithContext_def split: if_splits sum.splits)
  then show ?thesis using write_touches [OF wr N] read_touches [OF rd, of N] by (auto intro: touches_trans)
qed simp

section \<open>Recording an outcome\<close>

lemma run_name_members:
  "prefix @ LeasePath \<in> run_names prefix ex" "prefix @ sourcestatus_Path \<in> run_names prefix ex"
  "pipelineLogName prefix ex \<in> run_names prefix ex" "diagnosticName prefix ex \<in> run_names prefix ex"
  by (simp_all add: run_names_def)

lemma stores [simp]: "rn_store env = st" "le_store (rn_lease env) = st" "re_store (rn_receipts env) = st"
  using run_stores by auto

lemma failure_log_touches: "touches inv obj (run_names prefix ex) w (record_failure_log env prefix ex wso failure w)"
proof (cases wso)
  case None
  then show ?thesis
    using record_log_touches [OF surjective_pairing run_name_members(3)] by (simp add: record_failure_log_def)
next
  case (Some ws)
  then show ?thesis
    using write_log_touches [OF surjective_pairing run_name_members(3)]
    by (simp add: record_failure_log_def split: sum.split)
qed

lemma write_diagnostic_touches:
  "write_diagnostic env prefix ex failure w = (r, w') \<Longrightarrow> touches inv obj (run_names prefix ex) w w'"
  unfolding write_diagnostic_def stores by (erule diagnostic_touches) (rule run_name_members)

lemma failure_receipts_touches:
  assumes "writeCloudFailureReceipts env prefix ex wso ss failure w = (r, w')"
  shows "touches inv obj (run_names prefix ex) w w'"
proof -
  let ?w1 = "record_failure_log env prefix ex wso failure w"
  obtain e2 w2 where m: "mergeCloudFailure (rn_receipts env) prefix ss ?w1 = (e2, w2)" by fastforce
  obtain e3 w3 where d: "write_diagnostic env prefix ex failure w2 = (e3, w3)" by fastforce
  have "w' = w3" using assms m d by (auto simp: writeCloudFailureReceipts_def split: if_splits)
  then show ?thesis
    using touches_trans [OF failure_log_touches touches_trans [OF failure_touches [OF m run_name_members(2)]
          write_diagnostic_touches [OF d]]] by simp
qed

lemma failure_log_and_diagnostic_touches:
  assumes "writeCloudFailureLogAndDiagnostic env prefix ex wso failure w = (r, w')"
  shows "touches inv obj (run_names prefix ex) w w'"
proof -
  obtain e2 w2 where d: "write_diagnostic env prefix ex failure (record_failure_log env prefix ex wso failure w) = (e2, w2)"
    by fastforce
  have "w' = w2" using assms d by (auto simp: writeCloudFailureLogAndDiagnostic_def split: option.splits)
  then show ?thesis using touches_trans [OF failure_log_touches write_diagnostic_touches [OF d]] by simp
qed

lemma fail_run_outcome:
  assumes "fail_run env prefix ex wso ss primary failure w = ((res, c), w')"
  shows "touches inv obj (run_names prefix ex) w w' \<and> res \<noteq> None \<and> \<not> c"
proof -
  obtain e w1 where r: "writeCloudFailureReceipts env prefix ex wso ss failure w = (e, w1)" by fastforce
  show ?thesis using assms r failure_receipts_touches [OF r] by (auto simp: fail_run_def split: option.splits)
qed

lemma record_success_outcome:
  assumes "record_success env prefix ex ws ss w = (res, w')"
  shows "touches inv obj (run_names prefix ex) w w' \<and>
    (\<forall>e. res = Some e \<longrightarrow> errors_is e errCloudCommittedReceipt)"
proof -
  let ?l = "writeCloudPipelineLog st prefix ex (local_log ws ex) w"
  obtain e1 w1 where m: "mergeCloudSuccess (rn_receipts env) prefix ss (snd ?l) = (e1, w1)" by fastforce
  have t1: "touches inv obj (run_names prefix ex) w w1"
    by (rule touches_trans [OF write_log_touches [OF surjective_pairing run_name_members(3)]
          success_touches [OF m run_name_members(2)]])
  have t2: "touches inv obj (run_names prefix ex) w w2"
    if "writeCloudFailureLogAndDiagnostic env prefix ex (Some ws) f w1 = (r, w2)" for f r w2
    using touches_trans [OF t1 failure_log_and_diagnostic_touches [OF that]] .
  show ?thesis
    using assms m t1
    by (auto simp: record_success_def writeCloudReceipts_def Let_def split: option.splits prod.splits dest: t2)
qed
end

section \<open>The outcomes\<close>

text \<open>A generation is in place when its manifest is committed and each of its files is stored.\<close>

definition in_place :: "'w publishEnv \<Rightarrow> string \<Rightarrow> contents \<Rightarrow> bool" where
  "in_place penv prefix ob \<longleftrightarrow>
     (\<exists>m g ws. committed penv prefix m g ob \<and> Validate (rfc3339 (se_codec (ce_sources penv))) m = Inr () \<and>
        list_all (stored_file (se_codec (ce_sources penv)) ws prefix (m_generation_id m) ob) (m_files m))"

text \<open>
  No object is lost or changed but the four of \<open>run_names\<close> and the manifest; what is new lies in the
  directory of a generation.
\<close>

definition only_run_changes :: "string \<Rightarrow> string \<Rightarrow> contents \<Rightarrow> contents \<Rightarrow> bool" where
  "only_run_changes prefix ex ob ob' \<longleftrightarrow>
     (\<forall>n. n \<notin> insert (prefix @ ManifestPath) (run_names prefix ex) \<longrightarrow>
        ob' n = ob n \<or> ob n = None \<and> (\<exists>i. has_prefix n (generation_dir prefix i)))"

text \<open>
  The result of the stages under the lease, with the \<open>committed\<close> flag: it is set exactly when the
  publication returned, no error is swallowed, and the manifest changes only with the flag set or
  with the error that says that nobody knows.
\<close>

definition body_outcome ::
  "'w publishEnv \<Rightarrow> string \<Rightarrow> string \<Rightarrow> contents \<Rightarrow> gerr option \<times> bool \<Rightarrow> contents \<Rightarrow> bool" where
  "body_outcome penv prefix ex ob rc ob' \<longleftrightarrow>
     (case rc of (res, c) \<Rightarrow>
        only_run_changes prefix ex ob ob' \<and>
        (if c then in_place penv prefix ob' \<and> (case res of None \<Rightarrow> True | Some e \<Rightarrow> errors_is e errCloudCommittedReceipt)
         else (case res of
                 None \<Rightarrow> False
               | Some e \<Rightarrow> errors_is e errManifestCommitOutcomeUnknown \<or> ob' (prefix @ ManifestPath) = ob (prefix @ ManifestPath))))"

text \<open>
  The result of a run. Success means that a generation is in place and the lease is released. After
  an error the manifest is the one before, or the error says why that is not so.
\<close>

definition run_outcome :: "'w publishEnv \<Rightarrow> string \<Rightarrow> string \<Rightarrow> contents \<Rightarrow> gerr option \<Rightarrow> contents \<Rightarrow> bool" where
  "run_outcome penv prefix ex ob res ob' \<longleftrightarrow>
     only_run_changes prefix ex ob ob' \<and>
     (case res of
        None \<Rightarrow> in_place penv prefix ob' \<and> ob' (prefix @ LeasePath) = None
      | Some e \<Rightarrow>
          ob' (prefix @ ManifestPath) = ob (prefix @ ManifestPath) \<or> errors_is e errManifestCommitOutcomeUnknown \<or>
          in_place penv prefix ob' \<and> (errors_is e errCloudCommittedReceipt \<or> errors_is e errCloudCommittedCleanup))"

lemma in_place_keeps:
  assumes same: "\<And>n. n \<notin> run_names prefix ex \<Longrightarrow> ob' n = ob n" and "in_place penv prefix ob"
  shows "in_place penv prefix ob'"
proof -
  have mp: "ob' (prefix @ ManifestPath) = ob (prefix @ ManifestPath)" by (rule same [OF manifest_not_run_name])
  have "ob' (generation_dir prefix i @ p) = ob (generation_dir prefix i @ p)" for i p
    by (rule same [OF generation_not_run_name])
  then have "stored_file cd ws prefix i ob' = stored_file cd ws prefix i ob" for cd ws i
    by (simp add: stored_file_def fun_eq_iff)
  then show ?thesis using assms(2) mp by (simp add: in_place_def committed_def)
qed

lemma in_place_touches:
  assumes t: "touches good obj (run_names prefix ex) w w'" and "good w" and p: "in_place penv prefix (obj w)"
  shows "in_place penv prefix (obj w')"
proof (rule in_place_keeps [OF _ p])
  show "obj w' n = obj w n" if "n \<notin> run_names prefix ex" for n using touches_other [OF t assms(2) that] .
qed

lemma only_run_changes_refl: "only_run_changes prefix ex ob ob"
  by (simp add: only_run_changes_def)

lemma only_run_changes_after:
  assumes "only_run_changes prefix ex ob ob1" and "\<And>n. n \<notin> run_names prefix ex \<Longrightarrow> ob' n = ob1 n"
  shows "only_run_changes prefix ex ob ob'"
  using assms unfolding only_run_changes_def by simp

section \<open>The body of a run\<close>

context run_world
begin

lemma failed_body:
  assumes i: "inv w" and o: "touches inv obj (run_names prefix ex) w w' \<and> res \<noteq> None \<and> \<not> c"
  shows "inv w' \<and> body_outcome penv prefix ex (obj w) (res, c) (obj w')"
proof -
  note t = o [THEN conjunct1]
  have "only_run_changes prefix ex (obj w) (obj w')"
    by (rule only_run_changes_after [OF only_run_changes_refl touches_other [OF t i]])
  moreover have "obj w' (prefix @ ManifestPath) = obj w (prefix @ ManifestPath)"
    by (rule touches_other [OF t i manifest_not_run_name])
  ultimately show ?thesis using o touches_inv [OF t i] by (auto simp: body_outcome_def split: option.split)
qed

lemma publish_body:
  assumes i: "inv w" and p: "publish_run env prefix ex ws ss manifestData attrs oldExists w = (rc, w')"
  shows "inv w' \<and> body_outcome (rn_publish env) prefix ex (obj w) rc (obj w')"
proof -
  let ?penv = "rn_publish env" and ?cond = "if oldExists then matchGeneration (a_generation attrs) else createOnly"
  obtain r w1 where pub: "publishCloudGenerationFromStart ?penv prefix (rn_walk env ws) ws ss manifestData attrs oldExists w = (r, w1)"
    by fastforce
  have "inv w1 \<and> (\<exists>files. publish_outcome ?penv prefix ws ss files ?cond (obj w) r (obj w1))"
  proof (cases "preflightGenerationOutputs (ce_sources ?penv) (pe_quick ?penv) (rn_walk env ws) ws")
    case (Inl e)
    with pub have "w1 = w" "\<exists>e. r = Inl e" by (auto simp: publishCloudGenerationFromStart_def)
    then show ?thesis using i by (auto simp: publish_outcome_def)
  next
    case (Inr files)
    with pub have "publishCloudGenerationWithFiles ?penv prefix ws ss files manifestData attrs oldExists w = (r, w1)"
      by (simp add: publishCloudGenerationFromStart_def)
    from publish_ok [OF this i stores(1)] show ?thesis by blast
  qed
  then obtain files where i1: "inv w1" and out: "publish_outcome ?penv prefix ws ss files ?cond (obj w) r (obj w1)"
    by blast
  have only: "only_run_changes prefix ex (obj w) (obj w1)"
    using out unfolding publish_outcome_def only_run_changes_def by (metis insertI1)
  have later: "only_run_changes prefix ex (obj w) (obj v)" if "touches inv obj (run_names prefix ex) w1 v" for v
    using only_run_changes_after [OF only touches_other [OF that i1]] .
  show ?thesis
  proof (cases r)
    case (Inr mg)
    obtain m g where mg: "mg = (m, g)" by (cases mg)
    have place: "in_place ?penv prefix (obj w1)" using out Inr mg unfolding publish_outcome_def in_place_def by auto
    obtain res w2 where rs: "record_success env prefix ex ws ss w1 = (res, w2)" by fastforce
    note o = record_success_outcome [OF rs]
    have "rc = (res, True)" "w' = w2" using p pub Inr rs by (auto simp: publish_run_def)
    moreover have "in_place ?penv prefix (obj w2)"
      by (rule in_place_touches [OF o [THEN conjunct1] i1 place])
    ultimately show ?thesis
      using o later touches_inv [OF o [THEN conjunct1] i1] by (auto simp: body_outcome_def split: option.split)
  next
    case (Inl e)
    show ?thesis
    proof (cases "errors_is e errManifestCommitOutcomeUnknown")
      case True
      obtain q w2 where q: "recordCloudAmbiguousManifestFailure env prefix ex ws w1 = (q, w2)" by fastforce
      have t: "touches inv obj (run_names prefix ex) w1 w2"
        using failure_log_and_diagnostic_touches q unfolding recordCloudAmbiguousManifestFailure_def by blast
      have "w' = w2" "\<exists>e. rc = (Some e, False) \<and> errors_is e errManifestCommitOutcomeUnknown"
        using p pub Inl True q by (auto simp: publish_run_def split: option.splits)
      then show ?thesis using later [OF t] touches_inv [OF t i1] by (auto simp: body_outcome_def)
    next
      case False
      have keep: "obj w1 (prefix @ ManifestPath) = obj w (prefix @ ManifestPath)"
        using out Inl False by (simp add: publish_outcome_def)
      obtain res c where rc: "rc = (res, c)" by (cases rc)
      have "\<exists>primary failure. fail_run env prefix ex (Some ws) ss primary failure w1 = ((res, c), w')"
        using p pub Inl False rc by (auto simp: publish_run_def Let_def)
      then have o: "touches inv obj (run_names prefix ex) w1 w'" "res \<noteq> None" "\<not> c" using fail_run_outcome by blast+
      have "obj w' (prefix @ ManifestPath) = obj w (prefix @ ManifestPath)"
        using touches_other [OF o(1) i1 manifest_not_run_name] keep by simp
      then show ?thesis
        using o(2,3) rc later [OF o(1)] touches_inv [OF o(1) i1]
        by (auto simp: body_outcome_def split: option.split)
    qed
  qed
qed

lemma fail_stage_body:
  assumes "inv w" and "fail_stage env prefix ex ws ss public stage e w = (rc, w')"
  shows "inv w' \<and> body_outcome penv prefix ex (obj w) rc (obj w')"
proof -
  obtain res c where rc: "rc = (res, c)" by (cases rc)
  have "\<exists>primary failure. fail_run env prefix ex (Some ws) ss primary failure w = ((res, c), w')"
    using assms(2) rc by (auto simp: fail_stage_def Let_def)
  then show ?thesis using failed_body [OF assms(1) fail_run_outcome] rc by blast
qed

lemma worker_stages_body:
  assumes i: "inv w" and s: "worker_stages env prefix ex mt ws w = (rc, w')"
  shows "inv w' \<and> body_outcome (rn_publish env) prefix ex (obj w) rc (obj w')"
proof -
  have "(\<exists>ws' public stage e. fail_stage env prefix ex ws' (mt_snapshots mt) public stage e w = (rc, w')) \<or>
    (\<exists>ws' d a x. publish_run env prefix ex ws' (mt_snapshots mt) d a x w = (rc, w'))"
    using s unfolding worker_stages_def Let_def
    by (auto split: sum.splits prod.splits option.splits)
  then show ?thesis using fail_stage_body [OF i] publish_body [OF i] by blast
qed

lemma suggest_stages_body:
  assumes i: "inv w" and s: "suggest_stages env prefix ex mt ws w = (rc, w')"
  shows "inv w' \<and> body_outcome (rn_publish env) prefix ex (obj w) rc (obj w')"
proof -
  obtain res c where rc: "rc = (res, c)" by (cases rc)
  have "(\<exists>primary failure. fail_run env prefix ex (Some ws) (mt_snapshots mt) primary failure w = ((res, c), w')) \<or>
    (\<exists>ws' public stage e. fail_stage env prefix ex ws' (mt_snapshots mt) public stage e w = (rc, w')) \<or>
    (\<exists>ws' d a x. publish_run env prefix ex ws' (mt_snapshots mt) d a x w = (rc, w'))"
    using s rc unfolding suggest_stages_def Let_def
    by (auto split: prod.splits option.splits if_splits)
  then show ?thesis
    unfolding rc using fail_stage_body [OF i] publish_body [OF i] failed_body [OF i fail_run_outcome] by metis
qed

lemma leased_run_body:
  assumes i: "inv w" and s: "leased_run env prefix ex clean stages w = (rc, w')"
    and stages: "\<And>mt ws v rc' v'. inv v \<Longrightarrow> stages mt ws v = (rc', v') \<Longrightarrow>
      inv v' \<and> body_outcome (rn_publish env) prefix ex (obj v) rc' (obj v')"
  shows "inv w' \<and> body_outcome (rn_publish env) prefix ex (obj w) rc (obj w')"
proof (cases "rn_mkdir env")
  case (Some e)
  obtain res c where rc: "rc = (res, c)" by (cases rc)
  have "\<exists>primary failure. fail_run env prefix ex None [] primary failure w = ((res, c), w')"
    using s Some rc by (auto simp: leased_run_def no_workspace_def)
  then show ?thesis using failed_body [OF i fail_run_outcome] rc by blast
next
  case None
  obtain mt ws b w1 where m: "materializeCloudWorkspace (cloudEnv.truncate (rn_publish env)) prefix clean [] w = (mt, ws, b, w1)"
    by (metis prod_cases4)
  have "ce_store (cloudEnv.truncate (rn_publish env)) = st" using stores(1) by (simp add: cloudEnv.truncate_def)
  from materialize_touches [OF this m, of "{}"] have i1: "inv w1" and same: "obj w1 = obj w"
    using i by (auto simp: touches_def)
  have "(\<exists>e. fail_stage env prefix ex ws (mt_snapshots mt) errCloudMaterialization ''input_materialization'' e w1 = (rc, w'))
     \<or> stages mt ws w1 = (rc, w')"
    using s None m by (auto simp: leased_run_def split: option.splits)
  then show ?thesis using fail_stage_body [OF i1] stages [OF i1] same by metis
qed

text \<open>The lease around the body.\<close>

lemma with_lease_run:
  assumes i: "inv w" and s: "with_lease env prefix ex body w = (res, w')"
    and body: "\<And>v rc v'. inv v \<Longrightarrow> body v = (rc, v') \<Longrightarrow>
      inv v' \<and> body_outcome (rn_publish env) prefix ex (obj v) rc (obj v')"
  shows "inv w' \<and> run_outcome (rn_publish env) prefix ex (obj w) res (obj w')"
proof -
  let ?N = "run_names prefix ex" and ?mp = "prefix @ ManifestPath"
  obtain a w1 where acq: "acquireCloudLease (rn_lease env) prefix ex w = (a, w1)" by fastforce
  note t1 = acquire_touches [OF acq run_name_members(1) [of prefix ex]]
  note i1 = touches_inv [OF t1 i] and mp1 = touches_other [OF t1 i manifest_not_run_name]
  have only1: "only_run_changes prefix ex (obj w) (obj w1)"
    by (rule only_run_changes_after [OF only_run_changes_refl touches_other [OF t1 i]])
  show ?thesis
  proof (cases a)
    case (Inl e)
    with s acq have "res \<noteq> None" "w' = w1" by (auto simp: with_lease_def)
    then show ?thesis using i1 mp1 only1 by (auto simp: run_outcome_def)
  next
    case (Inr lease)
    have name: "cl_name lease = prefix @ LeasePath" using leases.acquire_ok [OF i acq [unfolded Inr]] by blast
    obtain r c w2 where b: "body w1 = ((r, c), w2)" by (metis surj_pair)
    note o = body [OF i1 b]
    obtain q w3 where rel: "Release st lease w2 = (q, w3)" by fastforce
    have t3: "touches inv obj ?N w2 w3" by (rule release_touches [OF rel]) (simp add: name run_name_members)
    have final: "inv v \<and> only_run_changes prefix ex (obj w) (obj v) \<and> obj v ?mp = obj w2 ?mp \<and>
        (in_place (rn_publish env) prefix (obj w2) \<longrightarrow> in_place (rn_publish env) prefix (obj v))"
      if t: "touches inv obj ?N w2 v" for v
    proof -
      note i2 = o [THEN conjunct1]
      have "only_run_changes prefix ex (obj w1) (obj w2)" using o by (simp add: body_outcome_def)
      then have "only_run_changes prefix ex (obj w) (obj w2)"
        unfolding only_run_changes_def using touches_other [OF t1 i] by simp
      from only_run_changes_after [OF this touches_other [OF t i2]]
      show ?thesis
        using touches_inv [OF t i2] touches_other [OF t i2 manifest_not_run_name] in_place_touches [OF t i2] by blast
    qed
    show ?thesis
    proof (cases "q = None")
      case True
      have "res = r" "w' = w3" using s acq Inr b rel True by (auto simp: with_lease_def)
      moreover have "obj w3 (prefix @ LeasePath) = None"
        using release_frees [OF o [THEN conjunct1] rel [unfolded True]] name by simp
      ultimately show ?thesis
        using o final [OF t3] mp1 by (auto simp: run_outcome_def body_outcome_def split: option.splits if_splits)
    next
      case False
      then obtain cleanup where q: "q = Some cleanup" by blast
      show ?thesis
      proof (cases "r = None")
        case False
        have "res = r" "w' = w3" using s acq Inr b rel q False by (auto simp: with_lease_def)
        then show ?thesis
          using o False final [OF t3] mp1 by (auto simp: run_outcome_def body_outcome_def split: option.splits if_splits)
      next
        case True
        then have c: c using o by (auto simp: body_outcome_def split: if_splits)
        let ?f = "worker_failure None ''lease_cleanup'' ''io'' cleanup"
        obtain q4 w4 where d: "writeCloudFailureLogAndDiagnostic env prefix ex None ?f w3 = (q4, w4)" by fastforce
        have t4: "touches inv obj ?N w2 w4" by (rule touches_trans [OF t3 failure_log_and_diagnostic_touches [OF d]])
        have "w' = w4" "\<exists>e. res = Some e \<and> errors_is e errCloudCommittedCleanup"
          using s acq Inr b rel q True c d by (auto simp: with_lease_def Let_def split: option.splits)
        moreover have "in_place (rn_publish env) prefix (obj w2)"
          using o c by (simp add: body_outcome_def)
        ultimately show ?thesis using final [OF t4] by (auto simp: run_outcome_def)
      qed
    qed
  qed
qed

lemma run_input_refused:
  "inv w \<Longrightarrow> run_outcome penv prefix ex (obj w) (Some e) (obj w)"
  by (simp add: run_outcome_def only_run_changes_refl)

lemma worker_run:
  assumes i: "inv w" and s: "runCloudWorkerBatch env cfg commands w = (res, w')"
  shows "inv w' \<and> run_outcome (rn_publish env) (project_prefix cfg) (wc_execution cfg) (obj w) res (obj w')"
proof -
  let ?p = "project_prefix cfg" and ?ex = "wc_execution cfg"
  have same: "project_prefix (cfg\<lparr>wc_cloud := True\<rparr>) = ?p" by (simp add: project_prefix_def)
  consider "\<exists>e. res = Some e" "w' = w"
    | "with_lease env ?p ?ex (leased_run env ?p ?ex (wc_clean_rebuild cfg) (worker_stages env ?p ?ex)) w = (res, w')"
    using s unfolding runCloudWorkerBatch_def Let_def same by (auto split: option.splits if_splits)
  then show ?thesis
  proof cases
    case 1
    then show ?thesis using i run_input_refused by auto
  next
    case 2
    show ?thesis by (rule with_lease_run [OF i 2 leased_run_body [OF _ _ worker_stages_body]])
  qed
qed

lemma suggest_run:
  assumes i: "inv w" and s: "runCloudSuggestedQueries env cfg w = (res, w')"
  shows "inv w' \<and> run_outcome (rn_publish env) (project_prefix cfg) (wc_execution cfg) (obj w) res (obj w')"
proof -
  let ?p = "project_prefix cfg" and ?ex = "wc_execution cfg"
  have same: "project_prefix (cfg\<lparr>wc_cloud := True\<rparr>) = ?p" by (simp add: project_prefix_def)
  consider "\<exists>e. res = Some e" "w' = w"
    | "with_lease env ?p ?ex (leased_run env ?p ?ex False (suggest_stages env ?p ?ex)) w = (res, w')"
    using s unfolding runCloudSuggestedQueries_def Let_def same by (auto split: option.splits if_splits)
  then show ?thesis
  proof cases
    case 1
    then show ?thesis using i run_input_refused by auto
  next
    case 2
    show ?thesis by (rule with_lease_run [OF i 2 leased_run_body [OF _ _ suggest_stages_body]])
  qed
qed

end

section \<open>Over the in-memory store\<close>

definition on_memory :: "memoryObjects runEnv \<Rightarrow> memoryObjects runEnv" where
  "on_memory env = env\<lparr>rn_lease := (rn_lease env)\<lparr>le_store := memoryStore, le_probe := \<lambda>e j w. (fst (le_probe (rn_lease env) e j w), w)\<rparr>,
     rn_publish := (rn_publish env)\<lparr>ce_store := memoryStore\<rparr>, rn_receipts := (rn_receipts env)\<lparr>re_store := memoryStore\<rparr>\<rparr>"

interpretation mem_runs: run_world memoryStore mem_obj mem_inv mem_known "on_memory env" for env
proof
  show "rn_store (on_memory env) = memoryStore \<and> le_store (rn_lease (on_memory env)) = memoryStore \<and>
      re_store (rn_receipts (on_memory env)) = memoryStore"
    by (simp add: on_memory_def)
  show "mem_inv w' \<and> mem_obj w' = mem_obj w" if "mem_inv w" "st_list memoryStore p k w = (attrs, w')" for w p k attrs w'
    using that by (simp add: memoryStore_def mem_List_def)
  show "mem_inv w' \<and> mem_obj w' = mem_obj w \<and> (\<forall>i. mem_known w i \<longrightarrow> mem_known w' i)"
    if "mem_inv w" "le_probe (rn_lease (on_memory env)) e j w = (s, w')" for w e j s w'
    using that by (simp add: on_memory_def)
qed

section \<open>The property\<close>

text \<open>
  C1. A run tells the truth about the generation. On a lawful store, whatever the child process and
  the reconciliations do: when a run reports success, a valid manifest is committed, every file it
  names is stored with its digest, and the lease is gone. When it reports an error, the manifest
  object is the one the run found, unless the error says that the outcome of the commit is unknown
  or that a committed generation could not be recorded or its lease not released. In every case no
  object is changed or lost but the manifest, the lease, the receipts, the log and the diagnostic;
  raw files, annotations and earlier generations stay as they are.
\<close>

theorem run_commit_reported:
  assumes "run_world st obj good known env" and "good w"
  shows "(case runCloudWorkerBatch env cfg commands w of (res, w') \<Rightarrow>
      good w' \<and> run_outcome (rn_publish env) (project_prefix cfg) (wc_execution cfg) (obj w) res (obj w')) \<and>
    (case runCloudSuggestedQueries env cfg w of (res, w') \<Rightarrow>
      good w' \<and> run_outcome (rn_publish env) (project_prefix cfg) (wc_execution cfg) (obj w) res (obj w'))"
  using run_world.worker_run [OF assms surjective_pairing] run_world.suggest_run [OF assms surjective_pairing]
  by (auto simp: case_prod_beta)

section \<open>The input\<close>

lemma cumulative_small:
  "total' + int (sum_list (map length as)) \<le> int maxWorkerCommandCumulativeBytes \<Longrightarrow> cumulative_bytes total' as = None"
  by (induction as arbitrary: total') auto

text \<open>
  The worker accepts exactly one unattended Synto run: besides the bounds of the configuration,
  the commands are \<open>run\<close> alone or with the one allowed flag; the later checks on sizes then hold.
\<close>

theorem validateWorkerInput_exact:
  "validateWorkerInput getenv cfg commands = None \<longleftrightarrow>
     validateWorkerConfigBounds getenv cfg = None \<and> commands \<in> {[[''run'']], [[''run'', ''--auto-approve'']]}"
proof -
  have batch: "validateSyntoCommandBatch commands = None \<longleftrightarrow> commands \<in> {[[''run'']], [[''run'', ''--auto-approve'']]}"
  proof (cases commands)
    case (Cons c cs)
    then show ?thesis
      by (cases cs; cases c; cases "tl c"; cases "tl (tl c)") (auto simp: validateSyntoCommandBatch_def)
  qed (simp add: validateSyntoCommandBatch_def)
  have sizes: "check_command [''run''] = None" "check_command [''run'', ''--auto-approve''] = None"
    by (simp_all add: check_command_def maxWorkerArgs_def maxWorkerArgBytes_def)
  have small: "cumulative_bytes 0 [''run''] = None" "cumulative_bytes 0 [''run'', ''--auto-approve''] = None"
    by (simp_all add: cumulative_small maxWorkerCommandCumulativeBytes_def)
  show ?thesis
    using batch sizes small by (auto simp: validateWorkerInput_def maxWorkerCommands_def split: option.splits)
qed

section \<open>A concrete run\<close>

definition sample_config :: workerConfig where
  "sample_config = \<lparr>wc_vault = '''', wc_bucket = ''b'', wc_data_dir = '''', wc_user = ''u'', wc_project = ''p'',
     wc_execution = ''job-1'', wc_api_key = '''', wc_api_key_set = True, wc_postprocess = True, wc_workspace_dir = '''',
     wc_clean_rebuild = False, wc_cloud = True\<rparr>"

definition sample_runEnv :: "memoryObjects runEnv" where
  "sample_runEnv = on_memory
     \<lparr>rn_lease = sample_lease_env leaseHolderRunning, rn_publish = sample_publish_env, rn_receipts = sample_receipt_env,
      rn_diagnostic = sample_diagnosticCodec, rn_unmarshal = \<lambda>_. None, rn_ctx = None, rn_mkdir = None,
      rn_startup = ''start'', rn_event = \<lambda>_. ''failed'', rn_secrets = [],
      rn_prior = \<lambda>ws ss. Inr [], rn_pipeline = \<lambda>ws. (None, sample_outputs),
      rn_sources = \<lambda>ss ws. (None, ws), rn_concepts = \<lambda>prior ss ws. (None, ws), rn_suggest = \<lambda>ws. (None, ws),
      rn_walk = \<lambda>ws. sample_walk\<rparr>"

lemma run_commit_reported_witness:
  "case runCloudWorkerBatch sample_runEnv sample_config [[''run'']] newMemoryObjects of (res, w') \<Rightarrow>
     mem_inv w' \<and> run_outcome (rn_publish sample_runEnv) ''users/u/projects/p/'' ''job-1'' (mem_obj newMemoryObjects) res (mem_obj w')"
proof -
  have w: "run_world memoryStore mem_obj mem_inv mem_known sample_runEnv"
    unfolding sample_runEnv_def by (rule mem_runs.run_world_axioms)
  have i: "mem_inv newMemoryObjects" by code_simp
  have "project_prefix sample_config = ''users/u/projects/p/''" "wc_execution sample_config = ''job-1''"
    by (simp_all add: project_prefix_def sample_config_def)
  with run_commit_reported [OF w i, of sample_config "[[''run'']]"] show ?thesis by simp
qed

end
