(* ===== verification/SourceReconcile.thy ===== *)
theory SourceReconcile
  imports Workspace
begin

text \<open>
  Source identities across a run (\<open>cmd/olw_worker/source_reconcile.go\<close>). The wiki builder names
  sources afresh; \<open>reconcileSourceIDMap\<close> gives every raw file the ID it had in the snapshots of
  the run and moves the slugs, the metadata and the redirects of the generated ID map with it.
\<close>

section \<open>The ID map\<close>

record reconciledSource =
  rs_current :: string
  rs_stable :: string
  rs_slug :: string
  rs_raw :: string

text \<open>The two tables of the prior sources: ID by raw path, raw path by ID.\<close>

fun prior_tables ::
  "sourceSnapshot list \<Rightarrow> (string, string) gomap \<Rightarrow> (string, string) gomap
   \<Rightarrow> gerr + (string, string) gomap \<times> (string, string) gomap" where
  "prior_tables [] oldByRaw reservedByID = Inr (oldByRaw, reservedByID)"
| "prior_tables (s # ss) oldByRaw reservedByID =
     (if \<not> ValidSourceID (ss_source_id s) \<or> \<not> safeMappedRawPath (ss_raw_path s)
      then Inl (Msg ''unsafe prior source mapping'')
      else if map_has oldByRaw (ss_raw_path s) \<and> map_get_or '''' oldByRaw (ss_raw_path s) \<noteq> ss_source_id s
      then Inl (Msg ''duplicate prior source mapping'')
      else if map_has reservedByID (ss_source_id s) \<and> map_get_or '''' reservedByID (ss_source_id s) \<noteq> ss_raw_path s
      then Inl (Msg ''source ID is reserved'')
      else prior_tables ss (map_set (ss_raw_path s) (ss_source_id s) oldByRaw)
             (map_set (ss_source_id s) (ss_raw_path s) reservedByID))"

definition unsafe_source_slug :: "string \<Rightarrow> bool" where
  "unsafe_source_slug slug \<longleftrightarrow>
     trim_space slug = '''' \<or> contains_any slug [CHR ''/'', CHR 0x5C] \<or> slug = ''.'' \<or> slug = ''..''"

record reconcileState =
  rc_sources :: "reconciledSource list"
  rc_translated :: "(string, string) gomap"
  rc_used :: "(string, string) gomap"
  rc_seen_raw :: "(string, string) gomap"

text \<open>One generated source: its checks, its stable ID, and its entries in the tables.\<close>

definition reconcile_source ::
  "(string, string) gomap \<Rightarrow> (string, string) gomap \<Rightarrow> idMap \<Rightarrow> string \<Rightarrow> reconcileState \<Rightarrow> gerr + reconcileState" where
  "reconcile_source oldByRaw reservedByID ids currentID st =
     (let slug = map_get_or '''' (im_source ids) currentID
      in if \<not> ValidSourceID currentID \<or> unsafe_source_slug slug then Inl (Msg ''unsafe generated source mapping'')
         else (case map_of (im_source_meta ids) currentID of
                 None \<Rightarrow> Inl (Msg ''missing or unsafe source metadata'')
               | Some meta \<Rightarrow>
                   (if trim_space (sm_source_file meta) = '''' \<or> \<not> safeMappedRawPath (sm_source_file meta) \<or> sm_slug meta \<noteq> slug
                    then Inl (Msg ''missing or unsafe source metadata'')
                    else if map_has (rc_seen_raw st) (sm_source_file meta)
                    then Inl (Msg ''duplicate generated source mapping'')
                    else (let raw = sm_source_file meta;
                              stableID = (case map_of oldByRaw raw of Some priorID \<Rightarrow> priorID | None \<Rightarrow> currentID)
                          in if \<not> ValidSourceID stableID then Inl (Msg ''unsafe reconciled source ID'')
                             else if map_has (rc_used st) stableID \<and> map_get_or '''' (rc_used st) stableID \<noteq> raw
                             then Inl (Msg ''source ID collision'')
                             else if map_has reservedByID stableID \<and> map_get_or '''' reservedByID stableID \<noteq> raw
                             then Inl (Msg ''source ID is reserved'')
                             else Inr \<lparr>rc_sources = rc_sources st @ [\<lparr>rs_current = currentID, rs_stable = stableID,
                                                                  rs_slug = slug, rs_raw = raw\<rparr>],
                                       rc_translated = map_set currentID stableID (rc_translated st),
                                       rc_used = map_set stableID raw (rc_used st),
                                       rc_seen_raw = map_set raw currentID (rc_seen_raw st)\<rparr>))))"

fun reconcile_loop ::
  "(string, string) gomap \<Rightarrow> (string, string) gomap \<Rightarrow> idMap \<Rightarrow> string list \<Rightarrow> reconcileState \<Rightarrow> gerr + reconcileState" where
  "reconcile_loop oldByRaw reservedByID ids [] st = Inr st"
| "reconcile_loop oldByRaw reservedByID ids (currentID # cs) st =
     (case reconcile_source oldByRaw reservedByID ids currentID st of
        Inl e \<Rightarrow> Inl e
      | Inr st' \<Rightarrow> reconcile_loop oldByRaw reservedByID ids cs st')"

text \<open>\<open>normalizeTranslatedID\<close>: the loop runs at most one step more than the table has entries.\<close>

fun translate_loop :: "nat \<Rightarrow> (string, string) gomap \<Rightarrow> string \<Rightarrow> string" where
  "translate_loop 0 translated i = i"
| "translate_loop (Suc steps) translated i =
     (case map_of translated i of
        None \<Rightarrow> i
      | Some nx \<Rightarrow> if nx = i then i else translate_loop steps translated nx)"

definition normalizeTranslatedID :: "string \<Rightarrow> (string, string) gomap \<Rightarrow> string" where
  "normalizeTranslatedID i translated = translate_loop (length translated + 1) translated i"

fun redirect_loop ::
  "(string, string) gomap \<Rightarrow> (string, string list) gomap \<Rightarrow> string list \<Rightarrow> (string, string list) gomap
   \<Rightarrow> gerr + (string, string list) gomap" where
  "redirect_loop translated redirects [] normalized' = Inr normalized'"
| "redirect_loop translated redirects (from # froms) normalized' =
     (let newFrom = normalizeTranslatedID from translated; targets = map_get_or [] redirects from
      in if map_has normalized' newFrom \<and> map_get_or [] normalized' newFrom \<noteq> targets
         then Inl (Msg ''redirect ID collision'')
         else redirect_loop translated redirects froms (map_set newFrom targets normalized'))"

abbreviation sort_strings :: "string list \<Rightarrow> string list" where
  "sort_strings \<equiv> sort_by (<)"

definition empty_reconcile :: reconcileState where
  "empty_reconcile = \<lparr>rc_sources = [], rc_translated = [], rc_used = [], rc_seen_raw = []\<rparr>"

text \<open>\<open>reconcileSourceIDMap\<close>; the caller writes the returned map with \<open>json.MarshalIndent\<close>.\<close>

definition reconcileSourceIDMap ::
  "json_stream \<Rightarrow> sourceSnapshot list \<Rightarrow> gerr + idMap \<times> reconciledSource list" where
  "reconcileSourceIDMap data prior =
     (case prior_tables prior [] [] of
        Inl e \<Rightarrow> Inl e
      | Inr (oldByRaw, reservedByID) \<Rightarrow>
          (case DecodeIDMap data of
             Inl e \<Rightarrow> Inl (Msg ''decode generated source map'')
           | Inr ids \<Rightarrow>
               (if list_ex (\<lambda>(i, meta). \<not> map_has (im_source ids) i) (im_source_meta ids)
                then Inl (Msg ''source metadata has no source mapping'')
                else (case reconcile_loop oldByRaw reservedByID ids (sort_strings (map fst (im_source ids))) empty_reconcile of
                        Inl e \<Rightarrow> Inl e
                      | Inr st \<Rightarrow>
                          (case redirect_loop (rc_translated st) (im_redirects ids)
                                  (sort_strings (map fst (im_redirects ids))) [] of
                             Inl e \<Rightarrow> Inl e
                           | Inr redirects \<Rightarrow>
                               Inr (ids\<lparr>im_source := fold (\<lambda>r m. map_set (rs_stable r) (rs_slug r) m) (rc_sources st) [],
                                        im_source_meta := fold (\<lambda>r m. map_set (rs_stable r)
                                           (map_get_or zero_sourceMeta (im_source_meta ids) (rs_current r)) m) (rc_sources st) [],
                                        im_redirects := redirects\<rparr>,
                                    sort_by (\<lambda>a b. rs_raw a < rs_raw b) (rc_sources st)))))))"

section \<open>Following translations ends\<close>

definition translate :: "(string, string) gomap \<Rightarrow> string \<Rightarrow> string" where
  "translate tr i = map_get_or i tr i"

lemma translate_loop_orbit: "\<exists>k \<le> n. translate_loop n tr i = (translate tr ^^ k) i"
proof (induction n arbitrary: i)
  case (Suc n)
  show ?case
  proof (cases "map_of tr i")
    case None
    then show ?thesis by (intro exI [of _ 0]) simp
  next
    case (Some nx)
    obtain k where "k \<le> n" "translate_loop n tr nx = (translate tr ^^ k) nx" using Suc by blast
    moreover have "nx = translate tr i" using Some by (simp add: translate_def map_get_or_def)
    ultimately have step: "translate_loop n tr nx = (translate tr ^^ Suc k) i" "Suc k \<le> Suc n"
      by (simp_all add: funpow_swap1)
    show ?thesis
    proof (cases "nx = i")
      case True
      then show ?thesis using Some by (intro exI [of _ 0]) simp
    next
      case False
      then show ?thesis using Some step by (intro exI [of _ "Suc k"]) simp
    qed
  qed
qed simp

lemma translate_fixed: "translate tr i = i \<Longrightarrow> translate_loop n tr i = i"
  by (cases n) (auto simp: translate_def map_get_or_def split: option.splits)

lemma translate_step:
  "translate tr i \<noteq> i \<Longrightarrow> translate_loop (Suc n) tr i = translate_loop n tr (translate tr i)"
  by (auto simp: translate_def map_get_or_def split: option.splits)

lemma translate_reaches:
  "translate tr ((translate tr ^^ k) i) = (translate tr ^^ k) i \<Longrightarrow> k \<le> n \<Longrightarrow>
     translate_loop n tr i = (translate tr ^^ k) i"
proof (induction k arbitrary: i n)
  case 0
  then show ?case by (simp add: translate_fixed)
next
  case (Suc k)
  obtain m where n: "n = Suc m" "k \<le> m" using Suc.prems(2) by (cases n) auto
  show ?case
  proof (cases "translate tr i = i")
    case True
    have "(translate tr ^^ j) i = i" for j by (induction j) (simp_all add: True)
    then show ?thesis using translate_fixed [OF True] by metis
  next
    case False
    have "(translate tr ^^ Suc k) i = (translate tr ^^ k) (translate tr i)" by (simp add: funpow_swap1)
    then show ?thesis using Suc.IH [of "translate tr i" m] Suc.prems(1) n translate_step [OF False] by metis
  qed
qed

text \<open>The steps before the first fixed point visit distinct keys of the table.\<close>

lemma translate_short:
  assumes "translate tr ((translate tr ^^ k) i) = (translate tr ^^ k) i"
  shows "\<exists>j \<le> length tr. translate tr ((translate tr ^^ j) i) = (translate tr ^^ j) i"
proof -
  let ?x = "\<lambda>j. (translate tr ^^ j) i"
  define j where "j = (LEAST j. translate tr (?x j) = ?x j)"
  have fixed: "translate tr (?x j) = ?x j" unfolding j_def using assms by (rule LeastI)
  have before: "translate tr (?x a) \<noteq> ?x a" if "a < j" for a
    using that not_less_Least [of a "\<lambda>j. translate tr (?x j) = ?x j"] unfolding j_def by blast
  have stays: "?x (j + a) = ?x j" for a by (induction a) (simp_all add: fixed)
  have "inj_on ?x {..<j}"
  proof (rule inj_onI, rule ccontr)
    fix a b assume ab: "a \<in> {..<j}" "b \<in> {..<j}" "?x a = ?x b" "a \<noteq> b"
    have shift: False if "a < b" "b < j" "?x a = ?x b" for a b
    proof -
      have "?x (c + a) = ?x (c + b)" for c by (simp add: funpow_add that(3))
      from this [of "j - b"] have "?x (j - b + a) = ?x j" using that(2) by simp
      moreover have "j - b + a < j" using that by simp
      ultimately show False using before [of "j - b + a"] fixed by simp
    qed
    show False using shift [of a b] shift [of b a] ab by (cases "a < b") auto
  qed
  moreover have "?x ` {..<j} \<subseteq> fst ` set tr"
  proof
    fix y assume "y \<in> ?x ` {..<j}"
    then obtain a where a: "a < j" "y = ?x a" by blast
    from before [OF a(1)] a(2) have "map_of tr y \<noteq> None"
      by (auto simp: translate_def map_get_or_def split: option.splits)
    then show "y \<in> fst ` set tr" by (simp add: map_of_eq_None_iff)
  qed
  ultimately have "j \<le> card (fst ` set tr)"
    by (metis card_inj_on_le card_lessThan finite_imageI finite_set)
  also have "\<dots> \<le> length tr" by (metis card_image_le card_length finite_set le_trans)
  finally show ?thesis using fixed by blast
qed

text \<open>
  The bound on following translations is enough. The loop of \<open>normalizeTranslatedID\<close> stops
  after one step more than the table has entries; it has then reached a fixed point of the
  translation exactly when following the table any number of times would reach one.
\<close>

theorem normalizeTranslatedID_complete:
  "translate tr (normalizeTranslatedID i tr) = normalizeTranslatedID i tr \<longleftrightarrow>
     (\<exists>k. translate tr ((translate tr ^^ k) i) = (translate tr ^^ k) i)"
proof
  assume "translate tr (normalizeTranslatedID i tr) = normalizeTranslatedID i tr"
  then show "\<exists>k. translate tr ((translate tr ^^ k) i) = (translate tr ^^ k) i"
    using translate_loop_orbit [of "length tr + 1" tr i] by (metis normalizeTranslatedID_def)
next
  assume "\<exists>k. translate tr ((translate tr ^^ k) i) = (translate tr ^^ k) i"
  then obtain j where "j \<le> length tr" "translate tr ((translate tr ^^ j) i) = (translate tr ^^ j) i"
    using translate_short by blast
  then show "translate tr (normalizeTranslatedID i tr) = normalizeTranslatedID i tr"
    using translate_reaches [of tr j i "length tr + 1"] by (simp add: normalizeTranslatedID_def)
qed

text \<open>
  Two sources that exchanged their IDs are translated into each other, and back again when the
  table has one entry more.
\<close>

lemma normalizeTranslatedID_parity:
  "normalizeTranslatedID ''a'' [(''a'', ''b''), (''b'', ''a'')] = ''b'' \<and>
   normalizeTranslatedID ''a'' [(''a'', ''b''), (''b'', ''a''), (''c'', ''c'')] = ''a''"
  by code_simp

section \<open>Every raw file keeps its ID\<close>

lemma map_get_or_Some: "map_of m k = Some v \<Longrightarrow> map_get_or d m k = v"
  by (simp add: map_get_or_def)

lemma in_keys_iff: "k \<in> fst ` set m \<longleftrightarrow> (\<exists>v. map_of m k = Some v)"
  by (metis map_of_eq_None_iff not_Some_eq)

lemma no_other_value: "\<not> (map_has m k \<and> map_get_or d m k \<noteq> v) \<Longrightarrow> map_of m k = Some x \<Longrightarrow> x = v"
  by (simp add: in_keys_iff map_get_or_Some)

lemma sorted_keys_strict:
  fixes f :: "'a \<Rightarrow> 'b :: linorder"
  shows "sorted_wrt (\<lambda>a b. \<not> f b < f a) xs \<Longrightarrow> distinct (map f xs) \<Longrightarrow> sorted_wrt (<) (map f xs)"
  by (induction xs) (auto simp: not_less less_le image_iff)

lemma prior_tables_ok:
  assumes "prior_tables ss old res = Inr (old', res')"
  shows "(\<forall>p i. map_of old p = Some i \<longrightarrow> map_of old' p = Some i) \<and> (\<forall>i p. map_of res i = Some p \<longrightarrow> map_of res' i = Some p) \<and>
    (\<forall>s \<in> set ss. map_of old' (ss_raw_path s) = Some (ss_source_id s) \<and> map_of res' (ss_source_id s) = Some (ss_raw_path s)) \<and>
    (\<forall>p i. map_of old' p = Some i \<longrightarrow> map_of old p = Some i \<or> (\<exists>s \<in> set ss. ss_raw_path s = p \<and> ss_source_id s = i))"
  using assms
proof (induction ss arbitrary: old res)
  case (Cons s ss)
  let ?old = "map_set (ss_raw_path s) (ss_source_id s) old" and ?res = "map_set (ss_source_id s) (ss_raw_path s) res"
  have fresh: "\<forall>i. map_of old (ss_raw_path s) = Some i \<longrightarrow> i = ss_source_id s"
      "\<forall>p. map_of res (ss_source_id s) = Some p \<longrightarrow> p = ss_raw_path s"
    and rec: "prior_tables ss ?old ?res = Inr (old', res')"
    using Cons.prems no_other_value [of old "ss_raw_path s" "''''" "ss_source_id s"]
      no_other_value [of res "ss_source_id s" "''''" "ss_raw_path s"]
    by (simp_all del: map_has_iff split: if_split_asm)
  note IH = Cons.IH [OF rec]
  have keep: "map_of ?old p = Some i" if "map_of old p = Some i" for p i
    using that fresh(1) by auto
  have keep': "map_of ?res i = Some p" if "map_of res i = Some p" for i p
    using that fresh(2) by auto
  have here: "map_of old' (ss_raw_path s) = Some (ss_source_id s) \<and> map_of res' (ss_source_id s) = Some (ss_raw_path s)"
    using IH by simp
  have origin: "map_of old p = Some i \<or> (\<exists>s' \<in> set (s # ss). ss_raw_path s' = p \<and> ss_source_id s' = i)"
    if "map_of old' p = Some i" for p i
  proof -
    from that IH have "map_of ?old p = Some i \<or> (\<exists>s' \<in> set ss. ss_raw_path s' = p \<and> ss_source_id s' = i)" by blast
    then show ?thesis by (cases "p = ss_raw_path s") auto
  qed
  show ?case using IH keep keep' here origin by (intro conjI) (blast, blast, simp, blast)
qed simp

text \<open>What the loop establishes for one generated source.\<close>

definition source_ok :: "(string, string) gomap \<Rightarrow> (string, string) gomap \<Rightarrow> idMap \<Rightarrow> reconciledSource \<Rightarrow> bool" where
  "source_ok oldByRaw reservedByID ids r \<longleftrightarrow>
     rs_slug r = map_get_or '''' (im_source ids) (rs_current r) \<and> \<not> unsafe_source_slug (rs_slug r) \<and>
     (\<exists>meta. map_of (im_source_meta ids) (rs_current r) = Some meta \<and> sm_source_file meta = rs_raw r \<and>
        sm_slug meta = rs_slug r) \<and>
     safeMappedRawPath (rs_raw r) \<and> ValidSourceID (rs_stable r) \<and>
     rs_stable r = (case map_of oldByRaw (rs_raw r) of Some priorID \<Rightarrow> priorID | None \<Rightarrow> rs_current r) \<and>
     (\<forall>p. map_of reservedByID (rs_stable r) = Some p \<longrightarrow> p = rs_raw r)"

definition reconcile_inv ::
  "(string, string) gomap \<Rightarrow> (string, string) gomap \<Rightarrow> idMap \<Rightarrow> string list \<Rightarrow> reconcileState \<Rightarrow> bool" where
  "reconcile_inv oldByRaw reservedByID ids seen st \<longleftrightarrow>
     map rs_current (rc_sources st) = seen \<and>
     rc_used st = map (\<lambda>r. (rs_stable r, rs_raw r)) (rc_sources st) \<and>
     rc_seen_raw st = map (\<lambda>r. (rs_raw r, rs_current r)) (rc_sources st) \<and>
     distinct (map rs_stable (rc_sources st)) \<and> distinct (map rs_raw (rc_sources st)) \<and>
     list_all (source_ok oldByRaw reservedByID ids) (rc_sources st)"

lemma reconcile_source_inv:
  assumes i: "reconcile_inv oldByRaw reservedByID ids seen st"
    and run: "reconcile_source oldByRaw reservedByID ids currentID st = Inr st'"
  shows "reconcile_inv oldByRaw reservedByID ids (seen @ [currentID]) st'"
proof -
  define slug where "slug = map_get_or '''' (im_source ids) currentID"
  from run obtain meta where meta: "map_of (im_source_meta ids) currentID = Some meta"
    by (auto simp: reconcile_source_def Let_def split: if_splits option.splits)
  define raw where "raw = sm_source_file meta"
  define stable where "stable = (case map_of oldByRaw raw of Some priorID \<Rightarrow> priorID | None \<Rightarrow> currentID)"
  define r where "r = \<lparr>rs_current = currentID, rs_stable = stable, rs_slug = slug, rs_raw = raw\<rparr>"
  have slug: "\<not> unsafe_source_slug slug" and safe: "safeMappedRawPath raw" "sm_slug meta = slug" "\<not> map_has (rc_seen_raw st) raw"
      "ValidSourceID stable"
    and used: "\<not> (map_has (rc_used st) stable \<and> map_get_or '''' (rc_used st) stable \<noteq> raw)"
    and res: "\<not> (map_has reservedByID stable \<and> map_get_or '''' reservedByID stable \<noteq> raw)"
    and st': "st' = \<lparr>rc_sources = rc_sources st @ [r], rc_translated = map_set currentID stable (rc_translated st),
       rc_used = map_set stable raw (rc_used st), rc_seen_raw = map_set raw currentID (rc_seen_raw st)\<rparr>"
    using run meta unfolding reconcile_source_def Let_def slug_def [symmetric]
    by (simp_all add: raw_def [symmetric] stable_def [symmetric] r_def split: if_split_asm)
  have newraw: "raw \<notin> rs_raw ` set (rc_sources st)"
    using safe(3) i by (force simp: reconcile_inv_def)
  have newstable: "stable \<notin> rs_stable ` set (rc_sources st)"
  proof
    assume "stable \<in> rs_stable ` set (rc_sources st)"
    then have "stable \<in> fst ` set (rc_used st)" using i by (force simp: reconcile_inv_def)
    then obtain p where p: "map_of (rc_used st) stable = Some p" by (auto simp: in_keys_iff)
    with used have "p = raw" by (simp add: in_keys_iff map_get_or_Some)
    with p have "(stable, raw) \<in> set (rc_used st)" by (simp add: map_of_SomeD)
    then have "raw \<in> rs_raw ` set (rc_sources st)" using i by (force simp: reconcile_inv_def)
    with newraw show False by blast
  qed
  have sets: "map_set stable raw (map (\<lambda>r. (rs_stable r, rs_raw r)) (rc_sources st)) =
      map (\<lambda>r. (rs_stable r, rs_raw r)) (rc_sources st) @ [(stable, raw)]"
    "map_set raw currentID (map (\<lambda>r. (rs_raw r, rs_current r)) (rc_sources st)) =
      map (\<lambda>r. (rs_raw r, rs_current r)) (rc_sources st) @ [(raw, currentID)]"
    using newraw newstable by (auto intro!: map_set_fresh)
  have ok: "source_ok oldByRaw reservedByID ids r"
  proof -
    have "p = raw" if "map_of reservedByID stable = Some p" for p using no_other_value [OF res that] .
    then show ?thesis using slug safe(1,2,4) meta unfolding source_ok_def r_def
      by (simp add: slug_def raw_def) (cases "map_of oldByRaw (sm_source_file meta)"; simp add: stable_def raw_def)
  qed
  show ?thesis using i newraw newstable ok
    by (simp add: reconcile_inv_def st' sets) (simp add: r_def)
qed

lemma reconcile_loop_inv:
  "reconcile_loop oldByRaw reservedByID ids cs st = Inr st' \<Longrightarrow> reconcile_inv oldByRaw reservedByID ids seen st \<Longrightarrow>
     reconcile_inv oldByRaw reservedByID ids (seen @ cs) st'"
proof (induction cs arbitrary: st seen)
  case (Cons c cs)
  from Cons.prems(1) obtain st1 where st1: "reconcile_source oldByRaw reservedByID ids c st = Inr st1"
    and rec: "reconcile_loop oldByRaw reservedByID ids cs st1 = Inr st'" by (auto split: sum.splits)
  show ?case using Cons.IH [OF rec reconcile_source_inv [OF Cons.prems(2) st1]] by simp
qed simp

lemma fold_map_set:
  "distinct (map f rs) \<Longrightarrow> f ` set rs \<inter> fst ` set acc = {} \<Longrightarrow>
     fold (\<lambda>r m. map_set (f r) (g r) m) rs acc = acc @ map (\<lambda>r. (f r, g r)) rs"
proof (induction rs arbitrary: acc)
  case (Cons r rs)
  have "map_set (f r) (g r) acc = acc @ [(f r, g r)]" using Cons.prems(2) by (intro map_set_fresh) auto
  then show ?case using Cons.IH [of "acc @ [(f r, g r)]"] Cons.prems by auto
qed simp

text \<open>
  One reconciled source against the prior snapshots: its raw file is the one of its metadata, it
  has the ID a snapshot of that file names and else the generated one, and no snapshot of another
  file has that ID.
\<close>

definition source_kept :: "sourceSnapshot list \<Rightarrow> idMap \<Rightarrow> idMap \<Rightarrow> reconciledSource \<Rightarrow> bool" where
  "source_kept prior ids m r \<longleftrightarrow>
     map_of (im_source ids) (rs_current r) = Some (rs_slug r) \<and> map_of (im_source m) (rs_stable r) = Some (rs_slug r) \<and>
     map_of (im_source_meta m) (rs_stable r) = map_of (im_source_meta ids) (rs_current r) \<and>
     (\<exists>meta. map_of (im_source_meta m) (rs_stable r) = Some meta \<and> sm_source_file meta = rs_raw r \<and> sm_slug meta = rs_slug r) \<and>
     safeMappedRawPath (rs_raw r) \<and> \<not> unsafe_source_slug (rs_slug r) \<and> ValidSourceID (rs_stable r) \<and>
     (\<forall>s \<in> set prior. ss_raw_path s = rs_raw r \<longleftrightarrow> ss_source_id s = rs_stable r) \<and>
     (rs_raw r \<notin> ss_raw_path ` set prior \<longrightarrow> rs_stable r = rs_current r)"

definition sources_reconciled :: "sourceSnapshot list \<Rightarrow> idMap \<Rightarrow> idMap \<Rightarrow> reconciledSource list \<Rightarrow> bool" where
  "sources_reconciled prior ids m rs \<longleftrightarrow>
     list_all (source_kept prior ids m) rs \<and>
     distinct (map rs_stable rs) \<and> sorted_wrt (<) (map rs_raw rs) \<and>
     rs_current ` set rs = fst ` set (im_source ids) \<and>
     fst ` set (im_source m) = rs_stable ` set rs \<and> fst ` set (im_source_meta m) = rs_stable ` set rs \<and>
     im_concept m = im_concept ids \<and> im_dormant m = im_dormant ids \<and> im_entity m = im_entity ids \<and>
     im_id_redirects m = im_id_redirects ids"


end
