(* ===== verification/EntityMap.thy ===== *)
theory EntityMap
  imports IndexTruth
begin

text \<open>
  What the entity map of \<open>cmd/olw_worker/synto_adapter.go\<close> promises: the loops over the articles
  and over the concepts keep the seven lookup tables consistent with the artifact, so that the map
  binds each concept to the entity of its own article, one to one.
\<close>

section \<open>What the entity map promises\<close>

definition article_slug :: "syntoIndexEntry \<Rightarrow> string \<Rightarrow> bool" where
  "article_slug a slug \<longleftrightarrow> \<not> IsSyntoRootPage (se_path a) \<and> normalizeSyntoArticlePath (se_path a) = Inr slug"

text \<open>What the maps say of the articles read so far, one clause for each map.\<close>

definition by_id_ok :: "syntoIndexEntry list \<Rightarrow> (string, string) gomap \<Rightarrow> bool" where
  "by_id_ok done m \<longleftrightarrow> (\<forall>a\<in>set done. \<not> IsSyntoRootPage (se_path a) \<and> se_entity a \<noteq> '''' \<and> se_id a \<noteq> '''' \<longrightarrow>
     map_of m (se_id a) = Some (se_entity a))"

definition plain_ids_ok :: "syntoIndexEntry list \<Rightarrow> (string, string) gomap \<Rightarrow> bool" where
  "plain_ids_ok done m \<longleftrightarrow> (\<forall>a\<in>set done. \<not> IsSyntoRootPage (se_path a) \<and> se_entity a = '''' \<longrightarrow> se_id a \<in> fst ` set m)"

definition by_entity_ok :: "syntoIndexEntry list \<Rightarrow> (string, string) gomap \<Rightarrow> bool" where
  "by_entity_ok done m \<longleftrightarrow> map_wf m \<and>
     (\<forall>e s. map_of m e = Some s \<longrightarrow> (\<exists>a\<in>set done. article_slug a s \<and> se_entity a = e \<and> e \<noteq> ''''))"

definition plain_slugs_ok :: "(string \<Rightarrow> string) \<Rightarrow> syntoIndexEntry list \<Rightarrow> (string, string) gomap \<Rightarrow> bool" where
  "plain_slugs_ok lower done m \<longleftrightarrow> (\<forall>k i. map_of m k = Some i \<longrightarrow>
     (\<exists>a\<in>set done. \<exists>s. article_slug a s \<and> se_entity a = '''' \<and> lower s = k))"

definition by_slug_ok :: "(string, string) gomap \<Rightarrow> (string, string) gomap \<Rightarrow> bool" where
  "by_slug_ok ents m \<longleftrightarrow> (\<forall>k s. map_of m k = Some s \<longrightarrow> (\<exists>e. map_of ents e = Some s))"

definition maps_ok :: "(string \<Rightarrow> string) \<Rightarrow> syntoIndexEntry list \<Rightarrow> articleMaps \<Rightarrow> bool" where
  "maps_ok lower done m \<longleftrightarrow> se_id ` set done \<subseteq> fst ` set (am_ids m) \<and> by_id_ok done (am_by_id m) \<and>
     plain_ids_ok done (am_plain_ids m) \<and> by_entity_ok done (am_by_entity m) \<and>
     plain_slugs_ok lower done (am_plain_slugs m) \<and> by_slug_ok (am_by_entity m) (am_by_slug m)"

lemmas map_clauses = by_id_ok_def plain_ids_ok_def by_entity_ok_def plain_slugs_ok_def

text \<open>A new article keeps a clause whose map it does not concern, and extends the others.\<close>

lemma clauses_skip:
  "by_id_ok done m \<Longrightarrow> IsSyntoRootPage (se_path a) \<or> se_entity a = '''' \<Longrightarrow> by_id_ok (done @ [a]) m"
  "plain_ids_ok done p \<Longrightarrow> IsSyntoRootPage (se_path a) \<or> se_entity a \<noteq> '''' \<Longrightarrow> plain_ids_ok (done @ [a]) p"
  "by_entity_ok done e \<Longrightarrow> by_entity_ok (done @ [a]) e"
  "plain_slugs_ok lower done ps \<Longrightarrow> plain_slugs_ok lower (done @ [a]) ps"
  by (auto simp: map_clauses)

lemma plain_ids_ok_add: "plain_ids_ok done p \<Longrightarrow> plain_ids_ok (done @ [a]) (map_set (se_id a) s p)"
  by (simp add: plain_ids_ok_def)

lemma plain_slugs_ok_add:
  "plain_slugs_ok lower done ps \<Longrightarrow> article_slug a s \<Longrightarrow> se_entity a = '''' \<Longrightarrow>
     plain_slugs_ok lower (done @ [a]) (map_set (lower s) i ps)"
  by (auto simp: plain_slugs_ok_def)

lemma by_entity_ok_add:
  "by_entity_ok done e \<Longrightarrow> article_slug a s \<Longrightarrow> se_entity a \<noteq> '''' \<Longrightarrow> by_entity_ok (done @ [a]) (map_set (se_entity a) s e)"
  by (auto simp: by_entity_ok_def)

lemma by_id_ok_add:
  assumes "by_id_ok done m" and "\<forall>b\<in>set done. se_id b \<noteq> se_id a"
  shows "by_id_ok (done @ [a]) (if se_id a \<noteq> '''' then map_set (se_id a) (se_entity a) m else m)"
  using assms by (auto simp: by_id_ok_def)

lemma by_slug_ok_add:
  assumes "by_slug_ok ents m" and "map_of ents e = None \<or> map_of ents e = Some s"
  shows "by_slug_ok (map_set e s ents) (map_set k s m)"
  unfolding by_slug_ok_def
proof (intro allI impI)
  fix k' v
  assume v: "map_of (map_set k s m) k' = Some v"
  show "\<exists>i. map_of (map_set e s ents) i = Some v"
  proof (cases "k' = k")
    case True
    then show ?thesis using v by (intro exI [of _ e]) simp
  next
    case False
    then obtain i where "map_of ents i = Some v" using v assms(1) by (auto simp: by_slug_ok_def)
    then show ?thesis using assms(2) by (intro exI [of _ i]) auto
  qed
qed

text \<open>The three ways an article is entered: a root page, an ordinary article, a bound article.\<close>

definition enters_root :: "syntoIndexEntry \<Rightarrow> articleMaps \<Rightarrow> articleMaps \<Rightarrow> bool" where
  "enters_root a m m' \<longleftrightarrow> IsSyntoRootPage (se_path a) \<and> am_by_id m' = am_by_id m \<and> am_by_slug m' = am_by_slug m \<and>
     am_by_entity m' = am_by_entity m \<and> am_plain_ids m' = am_plain_ids m \<and> am_plain_slugs m' = am_plain_slugs m"

definition enters_plain :: "(string \<Rightarrow> string) \<Rightarrow> string \<Rightarrow> syntoIndexEntry \<Rightarrow> articleMaps \<Rightarrow> articleMaps \<Rightarrow> bool" where
  "enters_plain lower slug a m m' \<longleftrightarrow> \<not> IsSyntoRootPage (se_path a) \<and> se_entity a = '''' \<and>
     am_by_id m' = am_by_id m \<and> am_by_slug m' = am_by_slug m \<and> am_by_entity m' = am_by_entity m \<and>
     am_plain_ids m' = map_set (se_id a) slug (am_plain_ids m) \<and>
     am_plain_slugs m' = map_set (lower slug) (se_id a) (am_plain_slugs m)"

definition enters_bound :: "(string \<Rightarrow> string) \<Rightarrow> string \<Rightarrow> syntoIndexEntry \<Rightarrow> articleMaps \<Rightarrow> articleMaps \<Rightarrow> bool" where
  "enters_bound lower slug a m m' \<longleftrightarrow> \<not> IsSyntoRootPage (se_path a) \<and> se_entity a \<noteq> '''' \<and>
     am_by_id m' = (if se_id a \<noteq> '''' then map_set (se_id a) (se_entity a) (am_by_id m) else am_by_id m) \<and>
     am_by_slug m' = map_set (lower slug) slug (am_by_slug m) \<and>
     (map_of (am_by_entity m) (se_entity a) = None \<or> map_of (am_by_entity m) (se_entity a) = Some slug) \<and>
     am_by_entity m' = map_set (se_entity a) slug (am_by_entity m) \<and>
     am_plain_ids m' = am_plain_ids m \<and> am_plain_slugs m' = am_plain_slugs m"

lemma map_article_cases:
  assumes "map_article lower m a = Inr m'"
  shows "\<exists>slug. normalizeSyntoArticlePath (se_path a) = Inr slug \<and> se_id a \<notin> fst ` set (am_ids m) \<and>
    am_ids m' = map_set (se_id a) slug (am_ids m) \<and>
    (enters_root a m m' \<or> enters_plain lower slug a m m' \<or> enters_bound lower slug a m m')"
proof -
  obtain slug where n: "normalizeSyntoArticlePath (se_path a) = Inr slug"
    using assms by (auto simp: map_article_def split: if_splits sum.splits)
  have i: "se_id a \<notin> fst ` set (am_ids m)"
    using assms n by (simp add: map_article_def split: if_splits)
  have ids: "am_ids m' = map_set (se_id a) slug (am_ids m)"
    using assms n unfolding map_article_def Let_def by (auto split: if_splits)
  consider "IsSyntoRootPage (se_path a)" | "\<not> IsSyntoRootPage (se_path a)" "se_entity a = ''''"
    | "\<not> IsSyntoRootPage (se_path a)" "se_entity a \<noteq> ''''" by blast
  then have "enters_root a m m' \<or> enters_plain lower slug a m m' \<or> enters_bound lower slug a m m'"
  proof cases
    case 1
    then have "enters_root a m m'" using assms n
      by (simp add: map_article_def enters_root_def Let_def split: if_splits) (auto)
    then show ?thesis by blast
  next
    case 2
    then have "enters_plain lower slug a m m'" using assms n
      by (simp add: map_article_def enters_plain_def Let_def split: if_splits) (auto)
    then show ?thesis by blast
  next
    case 3
    then have "enters_bound lower slug a m m'" using assms n
      by (simp add: map_article_def enters_bound_def Let_def split: if_splits option.splits) (auto)
    then show ?thesis by blast
  qed
  then show ?thesis using n i ids by blast
qed

lemma maps_ok_step:
  assumes ok: "maps_ok lower done m" and step: "map_article lower m a = Inr m'"
  shows "maps_ok lower (done @ [a]) m'"
proof -
  obtain slug where n: "normalizeSyntoArticlePath (se_path a) = Inr slug" and fresh: "se_id a \<notin> fst ` set (am_ids m)"
    and ids: "am_ids m' = map_set (se_id a) slug (am_ids m)"
    and ways: "enters_root a m m' \<or> enters_plain lower slug a m m' \<or> enters_bound lower slug a m m'"
    using map_article_cases [OF step] by blast
  note c = ok [unfolded maps_ok_def]
  have new: "\<forall>b\<in>set done. se_id b \<noteq> se_id a" using c fresh by (metis image_eqI subsetD)
  have keys: "se_id ` set (done @ [a]) \<subseteq> fst ` set (am_ids m')" using c ids by auto
  have slug: "\<not> IsSyntoRootPage (se_path a) \<Longrightarrow> article_slug a slug" using n by (simp add: article_slug_def)
  from ways show ?thesis
  proof (elim disjE)
    assume w: "enters_root a m m'"
    then show ?thesis unfolding maps_ok_def using keys c by (simp add: enters_root_def clauses_skip)
  next
    assume w: "enters_plain lower slug a m m'"
    then have "plain_slugs_ok lower (done @ [a]) (am_plain_slugs m')"
      using c slug by (simp add: enters_plain_def plain_slugs_ok_add)
    then show ?thesis unfolding maps_ok_def
      using w keys c by (simp add: enters_plain_def clauses_skip plain_ids_ok_add)
  next
    assume w: "enters_bound lower slug a m m'"
    note b = w [unfolded enters_bound_def]
    have "by_slug_ok (am_by_entity m') (am_by_slug m')"
      using c b by (simp only: by_slug_ok_add)
    moreover have "by_id_ok (done @ [a]) (am_by_id m')"
      using by_id_ok_add [OF _ new, of "am_by_id m"] c b by (simp only:)
    moreover have "by_entity_ok (done @ [a]) (am_by_entity m')"
      using by_entity_ok_add [of "done" "am_by_entity m" a slug] c b slug by simp
    ultimately show ?thesis unfolding maps_ok_def using b keys c by (simp add: clauses_skip)
  qed
qed

lemma map_articles_ok:
  "map_articles lower m as = Inr m' \<Longrightarrow> maps_ok lower done m \<Longrightarrow> maps_ok lower (done @ as) m'"
proof (induction as arbitrary: m "done")
  case (Cons a as)
  then obtain m1 where "map_article lower m a = Inr m1" "map_articles lower m1 as = Inr m'"
    by (auto split: sum.splits)
  then show ?case using Cons.IH [of m1 "done @ [a]"] maps_ok_step [OF Cons.prems(2)] by simp
qed simp

lemma empty_maps_ok: "maps_ok lower [] empty_maps"
  by (simp add: maps_ok_def empty_maps_def map_clauses by_slug_ok_def map_wf_def)

lemma byEntityForSlug_found:
  assumes "map_wf m" and "map_of m e = Some s"
  shows "map_of m (byEntityForSlug m s) = Some s"
proof (cases "List.find (\<lambda>(_, t). t = s) m")
  case None
  then show ?thesis using map_of_SomeD [OF assms(2)] by (auto simp: find_None_iff)
next
  case (Some p)
  then have "p \<in> set m" "snd p = s" by (auto simp: find_Some_iff) (metis nth_mem)
  then show ?thesis using Some assms(1) by (auto simp: byEntityForSlug_def map_wf_def split: prod.split)
qed

text \<open>The entity of a concept is that of the article with its slug, and of the article with its ID.\<close>

definition mapped_ok :: "syntoIndexEntry list \<Rightarrow> string \<Rightarrow> string \<Rightarrow> string \<Rightarrow> bool" where
  "mapped_ok as i slug e \<longleftrightarrow> e \<noteq> '''' \<and> (\<exists>a\<in>set as. article_slug a slug \<and> se_entity a = e) \<and>
     (\<forall>a\<in>set as. \<not> IsSyntoRootPage (se_path a) \<and> se_id a \<noteq> '''' \<and> se_id a = i \<longrightarrow> se_entity a = e)"

definition plain_slug :: "(string \<Rightarrow> string) \<Rightarrow> syntoIndexEntry list \<Rightarrow> string \<Rightarrow> bool" where
  "plain_slug lower as slug \<longleftrightarrow> (\<exists>a\<in>set as. \<exists>s. article_slug a s \<and> se_entity a = '''' \<and> lower s = lower slug)"

lemma concept_mapping_plain:
  assumes "map_of (am_plain_ids m) i \<noteq> None \<or> map_of (am_plain_slugs m) (lower slug) \<noteq> None"
    and "concept_mapping lower fold_eq m i slug = Inr r"
  shows "r = None \<and> map_of (am_plain_slugs m) (lower slug) \<noteq> None"
  using assms by (auto simp: concept_mapping_def Let_def split: if_splits option.splits)

lemma concept_mapping_bound:
  assumes "map_of (am_plain_ids m) i = None" and "map_of (am_plain_slugs m) (lower slug) = None"
    and "concept_mapping lower fold_eq m i slug = Inr r"
  shows "map_of (am_by_slug m) (lower slug) = Some slug \<and> r = Some (byEntityForSlug (am_by_entity m) slug) \<and>
    (map_of (am_by_id m) i = None \<or> map_of (am_by_id m) i = r)"
  using assms by (cases "map_of (am_by_slug m) (lower slug)") (auto simp: concept_mapping_def Let_def split: if_splits)

lemma concept_mapping_ok:
  assumes ok: "maps_ok lower as m" and eq: "concept_mapping lower fold_eq m i slug = Inr r"
  shows "case r of Some e \<Rightarrow> mapped_ok as i slug e | None \<Rightarrow> plain_slug lower as slug"
proof (cases "map_of (am_plain_ids m) i = None \<and> map_of (am_plain_slugs m) (lower slug) = None")
  case True
  note c = ok [unfolded maps_ok_def]
  let ?e = "byEntityForSlug (am_by_entity m) slug"
  have b: "map_of (am_by_slug m) (lower slug) = Some slug" "r = Some ?e" "map_of (am_by_id m) i = None \<or> map_of (am_by_id m) i = Some ?e"
    using concept_mapping_bound [OF _ _ eq] True by auto
  obtain e where "map_of (am_by_entity m) e = Some slug" using c b(1) unfolding by_slug_ok_def by metis
  then have "map_of (am_by_entity m) ?e = Some slug"
    using c by (intro byEntityForSlug_found) (simp_all add: by_entity_ok_def)
  then have "\<exists>a\<in>set as. article_slug a slug \<and> se_entity a = ?e \<and> ?e \<noteq> ''''"
    using c by (simp add: by_entity_ok_def)
  moreover have "se_entity a = ?e"
    if a: "a \<in> set as" "\<not> IsSyntoRootPage (se_path a)" "se_id a \<noteq> ''''" "se_id a = i" for a
  proof -
    have "i \<notin> fst ` set (am_plain_ids m)" using True by (simp add: map_of_eq_None_iff)
    then have "se_entity a \<noteq> ''''" using c a unfolding plain_ids_ok_def by metis
    then have "map_of (am_by_id m) i = Some (se_entity a)" using c a by (auto simp: by_id_ok_def)
    then show ?thesis using b(3) by simp
  qed
  ultimately show ?thesis using b(2) by (auto simp: mapped_ok_def)
next
  case False
  then have "map_of (am_plain_ids m) i \<noteq> None \<or> map_of (am_plain_slugs m) (lower slug) \<noteq> None" by simp
  then have "r = None \<and> map_of (am_plain_slugs m) (lower slug) \<noteq> None"
    by (rule concept_mapping_plain [OF _ eq])
  then show ?thesis using ok by (auto simp: maps_ok_def plain_slugs_ok_def plain_slug_def)
qed

text \<open>What the map holds for one concept.\<close>

definition concept_outcome :: "(string \<Rightarrow> string) \<Rightarrow> syntoIndexEntry list \<Rightarrow> (string, string) gomap \<Rightarrow> string \<times> string \<Rightarrow> bool" where
  "concept_outcome lower as out = (\<lambda>(i, s).
     case map_of out i of Some e \<Rightarrow> mapped_ok as i s e | None \<Rightarrow> plain_slug lower as s)"

definition inverse_maps :: "(string, string) gomap \<Rightarrow> (string, string) gomap \<Rightarrow> bool" where
  "inverse_maps used out \<longleftrightarrow> (\<forall>i e. map_of used e = Some i \<longleftrightarrow> map_of out i = Some e)"

lemma outcomes_other:
  "list_all (concept_outcome lower as out) cs \<Longrightarrow> i \<notin> fst ` set cs \<Longrightarrow> list_all (concept_outcome lower as (map_set i e out)) cs"
  unfolding list_all_iff concept_outcome_def by (fastforce simp: image_iff)

lemma inverse_maps_add:
  "inverse_maps used out \<Longrightarrow> map_of used e = None \<Longrightarrow> map_of out i = None \<Longrightarrow> inverse_maps (map_set e i used) (map_set i e out)"
  unfolding inverse_maps_def by (simp add: fun_upd_apply) (metis option.distinct(1) option.inject)

lemma map_concepts_ok:
  assumes "map_concepts lower fold_eq m used out cs = Inr res" and "maps_ok lower as m" and "inverse_maps used out"
    and "distinct (map fst (done @ cs))" and "list_all (concept_outcome lower as out) done" and "fst ` set out \<subseteq> fst ` set done"
  shows "\<exists>used'. inverse_maps used' res \<and> list_all (concept_outcome lower as res) (done @ cs) \<and> fst ` set res \<subseteq> fst ` set (done @ cs)"
  using assms
proof (induction cs arbitrary: used out "done")
  case Nil
  then show ?case by auto
next
  case (Cons c cs)
  obtain i s where c: "c = (i, s)" by (cases c)
  obtain r where r: "concept_mapping lower fold_eq m i s = Inr r"
    using Cons.prems(1) c by (auto split: sum.splits)
  note ok = concept_mapping_ok [OF Cons.prems(2) r]
  have fresh: "i \<notin> fst ` set done" "i \<notin> fst ` set out" using Cons.prems(4,6) c by auto
  then have none: "map_of out i = None" by (simp add: map_of_eq_None_iff)
  show ?case
  proof (cases r)
    case None
    then have rec: "map_concepts lower fold_eq m used out cs = Inr res" using Cons.prems(1) c r by simp
    have "list_all (concept_outcome lower as out) (done @ [c])"
      using Cons.prems(5) ok None none c by (simp add: concept_outcome_def)
    moreover have "fst ` set out \<subseteq> fst ` set (done @ [c])" using Cons.prems(6) by auto
    ultimately show ?thesis using Cons.IH [OF rec Cons.prems(2,3), of "done @ [c]"] Cons.prems(4) by simp
  next
    case (Some e)
    have unused: "map_of used e = None"
    proof (rule ccontr)
      assume "map_of used e \<noteq> None"
      then obtain j where j: "map_of used e = Some j" by auto
      then have "j = i" using Cons.prems(1) c r Some by (auto split: if_splits)
      then show False using Cons.prems(3) j none by (simp add: inverse_maps_def)
    qed
    then have rec: "map_concepts lower fold_eq m (map_set e i used) (map_set i e out) cs = Inr res"
      using Cons.prems(1) c r Some by simp
    have "list_all (concept_outcome lower as (map_set i e out)) (done @ [c])"
      using outcomes_other [OF Cons.prems(5) fresh(1)] ok Some c by (simp add: concept_outcome_def)
    moreover have "fst ` set (map_set i e out) \<subseteq> fst ` set (done @ [c])" using Cons.prems(6) c by auto
    ultimately show ?thesis
      using Cons.IH [OF rec Cons.prems(2) inverse_maps_add [OF Cons.prems(3) unused none], of "done @ [c]"] Cons.prems(4) by simp
  qed
qed

text \<open>
  C14. The entity map is one to one and follows the artifact: two concepts never get the same
  entity; a mapped concept gets the entity of the INDEX article with its slug, and no article that
  carries its ID has another one; a concept is left out only when its slug is that of an article
  without entity; and every active entity has an article.
\<close>

theorem entity_map_sound:
  "case mapSyntoEntityIDsFromIndexTruth lower fold_eq index concepts prior of
     Inl d \<Rightarrow> True
   | Inr out \<Rightarrow>
       (if map_wf concepts
        then inj_on (map_of out) (dom (map_of out)) \<and> dom (map_of out) \<subseteq> dom (map_of concepts) \<and>
          list_all (concept_outcome lower (it_articles index) out) concepts \<and>
          list_all (\<lambda>(e, _). \<exists>a\<in>set (it_articles index). \<exists>s. article_slug a s \<and> se_entity a = e) (it_active index)
        else True)"
proof (cases "mapSyntoEntityIDsFromIndexTruth lower fold_eq index concepts prior")
  case (Inr out)
  obtain m where m: "map_articles lower empty_maps (it_articles index) = Inr m"
    and active: "\<not> list_ex (\<lambda>(e, _). \<not> map_has (am_by_entity m) e) (it_active index)"
    and res: "map_concepts lower fold_eq m [] [] (sort_keys concepts) = Inr out"
    using Inr by (auto simp: mapSyntoEntityIDsFromIndexTruth_def split: if_splits option.splits sum.splits)
  have ok: "maps_ok lower (it_articles index) m" using map_articles_ok [OF m empty_maps_ok] by simp
  have bound: "list_all (\<lambda>(e, _). \<exists>a\<in>set (it_articles index). \<exists>s. article_slug a s \<and> se_entity a = e) (it_active index)"
    unfolding list_all_iff
  proof (clarify)
    fix e b
    assume "(e, b) \<in> set (it_active index)"
    then have "e \<in> fst ` set (am_by_entity m)" using active by (auto simp: list_ex_iff)
    then obtain s where "map_of (am_by_entity m) e = Some s" by (metis map_of_eq_None_iff not_None_eq)
    then show "\<exists>a\<in>set (it_articles index). \<exists>s. article_slug a s \<and> se_entity a = e"
      using ok unfolding maps_ok_def by_entity_ok_def by metis
  qed
  show ?thesis
  proof (cases "map_wf concepts")
    case True
    then have "distinct (map fst (sort_keys concepts))" using sort_keys_wf by (auto simp: map_wf_def)
    then obtain used where "inverse_maps used out" "list_all (concept_outcome lower (it_articles index) out) (sort_keys concepts)"
      "fst ` set out \<subseteq> fst ` set (sort_keys concepts)"
      using map_concepts_ok [OF res ok, of "[]"] by (simp add: inverse_maps_def) blast
    then have inv: "inverse_maps used out" and outc: "\<forall>p\<in>set concepts. concept_outcome lower (it_articles index) out p"
      and keys: "fst ` set out \<subseteq> fst ` set concepts" by (simp_all add: list_all_iff)
    have "inj_on (map_of out) (dom (map_of out))"
    proof (rule inj_onI)
      fix i j
      assume i: "i \<in> dom (map_of out)" and eq: "map_of out i = map_of out j"
      obtain e where e: "map_of out i = Some e" using i by (meson domD)
      then have "map_of used e = Some i" "map_of used e = Some j" using eq inv unfolding inverse_maps_def by metis+
      then show "i = j" by simp
    qed
    then show ?thesis using Inr True bound keys outc by (simp add: dom_map_of_conv_image_fst list_all_iff)
  qed (simp add: Inr)
qed simp

section \<open>Filling omitted entities\<close>

text \<open>What the lookup tables of the join say of the articles.\<close>

definition id_table :: "syntoIndexEntry list \<Rightarrow> (string, nat) gomap \<Rightarrow> bool" where
  "id_table as m \<longleftrightarrow> (\<forall>i n. map_of m i = Some n \<longrightarrow> n < length as \<and> se_id (as ! n) = i)"

definition path_table :: "syntoIndexEntry list \<Rightarrow> (string, nat) gomap \<Rightarrow> bool" where
  "path_table as m \<longleftrightarrow> (\<forall>p n. map_of m p = Some n \<longrightarrow> n < length as \<and> normalizeSyntoArticlePath (se_path (as ! n)) = Inr p)"

definition final_entity :: "syntoIndexEntry list \<Rightarrow> (nat, string) gomap \<Rightarrow> nat \<Rightarrow> string" where
  "final_entity as fills n = (if se_entity (as ! n) \<noteq> '''' then se_entity (as ! n) else map_get_or '''' fills n)"

definition entity_table :: "syntoIndexEntry list \<Rightarrow> (nat, string) gomap \<Rightarrow> (string, nat) gomap \<Rightarrow> bool" where
  "entity_table as fills m \<longleftrightarrow>
     (\<forall>e n. map_of m e = Some n \<longleftrightarrow> e \<noteq> '''' \<and> n < length as \<and> final_entity as fills n = e)"

lemma article_index_ok:
  assumes "article_index (length done) byID byPath ents as = Inr (byID', byPath', ents')"
    and "id_table done byID" and "path_table done byPath" and "entity_table done [] ents"
  shows "id_table (done @ as) byID' \<and> path_table (done @ as) byPath' \<and> entity_table (done @ as) [] ents'"
  using assms
proof (induction as arbitrary: "done" byID byPath ents)
  case Nil
  then show ?case by simp
next
  case (Cons a as)
  let ?n = "length done"
  let ?byID = "if se_id a \<noteq> '''' then map_set (se_id a) ?n byID else byID"
  let ?ents = "if se_entity a \<noteq> '''' then map_set (se_entity a) ?n ents else ents"
  obtain p where p: "normalizeSyntoArticlePath (se_path a) = Inr p"
    using Cons.prems(1) by (auto split: sum.splits)
  have fresh: "se_entity a \<noteq> '''' \<Longrightarrow> map_of ents (se_entity a) = None"
    using Cons.prems(1) p by (auto simp: map_of_eq_None_iff split: if_splits)
  have rec: "article_index (length (done @ [a])) ?byID (map_set p ?n byPath) ?ents as = Inr (byID', byPath', ents')"
    using Cons.prems(1) p by (simp split: if_splits)
  have "id_table (done @ [a]) ?byID"
    using Cons.prems(2) by (auto simp: id_table_def nth_append less_Suc_eq)
  moreover have "path_table (done @ [a]) (map_set p ?n byPath)"
    using Cons.prems(3) p by (auto simp: path_table_def nth_append less_Suc_eq)
  moreover have "entity_table (done @ [a]) [] ?ents"
    using Cons.prems(4) fresh unfolding entity_table_def final_entity_def map_get_or_def
    by (auto simp: nth_append less_Suc_eq) (metis option.distinct(1))+
  ultimately show ?case using Cons.IH [OF rec] by simp
qed

text \<open>A proof names an article by its ID and its path and binds it to a valid entity.\<close>

definition proven :: "syntoIndexEntry list \<Rightarrow> syntoAgentConcept list \<Rightarrow> nat \<Rightarrow> string \<Rightarrow> bool" where
  "proven as cs n e \<longleftrightarrow> n < length as \<and> ValidSyntoEntityID e \<and>
     (\<exists>c\<in>set cs. \<exists>p path. ac_entity c = e \<and> ac_article_id c = Some (se_id (as ! n)) \<and> ac_article_path c = Some p \<and>
        normalizeSyntoArticlePath p = Inr path \<and> normalizeSyntoArticlePath (se_path (as ! n)) = Inr path)"

definition proofs_ok :: "syntoIndexEntry list \<Rightarrow> syntoAgentConcept list \<Rightarrow> (string, nat) gomap \<Rightarrow> (proof_key \<times> string) list \<Rightarrow> bool" where
  "proofs_ok as cs byID proofs \<longleftrightarrow> list_all (\<lambda>((i, path), e). proven as cs (map_get_or 0 byID i) e) proofs"

lemma agent_proofs_ok:
  assumes "agent_proofs byID byPath proofs owners cs = Inr out" and "id_table as byID" and "path_table as byPath"
    and "proofs_ok as all byID proofs" and "set cs \<subseteq> set all"
  shows "proofs_ok as all byID out"
  using assms
proof (induction cs arbitrary: proofs owners)
  case Nil
  then show ?case by simp
next
  case (Cons c cs)
  have sub: "set cs \<subseteq> set all" and c: "c \<in> set all" using Cons.prems(5) by auto
  show ?case
  proof (cases "ac_article_id c = None \<and> ac_article_path c = None")
    case True
    then show ?thesis using Cons.IH [of proofs owners] Cons.prems sub by simp
  next
    case False
    then obtain i p where ip: "ac_article_id c = Some i" "ac_article_path c = Some p"
      using Cons.prems(1) by (auto split: option.splits)
    obtain path where path: "normalizeSyntoArticlePath p = Inr path"
      using Cons.prems(1) ip by (auto split: sum.splits)
    obtain n where n: "map_of byID i = Some n" "map_of byPath path = Some n" and e: "ValidSyntoEntityID (ac_entity c)"
      and rec: "agent_proofs byID byPath (map_set (i, path) (ac_entity c) proofs) (map_set (ac_entity c) (i, path) owners) cs = Inr out"
      using Cons.prems(1) ip path by (auto split: option.splits if_splits)
    have "n < length as" "se_id (as ! n) = i" "normalizeSyntoArticlePath (se_path (as ! n)) = Inr path"
      using n Cons.prems(2,3) by (auto simp: id_table_def path_table_def)
    then have "proven as all (map_get_or 0 byID i) (ac_entity c)"
      using n e c ip path by (auto simp: proven_def map_get_or_def)
    then have "proofs_ok as all byID (map_set (i, path) (ac_entity c) proofs)"
      using Cons.prems(4) unfolding proofs_ok_def by (intro list_all_map_set) auto
    then show ?thesis by (intro Cons.IH [OF rec Cons.prems(2,3) _ sub])
  qed
qed

definition fills_ok :: "syntoIndexEntry list \<Rightarrow> syntoAgentConcept list \<Rightarrow> (nat, string) gomap \<Rightarrow> bool" where
  "fills_ok as cs fills \<longleftrightarrow> list_all (\<lambda>(n, e). se_entity (as ! n) = '''' \<and> proven as cs n e) fills"

lemma ValidSyntoEntityID_nonempty: "ValidSyntoEntityID e \<Longrightarrow> e \<noteq> ''''"
  by (auto simp: ValidSyntoEntityID_def)

lemma entity_table_fill:
  assumes "entity_table as fills ents" and "se_entity (as ! n) = ''''" and "n < length as" and "e \<noteq> ''''"
    and "map_of ents e = None \<or> map_of ents e = Some n" and "map_of fills n = None \<or> map_of fills n = Some e"
  shows "entity_table as (map_set n e fills) (map_set e n ents)"
  unfolding entity_table_def
proof (intro allI)
  fix f k
  have old: "map_of ents g = Some l \<longleftrightarrow> g \<noteq> '''' \<and> l < length as \<and> final_entity as fills l = g" for g l
    using assms(1) by (simp add: entity_table_def)
  have other: "k \<noteq> n \<Longrightarrow> final_entity as (map_set n e fills) k = final_entity as fills k"
    by (simp add: final_entity_def map_get_or_def)
  have fe: "final_entity as (map_set n e fills) n = e" "final_entity as fills n = '''' \<or> final_entity as fills n = e"
    using assms(2,6) by (auto simp: final_entity_def map_get_or_def)
  show "map_of (map_set e n ents) f = Some k \<longleftrightarrow>
      f \<noteq> '''' \<and> k < length as \<and> final_entity as (map_set n e fills) k = f"
  proof (cases "k = n")
    case True
    then show ?thesis using fe assms(3,4) old [of f n] by (cases "f = e") auto
  next
    case False
    then show ?thesis using other old [of f k] assms(5) by (cases "f = e") auto
  qed
qed

lemma agent_fills_ok:
  assumes "agent_fills as byID ents fills proofs = Inr out" and "proofs_ok as cs byID proofs"
    and "fills_ok as cs fills" and "entity_table as fills ents"
  shows "fills_ok as cs out \<and> (\<exists>ents'. entity_table as out ents')"
  using assms
proof (induction proofs arbitrary: ents fills)
  case Nil
  then show ?case by auto
next
  case (Cons pr proofs)
  obtain i path e where pr: "pr = ((i, path), e)" by (metis prod.exhaust)
  let ?n = "map_get_or 0 byID i"
  have pv: "proven as cs ?n e" and tl: "proofs_ok as cs byID proofs"
    using Cons.prems(2) pr by (simp_all add: proofs_ok_def)
  show ?case
  proof (cases "se_entity (as ! ?n) = ''''")
    case False
    then show ?thesis using Cons.IH [of ents fills] Cons.prems tl pr by (simp add: Let_def)
  next
    case True
    then have ents: "map_of ents e = None \<or> map_of ents e = Some ?n"
      and fl: "map_of fills ?n = None \<or> map_of fills ?n = Some e"
      and rec: "agent_fills as byID (map_set e ?n ents) (map_set ?n e fills) proofs = Inr out"
      using Cons.prems(1) pr by (auto simp: Let_def split: if_splits option.splits)
    have "fills_ok as cs (map_set ?n e fills)"
      using Cons.prems(3) pv True unfolding fills_ok_def by (intro list_all_map_set) auto
    moreover have "entity_table as (map_set ?n e fills) (map_set e ?n ents)"
      using Cons.prems(4) True ents fl pv ValidSyntoEntityID_nonempty [of e]
      by (intro entity_table_fill) (auto simp: proven_def)
    ultimately show ?thesis by (rule Cons.IH [OF rec tl])
  qed
qed

text \<open>
  C30. Filling omitted entities is safe: only articles without an explicit entity are filled, each
  from an agent concept that names the article by both its ID and its path, and afterwards no two
  articles of the artifact carry the same entity.
\<close>

theorem agent_fills_sound:
  "case plan_agent_fills articles concepts of
     Inl e \<Rightarrow> True
   | Inr fills \<Rightarrow>
       fills_ok articles concepts fills \<and>
       inj_on (final_entity articles fills) {n. n < length articles \<and> final_entity articles fills n \<noteq> ''''}"
proof (cases "plan_agent_fills articles concepts")
  case (Inr fills)
  obtain byID byPath ents proofs where ix: "article_index (length ([] :: syntoIndexEntry list)) [] [] [] articles = Inr (byID, byPath, ents)"
    and pr: "agent_proofs byID byPath [] [] concepts = Inr proofs" and fl: "agent_fills articles byID ents [] proofs = Inr fills"
    using Inr by (auto simp: plan_agent_fills_def split: sum.splits)
  have t: "id_table articles byID" "path_table articles byPath" "entity_table articles [] ents"
    using article_index_ok [of "[]", OF ix] by (simp_all add: id_table_def path_table_def entity_table_def)
  have "proofs_ok articles concepts byID proofs"
    by (rule agent_proofs_ok [OF pr t(1,2)]) (simp_all add: proofs_ok_def)
  then obtain ents' where "fills_ok articles concepts fills" and e: "entity_table articles fills ents'"
    using agent_fills_ok [OF fl _ _ t(3)] by (auto simp: fills_ok_def)
  moreover have "inj_on (final_entity articles fills) {n. n < length articles \<and> final_entity articles fills n \<noteq> ''''}"
    using e unfolding entity_table_def inj_on_def by (metis (mono_tags, lifting) mem_Collect_eq option.inject)
  ultimately show ?thesis using Inr by simp
qed simp

end
