(* ===== verification/ConceptIds.thy ===== *)
theory ConceptIds
  imports SourceReconcile EntityMap
begin

text \<open>
  Concept identities across a run (\<open>cmd/olw_worker/concept_reconcile.go\<close>, \<open>synto_adapter.go\<close>). The
  snapshots of the prior concepts are read from the ID map of the workspace; after the run
  \<open>reconcileConceptIDMapWithEntities\<close> gives every generated concept the ID of the prior concept with
  its entity, else with its slug, and moves the entities and redirects with it; and
  \<open>planConceptLifecycle\<close> decides which concepts become dormant and what happens to their pages.
\<close>

section \<open>Prior concepts\<close>

record reconciledConcept =
  rn_current :: string
  rn_stable :: string
  rn_slug :: string

fun entity_map_loop :: "idMap \<Rightarrow> (string, string) gomap \<Rightarrow> (string \<times> string) list \<Rightarrow> gerr option" where
  "entity_map_loop ids seen [] = None"
| "entity_map_loop ids seen ((conceptID, entityID) # es) =
     (if \<not> ValidSourceID conceptID \<or> \<not> ValidSyntoEntityID entityID then Some (Msg ''unsafe concept entity mapping'')
      else if \<not> map_has (im_concept ids) conceptID \<and> \<not> map_has (im_dormant ids) conceptID
      then Some (Msg ''concept entity mapping has unknown LWC ID'')
      else if map_has seen entityID \<and> map_get_or '''' seen entityID \<noteq> conceptID
      then Some (Msg ''Synto entity_id maps to multiple LWC IDs'')
      else entity_map_loop ids (map_set entityID conceptID seen) es)"

definition validateConceptEntityMap :: "idMap \<Rightarrow> gerr option" where
  "validateConceptEntityMap ids = entity_map_loop ids [] (im_entity ids)"

definition maxConceptSourceRefs :: nat where "maxConceptSourceRefs = 64"

text \<open>
  \<open>exactConceptSourcePaths\<close>: the references of the front matter, the two tables of the prior
  sources, and one path for every reference. A nil result is the empty list.
\<close>

fun ref_values :: "gval list \<Rightarrow> string list option" where
  "ref_values [] = Some []"
| "ref_values (VStr s # vs) = (case ref_values vs of None \<Rightarrow> None | Some ss \<Rightarrow> Some (s # ss))"
| "ref_values (_ # vs) = None"

definition concept_refs :: "(string, gval) gomap \<Rightarrow> string \<Rightarrow> string list option" where
  "concept_refs matter key =
     (case map_of matter key of
        None \<Rightarrow> Some []
      | Some (VStr s) \<Rightarrow> Some [s]
      | Some (VList vs) \<Rightarrow> (if vs = [] then None else ref_values vs)
      | Some _ \<Rightarrow> None)"

fun source_tables ::
  "(string, string) gomap \<Rightarrow> (string, string) gomap \<Rightarrow> sourceSnapshot list
   \<Rightarrow> ((string, string) gomap \<times> (string, string) gomap) option" where
  "source_tables byID byRaw [] = Some (byID, byRaw)"
| "source_tables byID byRaw (s # ss) =
     (if \<not> ValidSourceID (ss_source_id s) \<or> \<not> safeMappedRawPath (ss_raw_path s) then None
      else if map_has byID (ss_source_id s) \<and> map_get_or '''' byID (ss_source_id s) \<noteq> ss_raw_path s then None
      else if map_has byRaw (ss_raw_path s) \<and> map_get_or '''' byRaw (ss_raw_path s) \<noteq> ss_source_id s then None
      else source_tables (map_set (ss_source_id s) (ss_raw_path s) byID) (map_set (ss_raw_path s) (ss_source_id s) byRaw) ss)"

fun resolve_refs :: "(string, string) gomap \<Rightarrow> (string, string) gomap \<Rightarrow> string list \<Rightarrow> string list \<Rightarrow> string list option" where
  "resolve_refs byID byRaw paths [] = Some paths"
| "resolve_refs byID byRaw paths (ref # refs) =
     (if ref = '''' \<or> trim_space ref \<noteq> ref \<or> (\<not> ValidSourceID ref \<and> \<not> safeMappedRawPath ref) then None
      else (case (case map_of byID ref of Some path \<Rightarrow> Some path | None \<Rightarrow> if map_has byRaw ref then Some ref else None) of
              None \<Rightarrow> None
            | Some path \<Rightarrow> if path \<in> set paths then None else resolve_refs byID byRaw (paths @ [path]) refs))"

definition exactConceptSourcePaths :: "pageEnv \<Rightarrow> string \<Rightarrow> sourceSnapshot list \<Rightarrow> string list" where
  "exactConceptSourcePaths env page priorSources =
     (if page = '''' \<or> \<not> has_prefix page ''---'' \<or> priorSources = [] then []
      else (case pg_map env page of
              Inl e \<Rightarrow> []
            | Inr (matter, _) \<Rightarrow>
                (case (concept_refs matter ''sources'', concept_refs matter ''source'') of
                   (Some r1, Some r2) \<Rightarrow>
                     (let refs = r1 @ r2
                      in if refs = [] \<or> length refs > maxConceptSourceRefs then []
                         else (case source_tables [] [] priorSources of
                                 None \<Rightarrow> []
                               | Some (byID, byRaw) \<Rightarrow>
                                   (case resolve_refs byID byRaw [] refs of
                                      None \<Rightarrow> []
                                    | Some paths \<Rightarrow> sort_strings paths)))
                 | _ \<Rightarrow> [])))"

definition decodeStrictConceptCacheRow :: "json_stream \<Rightarrow> index_error + (string \<times> json) list" where
  "decodeStrictConceptCacheRow dec =
     (case stream_value dec of
        Inl e \<Rightarrow> Inl (IndexJson e)
      | Inr (v, rest) \<Rightarrow>
          (case decodeStrictJSONValue v of
             Inl e \<Rightarrow> Inl e
           | Inr v' \<Rightarrow>
               (case EnsureJSONEOF rest of
                  Inl e \<Rightarrow> Inl (IndexJson e)
                | Inr _ \<Rightarrow>
                    (case v' of
                       JObj row \<Rightarrow> Inr row
                     | _ \<Rightarrow> Inl (IndexError ''concepts cache row must be a JSON object'')))))"

fun find_cache_row :: "(string \<Rightarrow> json_stream) \<Rightarrow> string \<Rightarrow> string list \<Rightarrow> gerr + string" where
  "find_cache_row parse slug [] = Inr ''''"
| "find_cache_row parse slug (l # ls) =
     (let line = trim_space l
      in if line = '''' then find_cache_row parse slug ls
         else (case decodeStrictConceptCacheRow (parse line) of
                 Inl e \<Rightarrow> Inl (Msg ''decode prior concept cache'')
               | Inr row \<Rightarrow>
                   (if map_of row ''slug'' = Some (JStr slug) then Inr line else find_cache_row parse slug ls)))"

definition readConceptCacheRow :: "(string \<Rightarrow> json_stream) \<Rightarrow> workspace \<Rightarrow> string \<Rightarrow> bool \<Rightarrow> gerr + string" where
  "readConceptCacheRow parse ws slug dormant =
     (case readBoundedRegularFileWithin ws (if dormant then ''cache/dormant_concepts.jsonl'' else ''cache/concepts.jsonl'') of
        FileMissing \<Rightarrow> Inr ''''
      | FileError e \<Rightarrow> Inl (Wrapped ''read prior concept cache'' e)
      | FileContents data \<Rightarrow> find_cache_row parse slug (split_on (CHR 0x0A) data))"

text \<open>
  \<open>snapshotConcepts\<close>: one snapshot per active or dormant concept, in the order of their IDs. The
  first one carries the table of ID redirects.
\<close>

definition dormant_page :: "string \<Rightarrow> string" where
  "dormant_page slug = path_clean (''wiki/.dormant/'' @ slug @ ''.md'')"

fun snapshot_concepts_loop ::
  "pageEnv \<Rightarrow> workspace \<Rightarrow> sourceSnapshot list option \<Rightarrow> idMap \<Rightarrow> (string, string) gomap \<Rightarrow> conceptSnapshot list
   \<Rightarrow> string list \<Rightarrow> gerr + conceptSnapshot list" where
  "snapshot_concepts_loop env ws sources ids seenSlug out [] = Inr out"
| "snapshot_concepts_loop env ws sources ids seenSlug out (conceptID # cs) =
     (let active = map_get_or '''' (im_concept ids) conceptID;
          dormant = (active = '''');
          slug = (if dormant then map_get_or '''' (im_dormant ids) conceptID else active)
      in if \<not> ValidSourceID conceptID \<or> \<not> safeConceptSlug slug then Inl (Msg ''unsafe prior concept mapping'')
         else if map_has seenSlug slug \<and> map_get_or '''' seenSlug slug \<noteq> conceptID
         then Inl (Msg ''duplicate prior concept slug'')
         else (case readBoundedRegularFileWithin ws (if dormant then dormant_page slug else article_page slug) of
                 FileError e \<Rightarrow> Inl (Wrapped ''read prior concept page'' e)
               | r \<Rightarrow>
                   (let page = (case r of FileContents d \<Rightarrow> d | _ \<Rightarrow> '''')
                    in case readConceptCacheRow (pg_lex env) ws slug dormant of
                         Inl e \<Rightarrow> Inl e
                       | Inr row \<Rightarrow>
                           snapshot_concepts_loop env ws sources ids (map_set slug conceptID seenSlug)
                             (out @ [\<lparr>cs_id = conceptID, cs_slug = slug, cs_entity = map_get_or '''' (im_entity ids) conceptID,
                                      cs_dormant = dormant, cs_page = page, cs_cache_row = row,
                                      cs_source_paths = (case sources of None \<Rightarrow> [] | Some ss \<Rightarrow> exactConceptSourcePaths env page ss),
                                      cs_redirects = (if out = [] then im_id_redirects ids else [])\<rparr>]) cs)))"

definition snapshotConcepts :: "pageEnv \<Rightarrow> workspace \<Rightarrow> sourceSnapshot list option \<Rightarrow> gerr + conceptSnapshot list" where
  "snapshotConcepts env ws sources =
     (case readBoundedRegularFileWithin ws IDMapPath of
        FileMissing \<Rightarrow> Inr []
      | FileError e \<Rightarrow> Inl (Wrapped ''read prior concept map'' e)
      | FileContents data \<Rightarrow>
          (case DecodeIDMap (pg_lex env data) of
             Inl e \<Rightarrow> Inl (Msg ''decode prior concept map'')
           | Inr ids \<Rightarrow>
               (case validateConceptEntityMap ids of
                  Some e \<Rightarrow> Inl (Wrapped ''validate prior concept map'' e)
                | None \<Rightarrow>
                    (if list_ex (\<lambda>(i, _). map_has (im_concept ids) i) (im_dormant ids)
                     then Inl (Msg ''concept ID is both active and dormant'')
                     else snapshot_concepts_loop env ws sources ids [] []
                            (sort_strings (map fst (im_concept ids) @ map fst (im_dormant ids)))))))"

section \<open>The reconciled ID map\<close>

text \<open>The tables of the prior concepts: ID by slug, ID by entity, slug by ID.\<close>

record conceptTables =
  ct_by_slug :: "(string, string) gomap"
  ct_by_entity :: "(string, string) gomap"
  ct_reserved :: "(string, string) gomap"

fun concept_tables :: "conceptTables \<Rightarrow> conceptSnapshot list \<Rightarrow> gerr + conceptTables" where
  "concept_tables t [] = Inr t"
| "concept_tables t (c # cs) =
     (if \<not> ValidSourceID (cs_id c) \<or> \<not> safeConceptSlug (cs_slug c) then Inl (Msg ''unsafe prior concept mapping'')
      else if map_has (ct_by_slug t) (cs_slug c) \<and> map_get_or '''' (ct_by_slug t) (cs_slug c) \<noteq> cs_id c
      then Inl (Msg ''duplicate prior concept slug'')
      else if map_has (ct_reserved t) (cs_id c) \<and> map_get_or '''' (ct_reserved t) (cs_id c) \<noteq> cs_slug c
      then Inl (Msg ''concept ID is reserved'')
      else if cs_entity c \<noteq> '''' \<and> \<not> ValidSyntoEntityID (cs_entity c) then Inl (Msg ''unsafe prior concept entity mapping'')
      else if cs_entity c \<noteq> '''' \<and> map_has (ct_by_entity t) (cs_entity c) \<and>
              map_get_or '''' (ct_by_entity t) (cs_entity c) \<noteq> cs_id c
      then Inl (Msg ''entity_id maps to multiple LWC IDs'')
      else concept_tables
             \<lparr>ct_by_slug = map_set (cs_slug c) (cs_id c) (ct_by_slug t),
              ct_by_entity = (if cs_entity c \<noteq> '''' then map_set (cs_entity c) (cs_id c) (ct_by_entity t) else ct_by_entity t),
              ct_reserved = map_set (cs_id c) (cs_slug c) (ct_reserved t)\<rparr> cs)"

definition empty_tables :: conceptTables where
  "empty_tables = \<lparr>ct_by_slug = [], ct_by_entity = [], ct_reserved = []\<rparr>"

definition priorByID :: "conceptSnapshot list \<Rightarrow> string \<Rightarrow> conceptSnapshot option" where
  "priorByID prior i = find (\<lambda>c. cs_id c = i) prior"

record conceptState =
  cn_concepts :: "reconciledConcept list"
  cn_translated :: "(string, string) gomap"
  cn_used :: "(string, string) gomap"
  cn_seen_slug :: "(string, string) gomap"

text \<open>The stable ID of one generated concept: by entity, else by slug, else its own.\<close>

definition stable_concept_id ::
  "conceptTables \<Rightarrow> conceptSnapshot list \<Rightarrow> bool \<Rightarrow> string \<Rightarrow> string \<Rightarrow> string \<Rightarrow> gerr + string" where
  "stable_concept_id t prior requireEntity entityID slug currentID =
     (if entityID \<noteq> '''' \<and> map_has (ct_by_entity t) entityID then Inr (map_get_or '''' (ct_by_entity t) entityID)
      else (case map_of (ct_by_slug t) slug of
              None \<Rightarrow> Inr currentID
            | Some priorID \<Rightarrow>
                (let priorEntity = (case priorByID prior priorID of Some c \<Rightarrow> cs_entity c | None \<Rightarrow> '''')
                 in if requireEntity \<and> priorEntity \<noteq> '''' \<and> priorEntity \<noteq> entityID
                    then Inl (Msg ''Synto entity mapping changed'') else Inr priorID)))"

definition reconcile_concept ::
  "conceptTables \<Rightarrow> conceptSnapshot list \<Rightarrow> bool \<Rightarrow> idMap \<Rightarrow> string \<Rightarrow> conceptState \<Rightarrow> gerr + conceptState" where
  "reconcile_concept t prior requireEntity ids currentID st =
     (let generated = map_get_or '''' (im_concept ids) currentID; slug = trim_space generated
      in if \<not> ValidSourceID currentID \<or> \<not> safeConceptSlug slug \<or> slug \<noteq> generated
         then Inl (Msg ''unsafe generated concept mapping'')
         else if map_has (cn_seen_slug st) slug then Inl (Msg ''duplicate generated concept slug'')
         else (let entityID = trim_space (map_get_or '''' (im_entity ids) currentID)
               in if requireEntity \<and> entityID = '''' then Inl (Msg ''missing Synto entity_id'')
                  else if entityID \<noteq> '''' \<and> \<not> ValidSyntoEntityID entityID then Inl (Msg ''unsafe Synto entity_id'')
                  else (case stable_concept_id t prior requireEntity entityID slug currentID of
                          Inl e \<Rightarrow> Inl e
                        | Inr stableID \<Rightarrow>
                            (if \<not> ValidSourceID stableID then Inl (Msg ''unsafe reconciled concept ID'')
                             else if map_has (cn_used st) stableID \<and> map_get_or '''' (cn_used st) stableID \<noteq> slug
                             then Inl (Msg ''concept ID collision'')
                             else if map_has (ct_reserved t) stableID \<and> map_get_or '''' (ct_reserved t) stableID \<noteq> slug \<and>
                                     map_get_or '''' (ct_by_entity t) entityID \<noteq> stableID
                             then Inl (Msg ''concept ID is reserved'')
                             else Inr \<lparr>cn_concepts = cn_concepts st @ [\<lparr>rn_current = currentID, rn_stable = stableID, rn_slug = slug\<rparr>],
                                       cn_translated = map_set currentID stableID (cn_translated st),
                                       cn_used = map_set stableID slug (cn_used st),
                                       cn_seen_slug = map_set slug currentID (cn_seen_slug st)\<rparr>))))"

fun reconcile_concepts_loop ::
  "conceptTables \<Rightarrow> conceptSnapshot list \<Rightarrow> bool \<Rightarrow> idMap \<Rightarrow> string list \<Rightarrow> conceptState \<Rightarrow> gerr + conceptState" where
  "reconcile_concepts_loop t prior requireEntity ids [] st = Inr st"
| "reconcile_concepts_loop t prior requireEntity ids (currentID # cs) st =
     (case reconcile_concept t prior requireEntity ids currentID st of
        Inl e \<Rightarrow> Inl e
      | Inr st' \<Rightarrow> reconcile_concepts_loop t prior requireEntity ids cs st')"

definition empty_concepts :: conceptState where
  "empty_concepts = \<lparr>cn_concepts = [], cn_translated = [], cn_used = [], cn_seen_slug = []\<rparr>"

text \<open>The entity of a reconciled concept: its own, else that of the prior concept of its slug.\<close>

definition prior_entities :: "conceptSnapshot list \<Rightarrow> (string, string) gomap" where
  "prior_entities prior = foldl (\<lambda>m c. if cs_entity c \<noteq> '''' then map_set (cs_slug c) (cs_entity c) m else m) [] prior"

definition next_entity :: "idMap \<Rightarrow> (string, string) gomap \<Rightarrow> reconciledConcept \<Rightarrow> string" where
  "next_entity ids priorEntityBySlug r =
     (let entityID = map_get_or '''' (im_entity ids) (rn_current r)
      in if entityID = '''' then map_get_or '''' priorEntityBySlug (rn_slug r) else entityID)"

fun next_concept_maps ::
  "idMap \<Rightarrow> (string, string) gomap \<Rightarrow> reconciledConcept list \<Rightarrow> (string, string) gomap \<Rightarrow> (string, string) gomap
   \<Rightarrow> gerr + (string, string) gomap \<times> (string, string) gomap" where
  "next_concept_maps ids pe [] nextConcept nextEntity = Inr (nextConcept, nextEntity)"
| "next_concept_maps ids pe (r # rs) nextConcept nextEntity =
     (let nc = map_set (rn_stable r) (rn_slug r) nextConcept; entityID = next_entity ids pe r
      in if entityID = '''' then next_concept_maps ids pe rs nc nextEntity
         else if \<not> ValidSyntoEntityID entityID then Inl (Msg ''unsafe Synto entity_id'')
         else if map_has nextEntity (rn_stable r) \<and> map_get_or '''' nextEntity (rn_stable r) \<noteq> entityID
         then Inl (Msg ''Synto entity_id collision'')
         else next_concept_maps ids pe rs nc (map_set (rn_stable r) entityID nextEntity))"

text \<open>The redirects of IDs follow the translations; the redirects of slugs only change their keys.\<close>

fun concept_id_redirects ::
  "(string, string) gomap \<Rightarrow> (string, string) gomap \<Rightarrow> string list \<Rightarrow> (string, string) gomap
   \<Rightarrow> gerr + (string, string) gomap" where
  "concept_id_redirects translated redirects [] out = Inr out"
| "concept_id_redirects translated redirects (from # froms) out =
     (if \<not> ValidSourceID from then Inl (Msg ''unsafe ID redirect source'')
      else (let target = trim_space (map_get_or '''' redirects from)
            in if target = '''' \<or> \<not> ValidSourceID target then Inl (Msg ''unsafe ID redirect target'')
               else (let newFrom = normalizeTranslatedID from translated; newTarget = normalizeTranslatedID target translated
                     in if \<not> ValidSourceID newFrom then Inl (Msg ''unsafe ID redirect source'')
                        else if \<not> ValidSourceID newTarget then Inl (Msg ''unsafe ID redirect target'')
                        else if map_has out newFrom \<and> map_get_or '''' out newFrom \<noteq> newTarget
                        then Inl (Msg ''ID redirect collision'')
                        else concept_id_redirects translated redirects froms (map_set newFrom newTarget out))))"

fun check_id_redirects ::
  "(string, string) gomap \<Rightarrow> (string, string) gomap \<Rightarrow> (string, string) gomap \<Rightarrow> bool \<Rightarrow> (string \<times> string) list \<Rightarrow> gerr option" where
  "check_id_redirects concepts entities redirects requireEntity [] = None"
| "check_id_redirects concepts entities redirects requireEntity ((source, target) # rs) =
     (if map_has concepts source then Some (Msg ''ID redirect source is an active concept'')
      else if map_has redirects target then Some (Msg ''ID redirect chain detected'')
      else if \<not> map_has concepts target then Some (Msg ''ID redirect target not found'')
      else if requireEntity \<and> map_get_or '''' entities target = '''' then Some (Msg ''ID redirect target is not entity-bound'')
      else check_id_redirects concepts entities redirects requireEntity rs)"

fun concept_slug_redirects ::
  "(string, string) gomap \<Rightarrow> (string, string list) gomap \<Rightarrow> string list \<Rightarrow> (string, string list) gomap
   \<Rightarrow> gerr + (string, string list) gomap" where
  "concept_slug_redirects translated redirects [] out = Inr out"
| "concept_slug_redirects translated redirects (from # froms) out =
     (let targets = map_get_or [] redirects from; newFrom = normalizeTranslatedID from translated
      in if \<not> ValidSourceID from then Inl (Msg ''unsafe redirect key'')
         else if \<not> list_all safeConceptSlug targets then Inl (Msg ''unsafe redirect target'')
         else if \<not> ValidSourceID newFrom then Inl (Msg ''unsafe redirect key'')
         else if map_has out newFrom \<and> map_get_or [] out newFrom \<noteq> targets then Inl (Msg ''redirect ID collision'')
         else concept_slug_redirects translated redirects froms (map_set newFrom targets out))"

text \<open>\<open>reconcileConceptIDMapWithEntities\<close>; the caller writes the returned map with \<open>json.MarshalIndent\<close>.\<close>

definition reconcileConceptIDMapWithEntities ::
  "json_stream \<Rightarrow> conceptSnapshot list \<Rightarrow> bool \<Rightarrow> gerr + idMap \<times> reconciledConcept list" where
  "reconcileConceptIDMapWithEntities data prior requireEntity =
     (case concept_tables empty_tables prior of
        Inl e \<Rightarrow> Inl e
      | Inr t \<Rightarrow>
          (case DecodeIDMap data of
             Inl e \<Rightarrow> Inl (Msg ''decode generated concept map'')
           | Inr ids \<Rightarrow>
               (case validateConceptEntityMap ids of
                  Some e \<Rightarrow> Inl (Wrapped ''validate generated concept map'' e)
                | None \<Rightarrow>
                    (case reconcile_concepts_loop t prior requireEntity ids (sort_strings (map fst (im_concept ids))) empty_concepts of
                       Inl e \<Rightarrow> Inl e
                     | Inr st \<Rightarrow>
                         (case next_concept_maps ids (prior_entities prior) (cn_concepts st) [] [] of
                            Inl e \<Rightarrow> Inl e
                          | Inr (concepts, entities) \<Rightarrow>
                              (case concept_id_redirects (cn_translated st) (im_id_redirects ids)
                                      (sort_strings (map fst (im_id_redirects ids))) [] of
                                 Inl e \<Rightarrow> Inl e
                               | Inr idRedirects \<Rightarrow>
                                   (case check_id_redirects concepts entities idRedirects requireEntity idRedirects of
                                      Some e \<Rightarrow> Inl e
                                    | None \<Rightarrow>
                                        (case concept_slug_redirects (cn_translated st) (im_redirects ids)
                                                (sort_strings (map fst (im_redirects ids))) [] of
                                           Inl e \<Rightarrow> Inl e
                                         | Inr redirects \<Rightarrow>
                                             Inr (ids\<lparr>im_concept := concepts, im_entity := entities,
                                                      im_id_redirects := idRedirects, im_redirects := redirects\<rparr>,
                                                  sort_by (\<lambda>a b. rn_slug a < rn_slug b) (cn_concepts st))))))))))"

section \<open>Every concept keeps its ID\<close>

definition grows :: "('k, 'v) gomap \<Rightarrow> ('k, 'v) gomap \<Rightarrow> bool" where
  "grows m m' \<longleftrightarrow> (\<forall>k v. map_of m k = Some v \<longrightarrow> map_of m' k = Some v)"

lemma grows_refl [simp, intro]: "grows m m"
  by (simp add: grows_def)

lemma grows_set: "\<not> (map_has m k \<and> map_get_or d m k \<noteq> v) \<Longrightarrow> grows m (map_set k v m)"
  using no_other_value [of m k d v] by (auto simp: grows_def)

lemma growsD: "grows m m' \<Longrightarrow> map_of m k = Some v \<Longrightarrow> map_of m' k = Some v"
  by (simp add: grows_def)

lemma grows_trans: "grows m1 m2 \<Longrightarrow> grows m2 m3 \<Longrightarrow> grows m1 m3"
  by (simp add: grows_def)

lemma concept_tables_grow:
  assumes "concept_tables t cs = Inr t'"
  shows "grows (ct_by_slug t) (ct_by_slug t') \<and> grows (ct_reserved t) (ct_reserved t') \<and> grows (ct_by_entity t) (ct_by_entity t') \<and>
    (\<forall>c \<in> set cs. map_of (ct_by_slug t') (cs_slug c) = Some (cs_id c) \<and> map_of (ct_reserved t') (cs_id c) = Some (cs_slug c) \<and>
       (cs_entity c \<noteq> '''' \<longrightarrow> map_of (ct_by_entity t') (cs_entity c) = Some (cs_id c)))"
  using assms
proof (induction cs arbitrary: t)
  case (Cons c cs)
  define t1 where "t1 = \<lparr>ct_by_slug = map_set (cs_slug c) (cs_id c) (ct_by_slug t),
     ct_by_entity = (if cs_entity c \<noteq> '''' then map_set (cs_entity c) (cs_id c) (ct_by_entity t) else ct_by_entity t),
     ct_reserved = map_set (cs_id c) (cs_slug c) (ct_reserved t)\<rparr>"
  have rec: "concept_tables t1 cs = Inr t'"
    and g: "grows (ct_by_slug t) (ct_by_slug t1)" "grows (ct_reserved t) (ct_reserved t1)"
      "grows (ct_by_entity t) (ct_by_entity t1)"
    using Cons.prems grows_set [of "ct_by_slug t" "cs_slug c" "''''" "cs_id c"]
      grows_set [of "ct_reserved t" "cs_id c" "''''" "cs_slug c"]
      grows_set [of "ct_by_entity t" "cs_entity c" "''''" "cs_id c"]
    by (simp_all add: t1_def del: map_has_iff split: if_split_asm)
  have here: "map_of (ct_by_slug t1) (cs_slug c) = Some (cs_id c)" "map_of (ct_reserved t1) (cs_id c) = Some (cs_slug c)"
    "cs_entity c \<noteq> '''' \<Longrightarrow> map_of (ct_by_entity t1) (cs_entity c) = Some (cs_id c)"
    by (simp_all add: t1_def)
  from Cons.IH [OF rec] g here show ?case by (auto intro: grows_trans growsD)
qed simp

lemma concept_tables_from:
  assumes "concept_tables t cs = Inr t'"
  shows "(map_of (ct_by_slug t') s = Some i \<longrightarrow> map_of (ct_by_slug t) s = Some i \<or> (\<exists>c \<in> set cs. cs_slug c = s \<and> cs_id c = i)) \<and>
    (map_of (ct_by_entity t') e = Some i \<longrightarrow> map_of (ct_by_entity t) e = Some i \<or>
       (\<exists>c \<in> set cs. cs_entity c = e \<and> cs_id c = i \<and> e \<noteq> ''''))"
  using assms
proof (induction cs arbitrary: t)
  case (Cons c cs)
  from Cons.prems have "concept_tables \<lparr>ct_by_slug = map_set (cs_slug c) (cs_id c) (ct_by_slug t),
     ct_by_entity = (if cs_entity c \<noteq> '''' then map_set (cs_entity c) (cs_id c) (ct_by_entity t) else ct_by_entity t),
     ct_reserved = map_set (cs_id c) (cs_slug c) (ct_reserved t)\<rparr> cs = Inr t'"
    by (simp del: map_has_iff split: if_split_asm)
  from Cons.IH [OF this] show ?case by (auto split: if_split_asm)
qed simp

text \<open>What the loop establishes for one generated concept.\<close>

abbreviation entity_of :: "idMap \<Rightarrow> string \<Rightarrow> string" where
  "entity_of ids i \<equiv> map_get_or '''' (im_entity ids) i"

definition concept_ok :: "conceptTables \<Rightarrow> conceptSnapshot list \<Rightarrow> bool \<Rightarrow> idMap \<Rightarrow> reconciledConcept \<Rightarrow> bool" where
  "concept_ok t prior requireEntity ids r \<longleftrightarrow>
     rn_slug r = map_get_or '''' (im_concept ids) (rn_current r) \<and> safeConceptSlug (rn_slug r) \<and> ValidSourceID (rn_stable r) \<and>
     (requireEntity \<longrightarrow> trim_space (entity_of ids (rn_current r)) \<noteq> '''') \<and>
     stable_concept_id t prior requireEntity (trim_space (entity_of ids (rn_current r))) (rn_slug r) (rn_current r) =
       Inr (rn_stable r) \<and>
     (\<forall>s. map_of (ct_reserved t) (rn_stable r) = Some s \<longrightarrow>
        s = rn_slug r \<or> map_get_or '''' (ct_by_entity t) (trim_space (entity_of ids (rn_current r))) = rn_stable r)"

definition concepts_inv ::
  "conceptTables \<Rightarrow> conceptSnapshot list \<Rightarrow> bool \<Rightarrow> idMap \<Rightarrow> string list \<Rightarrow> conceptState \<Rightarrow> bool" where
  "concepts_inv t prior requireEntity ids seen st \<longleftrightarrow>
     map rn_current (cn_concepts st) = seen \<and>
     cn_used st = map (\<lambda>r. (rn_stable r, rn_slug r)) (cn_concepts st) \<and>
     cn_seen_slug st = map (\<lambda>r. (rn_slug r, rn_current r)) (cn_concepts st) \<and>
     distinct (map rn_stable (cn_concepts st)) \<and> distinct (map rn_slug (cn_concepts st)) \<and>
     list_all (concept_ok t prior requireEntity ids) (cn_concepts st)"

lemma reconcile_concept_inv:
  assumes i: "concepts_inv t prior requireEntity ids seen st"
    and run: "reconcile_concept t prior requireEntity ids currentID st = Inr st'"
  shows "concepts_inv t prior requireEntity ids (seen @ [currentID]) st'"
proof -
  define slug where "slug = map_get_or '''' (im_concept ids) currentID"
  define e where "e = trim_space (entity_of ids currentID)"
  from run obtain stable where stable: "stable_concept_id t prior requireEntity e slug currentID = Inr stable"
    by (auto simp: reconcile_concept_def Let_def slug_def e_def split: if_splits sum.splits)
  define r where "r = \<lparr>rn_current = currentID, rn_stable = stable, rn_slug = slug\<rparr>"
  have safe: "safeConceptSlug slug" "\<not> map_has (cn_seen_slug st) slug" "ValidSourceID stable" "requireEntity \<Longrightarrow> e \<noteq> ''''"
    and used: "\<not> (map_has (cn_used st) stable \<and> map_get_or '''' (cn_used st) stable \<noteq> slug)"
    and res: "\<not> (map_has (ct_reserved t) stable \<and> map_get_or '''' (ct_reserved t) stable \<noteq> slug \<and>
       map_get_or '''' (ct_by_entity t) e \<noteq> stable)"
    and st': "st' = \<lparr>cn_concepts = cn_concepts st @ [r], cn_translated = map_set currentID stable (cn_translated st),
       cn_used = map_set stable slug (cn_used st), cn_seen_slug = map_set slug currentID (cn_seen_slug st)\<rparr>"
    using run stable unfolding reconcile_concept_def Let_def slug_def [symmetric] e_def [symmetric]
    by (simp_all add: r_def del: map_has_iff split: if_split_asm)
  have newslug: "slug \<notin> rn_slug ` set (cn_concepts st)"
    using safe(2) i by (force simp: concepts_inv_def)
  have newstable: "stable \<notin> rn_stable ` set (cn_concepts st)"
  proof
    assume "stable \<in> rn_stable ` set (cn_concepts st)"
    then have "stable \<in> fst ` set (cn_used st)" using i by (force simp: concepts_inv_def)
    then obtain s where s: "map_of (cn_used st) stable = Some s" by (auto simp: in_keys_iff)
    with used have "s = slug" using no_other_value by metis
    with s have "(stable, slug) \<in> set (cn_used st)" by (simp add: map_of_SomeD)
    then have "slug \<in> rn_slug ` set (cn_concepts st)" using i by (force simp: concepts_inv_def)
    with newslug show False by blast
  qed
  have sets: "map_set stable slug (map (\<lambda>r. (rn_stable r, rn_slug r)) (cn_concepts st)) =
      map (\<lambda>r. (rn_stable r, rn_slug r)) (cn_concepts st) @ [(stable, slug)]"
    "map_set slug currentID (map (\<lambda>r. (rn_slug r, rn_current r)) (cn_concepts st)) =
      map (\<lambda>r. (rn_slug r, rn_current r)) (cn_concepts st) @ [(slug, currentID)]"
    using newslug newstable by (auto intro!: map_set_fresh)
  have "s = slug \<or> map_get_or '''' (ct_by_entity t) e = stable" if "map_of (ct_reserved t) stable = Some s" for s
    using res that by (auto simp: map_has_def map_get_or_Some simp del: map_has_iff)
  then have ok: "concept_ok t prior requireEntity ids r"
    using safe stable by (simp add: concept_ok_def r_def slug_def [symmetric] e_def [symmetric])
  show ?thesis using i newslug newstable ok
    by (simp add: concepts_inv_def st' sets) (simp add: r_def)
qed

lemma reconcile_concepts_loop_inv:
  "reconcile_concepts_loop t prior requireEntity ids cs st = Inr st' \<Longrightarrow> concepts_inv t prior requireEntity ids seen st \<Longrightarrow>
     concepts_inv t prior requireEntity ids (seen @ cs) st'"
proof (induction cs arbitrary: st seen)
  case (Cons c cs)
  from Cons.prems(1) obtain st1 where st1: "reconcile_concept t prior requireEntity ids c st = Inr st1"
    and rec: "reconcile_concepts_loop t prior requireEntity ids cs st1 = Inr st'" by (auto split: sum.splits)
  show ?case using Cons.IH [OF rec reconcile_concept_inv [OF Cons.prems(2) st1]] by simp
qed simp

lemma entity_map_loop_ok:
  assumes "entity_map_loop ids seen es = None" and "map_wf es"
  shows "(\<forall>(i, e) \<in> set es. ValidSourceID i \<and> ValidSyntoEntityID e \<and> (\<forall>j. map_of seen e = Some j \<longrightarrow> j = i)) \<and>
    (\<forall>(i, e) \<in> set es. \<forall>(j, e') \<in> set es. e = e' \<longrightarrow> i = j)"
  using assms
proof (induction es arbitrary: seen)
  case (Cons x es)
  obtain i e where x: "x = (i, e)" by (cases x)
  have v: "ValidSourceID i" "ValidSyntoEntityID e" and u: "\<not> (map_has seen e \<and> map_get_or '''' seen e \<noteq> i)"
    and rec: "entity_map_loop ids (map_set e i seen) es = None"
    using Cons.prems(1) by (simp_all add: x del: map_has_iff split: if_split_asm)
  have IH: "ValidSourceID j \<and> ValidSyntoEntityID e' \<and> (\<forall>k. map_of (map_set e i seen) e' = Some k \<longrightarrow> k = j)"
    if "(j, e') \<in> set es" for j e' using Cons.IH [OF rec] Cons.prems(2) that by (auto simp: x)
  have inj: "j = k" if "(j, e') \<in> set es" "(k, e') \<in> set es" for j k e'
    using Cons.IH [OF rec] Cons.prems(2) that by (auto simp: x)
  have first: "j = i" if "(j, e) \<in> set es" for j using IH [OF that] by simp
  have here: "\<forall>j. map_of seen e = Some j \<longrightarrow> j = i" using no_other_value [OF u] by blast
  have there: "k = j" if "(j, e') \<in> set es" "map_of seen e' = Some k" for j e' k
  proof (cases "e' = e")
    case True
    then show ?thesis using first that here by blast
  next
    case False
    then have "map_of (map_set e i seen) e' = Some k" using that(2) by simp
    then show ?thesis using IH [OF that(1)] by blast
  qed
  have all: "ValidSourceID j \<and> ValidSyntoEntityID e' \<and> (\<forall>k. map_of seen e' = Some k \<longrightarrow> k = j)" if "(j, e') \<in> set (x # es)" for j e'
  proof (cases "j = i \<and> e' = e")
    case True
    then show ?thesis using v here by blast
  next
    case False
    with that have "(j, e') \<in> set es" unfolding x by auto
    then show ?thesis using IH there by blast
  qed
  have one: "j = k" if "(j, e') \<in> set (x # es)" "(k, e') \<in> set (x # es)" for j k e'
    using that inj first unfolding x by (metis Pair_inject set_ConsD)
  show ?case using all one by blast
qed simp

lemma validated_entities:
  assumes "validateConceptEntityMap ids = None" and "map_wf (im_entity ids)"
  shows "entity_of ids i \<noteq> '''' \<Longrightarrow> ValidSyntoEntityID (entity_of ids i)"
    and "entity_of ids i \<noteq> '''' \<Longrightarrow> entity_of ids i = entity_of ids j \<Longrightarrow> i = j"
proof -
  note E = entity_map_loop_ok [OF assms(1) [unfolded validateConceptEntityMap_def] assms(2)]
  have mem: "(i, entity_of ids i) \<in> set (im_entity ids)" if "entity_of ids i \<noteq> ''''" for i
    using that by (auto simp: map_get_or_def split: option.splits dest: map_of_SomeD)
  show "entity_of ids i \<noteq> '''' \<Longrightarrow> ValidSyntoEntityID (entity_of ids i)" using conjunct1 [OF E] mem by blast
  show "i = j" if "entity_of ids i \<noteq> ''''" "entity_of ids i = entity_of ids j"
  proof -
    have "(i, entity_of ids i) \<in> set (im_entity ids)" "(j, entity_of ids i) \<in> set (im_entity ids)"
      using mem [of i] mem [of j] that by simp_all
    then show ?thesis using conjunct2 [OF E] by blast
  qed
qed

lemma next_concept_maps_ok:
  assumes "next_concept_maps ids pe rs nc ne = Inr (c, e)" and "distinct (map rn_stable rs)"
    and "rn_stable ` set rs \<inter> (fst ` set nc \<union> fst ` set ne) = {}"
  shows "c = nc @ map (\<lambda>r. (rn_stable r, rn_slug r)) rs \<and>
    e = ne @ map (\<lambda>r. (rn_stable r, next_entity ids pe r)) (filter (\<lambda>r. next_entity ids pe r \<noteq> '''') rs)"
  using assms
proof (induction rs arbitrary: nc ne)
  case (Cons r rs)
  have sets: "map_set (rn_stable r) (rn_slug r) nc = nc @ [(rn_stable r, rn_slug r)]"
    "map_set (rn_stable r) v ne = ne @ [(rn_stable r, v)]" for v
    using Cons.prems(3) by (auto intro!: map_set_fresh)
  show ?case
  proof (cases "next_entity ids pe r = ''''")
    case True
    with Cons.prems(1) have "next_concept_maps ids pe rs (nc @ [(rn_stable r, rn_slug r)]) ne = Inr (c, e)"
      by (simp add: sets)
    from Cons.IH [OF this] show ?thesis using Cons.prems(2,3) True by auto
  next
    case False
    with Cons.prems(1) have "next_concept_maps ids pe rs (nc @ [(rn_stable r, rn_slug r)]) (ne @ [(rn_stable r, next_entity ids pe r)]) =
        Inr (c, e)"
      by (simp add: sets Let_def del: map_has_iff split: if_split_asm)
    from Cons.IH [OF this] show ?thesis using Cons.prems(2,3) False by auto
  qed
qed simp

definition redirects_ok :: "idMap \<Rightarrow> bool" where
  "redirects_ok m \<longleftrightarrow> list_all (\<lambda>(source, target). \<not> map_has (im_concept m) source \<and> map_has (im_concept m) target \<and>
     \<not> map_has (im_id_redirects m) target) (im_id_redirects m)"

lemma check_id_redirects_ok:
  "check_id_redirects concepts entities redirects requireEntity rs = None \<Longrightarrow>
     list_all (\<lambda>(source, target). \<not> map_has concepts source \<and> map_has concepts target \<and> \<not> map_has redirects target) rs"
  by (induction rs) (auto simp del: map_has_iff split: if_split_asm)

lemma prior_entities_from:
  assumes "map_of (prior_entities prior) s = Some e"
  shows "\<exists>c \<in> set prior. cs_slug c = s \<and> cs_entity c = e \<and> e \<noteq> ''''"
proof -
  let ?f = "\<lambda>m c. if cs_entity c \<noteq> '''' then map_set (cs_slug c) (cs_entity c) m else m"
  have "map_of (foldl ?f m cs) s = Some e \<Longrightarrow>
      map_of m s = Some e \<or> (\<exists>c \<in> set cs. cs_slug c = s \<and> cs_entity c = e \<and> e \<noteq> '''')" for m cs
    by (induction cs arbitrary: m) (simp, fastforce split: if_split_asm)
  from this [of "[]" prior] assms show ?thesis by (simp add: prior_entities_def)
qed

text \<open>
  One reconciled concept against the prior ones. With an entity that a prior concept has, it has
  the ID of that concept; otherwise it has the ID of the prior concept of its slug, and if there
  is none the generated one. The ID of a prior concept is never given to a concept with another
  slug and another entity. An entity it was generated with stays; one it gains is that of the prior
  concept of its slug and ID.
\<close>

definition concept_kept :: "conceptSnapshot list \<Rightarrow> idMap \<Rightarrow> idMap \<Rightarrow> reconciledConcept \<Rightarrow> bool" where
  "concept_kept prior ids m r \<longleftrightarrow>
     (let e = entity_of ids (rn_current r); bound = (e \<noteq> '''' \<and> e \<in> cs_entity ` set prior)
      in map_of (im_concept ids) (rn_current r) = Some (rn_slug r) \<and> map_of (im_concept m) (rn_stable r) = Some (rn_slug r) \<and>
         safeConceptSlug (rn_slug r) \<and> ValidSourceID (rn_stable r) \<and>
         (\<forall>c \<in> set prior. bound \<and> cs_entity c = e \<longrightarrow> cs_id c = rn_stable r) \<and>
         (\<forall>c \<in> set prior. \<not> bound \<and> cs_slug c = rn_slug r \<longrightarrow> cs_id c = rn_stable r) \<and>
         (\<not> bound \<and> rn_slug r \<notin> cs_slug ` set prior \<longrightarrow> rn_stable r = rn_current r) \<and>
         (\<forall>c \<in> set prior. cs_id c = rn_stable r \<longrightarrow> cs_slug c = rn_slug r \<or>
            (\<exists>c' \<in> set prior. cs_id c' = rn_stable r \<and> cs_entity c' = e \<and> bound)) \<and>
         (e \<noteq> '''' \<longrightarrow> map_of (im_entity m) (rn_stable r) = Some e) \<and>
         (\<forall>e'. e = '''' \<and> map_of (im_entity m) (rn_stable r) = Some e' \<longrightarrow>
            (\<exists>c \<in> set prior. cs_slug c = rn_slug r \<and> cs_id c = rn_stable r \<and> cs_entity c = e')))"

definition concepts_reconciled ::
  "conceptSnapshot list \<Rightarrow> bool \<Rightarrow> idMap \<Rightarrow> idMap \<Rightarrow> reconciledConcept list \<Rightarrow> bool" where
  "concepts_reconciled prior requireEntity ids m rs \<longleftrightarrow>
     list_all (concept_kept prior ids m) rs \<and>
     distinct (map rn_stable rs) \<and> sorted_wrt (<) (map rn_slug rs) \<and>
     rn_current ` set rs = fst ` set (im_concept ids) \<and> fst ` set (im_concept m) = rn_stable ` set rs \<and>
     fst ` set (im_entity m) \<subseteq> rn_stable ` set rs \<and> distinct (map snd (im_entity m)) \<and>
     (requireEntity \<longrightarrow> fst ` set (im_entity m) = rn_stable ` set rs) \<and>
     redirects_ok m \<and>
     im_dormant m = im_dormant ids \<and> im_source m = im_source ids \<and> im_source_meta m = im_source_meta ids"

text \<open>The facts about the loop that the proof of the property needs, in the terms of its statement.\<close>

lemma stable_concept_cases:
  assumes T: "concept_tables empty_tables prior = Inr t"
    and s: "stable_concept_id t prior requireEntity e slug currentID = Inr sid"
  shows "(\<forall>c \<in> set prior. e \<noteq> '''' \<and> cs_entity c = e \<longrightarrow> cs_id c = sid) \<and>
    (\<not> (e \<noteq> '''' \<and> e \<in> cs_entity ` set prior) \<longrightarrow> (\<forall>c \<in> set prior. cs_slug c = slug \<longrightarrow> cs_id c = sid) \<and>
       (slug \<notin> cs_slug ` set prior \<longrightarrow> sid = currentID)) \<and>
    (e \<noteq> '''' \<longrightarrow> (map_of (ct_by_entity t) e = Some i \<longrightarrow> i = sid \<and> (\<exists>c \<in> set prior. cs_id c = i \<and> cs_entity c = e)))"
proof -
  note G = concept_tables_grow [OF T]
  have bound: "map_has (ct_by_entity t) e \<longleftrightarrow> e \<in> cs_entity ` set prior" if "e \<noteq> ''''"
  proof
    assume "map_has (ct_by_entity t) e"
    then obtain j where "map_of (ct_by_entity t) e = Some j" by (auto simp: in_keys_iff)
    then show "e \<in> cs_entity ` set prior" using concept_tables_from [OF T, of _ j e] by (auto simp: empty_tables_def)
  next
    assume "e \<in> cs_entity ` set prior"
    then show "map_has (ct_by_entity t) e" using G that by (auto simp: in_keys_iff)
  qed
  show ?thesis
  proof (cases "e \<noteq> '''' \<and> map_has (ct_by_entity t) e")
    case True
    then obtain j where j: "map_of (ct_by_entity t) e = Some j" by (auto simp: in_keys_iff)
    with s True have "sid = j" by (simp add: stable_concept_id_def map_get_or_Some del: map_has_iff)
    then show ?thesis using True j G concept_tables_from [OF T, of _ j e] bound by (auto simp: empty_tables_def)
  next
    case False
    have slug: "(\<forall>c \<in> set prior. cs_slug c = slug \<longrightarrow> cs_id c = sid) \<and> (slug \<notin> cs_slug ` set prior \<longrightarrow> sid = currentID)"
    proof (cases "map_of (ct_by_slug t) slug")
      case None
      with s False have "sid = currentID" by (simp add: stable_concept_id_def del: map_has_iff split: if_split_asm)
      moreover have "\<forall>c \<in> set prior. cs_slug c \<noteq> slug" using G None by (metis option.distinct(1))
      ultimately show ?thesis by blast
    next
      case (Some j)
      with s False have "sid = j" by (simp add: stable_concept_id_def Let_def del: map_has_iff split: if_split_asm)
      moreover have "\<exists>c \<in> set prior. cs_slug c = slug" using concept_tables_from [OF T, of slug j] Some by (auto simp: empty_tables_def)
      ultimately show ?thesis using G Some by (metis image_eqI option.inject)
    qed
    have "map_of (ct_by_entity t) e = None" if "e \<noteq> ''''"
      using False that by (simp add: map_of_eq_None_iff)
    then show ?thesis using slug False bound by auto
  qed
qed

text \<open>A concept whose next entity a prior concept has carries the ID of that concept.\<close>

lemma next_entity_stable:
  assumes T: "concept_tables empty_tables prior = Inr t"
    and ok: "concept_ok t prior requireEntity ids r"
    and trim: "trim_space (entity_of ids (rn_current r)) = entity_of ids (rn_current r)"
    and e: "next_entity ids (prior_entities prior) r = e" "e \<noteq> ''''"
    and c: "c \<in> set prior" "cs_entity c = e"
  shows "cs_id c = rn_stable r"
proof (cases "entity_of ids (rn_current r) = ''''")
  case True
  with e have "map_of (prior_entities prior) (rn_slug r) = Some e"
    by (simp add: next_entity_def Let_def map_get_or_def split: option.splits)
  from prior_entities_from [OF this] obtain d where d: "d \<in> set prior" "cs_slug d = rn_slug r" "cs_entity d = e" by blast
  note G = concept_tables_grow [OF T]
  from G d c e(2) have "map_of (ct_by_entity t) e = Some (cs_id c)" "map_of (ct_by_entity t) e = Some (cs_id d)" by auto
  then have same: "cs_id c = cs_id d" by simp
  have "stable_concept_id t prior requireEntity '''' (rn_slug r) (rn_current r) = Inr (rn_stable r)"
    using ok trim unfolding concept_ok_def True by metis
  from stable_concept_cases [OF T this] d same show ?thesis by auto
next
  case False
  with e have "entity_of ids (rn_current r) = e" by (simp add: next_entity_def Let_def)
  then have "stable_concept_id t prior requireEntity e (rn_slug r) (rn_current r) = Inr (rn_stable r)"
    using ok trim unfolding concept_ok_def by metis
  from stable_concept_cases [OF T this] c e(2) show ?thesis by auto
qed

lemma reconcile_concepts_ok:
  "case reconcileConceptIDMapWithEntities data prior requireEntity of
     Inl e \<Rightarrow> True
   | Inr (m, rs) \<Rightarrow>
       (case DecodeIDMap data of Inl e \<Rightarrow> False | Inr ids \<Rightarrow> concepts_reconciled prior requireEntity ids m rs)"
proof (cases "reconcileConceptIDMapWithEntities data prior requireEntity")
  case (Inr out)
  obtain m rs where out: "out = (m, rs)" by (cases out)
  from Inr out obtain t where T: "concept_tables empty_tables prior = Inr t"
    by (auto simp: reconcileConceptIDMapWithEntities_def split: sum.splits)
  from Inr out T obtain ids where ids: "DecodeIDMap data = Inr ids"
    by (auto simp: reconcileConceptIDMapWithEntities_def split: sum.splits)
  from Inr out T ids obtain st where V: "validateConceptEntityMap ids = None"
    and loop: "reconcile_concepts_loop t prior requireEntity ids (sort_strings (map fst (im_concept ids))) empty_concepts = Inr st"
    by (auto simp: reconcileConceptIDMapWithEntities_def split: sum.splits option.splits)
  define R where "R = cn_concepts st"
  define pe where "pe = prior_entities prior"
  from Inr out T ids V loop obtain concepts entities idRedirects redirects where
      maps: "next_concept_maps ids pe R [] [] = Inr (concepts, entities)"
    and check: "check_id_redirects concepts entities idRedirects requireEntity idRedirects = None"
    and m: "m = ids\<lparr>im_concept := concepts, im_entity := entities, im_id_redirects := idRedirects, im_redirects := redirects\<rparr>"
    and rs: "rs = sort_by (\<lambda>a b. rn_slug a < rn_slug b) R"
    unfolding R_def pe_def
    by (auto simp: reconcileConceptIDMapWithEntities_def split: sum.splits option.splits)
  have "concepts_inv t prior requireEntity ids [] empty_concepts" by (simp add: concepts_inv_def empty_concepts_def)
  from reconcile_concepts_loop_inv [OF loop this]
  have i: "concepts_inv t prior requireEntity ids (sort_strings (map fst (im_concept ids))) st" by simp
  then have dist: "distinct (map rn_stable R)" "distinct (map rn_slug R)"
    and cur: "map rn_current R = sort_strings (map fst (im_concept ids))"
    and ok: "\<And>r. r \<in> set R \<Longrightarrow> concept_ok t prior requireEntity ids r"
    by (auto simp: concepts_inv_def list_all_iff R_def)
  have wf: "map_wf (im_entity ids)" "map_wf (im_concept ids)"
    using DecodeIDMap_bounded [of data] ids by (simp_all add: bounded_idMap_def bounded_map_def)
  note VE = validated_entities [OF V wf(1)]
  have trim: "trim_space (entity_of ids j) = entity_of ids j" for j
    using ValidSyntoEntityID_trim [OF VE(1) [of j]] by (cases "entity_of ids j = ''''") (simp, code_simp, simp)
  let ?ne = "next_entity ids pe"
  have cm: "im_concept m = map (\<lambda>r. (rn_stable r, rn_slug r)) R"
    and em: "im_entity m = map (\<lambda>r. (rn_stable r, ?ne r)) (filter (\<lambda>r. ?ne r \<noteq> '''') R)"
    using next_concept_maps_ok [OF maps dist(1)] by (simp_all add: m)
  have keys: "fst ` set (im_concept m) = rn_stable ` set R" "fst ` set (im_entity m) = rn_stable ` {r \<in> set R. ?ne r \<noteq> ''''}"
    by (simp_all add: cm em image_image)
  have inj: "r1 = r2" if "r1 \<in> set R" "r2 \<in> set R" "rn_stable r1 = rn_stable r2" for r1 r2
    using dist(1) that by (simp add: distinct_map inj_on_def)
  have cdist: "distinct (map rn_current R)" using cur wf(2) mset_eq_imp_distinct_iff [OF mset_sort_by]
    unfolding map_wf_def by metis
  have ent: "r1 = r2" if r: "r1 \<in> set R" "r2 \<in> set R" and e: "?ne r1 = ?ne r2" "?ne r1 \<noteq> ''''" for r1 r2
  proof (cases "\<exists>c \<in> set prior. cs_entity c = ?ne r1")
    case True
    then obtain c where c: "c \<in> set prior" "cs_entity c = ?ne r1" by blast
    have "cs_id c = rn_stable r1" using next_entity_stable [OF T ok [OF r(1)] trim _ _ c] e by (simp add: pe_def)
    moreover have "cs_id c = rn_stable r2" using next_entity_stable [OF T ok [OF r(2)] trim _ _ c] e by (simp add: pe_def)
    ultimately show ?thesis using inj r by simp
  next
    case False
    have own: "entity_of ids (rn_current r) = ?ne r1" if "?ne r = ?ne r1" for r
    proof (rule ccontr)
      assume "entity_of ids (rn_current r) \<noteq> ?ne r1"
      with that e(2) have "map_of pe (rn_slug r) = Some (?ne r1)"
        by (auto simp: next_entity_def Let_def map_get_or_def split: option.splits if_splits)
      from prior_entities_from [OF this [unfolded pe_def]] False show False unfolding pe_def by blast
    qed
    have "rn_current r1 = rn_current r2" using VE(2) [of "rn_current r1" "rn_current r2"] own [of r1] own [of r2] e by simp
    then show ?thesis using cdist r by (simp add: distinct_map inj_on_def)
  qed
  have kept: "concept_kept prior ids m r" if r: "r \<in> set R" for r
  proof -
    define e where "e = entity_of ids (rn_current r)"
    note okr = ok [OF r, unfolded concept_ok_def trim, folded e_def]
    from okr have sid: "stable_concept_id t prior requireEntity e (rn_slug r) (rn_current r) = Inr (rn_stable r)" by blast
    note S = stable_concept_cases [OF T sid]
    have "rn_current r \<in> fst ` set (im_concept ids)" using cur r by (metis image_eqI list.set_map set_sort_by)
    then have c1: "map_of (im_concept ids) (rn_current r) = Some (rn_slug r)"
      using okr by (auto simp: in_keys_iff map_get_or_Some)
    have c2: "map_of (im_concept m) (rn_stable r) = Some (rn_slug r)"
      unfolding cm using r dist(1) by (intro map_of_is_SomeI) (auto simp: o_def)
    have c3: "cs_slug c = rn_slug r \<or> (\<exists>c' \<in> set prior. cs_id c' = rn_stable r \<and> cs_entity c' = e \<and> e \<noteq> '''' \<and> e \<in> cs_entity ` set prior)"
      if c: "c \<in> set prior" "cs_id c = rn_stable r" for c
    proof -
      have "map_of (ct_reserved t) (rn_stable r) = Some (cs_slug c)" using concept_tables_grow [OF T] c by auto
      with okr consider "cs_slug c = rn_slug r" | "map_get_or '''' (ct_by_entity t) e = rn_stable r" by blast
      then show ?thesis
      proof cases
        case 2
        moreover have "rn_stable r \<noteq> ''''" using okr by (auto simp: ValidSourceID_def)
        ultimately have "map_of (ct_by_entity t) e = Some (rn_stable r)" by (auto simp: map_get_or_def split: option.splits)
        with concept_tables_from [OF T, of _ "rn_stable r" e]
        show ?thesis by (auto simp: empty_tables_def)
      qed simp
    qed
    have look: "map_of (im_entity m) (rn_stable r) = Some (?ne r)" if "?ne r \<noteq> ''''"
      unfolding em using r dist(1) that by (intro map_of_is_SomeI) (auto simp: o_def distinct_map inj_on_def)
    have c4: "map_of (im_entity m) (rn_stable r) = Some e" if "e \<noteq> ''''"
    proof -
      have "?ne r = e" using that by (simp add: next_entity_def e_def Let_def)
      with look that show ?thesis by simp
    qed
    have c5: "\<exists>c \<in> set prior. cs_slug c = rn_slug r \<and> cs_id c = rn_stable r \<and> cs_entity c = e'"
      if e': "e = ''''" "map_of (im_entity m) (rn_stable r) = Some e'" for e'
    proof -
      have "rn_stable r \<in> fst ` set (im_entity m)" using e'(2) by (auto simp: in_keys_iff)
      then have ne: "?ne r \<noteq> ''''" using keys(2) inj r by auto
      with look e' have "?ne r = e'" by simp
      have "?ne r = map_get_or '''' (prior_entities prior) (rn_slug r)"
        using e'(1) by (simp add: next_entity_def Let_def e_def pe_def)
      with ne \<open>?ne r = e'\<close> have "map_of (prior_entities prior) (rn_slug r) = Some e'"
        by (auto simp: map_get_or_def split: option.splits)
      from prior_entities_from [OF this] S e'(1) show ?thesis by blast
    qed
    show ?thesis unfolding concept_kept_def Let_def e_def [symmetric]
      using c1 c2 c3 c4 c5 okr S by (intro conjI ballI impI allI) (blast+)
  qed
  have sorted: "sorted_wrt (<) (map rn_slug rs)"
    unfolding rs using key_less.sorted_sort_by [of rn_slug R] dist(2)
    by (intro sorted_keys_strict) simp_all
  have curs: "rn_current ` set rs = fst ` set (im_concept ids)"
    using cur by (metis list.set_map rs set_sort_by)
  have "inj_on ?ne {r \<in> set R. ?ne r \<noteq> ''''}" using ent by (auto simp: inj_on_def)
  then have snds: "distinct (map snd (im_entity m))"
    using dist(1) by (simp add: em o_def distinct_map)
  have all: "fst ` set (im_entity m) = rn_stable ` set R" if requireEntity
  proof -
    have "?ne r \<noteq> ''''" if "r \<in> set R" for r
      using ok [OF that] \<open>requireEntity\<close> by (auto simp: concept_ok_def trim next_entity_def Let_def)
    then show ?thesis by (auto simp: keys)
  qed
  have red: "redirects_ok m"
    using check_id_redirects_ok [OF check] by (simp add: redirects_ok_def m del: map_has_iff)
  have "concepts_reconciled prior requireEntity ids m rs"
    unfolding concepts_reconciled_def
    using kept sorted curs snds all red dist(1) keys by (auto simp: list_all_iff rs) (auto simp: m)
  with Inr out ids show ?thesis by simp
qed simp

text \<open>
  C12. Every concept keeps its ID. The map that \<open>reconcileConceptIDMapWithEntities\<close> delivers has
  one concept per generated concept: with the ID of the prior concept of its Synto entity, else
  with the ID of the prior concept of its slug, else with its own. IDs, slugs and entities are
  unique, the ID of a prior concept is never given to a concept of another slug and entity, every
  redirect of IDs leads in one step from an ID that is no concept to a concept, and nothing but
  concepts, entities and redirects changes.
\<close>

theorem concept_ids_stable:
  "case reconcileConceptIDMapWithEntities data prior requireEntity of
     Inl e \<Rightarrow> True
   | Inr (m, rs) \<Rightarrow>
       (case DecodeIDMap data of Inl e \<Rightarrow> False | Inr ids \<Rightarrow> concepts_reconciled prior requireEntity ids m rs)"
  by (rule reconcile_concepts_ok)

section \<open>The reconciled map can be stored\<close>

lemma concept_id_redirects_bound:
  "concept_id_redirects tr redirects froms out = Inr out' \<Longrightarrow> map_wf out \<Longrightarrow>
     map_wf out' \<and> length out' \<le> length out + length froms"
proof (induction froms arbitrary: out)
  case (Cons f fs)
  let ?out = "map_set (normalizeTranslatedID f tr) (normalizeTranslatedID (trim_space (map_get_or '''' redirects f)) tr) out"
  from Cons.prems(1) have "concept_id_redirects tr redirects fs ?out = Inr out'"
    by (simp add: Let_def del: map_has_iff split: if_split_asm)
  from Cons.IH [OF this] Cons.prems(2) length_map_set_le [of "normalizeTranslatedID f tr" _ out]
  show ?case by (auto intro: order_trans)
qed simp

lemma concept_slug_redirects_bound:
  "concept_slug_redirects tr redirects froms out = Inr out' \<Longrightarrow> map_wf out \<Longrightarrow>
   (\<forall>f. length (map_get_or [] redirects f) \<le> MaxFiles) \<Longrightarrow> list_all (\<lambda>(k, xs). length xs \<le> MaxFiles) out \<Longrightarrow>
     map_wf out' \<and> length out' \<le> length out + length froms \<and> list_all (\<lambda>(k, xs). length xs \<le> MaxFiles) out'"
proof (induction froms arbitrary: out)
  case (Cons f fs)
  let ?out = "map_set (normalizeTranslatedID f tr) (map_get_or [] redirects f) out"
  from Cons.prems(1) have rec: "concept_slug_redirects tr redirects fs ?out = Inr out'"
    by (simp add: Let_def del: map_has_iff split: if_split_asm)
  have "list_all (\<lambda>(k, xs). length xs \<le> MaxFiles) ?out"
    using Cons.prems(3,4) by (intro list_all_map_set) simp_all
  from Cons.IH [OF rec _ Cons.prems(3) this] Cons.prems(2)
    length_map_set_le [of "normalizeTranslatedID f tr" "map_get_or [] redirects f" out]
  show ?case by auto
qed simp

lemma reconcile_concepts_bounded:
  assumes "reconcileConceptIDMapWithEntities data prior requireEntity = Inr (m, rs)"
  shows "bounded_idMap m"
proof -
  from assms obtain t where T: "concept_tables empty_tables prior = Inr t"
    by (auto simp: reconcileConceptIDMapWithEntities_def split: sum.splits)
  from assms T obtain ids where ids: "DecodeIDMap data = Inr ids"
    by (auto simp: reconcileConceptIDMapWithEntities_def split: sum.splits)
  from assms T ids obtain st where
      loop: "reconcile_concepts_loop t prior requireEntity ids (sort_strings (map fst (im_concept ids))) empty_concepts = Inr st"
    by (auto simp: reconcileConceptIDMapWithEntities_def split: sum.splits option.splits)
  from assms T ids loop obtain concepts entities idRedirects redirects where
      maps: "next_concept_maps ids (prior_entities prior) (cn_concepts st) [] [] = Inr (concepts, entities)"
    and r1: "concept_id_redirects (cn_translated st) (im_id_redirects ids) (sort_strings (map fst (im_id_redirects ids))) [] = Inr idRedirects"
    and r2: "concept_slug_redirects (cn_translated st) (im_redirects ids) (sort_strings (map fst (im_redirects ids))) [] = Inr redirects"
    and m: "m = ids\<lparr>im_concept := concepts, im_entity := entities, im_id_redirects := idRedirects, im_redirects := redirects\<rparr>"
    by (auto simp: reconcileConceptIDMapWithEntities_def split: sum.splits option.splits)
  have b: "bounded_idMap ids" using DecodeIDMap_bounded [of data] ids by simp
  have "concepts_inv t prior requireEntity ids [] empty_concepts" by (simp add: concepts_inv_def empty_concepts_def)
  from reconcile_concepts_loop_inv [OF loop this]
  have dist: "distinct (map rn_stable (cn_concepts st))"
    and "length (map rn_current (cn_concepts st)) = length (sort_strings (map fst (im_concept ids)))"
    by (auto simp: concepts_inv_def)
  then have n: "length (cn_concepts st) \<le> MaxFiles" using b by (simp add: bounded_idMap_def bounded_map_def)
  have "length (filter P (cn_concepts st)) \<le> MaxFiles" for P
    using n length_filter_le [of P "cn_concepts st"] by (rule order_trans [rotated])
  then have "bounded_map concepts \<and> bounded_map entities"
    using next_concept_maps_ok [OF maps dist] n dist
    by (auto simp: bounded_map_def map_wf_def o_def distinct_map_filter)
  moreover have "bounded_map idRedirects"
    using concept_id_redirects_bound [OF r1] b by (auto simp: bounded_map_def bounded_idMap_def)
  moreover have "length (map_get_or [] (im_redirects ids) f) \<le> MaxFiles" for f
    using b by (auto simp: bounded_idMap_def list_all_iff map_get_or_def split: option.splits dest!: map_of_SomeD)
  then have "bounded_map redirects \<and> list_all (\<lambda>(k, xs). length xs \<le> MaxFiles) redirects"
    using concept_slug_redirects_bound [OF r2] b by (auto simp: bounded_map_def bounded_idMap_def)
  ultimately show ?thesis using b by (simp add: m bounded_idMap_def)
qed

end
