(* ===== verification/ConceptLifecycle.thy ===== *)
theory ConceptLifecycle
  imports ConceptIds
begin

text \<open>
  Which concepts become dormant (\<open>cmd/olw_worker/concept_reconcile.go\<close>, \<open>synto_adapter.go\<close>): the
  entities that current sources still support, the legacy concepts that source provenance binds to
  an entity, and \<open>planConceptLifecycle\<close>, which moves concepts between the active and the dormant
  part of the ID map and plans the writes and removals of their pages.
\<close>

section \<open>Entities of the sources and of legacy concepts\<close>

definition activeSyntoEntities :: "sourceEnv \<Rightarrow> syntoSourceConcept list \<Rightarrow> sourceSnapshot list \<Rightarrow> string list" where
  "activeSyntoEntities env edges sources =
     (let current = foldl (\<lambda>m s. if ss_tombstone s \<or> ss_raw_path s = '''' then m
                             else map_set (ss_raw_path s)
                                    (if ss_synto_hash s = '''' then syntoSourceContentHash env s else ss_synto_hash s) m) [] sources
      in map sc_entity (filter (\<lambda>edge. map_get_or '''' current (sc_source_path edge) = sc_hash edge) edges))"

fun merge_entities :: "(string, string) gomap \<Rightarrow> (string \<times> string) list \<Rightarrow> gerr + (string, string) gomap" where
  "merge_entities entities [] = Inr entities"
| "merge_entities entities ((i, entityID) # es) =
     (if map_get_or '''' entities i \<noteq> '''' \<and> map_get_or '''' entities i \<noteq> entityID
      then Inl (Msg ''inconsistent Synto entity_id'')
      else merge_entities (map_set i entityID entities) es)"

text \<open>\<open>mergeSyntoEntityIDs\<close>; the map it returns is written with \<open>json.MarshalIndent\<close>.\<close>

definition mergeSyntoEntityIDs :: "json_stream \<Rightarrow> (string, string) gomap \<Rightarrow> gerr + json_stream" where
  "mergeSyntoEntityIDs data entityIDs =
     (if entityIDs = [] then Inr data
      else (case DecodeIDMap data of
              Inl e \<Rightarrow> Inl (Msg ''decode generated concept map'')
            | Inr ids \<Rightarrow>
                (case merge_entities (im_entity ids) entityIDs of
                   Inl e \<Rightarrow> Inl e
                 | Inr entities \<Rightarrow> Inr [Some (idMap_to_json (ids\<lparr>im_entity := entities\<rparr>))])))"

text \<open>
  \<open>filterUnmappedLegacyConcepts\<close>: the generated concepts without an article in the artifact whose
  page is byte for byte that of a prior concept without entity but with source provenance.
\<close>

record filterState =
  fl_kept :: "(string, string) gomap"
  fl_omitted :: "(string, reconciledConcept) gomap"
  fl_seen :: "(string, string) gomap"

fun article_slugs :: "syntoIndexEntry list \<Rightarrow> index_error + string list" where
  "article_slugs [] = Inr []"
| "article_slugs (a # as) =
     (case normalizeSyntoArticlePath (se_path a) of
        Inl e \<Rightarrow> Inl e
      | Inr slug \<Rightarrow> (case article_slugs as of Inl e \<Rightarrow> Inl e | Inr slugs \<Rightarrow> Inr (slug # slugs)))"

definition stale_candidate :: "workspace \<Rightarrow> conceptSnapshot list \<Rightarrow> string \<Rightarrow> string \<Rightarrow> gerr + bool" where
  "stale_candidate ws prior currentID slug =
     (case filter (\<lambda>c. cs_id c @ [CHR 0x00] @ cs_slug c = currentID @ [CHR 0x00] @ slug) prior of
        [old] \<Rightarrow>
          (if cs_id old \<noteq> currentID then Inr False
           else if cs_dormant old \<or> cs_entity old \<noteq> '''' \<or> cs_page old = '''' \<or> cs_source_paths old = [] then Inr False
           else (case readBoundedRegularFileWithin ws (article_page slug) of
                   FileMissing \<Rightarrow> Inr False
                 | FileError e \<Rightarrow> Inl (Wrapped ''read legacy concept candidate'' e)
                 | FileContents page \<Rightarrow> Inr (page = cs_page old)))
      | _ \<Rightarrow> Inr False)"

definition filter_concept ::
  "(string \<Rightarrow> string) \<Rightarrow> workspace \<Rightarrow> string list \<Rightarrow> string list \<Rightarrow> conceptSnapshot list \<Rightarrow> idMap \<Rightarrow> string \<Rightarrow> filterState
   \<Rightarrow> gerr + filterState" where
  "filter_concept lower ws articleIDs slugs prior ids currentID st =
     (let slug = map_get_or '''' (im_concept ids) currentID
      in if \<not> ValidSourceID currentID \<or> \<not> safeConceptSlug slug then Inl (Msg ''unsafe generated concept mapping'')
         else if map_has (fl_seen st) slug \<and> map_get_or '''' (fl_seen st) slug \<noteq> currentID
         then Inl (Msg ''duplicate generated concept slug'')
         else (let st1 = st\<lparr>fl_seen := map_set slug currentID (fl_seen st)\<rparr>;
                   keep = st1\<lparr>fl_kept := map_set currentID slug (fl_kept st1)\<rparr>
               in if currentID \<in> set articleIDs \<or> slug \<in> set slugs \<or> lower slug \<in> set (map lower slugs) then Inr keep
                  else (case stale_candidate ws prior currentID slug of
                          Inl e \<Rightarrow> Inl e
                        | Inr False \<Rightarrow> Inr keep
                        | Inr True \<Rightarrow>
                            Inr (st1\<lparr>fl_omitted := map_set slug \<lparr>rn_current = currentID, rn_stable = currentID, rn_slug = slug\<rparr>
                                                    (fl_omitted st1)\<rparr>))))"

fun filter_concepts ::
  "(string \<Rightarrow> string) \<Rightarrow> workspace \<Rightarrow> string list \<Rightarrow> string list \<Rightarrow> conceptSnapshot list \<Rightarrow> idMap \<Rightarrow> string list \<Rightarrow> filterState
   \<Rightarrow> gerr + filterState" where
  "filter_concepts lower ws articleIDs slugs prior ids [] st = Inr st"
| "filter_concepts lower ws articleIDs slugs prior ids (c # cs) st =
     (case filter_concept lower ws articleIDs slugs prior ids c st of
        Inl e \<Rightarrow> Inl e
      | Inr st' \<Rightarrow> filter_concepts lower ws articleIDs slugs prior ids cs st')"

definition filterUnmappedLegacyConcepts ::
  "(string \<Rightarrow> string) \<Rightarrow> workspace \<Rightarrow> idMap \<Rightarrow> syntoIndexTruth \<Rightarrow> conceptSnapshot list
   \<Rightarrow> gerr + idMap \<times> (string, reconciledConcept) gomap" where
  "filterUnmappedLegacyConcepts lower ws ids index prior =
     (if \<not> it_present index \<or> im_concept ids = [] then Inr (ids, [])
      else (case article_slugs (it_articles index) of
              Inl e \<Rightarrow> Inl (Msg ''unsafe Synto article path'')
            | Inr slugs \<Rightarrow>
                (case filter_concepts lower ws (filter (\<lambda>i. i \<noteq> '''') (map se_id (it_articles index))) slugs prior ids
                        (sort_strings (map fst (im_concept ids))) \<lparr>fl_kept = [], fl_omitted = [], fl_seen = []\<rparr> of
                   Inl e \<Rightarrow> Inl e
                 | Inr st \<Rightarrow>
                     Inr (ids\<lparr>im_concept := fl_kept st,
                              im_entity := filter (\<lambda>(i, _). map_has (fl_kept st) i) (im_entity ids)\<rparr>, fl_omitted st))))"

text \<open>
  \<open>augmentLegacyConceptEntities\<close>: a proof (an omitted concept) and an entity belong together when
  each is the only one with its exact set of sources.
\<close>

fun prior_index :: "nat \<Rightarrow> (string, nat) gomap \<Rightarrow> conceptSnapshot list \<Rightarrow> (string, nat) gomap" where
  "prior_index i m [] = m"
| "prior_index i m (c # cs) = prior_index (Suc i) (map_set (cs_id c) i m) cs"

fun check_proofs ::
  "conceptSnapshot list \<Rightarrow> (string, reconciledConcept) gomap \<Rightarrow> (string, reconciledConcept) gomap
   \<Rightarrow> (string, reconciledConcept) gomap \<Rightarrow> reconciledConcept list \<Rightarrow> gerr + (string, reconciledConcept) gomap" where
  "check_proofs prior byID byCurrent bySlug [] = Inr byID"
| "check_proofs prior byID byCurrent bySlug (p # ps) =
     (if rn_stable p = '''' \<or> rn_current p = '''' \<or> rn_slug p = '''' then Inl (Msg ''invalid omitted concept proof'')
      else if rn_stable p \<noteq> rn_current p then Inl (Msg ''omitted concept proof has stale current id'')
      else (case map_of (prior_index 0 [] prior) (rn_stable p) of
              None \<Rightarrow> Inl (Msg ''omitted concept proof is unknown'')
            | Some oldIndex \<Rightarrow>
                (let old = prior ! oldIndex
                 in if cs_slug old \<noteq> rn_slug p then Inl (Msg ''omitted concept proof slug mismatch'')
                    else if cs_dormant old then Inl (Msg ''omitted concept proof is dormant'')
                    else if cs_entity old \<noteq> '''' then Inl (Msg ''omitted concept proof already has entity_id'')
                    else if cs_source_paths old = [] then Inl (Msg ''omitted concept proof has no source provenance'')
                    else (case map_of byID (rn_stable p) of
                            Some existing \<Rightarrow>
                              (if rn_current existing \<noteq> rn_current p \<or> rn_slug existing \<noteq> rn_slug p
                               then Inl (Msg ''conflicting omitted concept proof'')
                               else check_proofs prior byID byCurrent bySlug ps)
                          | None \<Rightarrow>
                              (if (case map_of byCurrent (rn_current p) of
                                     Some existing \<Rightarrow> rn_stable existing \<noteq> rn_stable p | None \<Rightarrow> False)
                               then Inl (Msg ''conflicting omitted concept proof current id'')
                               else if (case map_of bySlug (rn_slug p) of
                                     Some existing \<Rightarrow> rn_stable existing \<noteq> rn_stable p | None \<Rightarrow> False)
                               then Inl (Msg ''conflicting omitted concept proof slug'')
                               else check_proofs prior (map_set (rn_stable p) p byID) (map_set (rn_current p) p byCurrent)
                                      (map_set (rn_slug p) p bySlug) ps)))))"

definition exactSourceSetKey :: "string list \<Rightarrow> string" where
  "exactSourceSetKey paths = join_with [CHR 0x00] (sort_strings paths)"

text \<open>The mapped entities of the edges, each with the set of its source paths.\<close>

definition paths_by_entity :: "(string, string) gomap \<Rightarrow> syntoSourceConcept list \<Rightarrow> (string, string list) gomap" where
  "paths_by_entity entityIDs edges =
     foldl (\<lambda>m edge. if sc_entity edge \<notin> snd ` set entityIDs then m
                    else map_set (sc_entity edge)
                           (let ps = map_get_or [] m (sc_entity edge)
                            in if sc_source_path edge \<in> set ps then ps else ps @ [sc_source_path edge]) m) [] edges"

fun augment_sets ::
  "conceptSnapshot list \<Rightarrow> (string, string list) gomap \<Rightarrow> (string \<times> nat list) list \<Rightarrow> conceptSnapshot list
   \<Rightarrow> gerr + conceptSnapshot list" where
  "augment_sets prior pathsByEntity [] augmented = Inr augmented"
| "augment_sets prior pathsByEntity ((key, priorIndexes) # sets) augmented =
     (case (priorIndexes, filter (\<lambda>(e, paths). exactSourceSetKey paths = key) pathsByEntity) of
        ([i], [(entityID, _)]) \<Rightarrow>
          (if list_ex (\<lambda>old. cs_entity old = entityID \<and> cs_id old \<noteq> cs_id (prior ! i)) prior
           then Inl (Msg ''source provenance would assign entity_id more than once'')
           else augment_sets prior pathsByEntity sets (augmented[i := (augmented ! i)\<lparr>cs_entity := entityID\<rparr>]))
      | _ \<Rightarrow> augment_sets prior pathsByEntity sets augmented)"

definition augmentLegacyConceptEntities ::
  "conceptSnapshot list \<Rightarrow> (string, string) gomap \<Rightarrow> syntoIndexTruth \<Rightarrow> reconciledConcept list
   \<Rightarrow> gerr + conceptSnapshot list" where
  "augmentLegacyConceptEntities prior entityIDs index omittedProofs =
     (if entityIDs = [] \<or> it_concepts index = [] \<or> omittedProofs = [] then Inr prior
      else (case check_proofs prior [] [] [] omittedProofs of
              Inl e \<Rightarrow> Inl e
            | Inr proofByID \<Rightarrow>
                (let priorBySet = foldl (\<lambda>m i. let key = exactSourceSetKey (cs_source_paths (prior ! i))
                                              in map_set key (map_get_or [] m key @ [i]) m) []
                       (map (map_get_or 0 (prior_index 0 [] prior)) (sort_strings (map fst proofByID)))
                 in augment_sets prior (paths_by_entity entityIDs (it_concepts index)) priorBySet prior)))"

section \<open>The lifecycle plan\<close>

record lifecycleState =
  lc_dormant_map :: "(string, string) gomap"
  lc_entity_map :: "(string, string) gomap"
  lc_dormant :: "string list"
  lc_removals :: "string list"

text \<open>A concept whose entity no current source supports is dormant.\<close>

definition inactive :: "idMap \<Rightarrow> string list \<Rightarrow> reconciledConcept \<Rightarrow> bool" where
  "inactive ids activeEntities r \<longleftrightarrow>
     (let entityID = entity_of ids (rn_stable r) in entityID = '''' \<or> entityID \<notin> set activeEntities)"

text \<open>
  One prior concept. When its slug is taken nothing happens; when its ID lives on under another
  slug, the page of the old slug goes; otherwise it becomes dormant.
\<close>

definition retire_prior :: "reconciledConcept list \<Rightarrow> conceptSnapshot \<Rightarrow> lifecycleState \<Rightarrow> lifecycleState" where
  "retire_prior concepts old st =
     (if cs_slug old \<in> rn_slug ` set concepts then st
      else (case find (\<lambda>r. rn_stable r = cs_id old) concepts of
              Some current \<Rightarrow>
                st\<lparr>lc_removals := lc_removals st @
                     (if rn_stable current \<in> set (lc_dormant st) \<and> rn_slug current \<noteq> cs_slug old
                      then [article_page (rn_slug current)] else []) @ [article_page (cs_slug old)]\<rparr>
            | None \<Rightarrow>
                st\<lparr>lc_dormant := lc_dormant st @ [cs_id old],
                   lc_dormant_map := map_set (cs_id old) (cs_slug old) (lc_dormant_map st),
                   lc_entity_map := (if cs_entity old \<noteq> '''' then map_set (cs_id old) (cs_entity old) (lc_entity_map st)
                                     else lc_entity_map st)\<rparr>))"

text \<open>The pages of the dormant concepts: that of the prior concept of the slug, else the current one.\<close>

definition prior_page :: "conceptSnapshot list \<Rightarrow> string \<Rightarrow> string" where
  "prior_page prior slug = (case find (\<lambda>c. cs_slug c = slug) (rev prior) of Some c \<Rightarrow> cs_page c | None \<Rightarrow> '''')"

fun dormant_writes :: "workspace \<Rightarrow> conceptSnapshot list \<Rightarrow> (string \<times> string) list \<Rightarrow> gerr + (string \<times> string) list" where
  "dormant_writes ws prior [] = Inr []"
| "dormant_writes ws prior ((i, slug) # ds) =
     (let continue_with = (\<lambda>page. case dormant_writes ws prior ds of
                Inl e \<Rightarrow> Inl e
              | Inr writes \<Rightarrow> Inr ((dormant_page slug, page) # writes))
      in if prior_page prior slug \<noteq> '''' then continue_with (prior_page prior slug)
         else (case readBoundedRegularFileWithin ws (article_page slug) of
                 FileMissing \<Rightarrow> Inl (Msg ''read dormant concept'')
               | FileError e \<Rightarrow> Inl (Wrapped ''read dormant concept'' e)
               | FileContents d \<Rightarrow> continue_with d))"

definition planConceptLifecycle ::
  "workspace \<Rightarrow> json_stream \<Rightarrow> reconciledConcept list \<Rightarrow> conceptSnapshot list \<Rightarrow> string list
   \<Rightarrow> gerr + idMap \<times> string list \<times> (string \<times> string) list \<times> string list" where
  "planConceptLifecycle ws data concepts prior activeEntities =
     (case DecodeIDMap data of
        Inl e \<Rightarrow> Inl (Msg ''decode id map'')
      | Inr ids \<Rightarrow>
          (let st = fold (retire_prior concepts) prior
                 \<lparr>lc_dormant_map = im_dormant ids, lc_entity_map = im_entity ids,
                  lc_dormant = map rn_stable (filter (inactive ids activeEntities) concepts), lc_removals = []\<rparr>;
               active = filter (\<lambda>(i, slug). i \<notin> set (lc_dormant st)) (im_concept ids);
               moved = fold (\<lambda>(i, slug) m. if i \<in> set (lc_dormant st) then map_set i slug m else m) (im_concept ids)
                         (lc_dormant_map st);
               dormantMap = filter (\<lambda>(i, slug). \<not> map_has active i) moved
           in case dormant_writes ws prior dormantMap of
                Inl e \<Rightarrow> Inl e
              | Inr writes \<Rightarrow>
                  Inr (ids\<lparr>im_concept := active, im_dormant := dormantMap, im_entity := lc_entity_map st\<rparr>,
                       lc_dormant st, writes,
                       lc_removals st @ map (\<lambda>(i, slug). article_page slug) dormantMap @
                       map (\<lambda>c. dormant_page (cs_slug c))
                         (filter (\<lambda>c. cs_dormant c \<and> \<not> map_has dormantMap (cs_id c)) prior))))"

section \<open>Pages\<close>

lemma slug_no_slash: "safeConceptSlug s \<Longrightarrow> CHR ''/'' \<notin> set s"
  by (auto simp: safeConceptSlug_def contains_any_iff)

lemma page_name: "safeConceptSlug s \<Longrightarrow> split_on (CHR ''/'') (s @ ''.md'') = [s @ ''.md'']"
  by (intro split_on_no_sep) (auto dest: slug_no_slash)

lemma page_name_kept: "s @ ''.md'' \<noteq> '''' \<and> s @ ''.md'' \<noteq> ''.'' \<and> s @ ''.md'' \<noteq> ''..''"
  by (cases s; cases "tl s") auto

lemma article_page_eq: "safeConceptSlug s \<Longrightarrow> article_page s = ''wiki/'' @ s @ ''.md''"
  using page_name_kept [of s] by (simp add: article_page_def path_clean_def page_name Let_def has_prefix_def)

lemma dormant_page_eq: "safeConceptSlug s \<Longrightarrow> dormant_page s = ''wiki/.dormant/'' @ s @ ''.md''"
  using page_name_kept [of s] by (simp add: dormant_page_def path_clean_def page_name Let_def has_prefix_def)

lemma article_page_inj: "safeConceptSlug s \<Longrightarrow> safeConceptSlug s' \<Longrightarrow> article_page s = article_page s' \<longleftrightarrow> s = s'"
  by (simp add: article_page_eq)

lemma article_not_dormant: "safeConceptSlug s \<Longrightarrow> safeConceptSlug s' \<Longrightarrow> article_page s \<noteq> dormant_page s'"
proof
  assume s: "safeConceptSlug s" "safeConceptSlug s'" and eq: "article_page s = dormant_page s'"
  then have "s @ ''.md'' = ''.dormant/'' @ s' @ ''.md''" by (simp add: article_page_eq dormant_page_eq)
  moreover have "CHR ''/'' \<in> set (''.dormant/'' @ s' @ ''.md'')" by simp
  ultimately have "CHR ''/'' \<in> set (s @ ''.md'')" by metis
  with slug_no_slash [OF s(1)] show False by auto
qed

section \<open>What the plan does to every concept\<close>

definition retired :: "reconciledConcept list \<Rightarrow> conceptSnapshot \<Rightarrow> bool" where
  "retired concepts old \<longleftrightarrow> cs_slug old \<notin> rn_slug ` set concepts \<and> cs_id old \<notin> rn_stable ` set concepts"

lemma find_stable: "find (\<lambda>r. rn_stable r = i) rs = None \<longleftrightarrow> i \<notin> rn_stable ` set rs"
  by (auto simp: find_None_iff)

lemma find_stable_Some: "find (\<lambda>r. rn_stable r = i) rs = Some r \<Longrightarrow> r \<in> set rs \<and> rn_stable r = i"
  by (auto simp: find_Some_iff)

lemma retire_fold:
  "lc_dormant (fold (retire_prior concepts) prior st) = lc_dormant st @ map cs_id (filter (retired concepts) prior) \<and>
   lc_dormant_map (fold (retire_prior concepts) prior st) =
     fold (\<lambda>c. map_set (cs_id c) (cs_slug c)) (filter (retired concepts) prior) (lc_dormant_map st) \<and>
   lc_entity_map (fold (retire_prior concepts) prior st) =
     fold (\<lambda>c m. if cs_entity c \<noteq> '''' then map_set (cs_id c) (cs_entity c) m else m) (filter (retired concepts) prior)
       (lc_entity_map st)"
proof (induction prior arbitrary: st)
  case (Cons old prior)
  show ?case
  proof (cases "retired concepts old")
    case True
    then have "cs_slug old \<notin> rn_slug ` set concepts" "find (\<lambda>r. rn_stable r = cs_id old) concepts = None"
      by (simp_all add: find_stable retired_def)
    then have "retire_prior concepts old st = st\<lparr>lc_dormant := lc_dormant st @ [cs_id old],
        lc_dormant_map := map_set (cs_id old) (cs_slug old) (lc_dormant_map st),
        lc_entity_map := (if cs_entity old \<noteq> '''' then map_set (cs_id old) (cs_entity old) (lc_entity_map st)
                          else lc_entity_map st)\<rparr>"
      by (simp add: retire_prior_def)
    with True show ?thesis by (simp add: Cons.IH)
  next
    case False
    then have same: "lc_dormant (retire_prior concepts old st) = lc_dormant st"
      "lc_dormant_map (retire_prior concepts old st) = lc_dormant_map st"
      "lc_entity_map (retire_prior concepts old st) = lc_entity_map st"
      using find_stable [of "cs_id old" concepts]
      by (auto simp: retire_prior_def retired_def split: option.splits)
    show ?thesis using False by (simp add: Cons.IH same)
  qed
qed simp

lemma retire_removals:
  assumes "\<And>i. i \<in> set (lc_dormant st) \<Longrightarrow> i \<in> D" and "cs_id ` {c \<in> set prior. retired concepts c} \<subseteq> D"
  shows "set (lc_removals (fold (retire_prior concepts) prior st)) \<subseteq> set (lc_removals st) \<union>
      {article_page (rn_slug r) | r. r \<in> set concepts \<and> rn_stable r \<in> D} \<union>
      {article_page (cs_slug c) | c. c \<in> set prior \<and> cs_slug c \<notin> rn_slug ` set concepts}"
    and "set (lc_removals st) \<union> {article_page (cs_slug c) | c. c \<in> set prior \<and> cs_slug c \<notin> rn_slug ` set concepts \<and>
        cs_id c \<in> rn_stable ` set concepts} \<subseteq> set (lc_removals (fold (retire_prior concepts) prior st))"
proof -
  have one: "set (lc_removals (retire_prior concepts c st)) \<subseteq> set (lc_removals st) \<union>
      {article_page (rn_slug r) | r. r \<in> set concepts \<and> rn_stable r \<in> D} \<union>
      (if cs_slug c \<notin> rn_slug ` set concepts then {article_page (cs_slug c)} else {})"
    if "set (lc_dormant st) \<subseteq> D" for c and st :: lifecycleState
    using that find_stable_Some [of "cs_id c" concepts] by (auto simp: retire_prior_def split: option.splits) (metis subsetD)+
  have low: "set (lc_removals st) \<subseteq> set (lc_removals (retire_prior concepts c st))"
    "cs_slug c \<notin> rn_slug ` set concepts \<Longrightarrow> cs_id c \<in> rn_stable ` set concepts \<Longrightarrow>
       article_page (cs_slug c) \<in> set (lc_removals (retire_prior concepts c st))" for c and st :: lifecycleState
    using find_stable [of "cs_id c" concepts] by (auto simp: retire_prior_def split: option.splits)
  have dorm: "set (lc_dormant (retire_prior concepts c st)) \<subseteq> D"
    if "set (lc_dormant st) \<subseteq> D" "retired concepts c \<longrightarrow> cs_id c \<in> D" for c and st :: lifecycleState
    using that retire_fold [of concepts "[c]" st] by (auto split: if_splits)
  have "set (lc_removals (fold (retire_prior concepts) prior st)) \<subseteq> set (lc_removals st) \<union>
      {article_page (rn_slug r) | r. r \<in> set concepts \<and> rn_stable r \<in> D} \<union>
      {article_page (cs_slug c) | c. c \<in> set prior \<and> cs_slug c \<notin> rn_slug ` set concepts}"
    if "set (lc_dormant st) \<subseteq> D" "cs_id ` {c \<in> set prior. retired concepts c} \<subseteq> D"
    using that
  proof (induction prior arbitrary: st)
    case (Cons c prior)
    let ?Y = "\<lambda>cs. {article_page (cs_slug c) | c. c \<in> set cs \<and> cs_slug c \<notin> rn_slug ` set concepts}"
    have D: "set (lc_dormant (retire_prior concepts c st)) \<subseteq> D" using Cons.prems by (intro dorm) auto
    have P: "cs_id ` {c \<in> set prior. retired concepts c} \<subseteq> D" using Cons.prems(2) by auto
    have Y: "(if cs_slug c \<notin> rn_slug ` set concepts then {article_page (cs_slug c)} else {}) \<subseteq> ?Y (c # prior)" "?Y prior \<subseteq> ?Y (c # prior)"
      by auto
    show ?case unfolding fold.simps comp_apply
      using Cons.IH [OF D P] one [OF Cons.prems(1), of c] Y by blast
  qed simp
  then show "set (lc_removals (fold (retire_prior concepts) prior st)) \<subseteq> set (lc_removals st) \<union>
      {article_page (rn_slug r) | r. r \<in> set concepts \<and> rn_stable r \<in> D} \<union>
      {article_page (cs_slug c) | c. c \<in> set prior \<and> cs_slug c \<notin> rn_slug ` set concepts}"
    using assms by blast
  show "set (lc_removals st) \<union> {article_page (cs_slug c) | c. c \<in> set prior \<and> cs_slug c \<notin> rn_slug ` set concepts \<and>
        cs_id c \<in> rn_stable ` set concepts} \<subseteq> set (lc_removals (fold (retire_prior concepts) prior st))"
  proof (induction prior arbitrary: st)
    case (Cons c prior)
    let ?Z = "\<lambda>cs. {article_page (cs_slug c) | c. c \<in> set cs \<and> cs_slug c \<notin> rn_slug ` set concepts \<and>
        cs_id c \<in> rn_stable ` set concepts}"
    have "?Z (c # prior) \<subseteq> set (lc_removals (retire_prior concepts c st)) \<union> ?Z prior" using low(2) [of c st] by auto
    then show ?case unfolding fold.simps comp_apply
      using Cons.IH [of "retire_prior concepts c st"] low(1) [of st c] by blast
  qed simp
qed

lemma fold_set_found:
  assumes "\<And>c. c \<in> set cs \<Longrightarrow> f c = i \<Longrightarrow> g c = v" and "(\<exists>c \<in> set cs. f c = i) \<or> map_of m i = Some v"
  shows "map_of (fold (\<lambda>c. map_set (f c) (g c)) cs m) i = Some v"
  using assms
proof (induction cs arbitrary: m)
  case (Cons c cs)
  from Cons.prems have "(\<exists>c' \<in> set cs. f c' = i) \<or> map_of (map_set (f c) (g c) m) i = Some v" by auto
  from Cons.IH [OF Cons.prems(1) this] show ?case by simp
qed simp

lemma fold_set_in:
  "p \<in> set (fold (\<lambda>c. map_set (f c) (g c)) cs m) \<Longrightarrow> p \<in> set m \<or> (\<exists>c \<in> set cs. p = (f c, g c))"
proof (induction cs arbitrary: m)
  case (Cons c cs)
  from Cons.IH [of "map_set (f c) (g c) m"] Cons.prems show ?case by (auto dest: in_map_setD)
qed simp

lemma fold_set_wf: "map_wf m \<Longrightarrow> map_wf (fold (\<lambda>c. map_set (f c) (g c)) cs m)"
  by (induction cs arbitrary: m) auto

lemma fold_filter: "fold (\<lambda>x m. if P x then h x m else m) xs m = fold h (filter P xs) m"
  by (induction xs arbitrary: m) auto

lemma fold_set_some:
  "c \<in> set cs \<Longrightarrow> \<exists>c' \<in> set cs. f c' = f c \<and> map_of (fold (\<lambda>c. map_set (f c) (g c)) cs m) (f c) = Some (g c')"
proof (induction cs rule: rev_induct)
  case (snoc x cs)
  then show ?case by (cases "f c = f x") auto
qed simp

lemma dormant_writes_paths:
  "dormant_writes ws prior ds = Inr writes \<Longrightarrow> map fst writes = map (\<lambda>(i, slug). dormant_page slug) ds"
  by (induction ds arbitrary: writes) (auto simp: Let_def split: if_splits sum.splits file_read.splits)

text \<open>
  What a plan promises. Every reconciled concept ends in exactly one part of the map, in the active
  one when a current source supports its entity; a prior concept whose slug and ID are both gone
  becomes dormant and keeps its entity; every dormant concept has its page written below
  \<open>wiki/.dormant\<close>; the page of an earlier slug is removed; and provided the dormant concepts of the
  generated map are apart from its active ones, no page of an active concept is touched.
\<close>

definition dormant_apart :: "idMap \<Rightarrow> reconciledConcept list \<Rightarrow> bool" where
  "dormant_apart ids concepts \<longleftrightarrow> (\<forall>(i, slug) \<in> set (im_dormant ids). safeConceptSlug slug \<and> slug \<notin> rn_slug ` set concepts)"

definition lifecycle_planned ::
  "idMap \<Rightarrow> reconciledConcept list \<Rightarrow> conceptSnapshot list \<Rightarrow> string list \<Rightarrow> idMap \<Rightarrow> (string \<times> string) list \<Rightarrow> string list
   \<Rightarrow> bool" where
  "lifecycle_planned ids concepts prior activeEntities m writes removals \<longleftrightarrow>
     fst ` set (im_concept m) \<inter> fst ` set (im_dormant m) = {} \<and> fst ` set (im_concept m) \<subseteq> rn_stable ` set concepts \<and>
     (\<forall>r \<in> set concepts.
        if inactive ids activeEntities r
        then map_of (im_concept m) (rn_stable r) = None \<and> map_of (im_dormant m) (rn_stable r) = Some (rn_slug r)
        else map_of (im_concept m) (rn_stable r) = Some (rn_slug r)) \<and>
     (\<forall>old \<in> set prior. retired concepts old \<longrightarrow>
        map_of (im_dormant m) (cs_id old) = Some (cs_slug old) \<and>
        (cs_entity old \<noteq> '''' \<longrightarrow> (\<exists>c \<in> set prior. cs_id c = cs_id old \<and> cs_entity c \<noteq> '''' \<and>
           map_of (im_entity m) (cs_id old) = Some (cs_entity c)))) \<and>
     (\<forall>(i, slug) \<in> set (im_dormant m). dormant_page slug \<in> fst ` set writes) \<and>
     (\<forall>old \<in> set prior. cs_slug old \<notin> rn_slug ` set concepts \<and> cs_id old \<in> rn_stable ` set concepts \<longrightarrow>
        article_page (cs_slug old) \<in> set removals) \<and>
     (dormant_apart ids concepts \<longrightarrow>
        (\<forall>r \<in> set concepts. \<not> inactive ids activeEntities r \<longrightarrow>
           article_page (rn_slug r) \<notin> set removals \<and> article_page (rn_slug r) \<notin> fst ` set writes))"

lemma plan_lifecycle_ok:
  assumes run: "planConceptLifecycle ws data concepts prior act = Inr (m, dormant, writes, removals)"
    and ids: "DecodeIDMap data = Inr ids" "map_wf (im_concept ids)" "map_wf (im_dormant ids)"
    and cs: "set (im_concept ids) = (\<lambda>r. (rn_stable r, rn_slug r)) ` set concepts"
      "distinct (map rn_stable concepts)" "distinct (map rn_slug concepts)" "\<And>r. r \<in> set concepts \<Longrightarrow> safeConceptSlug (rn_slug r)"
    and ps: "\<And>c. c \<in> set prior \<Longrightarrow> safeConceptSlug (cs_slug c)"
      "\<And>c c'. c \<in> set prior \<Longrightarrow> c' \<in> set prior \<Longrightarrow> cs_id c = cs_id c' \<Longrightarrow> cs_slug c = cs_slug c'"
  shows "lifecycle_planned ids concepts prior act m writes removals"
proof -
  define st0 where "st0 = \<lparr>lc_dormant_map = im_dormant ids, lc_entity_map = im_entity ids,
     lc_dormant = map rn_stable (filter (inactive ids act) concepts), lc_removals = []\<rparr>"
  define st where "st = fold (retire_prior concepts) prior st0"
  define ret where "ret = filter (retired concepts) prior"
  define active where "active = filter (\<lambda>(i, slug). i \<notin> set (lc_dormant st)) (im_concept ids)"
  define moved where "moved = fold (\<lambda>(i, slug) m. if i \<in> set (lc_dormant st) then map_set i slug m else m) (im_concept ids)
      (lc_dormant_map st)"
  define dm where "dm = filter (\<lambda>(i, slug). \<not> map_has active i) moved"
  from run ids(1) have W: "dormant_writes ws prior dm = Inr writes"
    and m: "m = ids\<lparr>im_concept := active, im_dormant := dm, im_entity := lc_entity_map st\<rparr>"
    and R: "removals = lc_removals st @ map (\<lambda>(i, slug). article_page slug) dm @
       map (\<lambda>c. dormant_page (cs_slug c)) (filter (\<lambda>c. cs_dormant c \<and> \<not> map_has dm (cs_id c)) prior)"
    by (simp_all add: planConceptLifecycle_def Let_def st0_def [symmetric] st_def [symmetric] active_def [symmetric]
      moved_def [symmetric] dm_def [symmetric] del: map_has_iff split: sum.splits)
  have F: "lc_dormant st = map rn_stable (filter (inactive ids act) concepts) @ map cs_id ret"
    "lc_dormant_map st = fold (\<lambda>c. map_set (cs_id c) (cs_slug c)) ret (im_dormant ids)"
    "lc_entity_map st = fold (\<lambda>c. map_set (cs_id c) (cs_entity c)) (filter (\<lambda>c. cs_entity c \<noteq> '''') ret) (im_entity ids)"
    using retire_fold [of concepts prior st0] by (simp_all add: st_def ret_def st0_def fold_filter)
  have inj: "r = r'" if "r \<in> set concepts" "r' \<in> set concepts" "rn_stable r = rn_stable r'" for r r'
    using cs(2) that by (simp add: distinct_map inj_on_def)
  have D: "rn_stable r \<in> set (lc_dormant st) \<longleftrightarrow> inactive ids act r" if r: "r \<in> set concepts" for r
  proof -
    have "rn_stable r \<notin> cs_id ` set ret" using r by (force simp: ret_def retired_def)
    moreover have "rn_stable r \<in> rn_stable ` {r \<in> set concepts. inactive ids act r} \<longleftrightarrow> inactive ids act r"
      using inj r by blast
    ultimately show ?thesis by (simp add: F(1))
  qed
  have ain': "(i, s) \<in> set active \<longleftrightarrow> (\<exists>r \<in> set concepts. rn_stable r = i \<and> rn_slug r = s \<and> \<not> inactive ids act r)" for i s
    unfolding active_def set_filter cs(1) using D by fastforce
  have akeys: "map_has active i \<longleftrightarrow> (\<exists>r \<in> set concepts. rn_stable r = i \<and> \<not> inactive ids act r)" for i
    unfolding map_has_iff image_iff using ain' by (metis fst_conv prod.collapse)
  have ain: "(rn_stable r, rn_slug r) \<in> set active \<longleftrightarrow> \<not> inactive ids act r" if "r \<in> set concepts" for r
    using that inj ain' by metis
  have awf: "map_wf active" using ids(2) by (auto simp: active_def map_wf_def distinct_map_filter)
  have moved_eq: "moved = fold (\<lambda>p. map_set (fst p) (snd p)) (filter (\<lambda>p. fst p \<in> set (lc_dormant st)) (im_concept ids)) (lc_dormant_map st)"
    unfolding moved_def by (subst fold_filter [symmetric], rule fold_cong) (auto simp: fun_eq_iff)
  have dmwf: "map_wf dm"
    using fold_set_wf [of "lc_dormant_map st" fst snd] fold_set_wf [OF ids(3), of cs_id cs_slug ret]
    by (auto simp: dm_def moved_eq F(2) map_wf_def distinct_map_filter)
  have dmof: "map_of dm i = Some s" if "map_of moved i = Some s" "\<not> map_has active i" for i s
    using map_of_SomeD [OF that(1)] that(2) map_wf_in_iff [OF dmwf, of i s] by (simp add: dm_def del: map_has_iff)
  have dmin: "(i, s) \<in> set (im_dormant ids) \<or> (\<exists>c \<in> set ret. i = cs_id c \<and> s = cs_slug c) \<or>
      (\<exists>r \<in> set concepts. i = rn_stable r \<and> s = rn_slug r \<and> inactive ids act r)" if p: "(i, s) \<in> set dm" for i s
  proof -
    from p have "(i, s) \<in> set moved" by (simp add: dm_def)
    with fold_set_in [of "(i, s)" fst snd] have "(i, s) \<in> set (lc_dormant_map st) \<or>
        ((i, s) \<in> set (im_concept ids) \<and> i \<in> set (lc_dormant st))"
      unfolding moved_eq by fastforce
    then show ?thesis
    proof
      assume "(i, s) \<in> set (lc_dormant_map st)"
      with fold_set_in [of "(i, s)" cs_id cs_slug ret] show ?thesis unfolding F(2) by fastforce
    next
      assume "(i, s) \<in> set (im_concept ids) \<and> i \<in> set (lc_dormant st)"
      then show ?thesis using D cs(1) by auto
    qed
  qed
  have p1: "map_of dm (rn_stable r) = Some (rn_slug r)" if r: "r \<in> set concepts" "inactive ids act r" for r
  proof (rule dmof)
    have "(rn_stable r, rn_slug r) \<in> set (filter (\<lambda>p. fst p \<in> set (lc_dormant st)) (im_concept ids))" using r D cs(1) by auto
    then have found: "\<exists>p \<in> set (filter (\<lambda>p. fst p \<in> set (lc_dormant st)) (im_concept ids)). fst p = rn_stable r" by force
    have same: "snd p = rn_slug r" if "p \<in> set (im_concept ids)" "fst p = rn_stable r" for p
      using that unfolding cs(1) by (auto dest: inj [OF _ r(1)])
    show "map_of moved (rn_stable r) = Some (rn_slug r)"
      unfolding moved_eq by (rule fold_set_found) (use same found in auto)
    show "\<not> map_has active (rn_stable r)" unfolding akeys using inj r by blast
  qed
  have p2: "map_of dm (cs_id c) = Some (cs_slug c)" if c: "c \<in> set prior" "retired concepts c" for c
  proof (rule dmof)
    have no: "cs_id c \<notin> rn_stable ` set concepts" using c by (simp add: retired_def)
    have same: "cs_slug c' = cs_slug c" if "c' \<in> set ret" "cs_id c' = cs_id c" for c'
      using ps(2) [of c' c] that c(1) by (simp add: ret_def)
    have found: "\<exists>c' \<in> set ret. cs_id c' = cs_id c" using c by (auto simp: ret_def)
    have "map_of (lc_dormant_map st) (cs_id c) = Some (cs_slug c)"
      unfolding F(2) by (rule fold_set_found) (use same found in blast)+
    moreover have "fst p \<noteq> cs_id c" if "p \<in> set (im_concept ids)" for p using that no unfolding cs(1) by force
    ultimately show "map_of moved (cs_id c) = Some (cs_slug c)"
      unfolding moved_eq by (intro fold_set_found) auto
    show "\<not> map_has active (cs_id c)" unfolding akeys using no by force
  qed
  have p3: "\<exists>c' \<in> set prior. cs_id c' = cs_id c \<and> cs_entity c' \<noteq> '''' \<and> map_of (lc_entity_map st) (cs_id c) = Some (cs_entity c')"
    if c: "c \<in> set prior" "retired concepts c" "cs_entity c \<noteq> ''''" for c
  proof -
    have "c \<in> set (filter (\<lambda>c. cs_entity c \<noteq> '''') ret)" using c by (simp add: ret_def)
    from fold_set_some [OF this, of cs_id cs_entity "im_entity ids"] show ?thesis by (auto simp: F(3) ret_def)
  qed
  note paths = dormant_writes_paths [OF W]
  have wr: "fst ` set writes = (\<lambda>(i, slug). dormant_page slug) ` set dm"
    using arg_cong [OF paths, of set] by simp
  have retD: "cs_id ` {c \<in> set prior. retired concepts c} \<subseteq> set (lc_dormant st)" by (auto simp: F(1) ret_def)
  have st0D: "i \<in> set (lc_dormant st)" if "i \<in> set (lc_dormant st0)" for i using that by (simp add: F(1) st0_def)
  note removed = retire_removals [of st0 "set (lc_dormant st)" prior concepts, OF st0D retD, folded st_def]
  have p5: "article_page (cs_slug c) \<in> set removals"
    if "c \<in> set prior" "cs_slug c \<notin> rn_slug ` set concepts" "cs_id c \<in> rn_stable ` set concepts" for c
  proof -
    have "article_page (cs_slug c) \<in> set (lc_removals st)" using removed(2) that by blast
    then show ?thesis by (simp add: R)
  qed
  have p6: "article_page (rn_slug r) \<notin> set removals \<and> article_page (rn_slug r) \<notin> fst ` set writes"
    if apart: "dormant_apart ids concepts" and r: "r \<in> set concepts" "\<not> inactive ids act r" for r
  proof -
    have slug: "safeConceptSlug (rn_slug r)" using cs(4) r by blast
    have dslug: "safeConceptSlug s \<and> s \<noteq> rn_slug r" if "(i, s) \<in> set dm" for i s
      using dmin [OF that]
    proof (elim disjE bexE conjE)
      assume "(i, s) \<in> set (im_dormant ids)"
      then show ?thesis using apart r(1) by (auto simp: dormant_apart_def)
    next
      fix c assume "c \<in> set ret" "s = cs_slug c"
      then show ?thesis using ps(1) r(1) by (force simp: ret_def retired_def)
    next
      fix r' assume "r' \<in> set concepts" "s = rn_slug r'" "inactive ids act r'"
      then show ?thesis using cs(3,4) r by (auto simp: distinct_map inj_on_def)
    qed
    have "article_page (rn_slug r) \<notin> set (lc_removals st)"
    proof
      assume "article_page (rn_slug r) \<in> set (lc_removals st)"
      with removed(1)
      have "article_page (rn_slug r) \<in> {article_page (rn_slug r) | r. r \<in> set concepts \<and> rn_stable r \<in> set (lc_dormant st)} \<union>
          {article_page (cs_slug c) | c. c \<in> set prior \<and> cs_slug c \<notin> rn_slug ` set concepts}"
        by (auto simp: st0_def)
      then show False
      proof (elim UnE CollectE exE conjE)
        fix r' assume "article_page (rn_slug r) = article_page (rn_slug r')" "r' \<in> set concepts"
          "rn_stable r' \<in> set (lc_dormant st)"
        then show False using article_page_inj [OF slug cs(4)] D r cs(3) by (auto simp: distinct_map inj_on_def)
      next
        fix c assume "article_page (rn_slug r) = article_page (cs_slug c)" "c \<in> set prior" "cs_slug c \<notin> rn_slug ` set concepts"
        then show False using article_page_inj [OF slug ps(1)] r by force
      qed
    qed
    moreover have d: "article_page (rn_slug r) \<noteq> article_page s \<and> article_page (rn_slug r) \<noteq> dormant_page s" if "(i, s) \<in> set dm" for i s
      using dslug [OF that] article_page_inj [OF slug] article_not_dormant [OF slug] by auto
    then have "article_page (rn_slug r) \<notin> (\<lambda>(i, slug). article_page slug) ` set dm"
      "article_page (rn_slug r) \<notin> fst ` set writes" unfolding wr by auto
    moreover have "article_page (rn_slug r) \<notin> (\<lambda>c. dormant_page (cs_slug c)) ` {c \<in> set prior. P c}" for P
      using article_not_dormant [OF slug ps(1)] by blast
    ultimately show ?thesis unfolding R by simp
  qed
  have keys: "map_of active (rn_stable r) = (if inactive ids act r then None else Some (rn_slug r))" if r: "r \<in> set concepts" for r
  proof (cases "inactive ids act r")
    case True
    then have "\<not> map_has active (rn_stable r)" unfolding akeys using inj r by blast
    with True show ?thesis by (simp add: map_has_def del: map_has_iff)
  next
    case False
    then show ?thesis using ain [OF r] map_wf_in_iff [OF awf] by simp
  qed
  have "fst ` set active \<inter> fst ` set dm = {}" by (force simp: dm_def)
  moreover have "fst ` set active \<subseteq> rn_stable ` set concepts" using cs(1) by (auto simp: active_def)
  ultimately show ?thesis
    unfolding lifecycle_planned_def m using keys p1 p2 p3 p5 p6 by (auto simp: wr)
qed

section \<open>Reconciling and planning together\<close>

lemma concept_tables_safe:
  "concept_tables t cs = Inr t' \<Longrightarrow> c \<in> set cs \<Longrightarrow> safeConceptSlug (cs_slug c)"
  by (induction cs arbitrary: t) (auto simp del: map_has_iff split: if_split_asm)

lemma lifecycle_planned_sorted:
  assumes "bounded_idMap ids"
  shows "lifecycle_planned (sorted_idMap ids) concepts prior act m writes removals =
    lifecycle_planned ids concepts prior act m writes removals"
proof -
  have "map_of (im_entity (sorted_idMap ids)) = map_of (im_entity ids)"
    using assms by (simp add: sorted_idMap_def sort_keys_wf bounded_idMap_def bounded_map_def)
  then have "inactive (sorted_idMap ids) act r = inactive ids act r" for r
    by (simp add: inactive_def map_get_or_def)
  moreover have "dormant_apart (sorted_idMap ids) concepts = dormant_apart ids concepts"
    by (simp add: dormant_apart_def sorted_idMap_def)
  ultimately show ?thesis by (simp add: lifecycle_planned_def)
qed


text \<open>
  The limits of that promise. A prior concept whose slug another concept took over is neither
  active nor dormant afterwards, although its ID is not the new concept's; and when an inactive
  concept takes over the slug of a dormant one that becomes active elsewhere, the page written for
  it is that of the other concept, and the removals delete it again.
\<close>

definition sample_prior :: "string \<Rightarrow> string \<Rightarrow> string \<Rightarrow> bool \<Rightarrow> conceptSnapshot" where
  "sample_prior i slug entity dormant = \<lparr>cs_id = i, cs_slug = slug, cs_entity = entity, cs_dormant = dormant,
     cs_page = ''page of '' @ i, cs_cache_row = '''', cs_source_paths = [], cs_redirects = []\<rparr>"

definition entity_1 :: string where "entity_1 = ''01ARZ3NDEKTSV4RRFFQ69G5FAA''"
definition entity_2 :: string where "entity_2 = ''01ARZ3NDEKTSV4RRFFQ69G5FAB''"

definition sample_generated :: "(string \<times> string \<times> string) list \<Rightarrow> json_stream" where
  "sample_generated cs = [Some (idMap_to_json (empty_idMap\<lparr>im_concept := map (\<lambda>(i, slug, e). (i, slug)) cs,
     im_entity := map (\<lambda>(i, slug, e). (i, e)) cs\<rparr>))]"

definition sample_reconciled :: "(string \<times> string \<times> string) list \<Rightarrow> conceptSnapshot list \<Rightarrow> string list \<Rightarrow>
    (string, string) gomap \<times> (string, string) gomap \<times> (string \<times> string) list \<times> string list" where
  "sample_reconciled generated prior active =
     (case reconcileConceptIDMapWithEntities (sample_generated generated) prior True of
        Inr (ids, concepts) \<Rightarrow>
          (case planConceptLifecycle [] [Some (idMap_to_json ids)] concepts prior active of
             Inr (m, dormant, writes, removals) \<Rightarrow> (im_concept m, im_dormant m, writes, removals)
           | _ \<Rightarrow> ([], [], [], []))
      | _ \<Rightarrow> ([], [], [], []))"

lemma prior_concept_vanishes:
  "sample_reconciled [(''new'', ''beta'', entity_1)]
     [sample_prior ''A'' ''alpha'' entity_1 False, sample_prior ''B'' ''beta'' entity_2 False] [entity_1] =
   ([(''A'', ''beta'')], [], [], [''wiki/alpha.md''])"
  by code_simp

lemma dormant_page_lost:
  "sample_reconciled [(''new'', ''alpha'', entity_2), (''old'', ''gamma'', entity_1)]
     [sample_prior ''A'' ''alpha'' entity_1 True, sample_prior ''B'' ''beta'' entity_2 False] [entity_1] =
   ([(''A'', ''gamma'')], [(''B'', ''alpha'')], [(''wiki/.dormant/alpha.md'', ''page of A'')],
    [''wiki/alpha.md'', ''wiki/beta.md'', ''wiki/alpha.md'', ''wiki/.dormant/alpha.md''])"
  by code_simp

end
