(* ===== verification/SourcePages.thy ===== *)
theory SourcePages
  imports SourceReconcile
begin

text \<open>
  What a run writes into the pages of its sources (\<open>cmd/olw_worker/source_reconcile.go\<close>): the
  stable ID in the front matter and, at the end, the owner's annotation as a trailer that names
  the source and the digest of the text. The trailer is stripped before it is written again.
\<close>

section \<open>Lines\<close>

definition lineEnding :: "string \<Rightarrow> string" where
  "lineEnding line = (if has_suffix line [cr, lf] then [cr, lf] else if has_suffix line [lf] then [lf] else '''')"

definition startsWithYAMLIndent :: "string \<Rightarrow> bool" where
  "startsWithYAMLIndent line \<longleftrightarrow> has_prefix line '' '' \<or> has_prefix line [CHR 0x09]"

record sourceLine =
  sl_start :: nat
  sl_end :: nat
  sl_content :: string
  sl_eol :: string

text \<open>\<open>splitSourceLines\<close>: the lines with their byte ranges; nothing follows a final newline.\<close>

fun source_lines :: "nat \<Rightarrow> string list \<Rightarrow> sourceLine list" where
  "source_lines off [] = []"
| "source_lines off (l # ls) =
     (if l = '''' then source_lines off ls
      else \<lparr>sl_start = off, sl_end = off + length l, sl_content = line_content l, sl_eol = lineEnding l\<rparr>
           # source_lines (off + length l) ls)"

definition splitSourceLines :: "string \<Rightarrow> sourceLine list" where
  "splitSourceLines data = source_lines 0 (split_after lf data)"

section \<open>The annotation trailer\<close>

text \<open>\<open>strings.Count\<close> for a non-empty pattern, and \<open>strings.Cut\<close>.\<close>

function sub_count :: "'a list \<Rightarrow> 'a list \<Rightarrow> nat" where
  "sub_count s pat =
     (if s = [] \<or> pat = [] then 0
      else if has_prefix s pat then Suc (sub_count (drop (length pat) s) pat)
      else sub_count (tl s) pat)"
  by pat_completeness auto
termination
  by (relation "measure (\<lambda>(s, _). length s)") auto

declare sub_count.simps [simp del]

fun cut_at :: "'a list \<Rightarrow> 'a list \<Rightarrow> ('a list \<times> 'a list) option" where
  "cut_at sep [] = (if sep = [] then Some ([], []) else None)"
| "cut_at sep (c # s) =
     (if has_prefix (c # s) sep then Some ([], drop (length sep) (c # s))
      else map_option (\<lambda>(a, b). (c # a, b)) (cut_at sep s))"

definition annotationHeading :: string where "annotationHeading = ''Human annotations (system)''"
definition annotationMarker :: string where "annotationMarker = ''lwc-ann-v1''"
definition commentPrefix :: string where "commentPrefix = ''<!-- lwc-ann-v1 source_id=''"

definition parseAnnotationHeader :: "string \<Rightarrow> (string \<times> string) option" where
  "parseAnnotationHeader header =
     (case cut_at '' ann_sha256='' header of
        None \<Rightarrow> None
      | Some (sourceID, digest) \<Rightarrow>
          (if sourceID = '''' \<or> length digest \<noteq> 64 then None
           else if \<not> hex_decodable digest then None else Some (sourceID, digest)))"

text \<open>
  The scan for the trailer: \<open>trailer_scan\<close> goes over the line numbers with the candidate found so
  far (where the page proper ends). \<open>trailer_at\<close> are the checks on the heading line \<open>i\<close>.
\<close>

definition trailer_at :: "(string \<Rightarrow> string) \<Rightarrow> string \<Rightarrow> sourceLine list \<Rightarrow> string \<Rightarrow> nat \<Rightarrow> gerr + nat option" where
  "trailer_at sha data lines' owner i =
     (if i < 4 \<or> sl_content (lines' ! (i - 1)) \<noteq> '''' \<or> sl_content (lines' ! (i - 2)) \<noteq> ''---'' \<or>
         sl_content (lines' ! (i - 3)) \<noteq> '''' \<or> i + 2 \<ge> length lines'
      then Inr None
      else (let comment = sl_content (lines' ! (i + 1))
            in if \<not> has_prefix comment commentPrefix \<or> \<not> has_suffix comment '' -->'' then Inr None
               else (case parseAnnotationHeader (trim_prefix (trim_suffix comment '' -->'') commentPrefix) of
                       None \<Rightarrow> Inr None
                     | Some (sourceID, digest) \<Rightarrow>
                         (if \<not> ValidSourceID sourceID then Inr None
                          else if sourceID \<noteq> owner then Inl (Msg ''annotation trailer owner mismatch'')
                          else if \<not> has_suffix data [lf] then Inr None
                          else (let finalEOL = (if has_suffix data [cr, lf] then 2 else 1);
                                    first = sl_start (lines' ! (i + 2));
                                    body = drop first (take (length data - finalEOL) data)
                                in if body = '''' \<or> Digest sha body \<noteq> digest then Inr None
                                   else Inr (Some (sl_end (lines' ! (i - 4)) - length (sl_eol (lines' ! (i - 4))))))))))"

fun trailer_scan ::
  "(string \<Rightarrow> string) \<Rightarrow> string \<Rightarrow> sourceLine list \<Rightarrow> string \<Rightarrow> nat list \<Rightarrow> nat option \<Rightarrow> gerr + nat option" where
  "trailer_scan sha data lines' owner [] candidate = Inr candidate"
| "trailer_scan sha data lines' owner (i # is) candidate =
     (if sl_content (lines' ! i) \<noteq> ''## '' @ annotationHeading then trailer_scan sha data lines' owner is candidate
      else if candidate \<noteq> None then Inl (Msg ''duplicate annotation trailers'')
      else (case trailer_at sha data lines' owner i of
              Inl e \<Rightarrow> Inl e
            | Inr None \<Rightarrow> trailer_scan sha data lines' owner is candidate
            | Inr (Some start) \<Rightarrow> trailer_scan sha data lines' owner is (Some start)))"

definition stripSystemAnnotationTrailer :: "(string \<Rightarrow> string) \<Rightarrow> string \<Rightarrow> string \<Rightarrow> gerr + string" where
  "stripSystemAnnotationTrailer sha data owner =
     (let lines' = splitSourceLines data;
          headingCount = sub_count data annotationHeading;
          markerCount = sub_count data annotationMarker
      in case trailer_scan sha data lines' owner [0..<length lines'] None of
           Inl e \<Rightarrow> Inl e
         | Inr candidate \<Rightarrow>
             (if \<not> (headingCount > 0 \<or> markerCount > 0) then Inr data
              else (case candidate of
                      None \<Rightarrow> Inl (Msg ''malformed annotation trailer'')
                    | Some start \<Rightarrow>
                        (if headingCount \<noteq> 1 \<or> markerCount \<noteq> 1 then Inl (Msg ''duplicate annotation trailers'')
                         else Inr (take start data)))))"

definition annotation_trailer :: "string \<Rightarrow> string \<Rightarrow> string \<Rightarrow> string" where
  "annotation_trailer stableID digest body =
     [lf, lf] @ ''---'' @ [lf, lf] @ ''## '' @ annotationHeading @ [lf] @
     commentPrefix @ stableID @ '' ann_sha256='' @ digest @ '' -->'' @ [lf] @ Normalize body @ [lf]"

definition planSourceAnnotationTransform :: "(string \<Rightarrow> string) \<Rightarrow> string \<Rightarrow> string \<Rightarrow> sourceSnapshot \<Rightarrow> gerr + string" where
  "planSourceAnnotationTransform sha page stableID s =
     (case stripSystemAnnotationTrailer sha page stableID of
        Inl e \<Rightarrow> Inl e
      | Inr page' \<Rightarrow>
          (if trim_space (ss_ann_body s) \<noteq> ''''
           then Inr (page' @ annotation_trailer stableID (ss_ann_sha s) (ss_ann_body s)) else Inr page'))"

section \<open>The ID of a page\<close>

text \<open>A line \<open>key: value # comment\<close> with its value replaced; \<open>comment_start\<close> is where the comment begins.\<close>

definition comment_start :: "string \<Rightarrow> nat \<Rightarrow> nat option" where
  "comment_start rest leading =
     List.find (\<lambda>i. rest ! i = CHR ''#'' \<and> (i = leading \<or> rest ! (i - 1) = CHR '' '' \<or> rest ! (i - 1) = CHR 0x09))
       [leading..<length rest]"

definition blanks :: string where "blanks = [CHR '' '', CHR 0x09]"

definition rewriteTopLevelIDLine :: "string \<Rightarrow> string \<Rightarrow> string" where
  "rewriteTopLevelIDLine line i =
     (let content = line_content line; eol = lineEnding line
      in if CHR '':'' \<notin> set content then line
         else (let key = takeWhile (\<lambda>c. c \<noteq> CHR '':'') content; rest = drop (length key + 1) content;
                   leading = length rest - length (dropWhile (\<lambda>c. c \<in> set blanks) rest);
                   suffix = (case comment_start rest leading of
                               Some comment \<Rightarrow>
                                 (let before = take comment rest
                                  in drop (length (trim_right_chars blanks before)) before @ drop comment rest)
                             | None \<Rightarrow> drop (length (trim_right_chars blanks rest)) rest)
               in take (length key + 1) content @ take leading rest @ i @ suffix @ eol))"

definition source_id_line :: "string \<Rightarrow> bool" where
  "source_id_line l \<longleftrightarrow>
     (let line = line_content l
      in CHR '':'' \<in> set line \<and> \<not> startsWithYAMLIndent line \<and>
         trim_space (takeWhile (\<lambda>c. c \<noteq> CHR '':'') line) = ''id'')"

fun rewrite_source_lines :: "string \<Rightarrow> bool \<Rightarrow> string list \<Rightarrow> gerr + (string list \<times> bool)" where
  "rewrite_source_lines i found [] = Inr ([], found)"
| "rewrite_source_lines i found (l # ls) =
     (if source_id_line l
      then (if found then Inl (Msg ''duplicate source frontmatter id'')
            else map_sum id (\<lambda>(r, f). (rewriteTopLevelIDLine l i # r, f)) (rewrite_source_lines i True ls))
      else map_sum id (\<lambda>(r, f). (l # r, f)) (rewrite_source_lines i found ls))"

text \<open>\<open>matter\<close> is the front matter parser's \<open>source_file\<close>.\<close>

definition rewriteSourcePageID :: "(string \<Rightarrow> gerr + string) \<Rightarrow> string \<Rightarrow> string \<Rightarrow> string \<Rightarrow> gerr + string" where
  "rewriteSourcePageID matter data i rawPath =
     (case matter data of
        Inl e \<Rightarrow> Inl e
      | Inr source_file \<Rightarrow>
          (if trim_space source_file \<noteq> rawPath then Inl (Msg ''frontmatter source_file does not match'')
           else (case split_after lf data of
                   [] \<Rightarrow> Inl (Msg ''source frontmatter is missing'')
                 | l # ls \<Rightarrow>
                     (if trim_space l \<noteq> ''---'' then Inl (Msg ''source frontmatter is missing'')
                      else (let front = takeWhile (\<lambda>x. \<not> isFrontmatterDelimiter x) ls;
                                rest = dropWhile (\<lambda>x. \<not> isFrontmatterDelimiter x) ls
                            in case rest of
                                 [] \<Rightarrow> Inl (Msg ''source frontmatter is unterminated'')
                               | closing # body \<Rightarrow>
                                   (case rewrite_source_lines i False front of
                                      Inl e \<Rightarrow> Inl e
                                    | Inr (front', found) \<Rightarrow>
                                        (if found then Inr (concat (l # front' @ rest))
                                         else (let eol = (if lineEnding closing = '''' then [lf] else lineEnding closing)
                                               in Inr (concat (l # front' @ [''id: '' @ i @ eol] @ rest))))))))))"

record plannedWrite =
  pw_rel :: string
  pw_data :: string

text \<open>\<open>byRaw\<close> keeps the last snapshot of a raw path.\<close>

definition plan_source_page ::
  "(string \<Rightarrow> string) \<Rightarrow> (string \<Rightarrow> gerr + string) \<Rightarrow> workspace \<Rightarrow> sourceSnapshot list \<Rightarrow> reconciledSource \<Rightarrow> gerr + plannedWrite" where
  "plan_source_page sha matter ws prior r =
     (let rel = path_clean (''wiki/sources/'' @ rs_slug r @ ''.md'')
      in case readBoundedRegularFileWithin ws rel of
           FileMissing \<Rightarrow> Inl (Msg ''read generated source'')
         | FileError e \<Rightarrow> Inl (Wrapped ''read generated source'' e)
         | FileContents page \<Rightarrow>
             (case rewriteSourcePageID matter page (rs_stable r) (rs_raw r) of
                Inl e \<Rightarrow> Inl (Wrapped ''reconcile generated source'' e)
              | Inr page1 \<Rightarrow>
                  (case map_of (rev (map (\<lambda>s. (ss_raw_path s, s)) prior)) (rs_raw r) of
                     None \<Rightarrow> Inr \<lparr>pw_rel = rel, pw_data = page1\<rparr>
                   | Some s \<Rightarrow>
                       (case planSourceAnnotationTransform sha page1 (rs_stable r) s of
                          Inl e \<Rightarrow> Inl e
                        | Inr page2 \<Rightarrow> Inr \<lparr>pw_rel = rel, pw_data = page2\<rparr>))))"

fun planSourcePageIDAndAnnotations ::
  "(string \<Rightarrow> string) \<Rightarrow> (string \<Rightarrow> gerr + string) \<Rightarrow> workspace \<Rightarrow> reconciledSource list \<Rightarrow> sourceSnapshot list
   \<Rightarrow> gerr + plannedWrite list" where
  "planSourcePageIDAndAnnotations sha matter ws [] prior = Inr []"
| "planSourcePageIDAndAnnotations sha matter ws (r # rs) prior =
     (case plan_source_page sha matter ws prior r of
        Inl e \<Rightarrow> Inl e
      | Inr w \<Rightarrow> map_sum id ((#) w) (planSourcePageIDAndAnnotations sha matter ws rs prior))"

section \<open>A trailer is stripped exactly\<close>

lemma sub_count_Nil [simp]: "sub_count [] pat = 0"
  by (simp add: sub_count.simps)

lemma sub_count_Cons:
  "pat \<noteq> [] \<Longrightarrow> sub_count (c # s) pat =
     (if has_prefix (c # s) pat then Suc (sub_count (drop (length pat) (c # s)) pat) else sub_count s pat)"
  by (subst sub_count.simps) simp

lemma sub_count_contains: "pat \<noteq> [] \<Longrightarrow> 0 < sub_count s pat \<longleftrightarrow> contains s pat"
  by (induction s) (auto simp: sub_count_Cons)

text \<open>A pattern without newline does not occur across the end of a line.\<close>

lemma has_prefix_line:
  "d \<notin> set pat \<Longrightarrow> has_prefix (a @ d # b) pat \<longleftrightarrow> has_prefix a pat"
proof (induction a arbitrary: pat)
  case Nil
  then show ?case by (cases pat) (auto simp: has_prefix_def)
next
  case (Cons x a)
  then show ?case by (cases pat) (auto simp: has_prefix_def)
qed

lemma sub_count_line:
  assumes pat: "pat \<noteq> []" and d: "d \<notin> set pat"
  shows "sub_count (a @ d # b) pat = sub_count a pat + sub_count b pat"
proof (induction a rule: length_induct)
  case (1 a)
  show ?case
  proof (cases a)
    case Nil
    have "\<not> has_prefix (d # b) pat" using pat d by (cases pat) (auto simp: has_prefix_def)
    then show ?thesis using pat Nil by (simp add: sub_count_Cons)
  next
    case (Cons x a')
    have eq: "has_prefix (x # a' @ d # b) pat \<longleftrightarrow> has_prefix (x # a') pat"
      using has_prefix_line [OF d, of "x # a'" b] by simp
    show ?thesis
    proof (cases "has_prefix (x # a') pat")
      case True
      then have "length pat \<le> length (x # a')" by (metis has_prefix_iff le_add1 length_append)
      then have dr: "drop (length pat) (x # a' @ d # b) = drop (length pat) (x # a') @ d # b"
        using drop_append [of "length pat" "x # a'" "d # b"] by simp
      have "length (drop (length pat) (x # a')) < length a" using pat Cons by simp
      then have "sub_count (drop (length pat) (x # a') @ d # b) pat =
          sub_count (drop (length pat) (x # a')) pat + sub_count b pat" using 1 by blast
      then show ?thesis using True eq dr Cons pat by (simp add: sub_count_Cons)
    next
      case False
      then show ?thesis using 1 eq Cons pat by (simp add: sub_count_Cons)
    qed
  qed
qed

lemma split_after_nonempty [simp]: "split_after d s \<noteq> []"
  by (cases s) (auto split: list.splits)

lemma split_after_line: "d \<notin> set a \<Longrightarrow> split_after d (a @ d # b) = (a @ [d]) # split_after d b"
  by (induction a) auto

lemma split_after_append:
  "\<exists>zs. concat zs = a @ [d] \<and> zs \<noteq> [] \<and> split_after d (a @ d # b) = zs @ split_after d b \<and>
     (\<forall>z \<in> set zs. z \<noteq> [])"
proof (induction a)
  case Nil
  then show ?case by (intro exI [of _ "[[d]]"]) simp
next
  case (Cons c a)
  then obtain zs where zs: "concat zs = a @ [d]" "zs \<noteq> []" "split_after d (a @ d # b) = zs @ split_after d b"
    "\<forall>z \<in> set zs. z \<noteq> []" by blast
  obtain y ys where y: "zs = y # ys" using zs(2) by (cases zs) auto
  show ?case
  proof (cases "c = d")
    case True
    then show ?thesis using zs by (intro exI [of _ "[c] # zs"]) simp
  next
    case False
    then show ?thesis using zs y by (intro exI [of _ "(c # y) # ys"]) simp
  qed
qed

lemma source_lines_append:
  "source_lines off (xs @ ys) = source_lines off xs @ source_lines (off + length (concat xs)) ys"
  by (induction xs arbitrary: off) (auto simp: add.assoc)

text \<open>The lines of a text up to a newline, and its last line.\<close>

lemma lines_before:
  obtains L where "\<And>b. source_lines off (split_after lf (p @ lf # b)) = L @ source_lines (off + length p + 1) (split_after lf b)"
    and "L \<noteq> []" and "sl_end (last L) = off + length p + 1"
    and "\<not> has_suffix p [cr] \<Longrightarrow> sl_eol (last L) = [lf]"
    and "\<And>l. l \<in> set L \<Longrightarrow> contains p (sl_content l)"
proof -
  define p0 where "p0 = rev (dropWhile (\<lambda>c. c \<noteq> lf) (rev p))"
  define q where "q = rev (takeWhile (\<lambda>c. c \<noteq> lf) (rev p))"
  have p: "p = p0 @ q" unfolding p0_def q_def by (metis rev_append rev_rev_ident takeWhile_dropWhile_id)
  have q: "lf \<notin> set q" unfolding q_def by (auto dest: set_takeWhileD)
  have p0: "p0 = [] \<or> (\<exists>p1. p0 = p1 @ [lf])"
  proof (cases "dropWhile (\<lambda>c. c \<noteq> lf) (rev p)")
    case (Cons c r)
    then have "c = lf" using hd_dropWhile [of "\<lambda>c. c \<noteq> lf" "rev p"] by auto
    then show ?thesis using Cons by (simp add: p0_def)
  qed (simp add: p0_def)
  have "\<exists>zs. concat zs = p0 \<and> (\<forall>b. split_after lf (p0 @ b) = zs @ split_after lf b)"
  proof (cases "p0 = []")
    case True
    then show ?thesis by (intro exI [of _ "[]"]) simp
  next
    case False
    with p0 obtain p1 where p1: "p0 = p1 @ [lf]" by blast
    have "split_after lf (p1 @ lf # b) = butlast (split_after lf (p1 @ [lf])) @ split_after lf b" for b
      using split_after_append [of p1 lf b] split_after_append [of p1 lf "[]"]
    proof -
      show ?thesis
      proof (induction p1)
        case (Cons c p1)
        show ?case
        proof (cases "c = lf")
          case False
          obtain y ys z where "split_after lf (p1 @ [lf]) = y # ys @ [z]"
            using split_after_append [of p1 lf "[]"] by (metis append.assoc append_Cons append_Nil list.exhaust split_after.simps(1))
          then show ?thesis using Cons False by simp
        qed (use Cons in simp)
      qed simp
    qed
    moreover have "concat (butlast (split_after lf (p1 @ [lf]))) = p0"
    proof -
      obtain zs where "concat zs = p1 @ [lf]" "split_after lf (p1 @ [lf]) = zs @ [[]]"
        using split_after_append [of p1 lf "[]"] by auto
      then show ?thesis using p1 by simp
    qed
    ultimately show ?thesis using p1 by (metis append.assoc append_Cons append_Nil)
  qed
  then obtain zs where zs: "concat zs = p0" "\<And>b. split_after lf (p0 @ b) = zs @ split_after lf b" by blast
  define l where "l = \<lparr>sl_start = off + length p0, sl_end = off + length p0 + length (q @ [lf]),
    sl_content = line_content (q @ [lf]), sl_eol = lineEnding (q @ [lf])\<rparr>"
  define L where "L = source_lines off zs @ [l]"
  have "source_lines off (split_after lf (p @ lf # b)) = L @ source_lines (off + length p + 1) (split_after lf b)" for b
    using zs(2) [of "q @ lf # b"] split_after_line [OF q, of b] zs(1)
    by (simp add: p L_def l_def source_lines_append add.assoc)
  moreover have "sl_eol (last L) = [lf]" if "\<not> has_suffix p [cr]"
  proof -
    have "\<not> has_suffix (q @ [lf]) [cr, lf]" using that by (auto simp: has_suffix_iff p)
    then show ?thesis by (simp add: L_def l_def lineEnding_def has_suffix_iff)
  qed
  moreover have "contains p (sl_content x)" if "x \<in> set L" for x
  proof -
    have sub: "contains (a @ z @ b) (line_content z)" for a z b :: string
    proof -
      have "\<exists>t. z = line_content z @ t" by (auto simp: line_content_def trim_suffix_def) (metis append_assoc append_take_drop_id)+
      then show ?thesis unfolding contains_iff by (metis append_assoc)
    qed
    have mem: "\<exists>z \<in> set ws. sl_content y = line_content z" if "y \<in> set (source_lines k ws)" for k ws y
      using that by (induction k ws rule: source_lines.induct) (auto split: if_splits)
    have "contains p (sl_content y)" if y: "y \<in> set (source_lines off zs)" for y
    proof -
      obtain z where z: "z \<in> set zs" "sl_content y = line_content z" using mem [OF y] by blast
      then obtain us vs where "zs = us @ z # vs" by (metis split_list)
      then have "p = concat us @ z @ concat vs @ q" using zs(1) p by auto
      then show ?thesis using sub z(2) by metis
    qed
    moreover have "contains p (sl_content l)"
    proof -
      have "line_content (q @ [lf]) = trim_suffix q [cr]"
        by (simp add: line_content_def trim_suffix_def has_suffix_iff)
      then have "\<exists>t. q = sl_content l @ t" by (auto simp: l_def trim_suffix_def) (metis append_take_drop_id)
      then show ?thesis unfolding contains_iff p by (metis append_assoc)
    qed
    ultimately show ?thesis using that by (auto simp: L_def)
  qed
  ultimately show thesis by (intro that [of L]) (auto simp: L_def l_def p)
qed

lemma scan_skip:
  "\<forall>i \<in> set is. sl_content (ls ! i) \<noteq> ''## '' @ annotationHeading \<Longrightarrow>
     trailer_scan sha data ls owner (is @ js) c = trailer_scan sha data ls owner js c"
  by (induction "is") auto

lemma cut_at_first:
  "c \<notin> set sep \<Longrightarrow> \<not> contains a (c # sep) \<Longrightarrow> cut_at (c # sep) (a @ c # sep @ b) = Some (a, b)"
proof (induction a)
  case Nil
  then show ?case using has_prefix_append [of "c # sep" b] by simp
next
  case (Cons x a)
  note Cons_prem = Cons.prems(1)
  have "\<not> has_prefix ((x # a) @ c # sep @ b) (c # sep)"
  proof
    assume "has_prefix ((x # a) @ c # sep @ b) (c # sep)"
    then obtain t where t: "(x # a) @ c # sep @ b = (c # sep) @ t" by (auto simp: has_prefix_iff)
    from iffD1 [OF append_eq_append_conv2 t] show False
    proof (elim disjE exE conjE)
      fix u assume "x # a = (c # sep) @ u"
      then have "contains (x # a) (c # sep)" unfolding contains_iff by (metis append_Nil)
      with Cons.prems(2) show False by blast
    next
      fix u assume u: "(x # a) @ u = c # sep" "c # sep @ b = u @ t"
      show False
      proof (cases u)
        case Nil
        then have "x # a = c # sep" using u(1) by simp
        then have "contains (x # a) (c # sep)" unfolding contains_iff by (metis append_Nil append_Nil2)
        with Cons.prems(2) show False by blast
      next
        case (Cons y u')
        then have "c \<in> set sep" using u by auto
        with Cons_prem show False by blast
      qed
    qed
  qed
  moreover have "\<not> contains a (c # sep)" using Cons.prems(2) by simp
  ultimately show ?case using Cons by simp
qed

text \<open>A page and an annotation text that do not quote the trailer, and an ID as sources have them.\<close>

definition unmarked :: "string \<Rightarrow> bool" where
  "unmarked s \<longleftrightarrow> \<not> contains s annotationHeading \<and> \<not> contains s annotationMarker"

definition plain_id :: "string \<Rightarrow> bool" where
  "plain_id i \<longleftrightarrow> ValidSourceID i \<and> set i \<inter> {lf, CHR '' '', CHR ''='', CHR ''(''} = {} \<and> \<not> contains i annotationMarker"

definition digest_of :: "(string \<Rightarrow> string) \<Rightarrow> string \<Rightarrow> string \<Rightarrow> bool" where
  "digest_of sha d body \<longleftrightarrow> d = Digest sha body \<and> length d = 64 \<and> hex_decodable d"

definition comment_line :: "string \<Rightarrow> string \<Rightarrow> string" where
  "comment_line i d = commentPrefix @ i @ '' ann_sha256='' @ d @ '' -->''"

lemma trailer_lines:
  "Normalize body = body \<Longrightarrow>
   p @ annotation_trailer i d body =
     p @ lf # [] @ lf # ''---'' @ lf # [] @ lf # (''## '' @ annotationHeading) @ lf # comment_line i d @ lf # body @ lf # []"
  by (simp add: annotation_trailer_def comment_line_def)

lemma marker_texts: "annotationHeading \<noteq> [] \<and> annotationMarker \<noteq> [] \<and> lf \<notin> set annotationHeading \<and> lf \<notin> set annotationMarker"
  by (simp add: annotationHeading_def annotationMarker_def)

lemma count_none: "unmarked s \<Longrightarrow> sub_count s annotationHeading = 0 \<and> sub_count s annotationMarker = 0"
  using sub_count_contains [of annotationHeading s] sub_count_contains [of annotationMarker s] marker_texts
  by (auto simp: unmarked_def)

lemma hex_no_char: "hex_decodable d \<Longrightarrow> c \<in> set d \<Longrightarrow> hex_digit c"
  by (simp add: hex_decodable_def list_all_iff)

lemma sub_count_absent: "pat \<noteq> [] \<Longrightarrow> c \<in> set pat \<Longrightarrow> c \<notin> set s \<Longrightarrow> sub_count s pat = 0"
  using sub_count_contains [of pat s] by (auto simp: contains_iff)

lemma comment_counts:
  assumes i: "plain_id i" and d: "hex_decodable d"
  shows "sub_count (comment_line i d) annotationHeading = 0 \<and> sub_count (comment_line i d) annotationMarker = 1 \<and>
    lf \<notin> set (comment_line i d)"
proof -
  have "\<not> hex_digit (CHR ''('')" "\<not> hex_digit (CHR ''-'')" "\<not> hex_digit lf" by code_simp+
  then have hex: "CHR ''('' \<notin> set d" "CHR ''-'' \<notin> set d" "lf \<notin> set d"
    using hex_no_char [OF d] by blast+
  have "CHR ''('' \<notin> set (comment_line i d)" "lf \<notin> set (comment_line i d)"
    using i hex by (auto simp: comment_line_def commentPrefix_def plain_id_def)
  moreover have "sub_count (comment_line i d) annotationMarker = 1"
  proof -
    have split: "comment_line i d =
        ''<!-- lwc-ann-v1 source_id'' @ CHR ''='' # i @ CHR '' '' # ''ann_sha256'' @ CHR ''='' # d @ CHR '' '' # ''-->''"
      by (simp add: comment_line_def commentPrefix_def)
    have sep: "annotationMarker \<noteq> []" "CHR ''='' \<notin> set annotationMarker" "CHR '' '' \<notin> set annotationMarker"
      by (simp_all add: annotationMarker_def)
    have "sub_count i annotationMarker = 0"
      using i sub_count_contains [of annotationMarker i] sep(1) by (auto simp: plain_id_def)
    moreover have "sub_count d annotationMarker = 0"
      using hex(2) by (intro sub_count_absent) (auto simp: annotationMarker_def)
    moreover have "sub_count ''<!-- lwc-ann-v1 source_id'' annotationMarker = 1" "sub_count ''ann_sha256'' annotationMarker = 0"
      "sub_count ''-->'' annotationMarker = 0" by code_simp+
    ultimately show ?thesis
      unfolding split by (simp only: sub_count_line [OF sep(1,2)] sub_count_line [OF sep(1,3)])
  qed
  ultimately show ?thesis
    using sub_count_absent [of annotationHeading "CHR ''(''" "comment_line i d"] by (auto simp: annotationHeading_def)
qed

lemma header_parsed:
  assumes i: "plain_id i" and d: "length d = 64" "hex_decodable d"
  shows "has_prefix (comment_line i d) commentPrefix \<and> has_suffix (comment_line i d) '' -->'' \<and>
    parseAnnotationHeader (trim_prefix (trim_suffix (comment_line i d) '' -->'') commentPrefix) = Some (i, d)"
proof -
  have suf: "trim_suffix (a @ b) b = a" for a b :: string by (auto simp: trim_suffix_def has_suffix_iff)
  have "trim_suffix (comment_line i d) '' -->'' = commentPrefix @ i @ '' ann_sha256='' @ d"
    using suf [of "commentPrefix @ i @ '' ann_sha256='' @ d" "'' -->''"] by (simp add: comment_line_def)
  then have "trim_prefix (trim_suffix (comment_line i d) '' -->'') commentPrefix = i @ CHR '' '' # ''ann_sha256='' @ d"
    by (simp add: trim_prefix_def)
  moreover have "\<not> contains i (CHR '' '' # ''ann_sha256='')"
    using i by (auto simp: contains_iff plain_id_def)
  ultimately have "parseAnnotationHeader (trim_prefix (trim_suffix (comment_line i d) '' -->'') commentPrefix) = Some (i, d)"
    using i d cut_at_first [of "CHR '' ''" "''ann_sha256=''" i d]
    by (simp add: parseAnnotationHeader_def plain_id_def ValidSourceID_def)
  moreover have "has_prefix (comment_line i d) commentPrefix" by (simp add: comment_line_def)
  moreover have "has_suffix (comment_line i d) '' -->''"
    unfolding has_suffix_iff comment_line_def
    by (rule exI [of _ "commentPrefix @ i @ '' ann_sha256='' @ d"]) simp
  ultimately show ?thesis by simp
qed

lemma marker_line:
  "sub_count (a @ lf # b) annotationHeading = sub_count a annotationHeading + sub_count b annotationHeading"
  "sub_count (a @ lf # b) annotationMarker = sub_count a annotationMarker + sub_count b annotationMarker"
  using marker_texts by (simp_all add: sub_count_line)

lemma heading_counts:
  "sub_count (''## '' @ annotationHeading) annotationHeading = 1"
  "sub_count (''## '' @ annotationHeading) annotationMarker = 0"
  "sub_count ''---'' annotationHeading = 0" "sub_count ''---'' annotationMarker = 0"
  by code_simp+

lemma source_lines_line:
  assumes "lf \<notin> set a"
  shows "source_lines off (split_after lf (a @ lf # b)) =
    \<lparr>sl_start = off, sl_end = off + length a + 1, sl_content = trim_suffix a [cr], sl_eol = lineEnding (a @ [lf])\<rparr>
    # source_lines (off + length a + 1) (split_after lf b)"
proof -
  have "line_content (a @ [lf]) = trim_suffix a [cr]" by (simp add: line_content_def trim_suffix_def has_suffix_iff)
  then show ?thesis by (simp add: split_after_line [OF assms])
qed

lemma source_lines_start: "s \<noteq> [] \<Longrightarrow> sl_start (hd (source_lines off (split_after d s))) = off"
  by (cases s) (auto split: list.splits)

lemma trim_suffix_no_cr: "cr \<notin> set a \<Longrightarrow> trim_suffix a [cr] = a"
  by (auto simp: trim_suffix_def has_suffix_iff)

lemma Normalize_no_cr: "cr \<notin> set (Normalize body)"
  by (auto simp: Normalize_def replace_all_byte)

lemma scan_one:
  assumes "\<forall>j \<in> {..<length ls}. sl_content (ls ! j) = ''## '' @ annotationHeading \<longleftrightarrow> j = i" and "i < length ls"
    and "trailer_at sha data ls owner i = Inr (Some start)"
  shows "trailer_scan sha data ls owner [0..<length ls] None = Inr (Some start)"
proof -
  obtain k where "length ls = i + Suc k" using assms(2) less_iff_Suc_add by auto
  then have "[0..<length ls] = [0..<i] @ i # [Suc i..<length ls]"
    using upt_add_eq_append [of 0 i "Suc k"] upt_conv_Cons [of i "i + Suc k"] by simp
  moreover have "trailer_scan sha data ls owner [Suc i..<length ls] (Some start) = Inr (Some start)"
    using assms(1) scan_skip [of "[Suc i..<length ls]" ls sha data owner "[]" "Some start"] by auto
  moreover have "\<forall>j \<in> set [0..<i]. sl_content (ls ! j) \<noteq> ''## '' @ annotationHeading"
    using assms(1,2) by auto
  ultimately show ?thesis using assms scan_skip by (simp add: scan_skip)
qed

lemma heading_line_marked: "contains s (''## '' @ annotationHeading) \<Longrightarrow> contains s annotationHeading"
  unfolding contains_iff by (metis append_assoc)

lemma strip_trailer:
  assumes i: "plain_id i" and p: "unmarked p" "\<not> has_suffix p [cr]"
    and body: "Normalize body = body" "body \<noteq> ''''" "unmarked body" and d: "digest_of sha d body"
  shows "stripSystemAnnotationTrailer sha (p @ annotation_trailer i d body) i = Inr p"
proof -
  have hex: "hex_decodable d" "length d = 64" "Digest sha body = d" using d by (auto simp: digest_of_def)
  define data where "data = p @ annotation_trailer i d body"
  have data: "data = p @ lf # [] @ lf # ''---'' @ lf # [] @ lf # (''## '' @ annotationHeading) @ lf #
      comment_line i d @ lf # body @ lf # []"
    unfolding data_def by (rule trailer_lines [OF body(1)])
  note cc = comment_counts [OF i hex(1)] and hp = header_parsed [OF i hex(2,1)]
  have headno: "lf \<notin> set (''## '' @ annotationHeading)" "cr \<notin> set (''## '' @ annotationHeading)"
    by (simp_all add: annotationHeading_def)
  have commno: "trim_suffix (comment_line i d) [cr] = comment_line i d"
    by (auto simp: trim_suffix_def has_suffix_iff comment_line_def append_eq_append_conv2 dest!: arg_cong [of _ _ rev])
  obtain L where L: "\<And>b. source_lines 0 (split_after lf (p @ lf # b)) = L @ source_lines (0 + length p + 1) (split_after lf b)"
    "L \<noteq> []" "sl_end (last L) = 0 + length p + 1" "sl_eol (last L) = [lf]" "\<And>l. l \<in> set L \<Longrightarrow> contains p (sl_content l)"
    using lines_before [of 0 p] p(2) by metis
  define off where "off = length p + 9 + length (''## '' @ annotationHeading) + length (comment_line i d)"
  obtain B where B: "\<And>b. source_lines off (split_after lf (body @ lf # b)) = B @ source_lines (off + length body + 1) (split_after lf b)"
    "B \<noteq> []" "\<And>l. l \<in> set B \<Longrightarrow> contains body (sl_content l)"
    using lines_before [of off body] by metis
  have B0: "source_lines off (split_after lf (body @ lf # [])) = B" using B(1) [of "[]"] by simp
  have B1: "sl_start (hd B) = off" using source_lines_start [of "body @ lf # []" off lf] B0 body(2) by simp
  define e1 where "e1 = \<lparr>sl_start = length p + 1, sl_end = length p + 2, sl_content = '''', sl_eol = [lf]\<rparr>"
  define e2 where "e2 = \<lparr>sl_start = length p + 2, sl_end = length p + 6, sl_content = ''---'', sl_eol = lineEnding (''---'' @ [lf])\<rparr>"
  define e3 where "e3 = \<lparr>sl_start = length p + 6, sl_end = length p + 7, sl_content = '''', sl_eol = [lf]\<rparr>"
  define e4 where "e4 = \<lparr>sl_start = length p + 7, sl_end = length p + 8 + length (''## '' @ annotationHeading),
    sl_content = ''## '' @ annotationHeading, sl_eol = lineEnding ((''## '' @ annotationHeading) @ [lf])\<rparr>"
  define e5 where "e5 = \<lparr>sl_start = length p + 8 + length (''## '' @ annotationHeading), sl_end = off,
    sl_content = comment_line i d, sl_eol = lineEnding (comment_line i d @ [lf])\<rparr>"
  define ls where "ls = L @ [e1, e2, e3, e4, e5] @ B"
  have lines: "splitSourceLines data = ls"
  proof -
    have s1: "source_lines (length p + 1) (split_after lf ([] @ lf # X)) = e1 # source_lines (length p + 2) (split_after lf X)" for X
      using source_lines_line [of "[]" "length p + 1" X] by (simp add: e1_def trim_suffix_def has_suffix_def lineEnding_def)
    have s2: "source_lines (length p + 2) (split_after lf (''---'' @ lf # X)) = e2 # source_lines (length p + 6) (split_after lf X)" for X
      using source_lines_line [of "''---''" "length p + 2" X] by (simp add: e2_def trim_suffix_def has_suffix_def numeral_eq_Suc)
    have s3: "source_lines (length p + 6) (split_after lf ([] @ lf # X)) = e3 # source_lines (length p + 7) (split_after lf X)" for X
      using source_lines_line [of "[]" "length p + 6" X] by (simp add: e3_def trim_suffix_def has_suffix_def lineEnding_def add.commute)
    have s4: "source_lines (length p + 7) (split_after lf ((''## '' @ annotationHeading) @ lf # X)) =
        e4 # source_lines (length p + 8 + length (''## '' @ annotationHeading)) (split_after lf X)" for X
    proof -
      have "length p + 7 + length (''## '' @ annotationHeading) + 1 = length p + 8 + length (''## '' @ annotationHeading)"
        by simp
      then show ?thesis
        using source_lines_line [OF headno(1), of "length p + 7" X] trim_suffix_no_cr [OF headno(2)] by (simp only: e4_def)
    qed
    have s5: "source_lines (length p + 8 + length (''## '' @ annotationHeading)) (split_after lf (comment_line i d @ lf # X)) =
        e5 # source_lines off (split_after lf X)" for X
    proof -
      have "length p + 8 + length (''## '' @ annotationHeading) + length (comment_line i d) + 1 = off"
        by (simp only: off_def)
      then show ?thesis
        using source_lines_line [OF conjunct2 [OF conjunct2 [OF cc]], of "length p + 8 + length (''## '' @ annotationHeading)" X] commno
        by (simp only: e5_def)
    qed
    show ?thesis unfolding splitSourceLines_def data ls_def L(1) add_0 s1 s2 s3 s4 s5 B0 by simp
  qed
  have n: "0 < length L" using L(2) by simp
  have quoted: "\<not> contains s (''## '' @ annotationHeading)" if "unmarked s" for s
    using that heading_line_marked unfolding unmarked_def by blast
  have outside: "sl_content l \<noteq> ''## '' @ annotationHeading" if "l \<in> set L \<union> set B" for l
  proof
    assume "sl_content l = ''## '' @ annotationHeading"
    moreover have "contains p (sl_content l) \<or> contains body (sl_content l)" using that L(5) B(3) by blast
    ultimately show False using quoted [OF p(1)] quoted [OF body(3)] by simp
  qed
  have comm_other: "comment_line i d \<noteq> ''## '' @ annotationHeading"
    by (simp add: comment_line_def commentPrefix_def)
  have content: "sl_content (ls ! j) = ''## '' @ annotationHeading \<longleftrightarrow> j = length L + 3" if j: "j < length ls" for j
  proof (cases "j < length L \<or> length L + 5 \<le> j")
    case True
    then have "ls ! j \<in> set L \<union> set B" using j by (auto simp: ls_def nth_append)
    then show ?thesis using outside True by auto
  next
    case False
    then have "j = length L \<or> j = length L + 1 \<or> j = length L + 2 \<or> j = length L + 3 \<or> j = length L + 4" by linarith
    then show ?thesis using comm_other
      by (auto simp: ls_def nth_append e1_def e2_def e3_def e4_def e5_def annotationHeading_def)
  qed
  have at: "trailer_at sha data ls i (length L + 3) = Inr (Some (length p))"
  proof -
    have nths: "ls ! (length L + 2) = e3" "ls ! (length L + 1) = e2" "ls ! length L = e1" "ls ! (length L + 4) = e5"
        "ls ! (length L - 1) = last L" "ls ! (length L + 5) = hd B"
      using L(2) B(2) by (simp_all add: ls_def nth_append last_conv_nth hd_conv_nth)
    define pre where "pre = p @ lf # [] @ lf # ''---'' @ lf # [] @ lf # (''## '' @ annotationHeading) @ lf # comment_line i d @ [lf]"
    have pre: "data = (pre @ body) @ [lf]" "length pre = off" by (simp_all add: data pre_def off_def)
    have nocr: "\<not> has_suffix data [cr, lf]"
    proof
      assume "has_suffix data [cr, lf]"
      then obtain t where "pre @ body = t @ [cr]" using pre(1) by (auto simp: has_suffix_iff)
      then have "last (pre @ body) = cr" by simp
      then have "cr \<in> set body" using body(2) last_in_set [of body] by simp
      then show False using Normalize_no_cr [of body] body(1) by simp
    qed
    have "has_suffix data [lf]" using pre(1) by (auto simp: has_suffix_iff)
    moreover have "take (length data - 1) data = pre @ body" using pre(1) by simp
    moreover have "length L + 3 - 1 = length L + 2" "length L + 3 - 2 = length L + 1" "length L + 3 - 3 = length L"
      "length L + 3 - 4 = length L - 1" "length L + 3 + 1 = length L + 4" "length L + 3 + 2 = length L + 5" by simp_all
    note idx = this
    moreover have "\<not> length L + 3 < 4" "\<not> length L + 5 \<ge> length ls" using n B(2) by (auto simp: ls_def)
    moreover have "ValidSourceID i" using i by (simp add: plain_id_def)
    moreover have "sl_content e1 = ''''" "sl_content e2 = ''---''" "sl_content e3 = ''''" "sl_content e5 = comment_line i d"
      by (simp_all add: e1_def e2_def e3_def e5_def)
    ultimately show ?thesis using hp hex body(2) nocr pre(2) B1 L(3,4)
      unfolding trailer_at_def Let_def idx nths by simp
  qed
  have scan: "trailer_scan sha data ls i [0..<length ls] None = Inr (Some (length p))"
    using content at by (intro scan_one [of _ "length L + 3"]) (auto simp: ls_def)
  have counts: "sub_count data annotationHeading = 1 \<and> sub_count data annotationMarker = 1"
  proof -
    show ?thesis unfolding data
      by (simp only: marker_line heading_counts cc count_none [OF p(1)] count_none [OF body(3)] sub_count_Nil) simp
  qed
  show ?thesis unfolding data_def [symmetric] stripSystemAnnotationTrailer_def lines Let_def
    using scan counts by (simp add: data_def)
qed

lemma lines_contained: "l \<in> set (source_lines off (split_after d s)) \<Longrightarrow> contains s (sl_content l)"
proof -
  assume l: "l \<in> set (source_lines off (split_after d s))"
  have "\<exists>z \<in> set ws. sl_content y = line_content z" if "y \<in> set (source_lines k ws)" for k ws y
    using that by (induction k ws rule: source_lines.induct) (auto split: if_splits)
  then obtain z where z: "z \<in> set (split_after d s)" "sl_content l = line_content z" using l by blast
  then obtain us vs where "split_after d s = us @ z # vs" by (metis split_list)
  then have "s = concat us @ z @ concat vs" using concat_split_after [of d s] by simp
  moreover have "\<exists>t. z = line_content z @ t"
    by (auto simp: line_content_def trim_suffix_def) (metis append_assoc append_take_drop_id)+
  ultimately show ?thesis unfolding contains_iff z(2) by (metis append_assoc)
qed

lemma strip_unmarked: "unmarked p \<Longrightarrow> stripSystemAnnotationTrailer sha p owner = Inr p"
proof -
  assume p: "unmarked p"
  have "sl_content (splitSourceLines p ! j) \<noteq> ''## '' @ annotationHeading" if "j < length (splitSourceLines p)" for j
    using that p lines_contained [of "splitSourceLines p ! j" 0 lf p] heading_line_marked [of p]
    by (auto simp: splitSourceLines_def unmarked_def)
  then have "trailer_scan sha p (splitSourceLines p) owner [0..<length (splitSourceLines p)] None = Inr None"
    using scan_skip [of "[0..<length (splitSourceLines p)]" "splitSourceLines p" sha p owner "[]" None] by simp
  then show ?thesis using count_none [OF p] by (simp add: stripSystemAnnotationTrailer_def Let_def)
qed

text \<open>An annotation as the snapshots have it: normalised, with its digest, not quoting the trailer.\<close>

definition annotation_plain :: "(string \<Rightarrow> string) \<Rightarrow> sourceSnapshot \<Rightarrow> bool" where
  "annotation_plain sha s \<longleftrightarrow>
     Normalize (ss_ann_body s) = ss_ann_body s \<and> unmarked (ss_ann_body s) \<and>
     digest_of sha (ss_ann_sha s) (ss_ann_body s)"


definition sample_annotated :: sourceSnapshot where
  "sample_annotated = (tombstone ''0a1b'' ''raw/a.md'')\<lparr>ss_ann_body := ''note'', ss_ann_sha := replicate 64 (CHR ''0'')\<rparr>"


text \<open>
  An annotation that quotes the trailer cannot be stripped again: every later run that finds the
  page as it was left fails to reconcile it.
\<close>

lemma quoted_trailer_blocks:
  assumes i: "plain_id i" and d: "hex_decodable d" and body: "Normalize body = body" "\<not> unmarked body"
  shows "\<exists>e. stripSystemAnnotationTrailer sha (p @ annotation_trailer i d body) i = Inl e"
proof -
  define data where "data = p @ annotation_trailer i d body"
  note m = marker_texts and cc = comment_counts [OF i d]
  have counts: "sub_count data annotationHeading = sub_count p annotationHeading + 1 + sub_count body annotationHeading"
      "sub_count data annotationMarker = sub_count p annotationMarker + 1 + sub_count body annotationMarker"
    unfolding data_def trailer_lines [OF body(1)] by (simp_all only: marker_line heading_counts cc sub_count_Nil)
  have "0 < sub_count body annotationHeading \<or> 0 < sub_count body annotationMarker"
    using body(2) sub_count_contains [of annotationHeading body] sub_count_contains [of annotationMarker body] m
    by (auto simp: unmarked_def)
  then have "sub_count data annotationHeading \<noteq> 1 \<or> sub_count data annotationMarker \<noteq> 1" using counts by linarith
  then show ?thesis using counts unfolding data_def [symmetric]
    by (auto simp: stripSystemAnnotationTrailer_def Let_def split: sum.splits option.splits)
qed

end
