(* ===== verification/LeaseRace.thy ===== *)
theory LeaseRace
  imports Lease
begin

text \<open>
  Many workers racing for one publish lease. The state is the store, the executions that still
  run, and for each execution the point it has reached between two calls of
  \<open>acquireCloudLease\<close> and \<open>cloudLease.Release\<close>. A step is one call to the outside, taken by one
  worker, in any order; what the worker does with the answer is the code's own decision
  (\<open>reclaim_after_read\<close>, \<open>allowLeaseReclaim\<close>, \<open>reclaim_after_delete\<close>). Calls may fail, and a
  failed write or delete may have been carried out all the same. The probe is assumed to tell
  the truth when it says terminal or not found.
\<close>

section \<open>The system\<close>

datatype phase =
    Start
  | Conflict
  | Probing leasePayload int
  | Deleting leasePayload int
  | Retry
  | Holding int
  | Releasing int
  | Stopped

record lease_sys =
  ls_mem :: memoryObjects
  ls_live :: "string set"
  ls_phase :: "string \<Rightarrow> phase"

definition after_create_error :: "phase \<Rightarrow> gerr \<Rightarrow> phase" where
  "after_create_error p e = (if p = Start \<and> errors_is e errObjectGenerationConflict then Conflict else Stopped)"

fun after_read :: "reclaim \<Rightarrow> phase" where
  "after_read (ProbeHolder p g) = Probing p g"
| "after_read Reclaimed = Retry"
| "after_read (Refused d) = Stopped"
| "after_read (ReclaimFailed e) = Stopped"

definition goto :: "string \<Rightarrow> phase \<Rightarrow> lease_sys \<Rightarrow> lease_sys" where
  "goto ex p s = s\<lparr>ls_phase := (ls_phase s)(ex := p)\<rparr>"

inductive lease_step ::
  "string \<Rightarrow> string \<Rightarrow> (json \<Rightarrow> string) \<Rightarrow> (string \<Rightarrow> json option) \<Rightarrow> lease_sys \<Rightarrow> lease_sys \<Rightarrow> bool"
  for job n marshal unmarshal where
  create_ok:
    "ex \<in> ls_live s \<Longrightarrow> ls_phase s ex = Start \<or> ls_phase s ex = Retry \<Longrightarrow>
     mem_Write n (marshal (lease_json ex t)) [] createOnly (ls_mem s) = (Inr a, m') \<Longrightarrow>
     lease_step job n marshal unmarshal s (goto ex (Holding (a_generation a)) (s\<lparr>ls_mem := m'\<rparr>))"
| create_error:
    "ex \<in> ls_live s \<Longrightarrow> ls_phase s ex = Start \<or> ls_phase s ex = Retry \<Longrightarrow>
     m' = ls_mem s \<or> m' = snd (mem_Write n (marshal (lease_json ex t)) [] createOnly (ls_mem s)) \<Longrightarrow>
     lease_step job n marshal unmarshal s
       (goto ex (after_create_error (ls_phase s ex) e) (s\<lparr>ls_mem := m'\<rparr>))"
| read_lease:
    "ex \<in> ls_live s \<Longrightarrow> ls_phase s ex = Conflict \<Longrightarrow>
     r = fst (mem_Read n 0 MaxFileBytes (ls_mem s)) \<or> r = Inl e \<and> \<not> isObjectNotFound e \<Longrightarrow>
     lease_step job n marshal unmarshal s (goto ex (after_read (reclaim_after_read unmarshal job r)) s)"
| probe:
    "ex \<in> ls_live s \<Longrightarrow> ls_phase s ex = Probing p g \<Longrightarrow>
     allowLeaseReclaim state \<longrightarrow> lp_execution p \<notin> ls_live s \<Longrightarrow>
     lease_step job n marshal unmarshal s (goto ex (if allowLeaseReclaim state then Deleting p g else Stopped) s)"
| delete:
    "ex \<in> ls_live s \<Longrightarrow> ls_phase s ex = Deleting p g \<Longrightarrow>
     (r, m') = mem_Delete n g (ls_mem s) \<or>
       r = Some e \<and> (m' = ls_mem s \<or> m' = snd (mem_Delete n g (ls_mem s))) \<Longrightarrow>
     lease_step job n marshal unmarshal s (goto ex (after_read (reclaim_after_delete r)) (s\<lparr>ls_mem := m'\<rparr>))"
| release:
    "ex \<in> ls_live s \<Longrightarrow> ls_phase s ex = Holding g \<Longrightarrow>
     lease_step job n marshal unmarshal s (goto ex (Releasing g) s)"
| release_delete:
    "ex \<in> ls_live s \<Longrightarrow> ls_phase s ex = Releasing g \<Longrightarrow> p = Stopped \<or> p = Releasing g \<Longrightarrow>
     m' = ls_mem s \<or> m' = snd (mem_Delete n g (ls_mem s)) \<Longrightarrow>
     lease_step job n marshal unmarshal s (goto ex p (s\<lparr>ls_mem := m'\<rparr>))"
| exit:
    "lease_step job n marshal unmarshal s (s\<lparr>ls_live := ls_live s - {ex}\<rparr>)"

inductive lease_reachable ::
  "string \<Rightarrow> string \<Rightarrow> (json \<Rightarrow> string) \<Rightarrow> (string \<Rightarrow> json option) \<Rightarrow> lease_sys \<Rightarrow> lease_sys \<Rightarrow> bool"
  for job n marshal unmarshal s0 where
  reach_start: "lease_reachable job n marshal unmarshal s0 s0"
| reach_step: "lease_reachable job n marshal unmarshal s0 s \<Longrightarrow> lease_step job n marshal unmarshal s s' \<Longrightarrow>
     lease_reachable job n marshal unmarshal s0 s'"

text \<open>
  The identifier of an execution as the job service hands it out: valid, without surrounding space,
  and ASCII.
\<close>

definition is_ascii :: "string \<Rightarrow> bool" where
  "is_ascii s \<longleftrightarrow> list_all (\<lambda>c. byte_in c 0 127) s"

definition worker_id :: "string \<Rightarrow> bool" where
  "worker_id ex \<longleftrightarrow> validPipelineExecutionID ex \<and> trim_space ex = ex \<and> is_ascii ex"

text \<open>Initially nobody has done anything; the store may hold anything, an old lease included.\<close>

definition lease_init :: "lease_sys \<Rightarrow> bool" where
  "lease_init s \<longleftrightarrow> mem_inv (ls_mem s) \<and> ls_phase s = (\<lambda>_. Start) \<and>
     (\<forall>ex \<in> ls_live s. worker_id ex)"

text \<open>
  What \<open>json.Marshal\<close> writes of a lease \<open>json.Unmarshal\<close> reads back, up to the time stamp: an ASCII
  execution is read back as it was (a string that is not UTF-8 would come back changed).
\<close>

definition lease_codec :: "(json \<Rightarrow> string) \<Rightarrow> (string \<Rightarrow> json option) \<Rightarrow> bool" where
  "lease_codec marshal unmarshal \<longleftrightarrow>
     (\<forall>ex t. is_ascii ex \<longrightarrow> (\<exists>t'. unmarshal (marshal (lease_json ex t)) = Some (lease_json ex t')))"

section \<open>Mutual exclusion\<close>

lemma lease_codecD:
  assumes "lease_codec marshal unmarshal" and "worker_id ex"
  obtains t' where "unmarshal (marshal (lease_json ex t)) = Some (lease_json ex t')"
  using assms by (auto simp: lease_codec_def worker_id_def)

lemma parse_own_payload_ok:
  assumes "lease_codec marshal unmarshal" and "worker_id ex"
  shows "\<exists>p. parseLeasePayload unmarshal (marshal (lease_json ex t)) = Inr p \<and> lp_execution p = ex"
proof -
  obtain t' where "unmarshal (marshal (lease_json ex t)) = Some (lease_json ex t')" using lease_codecD [OF assms] .
  then show ?thesis using assms(2)
    by (auto simp: worker_id_def parseLeasePayload_def lease_json_def lease_fields_def field_of_def Let_def
        validPipelineExecutionID_def)
qed

lemma parse_own_payload:
  assumes "lease_codec marshal unmarshal" and "worker_id ex"
    and "parseLeasePayload unmarshal (marshal (lease_json ex t)) = Inr p"
  shows "lp_execution p = ex"
  using parse_own_payload_ok [OF assms(1,2), of t] assms(3) by auto

text \<open>
  What each phase knows about the generation it carries: a holder's lease is the one in the
  store; a generation being probed, deleted or released is not in the future, and if it is still
  in the store then with the contents that were read or written.
\<close>

fun phase_ok ::
  "string \<Rightarrow> (json \<Rightarrow> string) \<Rightarrow> (string \<Rightarrow> json option) \<Rightarrow> memoryObjects \<Rightarrow> string set \<Rightarrow> string \<Rightarrow> phase \<Rightarrow> bool" where
  "phase_ok n marshal unmarshal m live ex (Holding g) =
     (\<exists>t. mem_obj m n = Some (marshal (lease_json ex t), g))"
| "phase_ok n marshal unmarshal m live ex (Releasing g) =
     (g \<le> mem_next m \<and> 0 < g \<and> (\<forall>d. mem_obj m n = Some (d, g) \<longrightarrow> (\<exists>t. d = marshal (lease_json ex t))))"
| "phase_ok n marshal unmarshal m live ex (Probing p g) =
     (g \<le> mem_next m \<and> 0 < g \<and> (\<forall>d. mem_obj m n = Some (d, g) \<longrightarrow> parseLeasePayload unmarshal d = Inr p))"
| "phase_ok n marshal unmarshal m live ex (Deleting p g) =
     (g \<le> mem_next m \<and> 0 < g \<and> (\<forall>d. mem_obj m n = Some (d, g) \<longrightarrow> parseLeasePayload unmarshal d = Inr p) \<and>
      lp_execution p \<notin> live)"
| "phase_ok n marshal unmarshal m live ex _ = True"

definition lease_inv :: "string \<Rightarrow> (json \<Rightarrow> string) \<Rightarrow> (string \<Rightarrow> json option) \<Rightarrow> lease_sys \<Rightarrow> bool" where
  "lease_inv n marshal unmarshal s \<longleftrightarrow>
     mem_inv (ls_mem s) \<and>
     (\<forall>ex \<in> ls_live s. worker_id ex) \<and>
     (\<forall>ex \<in> ls_live s. phase_ok n marshal unmarshal (ls_mem s) (ls_live s) ex (ls_phase s ex))"

text \<open>Phases survive the writes and deletes of others.\<close>

lemma mem_next_bound: "mem_inv m \<Longrightarrow> mem_obj m n = Some (d, g) \<Longrightarrow> g \<le> mem_next m \<and> 0 < g"
  by (auto simp: mem_obj_def dest: mem_inv_lookup)

lemma create_effect:
  assumes "mem_inv m" and "m' = m \<or> m' = snd (mem_Write n d [] createOnly m)"
  shows "mem_inv m' \<and> mem_next m \<le> mem_next m' \<and>
    (m' = m \<or> mem_obj m n = None \<and> mem_next m' = mem_next m + 1 \<and> mem_obj m' n = Some (d, mem_next m'))"
proof (cases "m' = m")
  case False
  then have m': "m' = snd (st_write memoryStore n d [] createOnly m)"
    using assms(2) by (simp add: memoryStore_def)
  obtain r where r: "st_write memoryStore n d [] createOnly m = (r, m')" using m' by (metis prod.collapse)
  with False obtain a where "r = Inr a" using mem_Write_error by (cases r) auto
  with r mem_Write_ok [OF assms(1), of n d "[]" createOnly a m'] show ?thesis
    by (cases "mem_obj m n") auto
qed (use assms(1) in simp)

lemma delete_effect:
  assumes "mem_inv m" and "m' = m \<or> m' = snd (mem_Delete n g m)" and "0 < g"
  shows "mem_inv m' \<and> mem_next m' = mem_next m \<and>
    (mem_obj m' n = mem_obj m n \<or> mem_obj m' n = None \<and> (\<forall>d i. mem_obj m n = Some (d, i) \<longrightarrow> i = g))"
proof (cases "m' = m")
  case False
  then have m': "m' = snd (st_delete memoryStore n g m)"
    using assms(2) by (simp add: memoryStore_def)
  obtain r where r: "st_delete memoryStore n g m = (r, m')" using m' by (metis prod.collapse)
  with False have "r = None" using mem_Delete_error by (cases r) auto
  with r mem_Delete_ok [OF assms(1), of n g m'] assms(3) show ?thesis by auto
qed (use assms(1) in simp)

lemma phase_ok_create:
  assumes "mem_inv m" and "m' = m \<or> m' = snd (mem_Write n d [] createOnly m)"
    and "phase_ok n marshal unmarshal m live ex p"
  shows "phase_ok n marshal unmarshal m' live ex p"
  using create_effect [OF assms(1,2)] assms(3)
  by (cases "(n, marshal, unmarshal, m, live, ex, p)" rule: phase_ok.cases) auto

lemma phase_ok_delete:
  assumes "mem_inv m" and "m' = m \<or> m' = snd (mem_Delete n g m)" and "0 < g"
    and "phase_ok n marshal unmarshal m live ex p"
    and "\<And>k d. p = Holding k \<Longrightarrow> mem_obj m n \<noteq> Some (d, g)"
  shows "phase_ok n marshal unmarshal m' live ex p"
  using delete_effect [OF assms(1-3)] assms(4,5)
  by (cases "(n, marshal, unmarshal, m, live, ex, p)" rule: phase_ok.cases) auto

lemma phase_ok_live: "phase_ok n marshal unmarshal m live ex p \<Longrightarrow> live' \<subseteq> live \<Longrightarrow>
    phase_ok n marshal unmarshal m live' ex p"
  by (cases "(n, marshal, unmarshal, m, live, ex, p)" rule: phase_ok.cases) auto

text \<open>A step of one worker to phase \<open>p\<close> in store \<open>m'\<close> keeps the invariant.\<close>

lemma lease_inv_goto:
  assumes "lease_inv n marshal unmarshal s" and "mem_inv m'"
    and "phase_ok n marshal unmarshal m' (ls_live s) ex p"
    and "\<And>x. x \<in> ls_live s \<Longrightarrow> x \<noteq> ex \<Longrightarrow> phase_ok n marshal unmarshal m' (ls_live s) x (ls_phase s x)"
  shows "lease_inv n marshal unmarshal (goto ex p (s\<lparr>ls_mem := m'\<rparr>))"
  using assms by (auto simp: lease_inv_def goto_def)

lemma goto_same_mem: "goto ex p s = goto ex p (s\<lparr>ls_mem := ls_mem s\<rparr>)"
  by (simp add: goto_def)

lemma phase_of: "lease_inv n marshal unmarshal s \<Longrightarrow> x \<in> ls_live s \<Longrightarrow>
    phase_ok n marshal unmarshal (ls_mem s) (ls_live s) x (ls_phase s x)"
  by (simp add: lease_inv_def)

lemma no_stolen_lease:
  assumes inv: "lease_inv n marshal unmarshal s" and codec: "lease_codec marshal unmarshal"
    and x: "x \<in> ls_live s" "ls_phase s x = Holding k"
    and d: "mem_obj (ls_mem s) n = Some (d, g)" and p: "parseLeasePayload unmarshal d = Inr p"
  shows "lp_execution p = x"
proof -
  from phase_of [OF inv x(1)] x(2) d obtain t where "d = marshal (lease_json x t)" by auto
  with p parse_own_payload [OF codec] inv x(1) show ?thesis by (auto simp: lease_inv_def)
qed

lemma read_phase_ok:
  assumes "mem_inv m"
    and "r = fst (mem_Read n 0 MaxFileBytes m) \<or> r = Inl e \<and> \<not> isObjectNotFound e"
  shows "phase_ok n marshal unmarshal m live ex (after_read (reclaim_after_read unmarshal job r))"
proof (cases "reclaim_after_read unmarshal job r")
  case (ProbeHolder p g)
  then obtain d a where r: "r = Inr (d, a)" and g: "g = a_generation a" "0 < g"
    and p: "parseLeasePayload unmarshal d = Inr p"
    by (auto simp: reclaim_after_read_def Let_def split: sum.splits if_splits)
  with assms(2) have "st_read memoryStore n 0 MaxFileBytes m = (Inr (d, a), snd (mem_Read n 0 MaxFileBytes m))"
    by (auto simp: memoryStore_def prod_eq_iff)
  from mem_Read_ok [OF assms(1) this] g mem_next_bound [OF assms(1), of n d g] p ProbeHolder
  show ?thesis by auto
qed (auto)

lemma reclaim_after_delete_cases: "after_read (reclaim_after_delete r) \<in> {Retry, Stopped}"
  by (simp add: reclaim_after_delete_def split: option.splits)

lemma lease_step_inv:
  assumes codec: "lease_codec marshal unmarshal"
    and step: "lease_step job n marshal unmarshal s s'" and inv: "lease_inv n marshal unmarshal s"
  shows "lease_inv n marshal unmarshal s'"
  using step
proof cases
  case (create_ok ex t a m')
  have m': "m' = ls_mem s \<or> m' = snd (mem_Write n (marshal (lease_json ex t)) [] createOnly (ls_mem s))"
    using create_ok by simp
  have mi: "mem_inv (ls_mem s)" using inv by (simp add: lease_inv_def)
  have "st_write memoryStore n (marshal (lease_json ex t)) [] createOnly (ls_mem s) = (Inr a, m')"
    using create_ok by (simp add: memoryStore_def)
  from mem_Write_ok [OF mi this] have "mem_obj m' n = Some (marshal (lease_json ex t), a_generation a)" by simp
  then show ?thesis unfolding create_ok(1)
    using create_effect [OF mi m'] phase_of [OF inv] phase_ok_create [OF mi m']
    by (intro lease_inv_goto [OF inv]) auto
next
  case (create_error ex m' t e)
  have mi: "mem_inv (ls_mem s)" using inv by (simp add: lease_inv_def)
  show ?thesis unfolding create_error(1)
    using create_effect [OF mi create_error(4)] phase_of [OF inv] phase_ok_create [OF mi create_error(4)]
    by (intro lease_inv_goto [OF inv]) (auto simp: after_create_error_def)
next
  case (read_lease ex r e)
  have mi: "mem_inv (ls_mem s)" using inv by (simp add: lease_inv_def)
  show ?thesis unfolding read_lease(1) goto_same_mem [of ex _ s]
    using phase_of [OF inv] by (intro lease_inv_goto [OF inv mi] read_phase_ok [OF mi read_lease(4)])
next
  case (probe ex p g state)
  have mi: "mem_inv (ls_mem s)" using inv by (simp add: lease_inv_def)
  show ?thesis unfolding probe(1) goto_same_mem [of ex _ s]
    using phase_of [OF inv] phase_of [OF inv probe(2)] probe(3,4)
    by (intro lease_inv_goto [OF inv mi]) auto
next
  case (delete ex p g r m' e)
  have mi: "mem_inv (ls_mem s)" using inv by (simp add: lease_inv_def)
  have m': "m' = ls_mem s \<or> m' = snd (mem_Delete n g (ls_mem s))" using delete(4) by (metis snd_conv)
  from phase_of [OF inv delete(2)] delete(3) have g: "0 < g"
    and parse: "\<forall>d. mem_obj (ls_mem s) n = Some (d, g) \<longrightarrow> parseLeasePayload unmarshal d = Inr p"
    and dead: "lp_execution p \<notin> ls_live s" by auto
  have mine: "phase_ok n marshal unmarshal m' (ls_live s) ex (after_read (reclaim_after_delete r))"
    using reclaim_after_delete_cases [of r] by auto
  have others: "phase_ok n marshal unmarshal m' (ls_live s) x (ls_phase s x)" if "x \<in> ls_live s" for x
  proof (rule phase_ok_delete [OF mi m' g phase_of [OF inv that]])
    fix k d assume "ls_phase s x = Holding k"
    with no_stolen_lease [OF inv codec that this, of d g p] parse dead that
    show "mem_obj (ls_mem s) n \<noteq> Some (d, g)" by auto
  qed
  show ?thesis unfolding delete(1)
    using delete_effect [OF mi m' g] mine others by (intro lease_inv_goto [OF inv]) auto
next
  case (release ex g)
  have mi: "mem_inv (ls_mem s)" using inv by (simp add: lease_inv_def)
  from phase_of [OF inv release(2)] release(3) obtain t where
    h: "mem_obj (ls_mem s) n = Some (marshal (lease_json ex t), g)" by auto
  show ?thesis unfolding release(1) goto_same_mem [of ex _ s]
    using phase_of [OF inv] h mem_next_bound [OF mi h] by (intro lease_inv_goto [OF inv mi]) auto
next
  case (release_delete ex g p m')
  have mi: "mem_inv (ls_mem s)" using inv by (simp add: lease_inv_def)
  note rel = phase_of [OF inv release_delete(2)]
  from rel release_delete(3) have g: "0 < g" "g \<le> mem_next (ls_mem s)"
    and mine: "\<forall>d. mem_obj (ls_mem s) n = Some (d, g) \<longrightarrow> (\<exists>t. d = marshal (lease_json ex t))" by auto
  have ids: "worker_id ex"
    using inv release_delete(2) by (auto simp: lease_inv_def)
  have self: "phase_ok n marshal unmarshal m' (ls_live s) ex p"
    using release_delete(4) phase_ok_delete [OF mi release_delete(5) g(1) rel] release_delete(3) by auto
  have others: "phase_ok n marshal unmarshal m' (ls_live s) x (ls_phase s x)" if "x \<in> ls_live s" "x \<noteq> ex" for x
  proof (rule phase_ok_delete [OF mi release_delete(5) g(1) phase_of [OF inv that(1)]])
    fix k d assume hold: "ls_phase s x = Holding k"
    show "mem_obj (ls_mem s) n \<noteq> Some (d, g)"
    proof
      assume d: "mem_obj (ls_mem s) n = Some (d, g)"
      with mine obtain t where "d = marshal (lease_json ex t)" by blast
      with parse_own_payload_ok [OF codec ids] obtain q where
        "parseLeasePayload unmarshal d = Inr q" "lp_execution q = ex" by blast
      with no_stolen_lease [OF inv codec that(1) hold d] that(2) show False by blast
    qed
  qed
  show ?thesis unfolding release_delete(1)
    using delete_effect [OF mi release_delete(5) g(1)] self others by (intro lease_inv_goto [OF inv]) auto
next
  case (exit ex)
  then show ?thesis using inv phase_ok_live [of n marshal unmarshal "ls_mem s" "ls_live s" _ _ "ls_live s - {ex}"]
    by (auto simp: lease_inv_def)
qed

lemma lease_reachable_inv:
  assumes "lease_reachable job n marshal unmarshal s0 s" and "lease_codec marshal unmarshal" and "lease_init s0"
  shows "lease_inv n marshal unmarshal s"
  using assms(1)
proof induction
  case reach_start
  then show ?case using assms(3) by (simp add: lease_init_def lease_inv_def)
next
  case (reach_step s s')
  then show ?case using lease_step_inv [OF assms(2)] by blast
qed

section \<open>The steps are those of the code\<close>

lemma reach_trans:
  "lease_reachable job n marshal unmarshal s1 s2 \<Longrightarrow> lease_reachable job n marshal unmarshal s0 s1 \<Longrightarrow>
     lease_reachable job n marshal unmarshal s0 s2"
  by (induction rule: lease_reachable.induct) (auto intro: reach_step)

lemma reach_one: "lease_step job n marshal unmarshal s s' \<Longrightarrow> lease_reachable job n marshal unmarshal s s'"
  by (rule reach_step [OF reach_start])

lemma goto_goto [simp]:
  "goto ex p ((goto ex q s)\<lparr>ls_mem := m\<rparr>) = goto ex p (s\<lparr>ls_mem := m\<rparr>)" "goto ex p (goto ex q s) = goto ex p s"
  "ls_phase (goto ex p s) ex = p" "ls_live (goto ex p s) = ls_live s" "ls_mem (goto ex p s) = ls_mem s"
  by (simp_all add: goto_def)

text \<open>Where a worker is after an attempt to create the lease that returned \<open>r\<close>.\<close>

definition created :: "phase \<Rightarrow> gerr + cloudLease \<Rightarrow> phase" where
  "created p r = (case r of Inl e \<Rightarrow> after_create_error p e | Inr l \<Rightarrow> Holding (cl_generation l))"

lemma create_run:
  assumes "ex \<in> ls_live s" and "ls_phase s ex = Start \<or> ls_phase s ex = Retry"
    and "tryCreateCloudLease (mem_lease_env now holder getenv marshal unmarshal) n ex (ls_mem s) = (r, m')"
  shows "lease_reachable job n marshal unmarshal s (goto ex (created (ls_phase s ex) r) (s\<lparr>ls_mem := m'\<rparr>))"
proof (rule reach_one, cases r)
  case (Inl e)
  then have "m' = snd (mem_Write n (marshal (lease_json ex now)) [] createOnly (ls_mem s))"
    using assms(3) by (auto simp: tryCreateCloudLease_def mem_lease_env_def memoryStore_def split: prod.splits sum.splits)
  then show "lease_step job n marshal unmarshal s (goto ex (created (ls_phase s ex) r) (s\<lparr>ls_mem := m'\<rparr>))"
    using create_error [OF assms(1,2) disjI2] Inl by (simp add: created_def)
next
  case (Inr l)
  then obtain a where "mem_Write n (marshal (lease_json ex now)) [] createOnly (ls_mem s) = (Inr a, m')" "cl_generation l = a_generation a"
    using assms(3) by (auto simp: tryCreateCloudLease_def mem_lease_env_def memoryStore_def split: prod.splits sum.splits)
  then show "lease_step job n marshal unmarshal s (goto ex (created (ls_phase s ex) r) (s\<lparr>ls_mem := m'\<rparr>))"
    using create_ok [OF assms(1,2)] Inr by (simp add: created_def)
qed

lemma mem_Read_state: "snd (mem_Read n g lim m) = m"
  by (simp add: mem_Read_def split: option.splits)

lemma reclaim_run:
  assumes live: "ex \<in> ls_live s" and phase: "ls_phase s ex = Conflict"
    and sound: "\<And>e j. allowLeaseReclaim (holder e j) \<Longrightarrow> e \<notin> ls_live s"
    and run: "maybeReclaimCloudLease (mem_lease_env now holder getenv marshal unmarshal) n (ls_mem s) = (r, m')"
  shows "lease_reachable (cloudLeaseJobName getenv) n marshal unmarshal s (goto ex (after_read r) (s\<lparr>ls_mem := m'\<rparr>)) \<and>
    (\<forall>p g. r \<noteq> ProbeHolder p g)"
proof -
  let ?job = "cloudLeaseJobName getenv"
  let ?rd = "fst (mem_Read n 0 MaxFileBytes (ls_mem s))"
  let ?out = "reclaim_after_read unmarshal ?job ?rd"
  have read: "lease_reachable ?job n marshal unmarshal s (goto ex (after_read ?out) s)"
    by (rule reach_one) (rule read_lease [OF live phase disjI1 [OF refl]])
  have rd: "st_read memoryStore n 0 MaxFileBytes (ls_mem s) = (?rd, ls_mem s)"
    by (simp add: memoryStore_def mem_Read_state prod_eq_iff)
  show ?thesis
  proof (cases "\<exists>p g. ?out = ProbeHolder p g")
    case False
    then have "r = ?out" "m' = ls_mem s"
      using run rd by (auto simp: maybeReclaimCloudLease_def mem_lease_env_def Let_def split: reclaim.splits)
    then show ?thesis using read False by simp
  next
    case True
    then obtain p g where out: "?out = ProbeHolder p g" by blast
    let ?state = "holder (lp_execution p) (trim_space ?job)"
    let ?s1 = "goto ex (Probing p g) s"
    have s1: "ex \<in> ls_live ?s1" "ls_phase ?s1 ex = Probing p g" using live by simp_all
    have ask: "lease_reachable ?job n marshal unmarshal s
        (goto ex (if allowLeaseReclaim ?state then Deleting p g else Stopped) s)"
      using reach_step [OF read] probe [OF s1, of ?state ?job n marshal unmarshal] sound out by simp
    show ?thesis
    proof (cases "allowLeaseReclaim ?state")
      case False
      then have "r = Refused (holder_conflict ''holder_state'')" "m' = ls_mem s"
        using run rd out by (auto simp: maybeReclaimCloudLease_def mem_lease_env_def Let_def)
      then show ?thesis using ask False by simp
    next
      case True
      obtain d m2 where del: "mem_Delete n g (ls_mem s) = (d, m2)" by fastforce
      then have "r = reclaim_after_delete d" "m' = m2"
        using run rd out True del by (auto simp: maybeReclaimCloudLease_def mem_lease_env_def Let_def memoryStore_def mem_Read_state split: prod.splits)
      moreover have "ex \<in> ls_live (goto ex (Deleting p g) s)" "ls_phase (goto ex (Deleting p g) s) ex = Deleting p g"
        using live by simp_all
      note delete [OF this, of d m2 n]
      ultimately show ?thesis using reach_step [OF ask] True del
        by (auto simp: reclaim_after_delete_def split: option.splits)
    qed
  qed
qed

text \<open>
  The function of one worker, run without interruption over the in-memory store, is a run of
  the relation: it ends holding the lease it returns, or stopped. The probe tells the truth:
  it clears no execution that is alive.
\<close>

lemma acquire_is_run:
  assumes id: "worker_id ex" and live: "ex \<in> ls_live s" and phase: "ls_phase s ex = Start"
    and sound: "\<And>e j. allowLeaseReclaim (holder e j) \<Longrightarrow> e \<notin> ls_live s"
    and run: "acquireCloudLease (mem_lease_env now holder getenv marshal unmarshal) prefix ex (ls_mem s) = (r, m')"
  shows "lease_reachable (cloudLeaseJobName getenv) (prefix @ LeasePath) marshal unmarshal s
    (goto ex (case r of Inl _ \<Rightarrow> Stopped | Inr l \<Rightarrow> Holding (cl_generation l)) (s\<lparr>ls_mem := m'\<rparr>))"
proof -
  let ?env = "mem_lease_env now holder getenv marshal unmarshal" and ?n = "prefix @ LeasePath"
  note acq = run [unfolded acquireCloudLease_def Let_def]
  obtain r1 m1 where t1: "tryCreateCloudLease ?env ?n ex (ls_mem s) = (r1, m1)" by fastforce
  note first = create_run [OF live disjI1 [OF phase] t1, of "cloudLeaseJobName getenv", unfolded phase]
  show ?thesis
  proof (cases "\<exists>e. r1 = Inl e \<and> errors_is e errObjectGenerationConflict")
    case False
    then show ?thesis using first acq t1 id
      by (auto simp: worker_id_def created_def after_create_error_def split: sum.splits)
  next
    case True
    then obtain e where e: "r1 = Inl e" "errors_is e errObjectGenerationConflict" by blast
    let ?s1 = "goto ex Conflict (s\<lparr>ls_mem := m1\<rparr>)"
    obtain q m2 where q: "maybeReclaimCloudLease ?env ?n m1 = (q, m2)" by fastforce
    have s1: "ex \<in> ls_live ?s1" "ls_phase ?s1 ex = Conflict" "ls_mem ?s1 = m1" using live by (simp_all add: goto_def)
    have sound1: "e \<notin> ls_live ?s1" if "allowLeaseReclaim (holder e j)" for e j using sound [OF that] by (simp add: goto_def)
    have q1: "maybeReclaimCloudLease ?env ?n (ls_mem ?s1) = (q, m2)" using q s1(3) by simp
    from reclaim_run [where holder = holder and getenv = getenv, OF s1(1,2) sound1 q1]
    have second: "lease_reachable (cloudLeaseJobName getenv) ?n marshal unmarshal s (goto ex (after_read q) (s\<lparr>ls_mem := m2\<rparr>))"
      and np: "\<forall>p g. q \<noteq> ProbeHolder p g"
      using reach_trans [OF _ first] e by (auto simp: created_def after_create_error_def goto_def)
    show ?thesis
    proof (cases "q = Reclaimed")
      case False
      then show ?thesis using second acq t1 e q id np by (cases q) (auto simp: worker_id_def)
    next
      case True
      let ?s2 = "goto ex Retry (s\<lparr>ls_mem := m2\<rparr>)"
      have s2: "ex \<in> ls_live ?s2" "ls_phase ?s2 ex = Retry" "ls_mem ?s2 = m2" using live by (simp_all add: goto_def)
      obtain r3 m3 where t3: "tryCreateCloudLease ?env ?n ex m2 = (r3, m3)" by fastforce
      note third = create_run [OF s2(1) disjI2 [OF s2(2)], unfolded s2, OF t3, of "cloudLeaseJobName getenv"]
      have "(r, m') = (case r3 of Inr l \<Rightarrow> (Inr l, m3) | Inl e' \<Rightarrow> (Inl (annotate errCloudLeaseHeld
          (Wrapped ''lease reclaim succeeded but re-acquire failed'' e')), m3))"
        using acq t1 e q True t3 id by (auto simp: worker_id_def split: sum.splits)
      then show ?thesis using reach_trans [OF third second [unfolded True, simplified]]
        by (auto simp: created_def after_create_error_def goto_def split: sum.splits)
    qed
  qed
qed

section \<open>Mutual exclusion of running workers\<close>

text \<open>
  C2. Mutual exclusion: in every reachable state of any number of workers, at most one running
  execution holds the lease, and what it holds is the object in the store, at the generation it
  will delete on release; so no worker ever reclaims or releases the lease of another running
  one, however calls fail and interleave.
\<close>

theorem lease_mutual_exclusion:
  assumes "lease_reachable job n marshal unmarshal s0 s" and "lease_codec marshal unmarshal" and "lease_init s0"
    and "x \<in> ls_live s" and "ls_phase s x = Holding g" and "y \<in> ls_live s" and "ls_phase s y = Holding h"
  shows "x = y \<and> g = h \<and> (\<exists>t. mem_obj (ls_mem s) n = Some (marshal (lease_json x t), g))"
proof -
  note inv = lease_reachable_inv [OF assms(1-3)]
  from phase_of [OF inv assms(4)] assms(5) obtain t where
    t: "mem_obj (ls_mem s) n = Some (marshal (lease_json x t), g)" by auto
  have ids: "worker_id x" using inv assms(4) by (auto simp: lease_inv_def)
  obtain p where "parseLeasePayload unmarshal (marshal (lease_json x t)) = Inr p" "lp_execution p = x"
    using parse_own_payload_ok [OF assms(2) ids] by blast
  with no_stolen_lease [OF inv assms(2,6,7) t] have "x = y" by simp
  with assms(5,7) t show ?thesis by auto
qed

text \<open>A run: \<open>job-1\<close> creates the lease while \<open>job-2\<close> is waiting. The codec prefixes the
  execution with its length in unary.\<close>

definition sample_marshal :: "json \<Rightarrow> string" where
  "sample_marshal j =
     (case j of
        JObj [(_, JStr ex), (_, JStr t)] \<Rightarrow> replicate (length ex) (CHR ''x'') @ CHR ''y'' # ex @ t
      | _ \<Rightarrow> [])"

definition sample_unmarshal :: "string \<Rightarrow> json option" where
  "sample_unmarshal s =
     (let k = length (takeWhile (\<lambda>c. c = CHR ''x'') s); r = drop (Suc k) s
      in Some (lease_json (take k r) (drop k r)))"

lemma sample_codec: "lease_codec sample_marshal sample_unmarshal"
proof -
  have "takeWhile (\<lambda>c. c = CHR ''x'') (replicate k (CHR ''x'') @ CHR ''y'' # r) = replicate k (CHR ''x'')" for k r
    by (induction k) auto
  then show ?thesis
    by (simp add: lease_codec_def sample_marshal_def sample_unmarshal_def lease_json_def Let_def)
qed

definition sample_race :: lease_sys where
  "sample_race = \<lparr>ls_mem = newMemoryObjects, ls_live = {''job-1'', ''job-2''}, ls_phase = (\<lambda>_. Start)\<rparr>"

lemma sample_race_init: "lease_init sample_race"
proof -
  have "mem_inv newMemoryObjects" by code_simp
  moreover have "worker_id ''job-1''" by code_simp
  moreover have "worker_id ''job-2''" by code_simp
  ultimately show ?thesis by (simp add: lease_init_def sample_race_def)
qed

lemma lease_mutual_exclusion_witness:
  "\<exists>s. lease_reachable ''job'' ''l'' sample_marshal sample_unmarshal sample_race s \<and>
     ls_phase s ''job-1'' = Holding 1 \<and> ls_phase s ''job-2'' = Start \<and>
     (\<exists>t. mem_obj (ls_mem s) ''l'' = Some (sample_marshal (lease_json ''job-1'' t), 1))"
proof -
  define d where "d = sample_marshal (lease_json ''job-1'' ''t'')"
  define a where "a = \<lparr>a_name = ''l'', a_generation = 1, a_size = int (length d), a_metadata = []\<rparr>"
  define m where "m = \<lparr>mem_next = 1, mem_objects = [(''l'', \<lparr>mo_data = d, mo_attrs = a\<rparr>)]\<rparr>"
  define s where "s = goto ''job-1'' (Holding 1) (sample_race\<lparr>ls_mem := m\<rparr>)"
  have "mem_Write ''l'' d [] createOnly (ls_mem sample_race) = (Inr a, m)"
    by (simp add: mem_Write_def sample_race_def newMemoryObjects_def m_def a_def Let_def)
  then have "lease_step ''job'' ''l'' sample_marshal sample_unmarshal sample_race s"
    using create_ok [of "''job-1''" sample_race "''l''" sample_marshal "''t''" a m "''job''" sample_unmarshal]
    by (simp add: s_def d_def sample_race_def a_def)
  then have r: "lease_reachable ''job'' ''l'' sample_marshal sample_unmarshal sample_race s"
    by (rule reach_step [OF reach_start])
  have p: "''job-1'' \<in> ls_live s" "ls_phase s ''job-1'' = Holding 1" "ls_phase s ''job-2'' = Start"
    by (simp_all add: s_def goto_def sample_race_def)
  from lease_mutual_exclusion [OF r sample_codec sample_race_init p(1,2) p(1,2)] r p show ?thesis by blast
qed

end
