(* ===== verification/Lifecycle.thy ===== *)
theory Lifecycle
  imports Receipts
begin

text \<open>
  The state of each source as the user sees it: the decoder and counters of the raw status
  artifact (\<open>internal/rawstatus/rawstatus.go\<close>) and \<open>Calculate\<close> of
  \<open>internal/sourcelifecycle/lifecycle.go\<close>, which compares what was last ingested (the receipts)
  with what is there now (raw files and annotations) and counts the pending work. A time is a
  number of nanoseconds; \<open>zero_time\<close> is Go's zero value (1 January of year 1).
\<close>

section \<open>Raw status\<close>

definition zero_time :: int where "zero_time = - 62135596800 * 10 ^ 9"

record rawFile =
  rf_name :: string
  rf_path :: string
  rf_size :: int
  rf_updated :: int
  rf_sha256 :: string

definition zero_raw :: rawFile where
  "zero_raw = \<lparr>rf_name = '''', rf_path = '''', rf_size = 0, rf_updated = zero_time, rf_sha256 = ''''\<rparr>"

record fileStatus =
  fs_path :: string
  fs_sha256 :: string
  fs_olw_status :: string
  fs_ingested :: bool
  fs_ingested_at :: string
  fs_error :: string

definition zero_status :: fileStatus where
  "zero_status = \<lparr>fs_path = '''', fs_sha256 = '''', fs_olw_status = '''', fs_ingested = False,
     fs_ingested_at = '''', fs_error = ''''\<rparr>"

record rawArtifact =
  ra_version :: int
  ra_generated_at :: string
  ra_file_count :: int
  ra_files :: "(string, fileStatus) gomap"

record statusFile =
  sf_name :: string
  sf_size :: int
  sf_updated :: string
  sf_sha256 :: string
  sf_ingested :: bool

fun decode_bool :: "bool \<Rightarrow> json \<Rightarrow> json_error + bool" where
  "decode_bool old (JBool b) = Inr b"
| "decode_bool old JNull = Inr old"
| "decode_bool old _ = Inl JType"

definition status_fields :: "fileStatus json_fields" where
  "status_fields =
     [(''path'', \<lambda>f v. map_sum id (\<lambda>x. f\<lparr>fs_path := x\<rparr>) (decode_string (fs_path f) v)),
      (''sha256'', \<lambda>f v. map_sum id (\<lambda>x. f\<lparr>fs_sha256 := x\<rparr>) (decode_string (fs_sha256 f) v)),
      (''olw_status'', \<lambda>f v. map_sum id (\<lambda>x. f\<lparr>fs_olw_status := x\<rparr>) (decode_string (fs_olw_status f) v)),
      (''ingested'', \<lambda>f v. map_sum id (\<lambda>x. f\<lparr>fs_ingested := x\<rparr>) (decode_bool (fs_ingested f) v)),
      (''ingested_at'', \<lambda>f v. map_sum id (\<lambda>x. f\<lparr>fs_ingested_at := x\<rparr>) (decode_string (fs_ingested_at f) v)),
      (''error'', \<lambda>f v. map_sum id (\<lambda>x. f\<lparr>fs_error := x\<rparr>) (decode_string (fs_error f) v))]"

definition EmptyArtifact :: "(int \<Rightarrow> string) \<Rightarrow> int \<Rightarrow> rawArtifact" where
  "EmptyArtifact fmt now = \<lparr>ra_version = 1, ra_generated_at = fmt now, ra_file_count = 0, ra_files = []\<rparr>"

definition raw_field :: "string \<Rightarrow> json \<Rightarrow> rawArtifact \<Rightarrow> json_error + rawArtifact" where
  "raw_field name v a =
     (if name = ''version'' then map_sum id (\<lambda>i. a\<lparr>ra_version := i\<rparr>) (decode_int64 (ra_version a) v)
      else if name = ''generated_at'' then
        map_sum id (\<lambda>s. a\<lparr>ra_generated_at := s\<rparr>) (decode_string (ra_generated_at a) v)
      else if name = ''file_count'' then
        map_sum id (\<lambda>i. a\<lparr>ra_file_count := i\<rparr>) (decode_int64 (ra_file_count a) v)
      else if name = ''files'' then
        map_sum id (\<lambda>m. a\<lparr>ra_files := m\<rparr>) (DecodeBoundedMap (unmarshal_struct status_fields zero_status) v)
      else Inr a)"

fun raw_loop :: "rawArtifact \<Rightarrow> (string \<times> json) list \<Rightarrow> json_error + rawArtifact" where
  "raw_loop a [] = Inr a"
| "raw_loop a ((name, v) # kvs) =
     (case raw_field name v a of
        Inl e \<Rightarrow> Inl e
      | Inr a' \<Rightarrow> raw_loop a' kvs)"

definition rawstatus_Decode :: "json_stream \<Rightarrow> json_error + rawArtifact" where
  "rawstatus_Decode dec =
     (case stream_value dec of
        Inl e \<Rightarrow> Inl e
      | Inr (JObj kvs, rest) \<Rightarrow>
          (case raw_loop \<lparr>ra_version = 0, ra_generated_at = '''', ra_file_count = 0, ra_files = []\<rparr> kvs of
             Inl e \<Rightarrow> Inl e
           | Inr a \<Rightarrow>
               (case EnsureJSONEOF rest of
                  Inl e \<Rightarrow> Inl e
                | Inr _ \<Rightarrow>
                    Inr (if ra_file_count a = 0 \<and> length (ra_files a) > 0
                         then a\<lparr>ra_file_count := int (length (ra_files a))\<rparr> else a)))
      | Inr _ \<Rightarrow> Inl JExpectedObject)"

definition rawstatus_Count :: "rawArtifact \<Rightarrow> int" where
  "rawstatus_Count a = (if ra_file_count a > 0 then ra_file_count a else int (length (ra_files a)))"

definition isIngested :: "rawFile \<Rightarrow> fileStatus \<Rightarrow> bool" where
  "isIngested raw st =
     (if fs_error st \<noteq> '''' then False else fs_olw_status st = ''ingested'' \<or> fs_olw_status st = ''compiled'')"

definition rawstatus_Apply :: "(int \<Rightarrow> string) \<Rightarrow> rawFile list \<Rightarrow> rawArtifact \<Rightarrow> statusFile list" where
  "rawstatus_Apply fmt files a =
     map (\<lambda>raw. \<lparr>sf_name = rf_name raw, sf_size = rf_size raw, sf_updated = fmt (rf_updated raw),
                 sf_sha256 = rf_sha256 raw,
                 sf_ingested = isIngested raw (map_get_or zero_status (ra_files a) (rf_name raw))\<rparr>) files"

section \<open>Lifecycle\<close>

text \<open>The fields of \<open>storage.WikiPage\<close> that \<open>Calculate\<close> reads or writes, and the rest as \<open>wp_rest\<close>.\<close>

record 'r wikiPage =
  wp_slug :: string
  wp_title :: string
  wp_id :: string
  wp_raw_path :: string
  wp_annotation_allowed :: bool
  wp_has_annotation :: bool
  wp_annotation_dirty :: bool
  wp_raw_dirty :: bool
  wp_dirty :: bool
  wp_lifecycle :: string
  wp_ann_updated_at :: string
  wp_rest :: "'r option"

record objectMeta =
  om_updated :: int
  om_sha256 :: string
  om_has_annotation :: bool

record counts =
  NewRaw :: nat
  RawDirty :: nat
  AnnotationDirty :: nat

record lifecycleInput =
  li_raw_files :: "rawFile list"
  li_annotations :: "(string, objectMeta) gomap"
  li_receipts :: "(string, receipt) gomap"
  li_legacy :: "(string, fileStatus) gomap"
  li_legacy_generated_at :: int

definition legacyStatus :: "(string, fileStatus) gomap \<Rightarrow> rawFile \<Rightarrow> fileStatus option" where
  "legacyStatus statuses raw =
     (if \<not> SafeRawPath (rf_path raw) then None
      else (let st = (case map_of statuses (rf_name raw) of
                        Some s \<Rightarrow> Some s
                      | None \<Rightarrow> map_of statuses (rf_path raw))
            in case st of
                 None \<Rightarrow> None
               | Some s \<Rightarrow> if fs_path s \<noteq> '''' \<and> fs_path s \<noteq> rf_path raw then None else Some s))"

definition bump_new :: "counts \<Rightarrow> counts" where "bump_new c = c\<lparr>NewRaw := Suc (NewRaw c)\<rparr>"
definition bump_raw :: "counts \<Rightarrow> counts" where "bump_raw c = c\<lparr>RawDirty := Suc (RawDirty c)\<rparr>"
definition bump_ann :: "counts \<Rightarrow> counts" where "bump_ann c = c\<lparr>AnnotationDirty := Suc (AnnotationDirty c)\<rparr>"

definition raw_dirty :: "string \<Rightarrow> 'r wikiPage \<times> counts \<Rightarrow> 'r wikiPage \<times> counts" where
  "raw_dirty status = (\<lambda>(page, c).
     (page\<lparr>wp_raw_dirty := True, wp_dirty := True, wp_lifecycle := status\<rparr>, bump_raw c))"

definition ann_dirty :: "string \<Rightarrow> 'r wikiPage \<times> counts \<Rightarrow> 'r wikiPage \<times> counts" where
  "ann_dirty status = (\<lambda>(page, c).
     (page\<lparr>wp_annotation_dirty := True, wp_dirty := True, wp_lifecycle := status\<rparr>, bump_ann c))"

definition legacy_done :: "fileStatus \<Rightarrow> bool" where
  "legacy_done s \<longleftrightarrow> fs_ingested s \<or> fs_olw_status s = ''ingested'' \<or> fs_olw_status s = ''compiled''"

definition markFailure ::
  "codec \<Rightarrow> receipt \<Rightarrow> rawFile \<Rightarrow> string \<Rightarrow> (string, fileStatus) gomap \<Rightarrow> 'r wikiPage \<times> counts \<Rightarrow> 'r wikiPage \<times> counts" where
  "markFailure cd r raw ann legacy pc =
     (if ValidReceipt (rfc3339 cd) (sha256 cd) r (wp_raw_path (fst pc)) then
        (if rc_raw_sha r = rf_sha256 raw \<and> rc_ann_sha r \<noteq> ann then ann_dirty ''error'' pc
         else raw_dirty ''error'' pc)
      else (case legacyStatus legacy raw of
              Some prior \<Rightarrow>
                (if legacy_done prior \<and> ann \<noteq> Digest (sha256 cd) '''' then ann_dirty ''error'' pc
                 else raw_dirty ''error'' pc)
            | None \<Rightarrow> raw_dirty ''error'' pc))"

text \<open>The fields the loop resets before it looks at a page.\<close>

definition reset_page :: "'r wikiPage \<Rightarrow> 'r wikiPage" where
  "reset_page page =
     (let p = trim_space (wp_raw_path page)
      in page\<lparr>wp_raw_path := p, wp_annotation_allowed := SafeRawPath p, wp_has_annotation := False,
              wp_annotation_dirty := False, wp_raw_dirty := False, wp_dirty := False, wp_ann_updated_at := ''''\<rparr>)"

definition annotation_of :: "codec \<Rightarrow> lifecycleInput \<Rightarrow> 'r wikiPage \<Rightarrow> string \<times> 'r wikiPage" where
  "annotation_of cd inp page =
     (case map_of (li_annotations inp) (wp_id page) of
        None \<Rightarrow> (Digest (sha256 cd) '''', page)
      | Some meta \<Rightarrow>
          (if om_sha256 meta \<noteq> '''' then om_sha256 meta else Digest (sha256 cd) '''',
           page\<lparr>wp_has_annotation := om_has_annotation meta,
                wp_ann_updated_at := (if om_updated meta \<noteq> zero_time then format_utc cd (om_updated meta)
                                      else wp_ann_updated_at page)\<rparr>))"

text \<open>Later entries of the raw file list replace earlier ones with the same path.\<close>

definition raws_by_path :: "rawFile list \<Rightarrow> (string, rawFile) gomap" where
  "raws_by_path raws = fold (\<lambda>raw. map_set (rf_path raw) raw) raws []"

definition calculate_page ::
  "codec \<Rightarrow> lifecycleInput \<Rightarrow> (string, rawFile) gomap \<Rightarrow> 'r wikiPage \<times> counts \<Rightarrow> 'r wikiPage \<times> counts" where
  "calculate_page cd inp raws pc =
     (let page0 = reset_page (fst pc); c = snd pc
      in if \<not> wp_annotation_allowed page0 then (page0\<lparr>wp_lifecycle := ''new''\<rparr>, c)
         else (let (ann, page) = annotation_of cd inp page0;
                   rawExists = map_has raws (wp_raw_path page);
                   raw = map_get_or zero_raw raws (wp_raw_path page);
                   hasReceipt = map_has (li_receipts inp) (wp_id page);
                   r = map_get_or zero_receipt (li_receipts inp) (wp_id page);
                   fp = Fingerprint (sha256 cd) (rf_sha256 raw) ann
               in if rawExists \<and> hasReceipt \<and> ValidCurrentFailure r (wp_raw_path page) fp
                  then markFailure cd r raw ann (li_legacy inp) (page, c)
                  else if \<not> hasReceipt \<or> \<not> ValidReceipt (rfc3339 cd) (sha256 cd) r (wp_raw_path page)
                  then (case legacyStatus (li_legacy inp) raw of
                          Some legacy \<Rightarrow>
                            (if (li_legacy_generated_at inp \<noteq> zero_time \<and> rf_updated raw > li_legacy_generated_at inp)
                                \<or> fs_error legacy \<noteq> '''' \<or> \<not> legacy_done legacy
                             then raw_dirty ''content_pending'' (page, c)
                             else if ann \<noteq> Digest (sha256 cd) '''' then ann_dirty ''notes_pending'' (page, c)
                             else (page\<lparr>wp_lifecycle := ''synced''\<rparr>, c))
                        | None \<Rightarrow>
                            (page\<lparr>wp_lifecycle := ''new''\<rparr>, if rawExists then bump_new c else c))
                  else if \<not> rawExists \<or> rc_raw_sha r \<noteq> rf_sha256 raw then raw_dirty ''content_pending'' (page, c)
                  else if rc_ann_sha r \<noteq> ann then ann_dirty ''notes_pending'' (page, c)
                  else if fp = rc_fingerprint r then (page\<lparr>wp_lifecycle := ''synced''\<rparr>, c)
                  else (page\<lparr>wp_lifecycle := ''new''\<rparr>, if rawExists then bump_new c else c)))"

fun calculate_pages ::
  "codec \<Rightarrow> lifecycleInput \<Rightarrow> (string, rawFile) gomap \<Rightarrow> 'r wikiPage list \<Rightarrow> counts \<Rightarrow> 'r wikiPage list \<times> counts" where
  "calculate_pages cd inp raws [] c = ([], c)"
| "calculate_pages cd inp raws (p # ps) c =
     (case calculate_page cd inp raws (p, c) of
        (p', c') \<Rightarrow> (case calculate_pages cd inp raws ps c' of (ps', c'') \<Rightarrow> (p' # ps', c'')))"

definition unmapped_page :: "rawFile \<Rightarrow> 'r wikiPage" where
  "unmapped_page raw = \<lparr>wp_slug = rf_path raw, wp_title = rf_name raw, wp_id = '''', wp_raw_path = rf_path raw,
     wp_annotation_allowed = False, wp_has_annotation = False, wp_annotation_dirty = False, wp_raw_dirty = False,
     wp_dirty = False, wp_lifecycle = ''new'', wp_ann_updated_at = '''', wp_rest = None\<rparr>"

definition Calculate :: "codec \<Rightarrow> lifecycleInput \<Rightarrow> 'r wikiPage list \<Rightarrow> 'r wikiPage list \<times> counts" where
  "Calculate cd inp sources =
     (case calculate_pages cd inp (raws_by_path (li_raw_files inp)) sources \<lparr>NewRaw = 0, RawDirty = 0, AnnotationDirty = 0\<rparr> of
        (pages, c) \<Rightarrow>
          (let mapped = map wp_raw_path (filter wp_annotation_allowed pages);
               extra = filter (\<lambda>raw. rf_path raw \<notin> set mapped) (li_raw_files inp)
           in (pages @ map unmapped_page extra, c\<lparr>NewRaw := NewRaw c + length extra\<rparr>)))"

section \<open>Flags and counters agree\<close>

definition page_ok :: "'r wikiPage \<Rightarrow> bool" where
  "page_ok p \<longleftrightarrow>
     (wp_dirty p \<longleftrightarrow> wp_raw_dirty p \<or> wp_annotation_dirty p) \<and> \<not> (wp_raw_dirty p \<and> wp_annotation_dirty p) \<and>
     wp_lifecycle p \<in> set [''new'', ''content_pending'', ''notes_pending'', ''synced'', ''error''] \<and>
     (wp_dirty p \<longleftrightarrow> wp_lifecycle p \<in> set [''content_pending'', ''notes_pending'', ''error'']) \<and>
     (wp_lifecycle p = ''content_pending'' \<longrightarrow> wp_raw_dirty p) \<and>
     (wp_lifecycle p = ''notes_pending'' \<longrightarrow> wp_annotation_dirty p)"

text \<open>The page is new work: it may be ingested, its raw file exists, and nothing is known about it.\<close>

definition new_work :: "(string, rawFile) gomap \<Rightarrow> 'r wikiPage \<Rightarrow> bool" where
  "new_work raws p \<longleftrightarrow> wp_annotation_allowed p \<and> wp_lifecycle p = ''new'' \<and> map_has raws (wp_raw_path p)"

definition counted :: "(string, rawFile) gomap \<Rightarrow> counts \<Rightarrow> 'r wikiPage \<times> counts \<Rightarrow> bool" where
  "counted raws c pc \<longleftrightarrow>
     page_ok (fst pc) \<and>
     NewRaw (snd pc) = NewRaw c + of_bool (new_work raws (fst pc)) \<and>
     RawDirty (snd pc) = RawDirty c + of_bool (wp_raw_dirty (fst pc)) \<and>
     AnnotationDirty (snd pc) = AnnotationDirty c + of_bool (wp_annotation_dirty (fst pc))"

definition clean_page :: "'r wikiPage \<Rightarrow> bool" where
  "clean_page p \<longleftrightarrow> \<not> wp_dirty p \<and> \<not> wp_raw_dirty p \<and> \<not> wp_annotation_dirty p"

lemma counted_raw_dirty:
  "clean_page p \<Longrightarrow> s = ''content_pending'' \<or> s = ''error'' \<Longrightarrow> counted raws c (raw_dirty s (p, c))"
  by (auto simp: counted_def raw_dirty_def bump_raw_def page_ok_def new_work_def clean_page_def)

lemma counted_ann_dirty:
  "clean_page p \<Longrightarrow> s = ''notes_pending'' \<or> s = ''error'' \<Longrightarrow> counted raws c (ann_dirty s (p, c))"
  by (auto simp: counted_def ann_dirty_def bump_ann_def page_ok_def new_work_def clean_page_def)

lemma counted_synced: "clean_page p \<Longrightarrow> counted raws c (p\<lparr>wp_lifecycle := ''synced''\<rparr>, c)"
  by (auto simp: counted_def page_ok_def new_work_def clean_page_def)

lemma counted_new:
  "clean_page p \<Longrightarrow> wp_annotation_allowed p \<Longrightarrow> map_has raws (wp_raw_path p) \<Longrightarrow>
     counted raws c (p\<lparr>wp_lifecycle := ''new''\<rparr>, bump_new c)"
  "clean_page p \<Longrightarrow> \<not> map_has raws (wp_raw_path p) \<Longrightarrow> counted raws c (p\<lparr>wp_lifecycle := ''new''\<rparr>, c)"
  by (simp_all add: counted_def page_ok_def new_work_def clean_page_def bump_new_def)

lemma counted_refused:
  "clean_page p \<Longrightarrow> \<not> wp_annotation_allowed p \<Longrightarrow> counted raws c (p\<lparr>wp_lifecycle := ''new''\<rparr>, c)"
  by (simp add: counted_def page_ok_def new_work_def clean_page_def)

lemmas counted_intros = counted_raw_dirty counted_ann_dirty counted_synced counted_new counted_refused

lemma counted_markFailure: "clean_page p \<Longrightarrow> counted raws c (markFailure cd r raw ann legacy (p, c))"
  by (simp add: markFailure_def counted_intros split: option.split)

lemma reset_page_clean: "clean_page (reset_page p)"
  by (simp add: clean_page_def reset_page_def Let_def)

lemma annotation_of_page:
  "annotation_of cd inp p = (ann, q) \<Longrightarrow>
     (clean_page q = clean_page p) \<and> wp_annotation_allowed q = wp_annotation_allowed p \<and>
     wp_raw_path q = wp_raw_path p \<and> wp_id q = wp_id p"
  by (auto simp: annotation_of_def clean_page_def split: option.splits)

lemma calculate_page_counted: "counted raws c (calculate_page cd inp raws (p, c))"
proof (cases "wp_annotation_allowed (reset_page p)")
  case False
  then show ?thesis
    by (simp add: calculate_page_def Let_def counted_refused reset_page_clean)
next
  case True
  obtain ann q where q: "annotation_of cd inp (reset_page p) = (ann, q)" by fastforce
  have "clean_page q" "wp_annotation_allowed q"
    using annotation_of_page [OF q] True reset_page_clean [of p] by auto
  then show ?thesis
    using True q
    by (simp add: calculate_page_def Let_def counted_intros counted_markFailure del: map_has_iff split: option.split)
qed

lemma calculate_pages_counted:
  "calculate_pages cd inp raws ps c = (qs, c') \<Longrightarrow>
     length qs = length ps \<and> list_all page_ok qs \<and>
     NewRaw c' = NewRaw c + length (filter (new_work raws) qs) \<and>
     RawDirty c' = RawDirty c + length (filter wp_raw_dirty qs) \<and>
     AnnotationDirty c' = AnnotationDirty c + length (filter wp_annotation_dirty qs)"
proof (induction ps arbitrary: c qs c')
  case Nil
  then show ?case by simp
next
  case (Cons p ps)
  obtain p' c1 where p': "calculate_page cd inp raws (p, c) = (p', c1)" by fastforce
  obtain qs' c2 where qs': "calculate_pages cd inp raws ps c1 = (qs', c2)" by fastforce
  have "counted raws c (p', c1)" using calculate_page_counted [of raws c cd inp p] p' by simp
  with Cons.IH [OF qs'] Cons.prems p' qs' show ?case by (auto simp: counted_def)
qed

text \<open>
  C28. The counters are the flags: \<open>Calculate\<close> returns one page per source and one per raw file
  that no usable page claims; the raw and annotation counters are the numbers of pages with the
  respective flag, the new counter is the number of new pages with an existing raw file plus the
  unclaimed files; and on every page the flags agree with each other and with the status, so a
  dirty page is dirty for exactly one reason.
\<close>

theorem Calculate_counts:
  "case Calculate cd inp sources of
     (pages, c) \<Rightarrow>
       list_all page_ok pages \<and>
       RawDirty c = length (filter wp_raw_dirty pages) \<and>
       AnnotationDirty c = length (filter wp_annotation_dirty pages) \<and>
       NewRaw c = length (filter (new_work (raws_by_path (li_raw_files inp))) (take (length sources) pages))
         + length (drop (length sources) pages) \<and>
       map wp_raw_path (drop (length sources) pages) = map rf_path
         (filter (\<lambda>raw. rf_path raw \<notin> set (map wp_raw_path (filter wp_annotation_allowed (take (length sources) pages))))
            (li_raw_files inp))"
proof -
  obtain qs c' where q: "calculate_pages cd inp (raws_by_path (li_raw_files inp)) sources
      \<lparr>NewRaw = 0, RawDirty = 0, AnnotationDirty = 0\<rparr> = (qs, c')" by fastforce
  have u: "page_ok (unmapped_page raw :: 'a wikiPage)" "\<not> wp_raw_dirty (unmapped_page raw :: 'a wikiPage)"
    "\<not> wp_annotation_dirty (unmapped_page raw :: 'a wikiPage)"
    "wp_raw_path (unmapped_page raw :: 'a wikiPage) = rf_path raw" for raw
    by (simp_all add: page_ok_def unmapped_page_def)
  show ?thesis
    using calculate_pages_counted [OF q] q u
    by (auto simp: Calculate_def Let_def list_all_iff comp_def)
qed

section \<open>What the statuses mean\<close>

text \<open>
  Against a valid receipt, and when the failure record is not about the current input, the
  status is exactly the comparison of digests: a missing or changed raw file is pending content,
  else a changed annotation is pending notes, else the source is synced. The last branch of the
  code, which would call such a source new, is never taken.
\<close>

theorem calculate_page_exact:
  fixes p :: "'r wikiPage" and raws :: "(string, rawFile) gomap" and cd :: codec and inp :: lifecycleInput
  defines "path \<equiv> trim_space (wp_raw_path p)"
  defines "raw \<equiv> map_get_or zero_raw raws path"
  defines "ann \<equiv> fst (annotation_of cd inp (reset_page p))"
  assumes "SafeRawPath path" and "map_of (li_receipts inp) (wp_id p) = Some r"
    and "ValidReceipt (rfc3339 cd) (sha256 cd) r path"
    and "\<not> (map_has raws path \<and> ValidCurrentFailure r path (Fingerprint (sha256 cd) (rf_sha256 raw) ann))"
  shows "wp_lifecycle (fst (calculate_page cd inp raws (p, c))) =
     (if \<not> map_has raws path \<or> rc_raw_sha r \<noteq> rf_sha256 raw then ''content_pending''
      else if rc_ann_sha r \<noteq> ann then ''notes_pending'' else ''synced'')"
proof -
  obtain ann' q where q: "annotation_of cd inp (reset_page p) = (ann', q)" by fastforce
  have a: "ann' = ann" using q by (simp add: ann_def)
  have id: "wp_id (reset_page p) = wp_id p" "wp_raw_path (reset_page p) = path"
    "wp_annotation_allowed (reset_page p)"
    using assms(4) by (simp_all add: reset_page_def path_def Let_def)
  have w: "wp_raw_path q = path" "wp_id q = wp_id p"
    using annotation_of_page [OF q] id by auto
  have m: "map_has (li_receipts inp) (wp_id p)" "map_get_or zero_receipt (li_receipts inp) (wp_id p) = r"
    using assms(5) by (simp_all add: map_has_def map_get_or_def del: map_has_iff)
  have fp: "rc_fingerprint r = Fingerprint (sha256 cd) (rc_raw_sha r) (rc_ann_sha r)"
    using assms(6) by (simp add: ValidReceipt_def split: if_splits)
  show ?thesis
    using q a id w m fp assms(6,7)
    by (cases "map_has raws path") (simp_all add: calculate_page_def Let_def raw_def [symmetric] raw_dirty_def ann_dirty_def del: map_has_iff)
qed

text \<open>
  No false all-clear: a page that comes out as synced has an annotatable raw path, and either
  its receipt is valid and the digests of the last success are those of the existing raw file and
  annotation, or there is no valid receipt and the legacy status of the raw file says it was
  ingested without error.
\<close>

theorem calculate_page_synced:
  fixes p :: "'r wikiPage" and raws :: "(string, rawFile) gomap" and cd :: codec and inp :: lifecycleInput
  defines "path \<equiv> trim_space (wp_raw_path p)"
  defines "raw \<equiv> map_get_or zero_raw raws path"
  defines "r \<equiv> map_get_or zero_receipt (li_receipts inp) (wp_id p)"
  assumes "wp_lifecycle (fst (calculate_page cd inp raws (p, c))) = ''synced''"
  shows "SafeRawPath path \<and>
    (ValidReceipt (rfc3339 cd) (sha256 cd) r path \<and> map_has raws path \<and> rc_raw_sha r = rf_sha256 raw \<and>
       rc_ann_sha r = fst (annotation_of cd inp (reset_page p)) \<or>
     (\<exists>legacy. legacyStatus (li_legacy inp) raw = Some legacy \<and> legacy_done legacy \<and> fs_error legacy = ''''))"
proof -
  obtain ann q where q: "annotation_of cd inp (reset_page p) = (ann, q)" by fastforce
  have reset: "wp_id (reset_page p) = wp_id p" "wp_raw_path (reset_page p) = path"
    "wp_annotation_allowed (reset_page p) = SafeRawPath path"
    by (simp_all add: reset_page_def path_def Let_def)
  have w: "wp_raw_path q = path" "wp_id q = wp_id p"
    using annotation_of_page [OF q] reset by auto
  have not_failed: "wp_lifecycle (fst (markFailure cd r raw ann (li_legacy inp) (q, c))) = ''error''"
    by (simp add: markFailure_def raw_dirty_def ann_dirty_def split: option.split)
  show ?thesis
    using assms(4) q reset w not_failed
    by (simp add: calculate_page_def Let_def raw_def [symmetric] r_def [symmetric] raw_dirty_def ann_dirty_def
        del: map_has_iff split: if_splits option.splits)
qed

text \<open>A source ingested once, whose raw file has changed since, and one whose raw file has not.\<close>

definition sample_page :: "unit wikiPage" where
  "sample_page = \<lparr>wp_slug = ''a'', wp_title = ''A'', wp_id = ''s1'', wp_raw_path = '' raw/a.md'',
     wp_annotation_allowed = False, wp_has_annotation = False, wp_annotation_dirty = False, wp_raw_dirty = False,
     wp_dirty = False, wp_lifecycle = '''', wp_ann_updated_at = '''', wp_rest = None\<rparr>"

definition sample_raw :: "string \<Rightarrow> rawFile" where
  "sample_raw sha = \<lparr>rf_name = ''a.md'', rf_path = ''raw/a.md'', rf_size = 1, rf_updated = 0, rf_sha256 = sha\<rparr>"

definition sample_input :: "string \<Rightarrow> lifecycleInput" where
  "sample_input sha = \<lparr>li_raw_files = [sample_raw sha], li_annotations = [],
     li_receipts = [(''s1'', success_receipt sample_snapshot ''t'')], li_legacy = [], li_legacy_generated_at = 0\<rparr>"

lemma calculate_page_exact_witness:
  "wp_lifecycle (fst (calculate_page sample_codec (sample_input ''b'') (raws_by_path [sample_raw ''b''])
     (sample_page, \<lparr>NewRaw = 0, RawDirty = 0, AnnotationDirty = 0\<rparr>))) = ''content_pending''"
proof -
  let ?raws = "raws_by_path [sample_raw ''b'']" and ?r = "success_receipt sample_snapshot ''t''"
  let ?path = "trim_space (wp_raw_path sample_page)"
  have "SafeRawPath ?path" "map_of (li_receipts (sample_input ''b'')) (wp_id sample_page) = Some ?r"
    "ValidReceipt (rfc3339 sample_codec) (sha256 sample_codec) ?r ?path"
    "\<not> (map_has ?raws ?path \<and> ValidCurrentFailure ?r ?path
        (Fingerprint (sha256 sample_codec) (rf_sha256 (map_get_or zero_raw ?raws ?path))
           (fst (annotation_of sample_codec (sample_input ''b'') (reset_page sample_page)))))"
    by code_simp+
  moreover have "rc_raw_sha ?r \<noteq> rf_sha256 (map_get_or zero_raw ?raws ?path)" by code_simp
  ultimately show ?thesis
    using calculate_page_exact [of sample_page "sample_input ''b''" ?r sample_codec ?raws] by simp
qed

lemma calculate_page_synced_witness:
  "map_has (raws_by_path [sample_raw sample_sha]) (trim_space (wp_raw_path sample_page))"
proof -
  let ?raws = "raws_by_path [sample_raw sample_sha]"
  have s: "wp_lifecycle (fst (calculate_page sample_codec (sample_input sample_sha) ?raws
      (sample_page, \<lparr>NewRaw = 0, RawDirty = 0, AnnotationDirty = 0\<rparr>))) = ''synced''"
    by code_simp
  have "legacyStatus (li_legacy (sample_input sample_sha)) raw = None" for raw
    by (simp add: legacyStatus_def sample_input_def)
  with calculate_page_synced [OF s] show ?thesis by (simp del: map_has_iff)
qed

end
