(* ===== verification/Quota.thy ===== *)
theory Quota
  imports ObjectStore
begin

text \<open>
  Pipeline quotas. The pure decision is \<open>Evaluate\<close> (\<open>internal/pipelinequota/quota.go\<close>); its
  state is one Firestore document per project, read and written in a transaction by
  \<open>ReserveQuota\<close> and put back by \<open>RefundQuota\<close> (\<open>internal/firestore/quota.go\<close>); the HTTP layer
  (\<open>internal/handler/v1/pipeline_quota.go\<close>, \<open>endpoints.go\<close>) decides whether a pipeline is
  already running from the lock and all pages of the execution list, reserves, starts the job and
  refunds when the start fails. A time is a number of nanoseconds since the Unix epoch; a day is
  the number of the UTC day and \<open>dk\<close> prints it as \<open>YYYY-MM-DD\<close>.
\<close>

section \<open>The decision\<close>

datatype reason = ReasonNone | ReasonDemo | ReasonDailyLimit | ReasonCooldown | ReasonAlreadyRunning | ReasonNoNewRaw

record limits =
  DailyLimit :: int
  Cooldown :: int
  MinNewRaw :: int

record quotaInput =
  q_now :: int
  q_limits :: limits
  q_demo :: bool
  q_running :: bool
  q_runs :: int
  q_day_key :: string
  q_last_run :: int
  q_new :: int
  q_raw_dirty :: int
  q_ann_dirty :: int
  q_enforced :: bool

text \<open>The message of a block, with the numbers that are printed into it.\<close>

datatype message =
  NoMessage | DemoMessage | RunningMessage | DailyMessage int int | CooldownMessage int | NoNewRawMessage

record snapshot =
  s_enforced :: bool
  s_allowed :: bool
  s_reason :: reason
  s_message :: message
  s_runs :: int
  s_daily_limit :: int
  s_cooldown_until :: "int option"
  s_next_reset :: int
  s_new :: int
  s_raw_dirty :: int
  s_ann_dirty :: int
  s_pending :: int
  s_min_new :: int
  s_running :: bool

definition never :: int where "never = - 62135596800 * 10 ^ 9"
definition hour :: int where "hour = 3600 * 10 ^ 9"
definition day_ns :: int where "day_ns = 24 * hour"
definition day_of :: "int \<Rightarrow> int" where "day_of t = t div day_ns"

definition DayKeyUTC :: "(int \<Rightarrow> string) \<Rightarrow> int \<Rightarrow> string" where
  "DayKeyUTC dk t = dk (day_of t)"

definition NextResetUTC :: "int \<Rightarrow> int" where
  "NextResetUTC t = (day_of t + 1) * day_ns"

definition CountNewRaw :: "int list \<Rightarrow> int \<Rightarrow> nat" where
  "CountNewRaw updated lastRun =
     (if lastRun = never then length updated else length (filter (\<lambda>u. u > lastRun) updated))"

definition block :: "snapshot \<Rightarrow> reason \<Rightarrow> message \<Rightarrow> snapshot" where
  "block s r msg = s\<lparr>s_allowed := False, s_reason := r, s_message := msg\<rparr>"

definition effective :: "limits \<Rightarrow> limits" where
  "effective l = \<lparr>DailyLimit = (if DailyLimit l \<le> 0 then 2 else DailyLimit l),
     Cooldown = (if Cooldown l \<le> 0 then hour else Cooldown l),
     MinNewRaw = (if MinNewRaw l \<le> 0 then 1 else MinNewRaw l)\<rparr>"

definition runs_today :: "(int \<Rightarrow> string) \<Rightarrow> quotaInput \<Rightarrow> int" where
  "runs_today dk inp = (if q_day_key inp \<noteq> DayKeyUTC dk (q_now inp) then 0 else q_runs inp)"

text \<open>
  \<open>Evaluate\<close>. The minutes of the cooldown message are the truncated quotient plus one (the code
  divides in floating point, which gives the same number for every cooldown below \<open>10 ^ 5\<close> minutes).
\<close>

definition Evaluate :: "(int \<Rightarrow> string) \<Rightarrow> quotaInput \<Rightarrow> snapshot" where
  "Evaluate dk inp =
     (let lim = effective (q_limits inp);
          runs = runs_today dk inp;
          snap = \<lparr>s_enforced = q_enforced inp, s_allowed = False, s_reason = ReasonNone, s_message = NoMessage,
                  s_runs = runs, s_daily_limit = DailyLimit lim, s_cooldown_until = None,
                  s_next_reset = NextResetUTC (q_now inp), s_new = q_new inp, s_raw_dirty = q_raw_dirty inp,
                  s_ann_dirty = q_ann_dirty inp, s_pending = q_new inp + q_raw_dirty inp + q_ann_dirty inp,
                  s_min_new = MinNewRaw lim, s_running = q_running inp\<rparr>;
          until = q_last_run inp + Cooldown lim
      in if \<not> q_enforced inp then snap\<lparr>s_allowed := True\<rparr>
         else if q_demo inp then block snap ReasonDemo DemoMessage
         else if q_running inp then block snap ReasonAlreadyRunning RunningMessage
         else if runs \<ge> DailyLimit lim then block snap ReasonDailyLimit (DailyMessage runs (DailyLimit lim))
         else if q_last_run inp \<noteq> never \<and> q_now inp < until
         then block (snap\<lparr>s_cooldown_until := Some until\<rparr>) ReasonCooldown
                (CooldownMessage ((until - q_now inp) div (60 * 10 ^ 9) + 1))
         else if q_new inp + q_raw_dirty inp < MinNewRaw lim \<and> q_ann_dirty inp = 0
         then block snap ReasonNoNewRaw NoNewRawMessage
         else snap\<lparr>s_allowed := True\<rparr>)"

definition IsTerminalExecutionStatus :: "string \<Rightarrow> bool" where
  "IsTerminalExecutionStatus s \<longleftrightarrow> s \<in> set [''SUCCEEDED'', ''FAILED'', ''CANCELLED'']"

definition ComputeAlreadyRunning :: "bool \<Rightarrow> string \<Rightarrow> bool" where
  "ComputeAlreadyRunning lockActive status =
     (if status = ''RUNNING'' then True else if IsTerminalExecutionStatus status then False else lockActive)"

section \<open>The quota document\<close>

text \<open>
  A Firestore document is a map from field names to values; a floating point number is given by
  its truncation to an integer, which is all the code uses of it.
\<close>

datatype fs_value = FsInt int | FsFloat int | FsString string | FsTime int | FsOther

type_synonym fs_doc = "(string, fs_value) gomap"

fun intFromFirestore :: "fs_value option \<Rightarrow> int" where
  "intFromFirestore (Some (FsInt n)) = n"
| "intFromFirestore (Some (FsFloat n)) = n"
| "intFromFirestore _ = 0"

fun firestoreTimestamp :: "fs_value option \<Rightarrow> int option" where
  "firestoreTimestamp (Some (FsTime t)) = Some t"
| "firestoreTimestamp _ = None"

record quotaPrev =
  pv_runs :: int
  pv_day_key :: string
  pv_last_run :: int

definition quotaStateFromData :: "fs_doc option \<Rightarrow> quotaPrev" where
  "quotaStateFromData data =
     (case data of
        None \<Rightarrow> \<lparr>pv_runs = 0, pv_day_key = '''', pv_last_run = never\<rparr>
      | Some d \<Rightarrow>
          \<lparr>pv_runs = intFromFirestore (map_of d ''runs_today''),
           pv_day_key = (case map_of d ''day_key'' of Some (FsString v) \<Rightarrow> v | _ \<Rightarrow> ''''),
           pv_last_run = (case firestoreTimestamp (map_of d ''last_run_at'') of Some t \<Rightarrow> t | None \<Rightarrow> never)\<rparr>)"

definition activeLockUntil :: "fs_doc \<Rightarrow> int \<Rightarrow> int option" where
  "activeLockUntil d now =
     (if map_of d ''status'' \<noteq> Some (FsString ''active'') then None
      else (case firestoreTimestamp (map_of d ''expires_at'') of
              None \<Rightarrow> None
            | Some t \<Rightarrow> if \<not> t > now then None else Some t))"

definition LockDataActive :: "fs_doc \<Rightarrow> int \<Rightarrow> bool" where
  "LockDataActive d now \<longleftrightarrow> activeLockUntil d now \<noteq> None"

text \<open>What a call wants to run: everything \<open>ReserveQuota\<close> is given besides the document.\<close>

record quotaRequest =
  rq_user :: string
  rq_project :: string
  rq_limits :: limits
  rq_now :: int
  rq_demo :: bool
  rq_running :: bool
  rq_new :: int
  rq_raw_dirty :: int
  rq_ann_dirty :: int

definition quota_input :: "quotaRequest \<Rightarrow> quotaPrev \<Rightarrow> quotaInput" where
  "quota_input rq st =
     \<lparr>q_now = rq_now rq, q_limits = rq_limits rq, q_demo = rq_demo rq, q_running = rq_running rq,
      q_runs = pv_runs st, q_day_key = pv_day_key st, q_last_run = pv_last_run st, q_new = rq_new rq,
      q_raw_dirty = rq_raw_dirty rq, q_ann_dirty = rq_ann_dirty rq, q_enforced = True\<rparr>"

definition zero_snapshot :: snapshot where
  "zero_snapshot = \<lparr>s_enforced = False, s_allowed = False, s_reason = ReasonNone, s_message = NoMessage, s_runs = 0,
     s_daily_limit = 0, s_cooldown_until = None, s_next_reset = never, s_new = 0, s_raw_dirty = 0,
     s_ann_dirty = 0, s_pending = 0, s_min_new = 0, s_running = False\<rparr>"

text \<open>The body of the transaction: its result and the document it commits.\<close>

definition reserve_tx ::
  "(int \<Rightarrow> string) \<Rightarrow> quotaRequest \<Rightarrow> fs_doc option \<Rightarrow> (quotaPrev \<times> snapshot \<times> bool) \<times> fs_doc option" where
  "reserve_tx dk rq doc =
     (let prev = quotaStateFromData doc; pre = Evaluate dk (quota_input rq prev)
      in if \<not> s_allowed pre then ((prev, pre, False), doc)
         else (let today = DayKeyUTC dk (rq_now rq); newRuns = s_runs pre + 1
               in ((prev,
                    Evaluate dk (quota_input rq \<lparr>pv_runs = newRuns, pv_day_key = today, pv_last_run = rq_now rq\<rparr>),
                    True),
                   Some [(''user_id'', FsString (rq_user rq)), (''project_id'', FsString (rq_project rq)),
                         (''day_key'', FsString today), (''runs_today'', FsInt newRuns),
                         (''last_run_at'', FsTime (rq_now rq)), (''updated_at'', FsTime (rq_now rq))])))"

text \<open>
  How the transaction ends: committed, failed, or failed towards the caller after the commit.
\<close>

datatype tx_end = Committed | Failed gerr | Lost gerr

definition ReserveQuota ::
  "(int \<Rightarrow> string) \<Rightarrow> tx_end \<Rightarrow> quotaRequest \<Rightarrow> fs_doc option
   \<Rightarrow> (gerr + quotaPrev \<times> snapshot \<times> bool) \<times> fs_doc option" where
  "ReserveQuota dk tx rq doc =
     (case tx of
        Committed \<Rightarrow> (case reserve_tx dk rq doc of (r, doc') \<Rightarrow> (Inr r, doc'))
      | Failed e \<Rightarrow> (Inl e, doc)
      | Lost e \<Rightarrow> (Inl e, snd (reserve_tx dk rq doc)))"

text \<open>\<open>RefundQuota\<close>: an update of an existing document; a missing one is left alone.\<close>

definition RefundQuota :: "int \<Rightarrow> quotaPrev \<Rightarrow> fs_doc option \<Rightarrow> fs_doc option" where
  "RefundQuota now prev doc =
     (case doc of
        None \<Rightarrow> None
      | Some d \<Rightarrow>
          (let d1 = map_set ''updated_at'' (FsTime now)
                      (map_set ''day_key'' (FsString (pv_day_key prev)) (map_set ''runs_today'' (FsInt (pv_runs prev)) d))
           in Some (if pv_last_run prev = never then map_del ''last_run_at'' d1
                    else map_set ''last_run_at'' (FsTime (pv_last_run prev)) d1)))"

section \<open>The HTTP layer\<close>

definition pipelineLimits :: "limits \<Rightarrow> limits" where
  "pipelineLimits h =
     (let daily = (if DailyLimit h \<le> 0 then 2 else DailyLimit h);
          cooldown = (if Cooldown h \<le> 0 then hour else Cooldown h);
          minNew = (if MinNewRaw h \<le> 0 then 1 else MinNewRaw h)
      in \<lparr>DailyLimit = daily, Cooldown = cooldown, MinNewRaw = minNew\<rparr>)"

definition isDemoUser :: "string list \<Rightarrow> string \<Rightarrow> bool" where
  "isDemoUser demoUserIDs userID =
     (if userID = '''' \<or> demoUserIDs = [] then False else userID \<in> set demoUserIDs)"

definition httpStatusForReason :: "reason \<Rightarrow> nat" where
  "httpStatusForReason r =
     (case r of
        ReasonDemo \<Rightarrow> 403
      | ReasonDailyLimit \<Rightarrow> 429
      | ReasonCooldown \<Rightarrow> 429
      | ReasonAlreadyRunning \<Rightarrow> 409
      | ReasonNoNewRaw \<Rightarrow> 409
      | _ \<Rightarrow> 409)"

record condition =
  c_type :: string
  c_state :: string
  c_status :: string
  c_reason :: string

record execution =
  x_completion_status :: string
  x_conditions :: "condition list"
  x_running :: int
  x_succeeded :: int
  x_failed :: int
  x_cancelled :: int
  x_containers :: "(string \<times> string) list list"

text \<open>Upper casing is that of ASCII, in which the service writes its states.\<close>

definition normalizeCloudRunStatus :: "string \<Rightarrow> string" where
  "normalizeCloudRunStatus v =
     (let status = trim_prefix (trim_prefix (map upper_byte (trim_space v)) ''CONDITION_'') ''EXECUTION_''
      in if status = ''SUCCEEDED'' \<or> status = ''TRUE'' then ''SUCCEEDED''
         else if status = ''FAILED'' \<or> status = ''FALSE'' then ''FAILED''
         else if status = ''CANCELLED'' then ''CANCELLED''
         else if status = ''PENDING'' \<or> status = ''RECONCILING'' \<or> status = ''UNKNOWN'' then ''RUNNING''
         else status)"

fun condition_status :: "condition list \<Rightarrow> string option" where
  "condition_status [] = None"
| "condition_status (c # cs) =
     (if c_type c \<noteq> ''Completed'' then condition_status cs
      else if c_state c \<noteq> '''' then Some (normalizeCloudRunStatus (c_state c))
      else if c_status c \<noteq> '''' then Some (normalizeCloudRunStatus (c_status c))
      else if c_reason c \<noteq> '''' then Some (normalizeCloudRunStatus (c_reason c))
      else condition_status cs)"

definition cloudRunExecutionStatus :: "execution \<Rightarrow> string" where
  "cloudRunExecutionStatus x =
     (if x_completion_status x \<noteq> '''' then normalizeCloudRunStatus (x_completion_status x)
      else (case condition_status (x_conditions x) of
              Some s \<Rightarrow> s
            | None \<Rightarrow>
                (if x_failed x > 0 then ''FAILED''
                 else if x_cancelled x > 0 then ''CANCELLED''
                 else if x_running x > 0 then ''RUNNING''
                 else if x_succeeded x > 0 then ''SUCCEEDED''
                 else ''UNKNOWN'')))"

definition container_env :: "(string \<times> string) list \<Rightarrow> (string, string) gomap" where
  "container_env vars = fold (\<lambda>(n, v). map_set n v) vars []"

definition cloudRunExecutionOwnedBy :: "execution \<Rightarrow> string \<Rightarrow> string \<Rightarrow> bool" where
  "cloudRunExecutionOwnedBy x userID projectID =
     (let u = trim_space userID; p = trim_space projectID
      in if u = '''' \<or> p = '''' then False
         else list_ex (\<lambda>vars. let env = container_env vars
                              in map_get_or '''' env ''USER_ID'' = u \<and> map_get_or '''' env ''PROJECT_ID'' = p \<and>
                                 map_get_or '''' env ''TASK_TYPE'' = ''pipeline'') (x_containers x))"

text \<open>
  One page of executions: an early \<open>Inl\<close> when one is running, else the two flags so far.
\<close>

fun scan_page :: "string \<Rightarrow> string \<Rightarrow> execution list \<Rightarrow> bool \<times> bool \<Rightarrow> unit + bool \<times> bool" where
  "scan_page u p [] flags = Inr flags"
| "scan_page u p (x # xs) (hasOwned, allTerminal) =
     (if \<not> cloudRunExecutionOwnedBy x u p then scan_page u p xs (hasOwned, allTerminal)
      else (let allTerminal' = (if \<not> hasOwned then True else allTerminal);
                status = cloudRunExecutionStatus x
            in if status = ''RUNNING'' then Inl ()
               else scan_page u p xs (True, if \<not> IsTerminalExecutionStatus status then False else allTerminal')))"

text \<open>
  The loop over the pages, with a bound on their number: \<open>None\<close> means that the bound was too small.
\<close>

fun scan_pages ::
  "nat \<Rightarrow> (string \<Rightarrow> gerr + execution list \<times> string) \<Rightarrow> string \<Rightarrow> string \<Rightarrow> string \<Rightarrow> bool \<times> bool
   \<Rightarrow> (gerr + bool \<times> bool \<times> bool) option" where
  "scan_pages 0 lst u p token flags = None"
| "scan_pages (Suc n) lst u p token flags =
     (case lst token of
        Inl e \<Rightarrow> Some (Inl e)
      | Inr (xs, next_token) \<Rightarrow>
          (case scan_page u p xs flags of
             Inl _ \<Rightarrow> Some (Inr (True, False, True))
           | Inr (hasOwned, allTerminal) \<Rightarrow>
               (if next_token = '''' then Some (Inr (hasOwned, allTerminal, False))
                else scan_pages n lst u p next_token (hasOwned, allTerminal))))"

definition pipelineOwnedExecutionActivityForOwner ::
  "nat \<Rightarrow> (gerr option) \<Rightarrow> (string \<Rightarrow> gerr + execution list \<times> string) \<Rightarrow> string \<Rightarrow> string
   \<Rightarrow> (gerr + bool \<times> bool \<times> bool) option" where
  "pipelineOwnedExecutionActivityForOwner n token_error lst u p =
     (case token_error of
        Some e \<Rightarrow> Some (Inl e)
      | None \<Rightarrow> scan_pages n lst u p '''' (False, False))"

definition pipelineRunningForOwnedActivity :: "bool \<Rightarrow> bool \<Rightarrow> bool \<Rightarrow> bool \<Rightarrow> bool" where
  "pipelineRunningForOwnedActivity lockActive hasOwned allTerminal anyRunning =
     (if anyRunning then True else if hasOwned \<and> allTerminal then False else lockActive)"

definition isPipelineRunning :: "gerr + bool \<Rightarrow> gerr + bool \<times> bool \<times> bool \<Rightarrow> gerr + bool" where
  "isPipelineRunning locked activity =
     (case locked of
        Inl e \<Rightarrow> Inl e
      | Inr l \<Rightarrow>
          (case activity of
             Inl _ \<Rightarrow> Inr l
           | Inr (hasOwned, allTerminal, anyRunning) \<Rightarrow>
               Inr (pipelineRunningForOwnedActivity l hasOwned allTerminal anyRunning)))"

text \<open>
  \<open>evaluateQuota\<close> and the part of \<open>PipelineRun\<close> after it. \<open>qs\<close> is \<open>None\<close> when no quota store is
  configured. The answers of the outside are arguments: whether a pipeline is running, the pending
  work, the end of the transaction, and the result of starting the job.
\<close>

definition evaluateQuota ::
  "(int \<Rightarrow> string) \<Rightarrow> limits \<Rightarrow> string list \<Rightarrow> string \<Rightarrow> string \<Rightarrow> int \<Rightarrow> gerr + bool \<Rightarrow> gerr + int \<times> int \<times> int
   \<Rightarrow> tx_end option \<Rightarrow> bool \<Rightarrow> fs_doc option \<Rightarrow> (gerr + snapshot \<times> bool \<times> quotaPrev) \<times> fs_doc option" where
  "evaluateQuota dk h demoUsers userID projectID now running pending qs reserve doc =
     (let zero = quotaStateFromData None
      in case running of
           Inl e \<Rightarrow> (Inl e, doc)
         | Inr alreadyRunning \<Rightarrow>
             (case pending of
                Inl e \<Rightarrow> (Inl e, doc)
              | Inr (newRaw, rawDirty, annDirty) \<Rightarrow>
                  (let rq = \<lparr>rq_user = userID, rq_project = projectID, rq_limits = pipelineLimits h, rq_now = now,
                             rq_demo = isDemoUser demoUsers userID, rq_running = alreadyRunning, rq_new = newRaw,
                             rq_raw_dirty = rawDirty, rq_ann_dirty = annDirty\<rparr>
                   in case qs of
                        None \<Rightarrow> (Inr (Evaluate dk ((quota_input rq zero)\<lparr>q_enforced := False\<rparr>), False, zero), doc)
                      | Some tx \<Rightarrow>
                          (if reserve then
                             (case ReserveQuota dk tx rq doc of
                                (Inl e, doc') \<Rightarrow> (Inl e, doc')
                              | (Inr (prev, snap, reserved), doc') \<Rightarrow> (Inr (snap, reserved, prev), doc'))
                           else (case tx of
                                   Committed \<Rightarrow>
                                     (Inr (Evaluate dk (quota_input rq (quotaStateFromData doc)), False, zero), doc)
                                 | Failed e \<Rightarrow> (Inl e, doc)
                                 | Lost e \<Rightarrow> (Inl e, doc))))))"

datatype run_result = RunBadRequest | RunUnavailable | RunBlocked nat reason | RunAccepted string

text \<open>
  \<open>PipelineRun\<close>, from the checked identifiers to the answer. \<open>refund_ok\<close> says whether the update of
  a refund is applied (its failure is only logged).
\<close>

definition pipelineRun ::
  "(int \<Rightarrow> string) \<Rightarrow> limits \<Rightarrow> string list \<Rightarrow> string \<Rightarrow> string \<Rightarrow> int \<Rightarrow> gerr + bool \<Rightarrow> gerr + int \<times> int \<times> int
   \<Rightarrow> tx_end option \<Rightarrow> gerr + string \<Rightarrow> bool \<Rightarrow> int \<Rightarrow> fs_doc option \<Rightarrow> run_result \<times> fs_doc option" where
  "pipelineRun dk h demoUsers userID projectID now running pending qs invoke refund_ok refund_now doc =
     (if projectID = '''' then (RunBadRequest, doc)
      else if userID = '''' then (RunBadRequest, doc)
      else (case evaluateQuota dk h demoUsers userID projectID now running pending qs True doc of
              (Inl e, doc') \<Rightarrow> (RunUnavailable, doc')
            | (Inr (snap, reserved, prev), doc') \<Rightarrow>
                (if \<not> reserved \<and> \<not> s_allowed snap
                 then (RunBlocked (httpStatusForReason (s_reason snap)) (s_reason snap), doc')
                 else (case invoke of
                         Inl e \<Rightarrow>
                           (RunUnavailable, if reserved \<and> refund_ok then RefundQuota refund_now prev doc' else doc')
                       | Inr executionID \<Rightarrow> (RunAccepted executionID, doc')))))"

section \<open>What the decision means\<close>

lemmas Evaluate_simps = Evaluate_def Let_def block_def

text \<open>
  The decision is exactly the policy: a run is allowed when quotas are off, or when the user
  is no demo user, nothing is running, today's runs are below the limit, the cooldown of the last
  run is over and there is enough raw work or any annotation work. It is allowed exactly when no
  reason is given, and a cooldown time is shown only while it lies ahead.
\<close>

theorem Evaluate_exact:
  "(s_allowed (Evaluate dk inp) \<longleftrightarrow>
      (if q_enforced inp
       then \<not> q_demo inp \<and> \<not> q_running inp \<and> runs_today dk inp < DailyLimit (effective (q_limits inp)) \<and>
         (q_last_run inp = never \<or> q_last_run inp + Cooldown (effective (q_limits inp)) \<le> q_now inp) \<and>
         (if q_ann_dirty inp = 0 then MinNewRaw (effective (q_limits inp)) \<le> q_new inp + q_raw_dirty inp else True)
       else True)) \<and>
   (s_allowed (Evaluate dk inp) \<longleftrightarrow> s_reason (Evaluate dk inp) = ReasonNone) \<and>
   (case s_cooldown_until (Evaluate dk inp) of
      None \<Rightarrow> True
    | Some u \<Rightarrow> q_now inp < u \<and> s_reason (Evaluate dk inp) = ReasonCooldown)"
  by (simp add: Evaluate_simps)

lemma Evaluate_allowed:
  "s_allowed (Evaluate dk inp) \<Longrightarrow> q_enforced inp \<Longrightarrow>
     runs_today dk inp < DailyLimit (effective (q_limits inp)) \<and>
     (q_last_run inp = never \<or> q_last_run inp + Cooldown (effective (q_limits inp)) \<le> q_now inp)"
  by (auto simp: Evaluate_simps split: if_splits)

lemma Evaluate_runs [simp]: "s_runs (Evaluate dk inp) = runs_today dk inp"
  by (simp add: Evaluate_simps)

lemma effective_positive: "0 < DailyLimit (effective l)" "0 < Cooldown (effective l)"
  by (simp_all add: effective_def hour_def)

section \<open>Reservations over time\<close>

definition accepted :: "(int \<Rightarrow> string) \<Rightarrow> quotaRequest \<Rightarrow> fs_doc option \<Rightarrow> bool" where
  "accepted dk rq doc \<longleftrightarrow> s_allowed (Evaluate dk (quota_input rq (quotaStateFromData doc)))"

text \<open>The times at which a sequence of requests reserves a run.\<close>

fun reserved_times :: "(int \<Rightarrow> string) \<Rightarrow> quotaRequest list \<Rightarrow> fs_doc option \<Rightarrow> int list" where
  "reserved_times dk [] doc = []"
| "reserved_times dk (rq # rqs) doc =
     (case ReserveQuota dk Committed rq doc of
        (Inr (prev, snap, reserved), doc') \<Rightarrow>
          (if reserved then rq_now rq # reserved_times dk rqs doc' else reserved_times dk rqs doc')
      | (Inl e, doc') \<Rightarrow> reserved_times dk rqs doc')"

lemma reserve_state:
  "quotaStateFromData (snd (reserve_tx dk rq doc)) =
     (if accepted dk rq doc
      then \<lparr>pv_runs = runs_today dk (quota_input rq (quotaStateFromData doc)) + 1,
            pv_day_key = DayKeyUTC dk (rq_now rq), pv_last_run = rq_now rq\<rparr>
      else quotaStateFromData doc)"
  by (simp add: reserve_tx_def Let_def accepted_def quotaStateFromData_def)

lemma reserve_result: "fst (reserve_tx dk rq doc) = (prev, snap, reserved) \<Longrightarrow>
    reserved = accepted dk rq doc \<and> prev = quotaStateFromData doc"
  by (auto simp: reserve_tx_def Let_def accepted_def split: if_splits)

lemma reserved_times_Cons:
  "reserved_times dk (rq # rqs) doc =
     (if accepted dk rq doc then [rq_now rq] else []) @ reserved_times dk rqs (snd (reserve_tx dk rq doc))"
  by (simp add: ReserveQuota_def reserve_tx_def Let_def accepted_def)

declare reserved_times.simps(2) [simp del]

definition used :: "string \<Rightarrow> quotaPrev \<Rightarrow> nat" where
  "used key st = (if pv_day_key st = key then nat (pv_runs st) else 0)"

lemma reserved_times_in: "t \<in> set (reserved_times dk rqs doc) \<Longrightarrow> t \<in> rq_now ` set rqs"
  by (induction rqs arbitrary: doc) (auto simp: reserved_times_Cons split: if_splits)

text \<open>
  The bound with the runs already recorded for day \<open>d\<close>, provided no earlier day is still to come.
\<close>

lemma reserved_bound:
  assumes inj: "\<forall>a b. dk a = dk b \<longrightarrow> a = b" and "0 \<le> pv_runs (quotaStateFromData doc)"
    and "sorted (map rq_now rqs)" and "\<forall>rq \<in> set rqs. rq_limits rq = l"
    and "pv_day_key (quotaStateFromData doc) = dk d \<longrightarrow> (\<forall>rq \<in> set rqs. d \<le> day_of (rq_now rq))"
  shows "length (filter (\<lambda>t. day_of t = d) (reserved_times dk rqs doc))
      \<le> nat (DailyLimit (effective l)) - used (dk d) (quotaStateFromData doc)"
  using assms(2-)
proof (induction rqs arbitrary: doc)
  case Nil
  then show ?case by simp
next
  case (Cons rq rqs)
  let ?doc' = "snd (reserve_tx dk rq doc)" and ?lim = "nat (DailyLimit (effective l))"
  let ?runs = "runs_today dk (quota_input rq (quotaStateFromData doc))"
  have sorted: "sorted (map rq_now rqs)" "\<forall>q \<in> set rqs. rq_now rq \<le> rq_now q"
    using Cons.prems(2) by auto
  have later: "\<forall>q \<in> set rqs. day_of (rq_now rq) \<le> day_of (rq_now q)"
    using sorted(2) by (auto simp: day_of_def day_ns_def hour_def intro: zdiv_mono1)
  show ?case
  proof (cases "accepted dk rq doc")
    case False
    then show ?thesis
      using Cons.IH [of ?doc'] Cons.prems sorted(1) by (simp add: reserved_times_Cons reserve_state)
  next
    case True
    have runs: "?runs < DailyLimit (effective l)" "0 \<le> ?runs"
      using Evaluate_allowed [OF True [unfolded accepted_def]] Cons.prems(1,3)
      by (auto simp: quota_input_def runs_today_def)
    have key: "pv_day_key (quotaStateFromData ?doc') = dk (day_of (rq_now rq))"
      "pv_runs (quotaStateFromData ?doc') = ?runs + 1"
      using True by (simp_all add: reserve_state DayKeyUTC_def)
    have rec: "length (filter (\<lambda>t. day_of t = d) (reserved_times dk rqs ?doc'))
        \<le> ?lim - used (dk d) (quotaStateFromData ?doc')"
      by (rule Cons.IH) (use Cons.prems(3) sorted(1) key runs later inj in auto)
    show ?thesis
    proof (cases "day_of (rq_now rq) = d")
      case True
      have "used (dk d) (quotaStateFromData doc) \<le> nat ?runs"
        using True by (simp add: used_def runs_today_def quota_input_def DayKeyUTC_def)
      with True key rec runs \<open>accepted dk rq doc\<close> show ?thesis
        by (simp add: reserved_times_Cons used_def)
    next
      case other: False
      show ?thesis
      proof (cases "pv_day_key (quotaStateFromData doc) = dk d")
        case True
        then have "\<forall>q \<in> set rqs. day_of (rq_now q) \<noteq> d" using Cons.prems(4) other later by force
        then have "filter (\<lambda>t. day_of t = d) (reserved_times dk rqs ?doc') = []"
          by (auto simp: filter_empty_conv dest!: reserved_times_in)
        with other show ?thesis by (simp add: reserved_times_Cons)
      next
        case False
        with other rec key inj show ?thesis by (auto simp: reserved_times_Cons used_def)
      qed
    qed
  qed
qed

lemma reserved_cap:
  assumes inj: "\<forall>a b. dk a = dk b \<longrightarrow> a = b" and "0 \<le> pv_runs (quotaStateFromData doc)"
    and "sorted (map rq_now rqs)" and "\<forall>rq \<in> set rqs. rq_limits rq = l"
  shows "length (filter (\<lambda>t. day_of t = d) (reserved_times dk rqs doc)) \<le> nat (DailyLimit (effective l))"
  using assms(2-)
proof (induction rqs arbitrary: doc)
  case Nil
  then show ?case by simp
next
  case (Cons rq rqs)
  show ?case
  proof (cases "pv_day_key (quotaStateFromData doc) = dk d \<and> \<not> (\<forall>q \<in> set (rq # rqs). d \<le> day_of (rq_now q))")
    case False
    with reserved_bound [OF inj Cons.prems, of d] show ?thesis by auto
  next
    case early: True
    show ?thesis
    proof (cases "accepted dk rq doc")
      case False
      then show ?thesis
        using Cons.IH [of "snd (reserve_tx dk rq doc)"] Cons.prems
        by (simp add: reserved_times_Cons reserve_state)
    next
      case True
      have later: "\<forall>q \<in> set rqs. day_of (rq_now rq) \<le> day_of (rq_now q)"
        using Cons.prems(2) by (auto simp: day_of_def day_ns_def hour_def intro: zdiv_mono1)
      have d: "day_of (rq_now rq) \<noteq> d" using early later by auto
      have "0 \<le> pv_runs (quotaStateFromData (snd (reserve_tx dk rq doc)))"
        using True Cons.prems(1) by (simp add: reserve_state runs_today_def quota_input_def)
      with Cons.IH [of "snd (reserve_tx dk rq doc)"] Cons.prems d show ?thesis
        by (simp add: reserved_times_Cons)
    qed
  qed
qed

text \<open>
  C10. The daily limit holds over time: of any sequence of requests with one limit, in the order of
  the clock and from any stored state, at most the daily limit are reserved on any given UTC day,
  across day changes and whatever else blocks or allows them. \<open>dk\<close> prints different days differently.
\<close>

theorem reserve_daily_cap:
  assumes "\<forall>a b. dk a = dk b \<longrightarrow> a = b" and "0 \<le> pv_runs (quotaStateFromData doc)"
    and "sorted (map rq_now rqs)" and "\<forall>rq \<in> set rqs. rq_limits rq = l"
  shows "int (length (filter (\<lambda>t. day_of t = d) (reserved_times dk rqs doc))) \<le> DailyLimit (effective l)"
  using reserved_cap [OF assms, of d] effective_positive [of l] by linarith

lemma reserved_after_last:
  "\<forall>rq \<in> set rqs. rq_limits rq = l \<and> rq_now rq \<noteq> never \<Longrightarrow> t \<in> set (reserved_times dk rqs doc) \<Longrightarrow>
     pv_last_run (quotaStateFromData doc) = never \<or>
     pv_last_run (quotaStateFromData doc) + Cooldown (effective l) \<le> t"
proof (induction rqs arbitrary: doc)
  case Nil
  then show ?case by simp
next
  case (Cons rq rqs)
  let ?doc' = "snd (reserve_tx dk rq doc)" and ?last = "pv_last_run (quotaStateFromData doc)"
  show ?case
  proof (cases "accepted dk rq doc")
    case False
    then show ?thesis
      using Cons.IH [of ?doc'] Cons.prems by (simp add: reserved_times_Cons reserve_state)
  next
    case True
    have first: "?last = never \<or> ?last + Cooldown (effective l) \<le> rq_now rq"
      using Evaluate_allowed [OF True [unfolded accepted_def]] Cons.prems(1) by (simp add: quota_input_def)
    show ?thesis
    proof (cases "t = rq_now rq")
      case False
      then have "t \<in> set (reserved_times dk rqs ?doc')" using Cons.prems(2) True by (simp add: reserved_times_Cons)
      from Cons.IH [OF _ this] have "rq_now rq + Cooldown (effective l) \<le> t"
        using Cons.prems(1) True by (simp add: reserve_state)
      with first effective_positive(2) [of l] show ?thesis by linarith
    qed (use first in simp)
  qed
qed

text \<open>
  C26. Reservations keep the cooldown: the times at which a sequence of requests reserves a run
  are each at least the cooldown after every earlier one, in whatever order the requests come.
\<close>

theorem reserve_cooldown_spacing:
  assumes "\<forall>rq \<in> set rqs. rq_limits rq = l \<and> rq_now rq \<noteq> never"
  shows "sorted_wrt (\<lambda>a b. a + Cooldown (effective l) \<le> b) (reserved_times dk rqs doc)"
  using assms
proof (induction rqs arbitrary: doc)
  case Nil
  then show ?case by simp
next
  case (Cons rq rqs)
  let ?doc' = "snd (reserve_tx dk rq doc)"
  have "rq_now rq + Cooldown (effective l) \<le> t"
    if "accepted dk rq doc" "t \<in> set (reserved_times dk rqs ?doc')" for t
    using reserved_after_last [OF _ that(2), of l] Cons.prems that(1) by (simp add: reserve_state)
  with Cons show ?case by (simp add: reserved_times_Cons)
qed

section \<open>Refunds\<close>

lemma refund_state:
  "doc \<noteq> None \<Longrightarrow> quotaStateFromData (RefundQuota now prev doc) = prev"
  by (cases prev) (auto simp: RefundQuota_def quotaStateFromData_def delete_conv' Let_def)

text \<open>
  C27. A run that could not be started costs nothing: when starting the job fails after a
  reservation and the refund is applied, the quota state is what it was before the request; and
  the answer to a request is a block with the reason's HTTP status exactly when nothing was
  reserved and the evaluation refused.
\<close>

theorem failed_start_is_free:
  "quotaStateFromData (snd (pipelineRun dk h demo u p now running pending (Some Committed) (Inl e) True t doc)) =
     quotaStateFromData doc \<and>
   (case pipelineRun dk h demo u p now running pending (Some Committed) started refund_ok t doc of
      (RunBlocked status r, doc') \<Rightarrow> status = httpStatusForReason r \<and> r \<noteq> ReasonNone \<and> doc' = doc
    | (RunAccepted i, doc') \<Rightarrow> started = Inr i
    | (RunUnavailable, doc') \<Rightarrow> True
    | (RunBadRequest, doc') \<Rightarrow> doc' = doc)"
proof -
  have reason: "\<not> s_allowed (Evaluate dk inp) \<Longrightarrow> s_reason (Evaluate dk inp) \<noteq> ReasonNone" for inp
    by (auto simp: Evaluate_simps split: if_splits)
  show ?thesis
  proof (cases "\<exists>r x. running = Inr r \<and> pending = Inr x")
    case False
    then show ?thesis
      by (auto simp: evaluateQuota_def Let_def pipelineRun_def split: sum.splits)
  next
    case True
    then obtain r a b c where ok: "running = Inr r" "pending = Inr (a, b, c)" by (cases pending) auto
    define rq where "rq = \<lparr>rq_user = u, rq_project = p, rq_limits = pipelineLimits h, rq_now = now,
      rq_demo = isDemoUser demo u, rq_running = r, rq_new = a, rq_raw_dirty = b, rq_ann_dirty = c\<rparr>"
    obtain snap reserved where tx: "fst (reserve_tx dk rq doc) = (quotaStateFromData doc, snap, reserved)"
      using reserve_result by (metis prod_cases3)
    have eq: "evaluateQuota dk h demo u p now running pending (Some Committed) True doc =
        (Inr (snap, reserved, quotaStateFromData doc), snd (reserve_tx dk rq doc))"
      using ok tx by (cases "reserve_tx dk rq doc") (simp add: evaluateQuota_def ReserveQuota_def rq_def Let_def)
    have blocked: "\<not> reserved \<Longrightarrow> snap = Evaluate dk (quota_input rq (quotaStateFromData doc)) \<and>
        snd (reserve_tx dk rq doc) = doc"
      and kept: "reserved \<Longrightarrow> snd (reserve_tx dk rq doc) \<noteq> None"
      using tx by (auto simp: reserve_tx_def Let_def split: if_splits)
    show ?thesis
      unfolding pipelineRun_def eq using blocked kept reason refund_state
      by (auto split: sum.splits)
  qed
qed

section \<open>Running pipelines are found\<close>

definition owned :: "string \<Rightarrow> string \<Rightarrow> execution list \<Rightarrow> execution list" where
  "owned u p xs = filter (\<lambda>x. cloudRunExecutionOwnedBy x u p) xs"

lemma scan_page_result:
  "scan_page u p xs (hasOwned, allTerminal) =
     (if list_ex (\<lambda>x. cloudRunExecutionStatus x = ''RUNNING'') (owned u p xs) then Inl ()
      else Inr (hasOwned \<or> owned u p xs \<noteq> [],
                (if owned u p xs = [] then allTerminal else
                  (hasOwned \<longrightarrow> allTerminal) \<and> list_all (\<lambda>x. IsTerminalExecutionStatus (cloudRunExecutionStatus x)) (owned u p xs))))"
  by (induction u p xs "(hasOwned, allTerminal)" arbitrary: hasOwned allTerminal rule: scan_page.induct)
    (auto simp: owned_def Let_def)

text \<open>The pages a listing serves from a token on, following the next-page tokens.\<close>

fun serves :: "(string \<Rightarrow> gerr + execution list \<times> string) \<Rightarrow> string \<Rightarrow> (execution list \<times> string) list \<Rightarrow> bool" where
  "serves lst token [] = False"
| "serves lst token [(xs, t)] = (lst token = Inr (xs, t) \<and> t = '''')"
| "serves lst token ((xs, t) # pg # pages) = (lst token = Inr (xs, t) \<and> t \<noteq> '''' \<and> serves lst t (pg # pages))"

lemma scan_pages_result:
  "serves lst token pages \<Longrightarrow> length pages \<le> n \<Longrightarrow>
     scan_pages n lst u p token (hasOwned, allTerminal) =
       Some (Inr (let xs = owned u p (concat (map fst pages)) in
         if list_ex (\<lambda>x. cloudRunExecutionStatus x = ''RUNNING'') xs then (True, False, True)
         else (hasOwned \<or> xs \<noteq> [],
               (if xs = [] then allTerminal else
                 (hasOwned \<longrightarrow> allTerminal) \<and> list_all (\<lambda>x. IsTerminalExecutionStatus (cloudRunExecutionStatus x)) xs),
               False)))"
proof (induction lst token pages arbitrary: n hasOwned allTerminal rule: serves.induct)
  case (1 lst token)
  then show ?case by simp
next
  case (2 lst token xs t)
  then show ?case by (cases n) (auto simp: scan_page_result Let_def)
next
  case (3 lst token xs t pg pages)
  obtain k where n: "n = Suc k" using "3.prems"(2) by (cases n) auto
  have o: "owned u p (concat (map fst ((xs, t) # pg # pages))) = owned u p xs @ owned u p (concat (map fst (pg # pages)))"
    by (simp add: owned_def)
  have rec: "serves lst t (pg # pages)" "length (pg # pages) \<le> k" and l: "lst token = Inr (xs, t)" "t \<noteq> ''''"
    using "3.prems" n by auto
  show ?case
    unfolding o n using l "3.IH" [OF rec]
    by (auto simp: scan_page_result Let_def)
qed

text \<open>
  No running pipeline is missed: when the listing serves a finite chain of pages, the scan
  ends with a bound of their number and decides exactly: the project counts as running if an
  execution of the project on any page is running, not if there are executions of the project and
  all are terminal, and otherwise as the lock says.
\<close>

theorem running_pipeline_found:
  assumes "serves lst '''' pages" and "length pages \<le> n"
  shows "\<exists>act. pipelineOwnedExecutionActivityForOwner n None lst u p = Some (Inr act) \<and>
    isPipelineRunning (Inr locked) (Inr act) =
      Inr (let xs = owned u p (concat (map fst pages))
           in if list_ex (\<lambda>x. cloudRunExecutionStatus x = ''RUNNING'') xs then True
              else if xs \<noteq> [] \<and> list_all (\<lambda>x. IsTerminalExecutionStatus (cloudRunExecutionStatus x)) xs then False
              else locked)"
  using scan_pages_result [OF assms, of u p False False]
  by (auto simp: pipelineOwnedExecutionActivityForOwner_def isPipelineRunning_def
      pipelineRunningForOwnedActivity_def Let_def)

section \<open>Concrete instances\<close>

definition sample_dk :: "int \<Rightarrow> string" where
  "sample_dk d = (if 0 \<le> d then ''+'' else ''-'') @ replicate (nat (abs d)) (CHR ''x'')"

lemma sample_dk_inj: "\<forall>a b. sample_dk a = sample_dk b \<longrightarrow> a = b"
  by (auto simp: sample_dk_def replicate_eq_replicate nat_eq_iff split: if_splits)

definition sample_limits :: limits where
  "sample_limits = \<lparr>DailyLimit = 2, Cooldown = hour, MinNewRaw = 1\<rparr>"

definition sample_request :: "int \<Rightarrow> quotaRequest" where
  "sample_request t = \<lparr>rq_user = ''u'', rq_project = ''p'', rq_limits = sample_limits, rq_now = t, rq_demo = False,
     rq_running = False, rq_new = 1, rq_raw_dirty = 0, rq_ann_dirty = 0\<rparr>"

definition sample_requests :: "quotaRequest list" where
  "sample_requests = map sample_request [0, 1, hour, 2 * hour, 24 * hour]"

lemma sample_reserved: "reserved_times sample_dk sample_requests None = [0, hour, 24 * hour]"
  by code_simp

lemma reserve_daily_cap_witness:
  "int (length (filter (\<lambda>t. day_of t = 0) (reserved_times sample_dk sample_requests None))) \<le> 2 \<and>
   filter (\<lambda>t. day_of t = 0) (reserved_times sample_dk sample_requests None) = [0, hour]"
proof -
  have "0 \<le> pv_runs (quotaStateFromData None)" "sorted (map rq_now sample_requests)" by code_simp+
  moreover have "\<forall>rq \<in> set sample_requests. rq_limits rq = sample_limits"
    by (simp add: sample_requests_def sample_request_def)
  ultimately have "int (length (filter (\<lambda>t. day_of t = 0) (reserved_times sample_dk sample_requests None)))
      \<le> DailyLimit (effective sample_limits)"
    by (rule reserve_daily_cap [OF sample_dk_inj])
  then show ?thesis unfolding sample_reserved by (simp add: effective_def sample_limits_def day_of_def day_ns_def hour_def)
qed

lemma reserve_cooldown_spacing_witness:
  "sorted_wrt (\<lambda>a b. a + hour \<le> b) (reserved_times sample_dk sample_requests None)"
proof -
  have "\<forall>rq \<in> set sample_requests. rq_limits rq = sample_limits \<and> rq_now rq \<noteq> never"
    by (simp add: sample_requests_def sample_request_def never_def hour_def)
  from reserve_cooldown_spacing [OF this, of sample_dk None] show ?thesis
    by (simp add: effective_def sample_limits_def hour_def)
qed

definition sample_execution :: "string \<Rightarrow> execution" where
  "sample_execution st = \<lparr>x_completion_status = st, x_conditions = [], x_running = 0, x_succeeded = 0, x_failed = 0,
     x_cancelled = 0, x_containers = [[(''USER_ID'', ''u''), (''PROJECT_ID'', ''p''), (''TASK_TYPE'', ''pipeline'')]]\<rparr>"

definition sample_pages :: "(execution list \<times> string) list" where
  "sample_pages = [([sample_execution ''EXECUTION_SUCCEEDED''], ''2''), ([sample_execution '' pending''], '''')]"

definition sample_listing :: "string \<Rightarrow> gerr + execution list \<times> string" where
  "sample_listing token = (if token = '''' then Inr (sample_pages ! 0) else Inr (sample_pages ! 1))"

lemma running_pipeline_found_witness:
  "\<exists>act. pipelineOwnedExecutionActivityForOwner 2 None sample_listing ''u'' ''p'' = Some (Inr act) \<and>
     isPipelineRunning (Inr False) (Inr act) = Inr True"
proof -
  have "serves sample_listing '''' sample_pages" "length sample_pages \<le> 2"
    by (simp_all add: sample_pages_def sample_listing_def)
  moreover have "list_ex (\<lambda>x. cloudRunExecutionStatus x = ''RUNNING'') (owned ''u'' ''p'' (concat (map fst sample_pages)))"
    by code_simp
  ultimately show ?thesis using running_pipeline_found [of sample_listing sample_pages 2 "''u''" "''p''" False]
    by (simp add: Let_def)
qed

end
