(* ===== verification/Spec2Isabelle.thy ===== *)
theory Spec2Isabelle
  imports GenerationView Citations RunFrame ConceptLifecycle SourcePages LeaseRace Lifecycle Quota PipelineLog SyntoIndex EntityMap Publish
begin

text \<open>
  A verification development for llm-wiki-bff: the backend of a wiki that a language model keeps.
  A user uploads raw files and annotates them; a cloud worker (\<open>cmd/olw_worker\<close>) turns them into
  wiki pages with the help of the child process \<open>synto\<close> and publishes the pages as an immutable
  \<^emph>\<open>generation\<close>; the BFF (\<open>internal/handler\<close>, \<open>cmd/bff\<close>) serves the committed generation, shows
  the state of each source and starts new runs within a quota. What must not go wrong is the state
  that outlives a run, in the object store and in Firestore: the manifest that says which
  generation is current, the lease that keeps two workers apart, the receipts, the identities of
  sources and concepts, the quota.

  \<^bold>\<open>How the parts interact.\<close> A run takes the lease of its project (\<open>Lease\<close>), materializes the raw
  files, the annotations and the committed generation into a private workspace (\<open>Materialize\<close>,
  \<open>Workspace\<close>), lets the child process work there, reconciles the identities it invented with the
  earlier ones (\<open>SourceReconcile\<close>, \<open>SourcePages\<close>, \<open>IndexTruth\<close>, \<open>EntityMap\<close>, \<open>ConceptIds\<close>,
  \<open>ConceptLifecycle\<close>, and the rebuilds of
  \<open>IdMap\<close> and \<open>SyntoIdentity\<close>), uploads the result and commits the manifest by a conditional write
  (\<open>Publish\<close>), records receipts (\<open>Receipts\<close>), and releases the lease; a failure goes to the
  pipeline log and to a typed diagnostic (\<open>PipelineLog\<close>, \<open>FailureDiagnostic\<close>). \<open>CloudRun\<close> is the
  composition, \<open>RunFrame\<close> what it guarantees. On the other side \<open>GcsClient\<close> reads the committed
  generation and writes around it, and \<open>GenerationView\<close> puts the two sides over one store;
  \<open>Lifecycle\<close> compares the receipts with the present sources and \<open>Quota\<close> decides whether a run may
  start; \<open>Citations\<close> is the part of a query that decides which pages a synthesized answer may cite.

  \<^bold>\<open>Theories and sources\<close> (paths below \<open>src/\<close>).
  \<^item> \<open>GoBase\<close>: byte strings, maps, sorting, path and string functions of the Go library, as far as
    the code uses them; the lemmas every other theory shares (collection \<open>go_simps\<close>).
  \<^item> \<open>Json\<close>: JSON values, the stream of a decoder, \<open>internal/generation/decode.go\<close>.
  \<^item> \<open>Manifest\<close>: \<open>internal/generation/manifest.go\<close>. The record \<open>manifest\<close> is \<open>Manifest\<close>; \<open>Decode\<close>,
    \<open>Validate\<close>, \<open>GenerationOwned\<close>, \<open>ObjectPath\<close> keep their names.
  \<^item> \<open>ObjectStore\<close>: the interface \<open>objectStore\<close> of \<open>cmd/olw_worker/cloud_publish.go\<close> as the record
    \<open>objectStore\<close> of operations over a world \<open>'w\<close>, its wrapper over the cloud SDK, and the in-memory
    store of the repository. The locale \<open>object_store\<close> states the laws the worker relies on
    (conditional writes and deletes at a generation); \<open>memoryObjects\<close> interprets it.
  \<^item> \<open>Lease\<close>, \<open>LeaseRace\<close>: \<open>cmd/olw_worker/lease_liveness.go\<close>. The first theory has the code of one
    worker; the second runs any number of workers against one store as an inductive step relation,
    one outside call per step, with failing and ambiguous calls. Its lemma \<open>acquire_is_run\<close> shows that
    \<open>acquireCloudLease\<close> of the first theory, over the in-memory store, is a run of these steps.
  \<^item> \<open>Receipts\<close>, \<open>Lifecycle\<close>: \<open>internal/sourcestatus\<close>, \<open>internal/annotation\<close>,
    \<open>internal/sourcelifecycle\<close>, \<open>internal/rawstatus\<close> and the merge of receipts in the worker.
  \<^item> \<open>Frontmatter\<close>, \<open>IdMap\<close>, \<open>SyntoIdentity\<close>, \<open>SyntoIndex\<close>: \<open>internal/jsonutil\<close> and
    \<open>internal/wikiindex\<close>: pages, the ID map with its codec and its rebuild, identity plans from the
    INDEX artifact of Synto. Two encoders differ on empty redirect lists: \<open>idMap_to_json\<close> for maps the
    worker allocates (\<open>[]\<close>), \<open>encodeIDMap\<close> for maps a rebuild clones (\<open>null\<close>).
  \<^item> \<open>Workspace\<close>, \<open>Materialize\<close>, \<open>Publish\<close>, \<open>CloudRun\<close>, \<open>RunFrame\<close>: \<open>cloud_publish.go\<close> and the
    snapshots of \<open>main.go\<close>. A workspace is a map from clean relative paths to contents.
  \<^item> \<open>IndexTruth\<close>, \<open>EntityMap\<close>: \<open>cmd/olw_worker/synto_adapter.go\<close>.
  \<^item> \<open>SourceReconcile\<close>, \<open>SourcePages\<close>: \<open>cmd/olw_worker/source_reconcile.go\<close>.
  \<^item> \<open>ConceptIds\<close>, \<open>ConceptLifecycle\<close>: \<open>cmd/olw_worker/concept_reconcile.go\<close>: the snapshots of the
    concepts before and after the child process, the reconciliation of their IDs, entities and
    redirects, and the plan for concepts that became dormant; with \<open>mergeSyntoEntityIDs\<close> of
    \<open>synto_adapter.go\<close>.
  \<^item> \<open>Citations\<close>: \<open>internal/search/citation_authority.go\<close>, the references of one synthesis and the
    resolution of the model's answer. Its specification \<open>named_in\<close> reads the brackets of the answer
    against the list of issued contexts, without the tables.
  \<^item> \<open>PipelineLog\<close>, \<open>FailureDiagnostic\<close>: the log and diagnostic code of \<open>cloud_publish.go\<close> and
    \<open>failure_diagnostic.go\<close>, \<open>internal/pipelinediagnostic\<close>, and the BFF's reader in
    \<open>internal/handler\<close>.
  \<^item> \<open>GcsClient\<close>: \<open>internal/gcs/backend.go\<close>, \<open>internal/gcs/client.go\<close> and \<open>ProjectPrefix\<close> of
    \<open>internal/storage/paths.go\<close>. The record \<open>client\<close> is \<open>Client\<close>, \<open>generationView\<close> the manifest an
    operation reads through. The locale \<open>client_backend\<close> states what the interface \<open>clientBackend\<close>
    promises; \<open>memoryBackend\<close> of the tests interprets it, over the objects of \<open>memoryObjects\<close>.
  \<^item> \<open>GenerationView\<close>: the reader's properties, and that what \<open>Publish\<close> commits is what the reader
    delivers.
  \<^item> \<open>Quota\<close>: \<open>internal/pipelinequota\<close>, the transactions of \<open>internal/firestore/quota.go\<close>, and the
    start of a pipeline in \<open>internal/handler/v1\<close>.

  \<^bold>\<open>Conventions.\<close> Structs are records with the fields of the source behind a prefix, errors are the
  \<open>Inl\<close> side of a sum or the \<open>Some\<close> side of an option, and \<open>gerr\<close> keeps the chain that \<open>errors.Is\<close>
  inspects; an error text that no code inspects is abbreviated. A call to the outside takes the
  world and returns the new one. A \<open>range\<close> over a Go map follows the order of the association list,
  so a theorem about every list is a theorem about every order. Byte positions and sizes are
  naturals where the code has checked that they fit, \<open>int64\<close> sizes of manifests are words.

  \<^bold>\<open>Interfaces as locales.\<close> \<open>object_store\<close> and its extensions carry the proofs of the clients: the
  lease (\<open>leases\<close>), the receipts and logs (\<open>merges\<close>), the publication, and a whole run
  (\<open>run_world\<close>); \<open>client_backend\<close> carries those of the BFF. Each is interpreted on the in-memory store that the repository uses as its model of
  the cloud, and the properties are stated over that interpretation, without locale assumptions.

  \<^bold>\<open>What the lemmas show.\<close> Codecs: exact acceptance and round trips (\<open>Decode_strict\<close>,
  \<open>Validate_exact\<close>, \<open>artifact_roundtrip\<close>, \<open>idMap_roundtrip\<close>, \<open>worker_diagnostic_roundtrip\<close>).
  Publication: atomic at the manifest, confined to its generation, complete, and successful when
  nobody interferes. Reading: a published generation is served completely and alone, a pinned client
  is isolated from later commits, a write of the BFF is fenced by lease and manifest, a deletion stays
  in its project. Lease: mutual exclusion in every reachable state, fail closed otherwise. Whole
  run: the reported outcome agrees with the store, and nothing but the named objects changes.
  Receipts: merged into the stored ones, never lost by a failure, valid, counted correctly. Failure
  log: recorded once. Snapshots: the digests of what is in the workspace. Identities: sources keep their IDs,
  concepts map one to one to entities, keep the ID of their prior concept, and are active or dormant
  and never both; redirects are kept and one-step, rebuilds have no ID both
  active and dormant. Quota: the daily cap and the cooldown over any sequence of requests, and a
  refund after a failed start. Citations: exactly the pages the answer names with authority, in a
  text without references.

  \<^bold>\<open>Bounds and fuel.\<close> Loops over data are structural. Bounded retries take the number of attempts
  from the code (three compare-and-swap attempts, the delays of the lease clean-up), so the model
  runs out exactly where the code gives up. \<open>normalizeTranslatedID\<close> takes one step more than the table
  has entries, as the code does; \<open>normalizeTranslatedID_complete\<close> shows that this is enough. The
  depth 64 of strict JSON, the entry limit \<open>MaxFiles\<close> and the byte budgets of the materialization
  are the constants of the code.

  \<^bold>\<open>Parameters.\<close> SHA-256, MD5, \<open>time.Parse\<close>, the clock and random source, the YAML and front matter
  parsers, the JSON lexer, Unicode case mapping, the cloud SDK, SQLite and the child process are
  arguments or fields of environment records; what is assumed of them stands in the theorems and is
  discharged on concrete functions in the witnesses.

  \<^bold>\<open>Not modelled.\<close> The query side (\<open>internal/query\<close>, \<open>queryquality\<close>, \<open>queryruntime\<close>,
  \<open>queryconfig\<close>, \<open>search/search.go\<close>, \<open>suggestedqueries\<close>, \<open>cache\<close>), which assembles prompts and ranks pages
  over language-model and search services; accounts and middleware (\<open>auth\<close>, \<open>middleware\<close>,
  \<open>syssettings\<close>); the remaining HTTP handlers (\<open>handler\<close>); the rest of \<open>gcs\<close> (the rebuild of a
  generation in \<open>generation_rebuild.go\<close>, the listings from the JSONL cache and the ID map, object
  metadata lists, bucket statistics, the list of projects) and \<open>localfs\<close>; commands and configuration; the generated \<open>docs\<close>; the
  local worker mode, which runs the same operations on a directory, with child processes and
  signals; the rewriting of wiki links, pages and cache rows in the concept reconciliation and the
  order of its writes.
\<close>

end
